(* ===== verification/Prelude.thy ===== *)
theory Prelude
  imports Main
begin

text \<open>
  Shared vocabulary and automation of the development: the collections of simplification rules
  the component theories extend, early exit over a list (a loop that may raise), and the generic
  facts on lists, options and sums they use.
\<close>

named_theorems registry_simps \<open>equations that evaluate the static tables of the configuration\<close>
named_theorems coerce_simps \<open>characterisations of the coercion of one knob value\<close>
named_theorems step_intros \<open>introduction rules of the step relations\<close>

section \<open>Results\<close>

text \<open>An operation that may raise returns \<open>Inl\<close> of the error, otherwise \<open>Inr\<close> of its value.\<close>

definition result_ok :: "'e + 'a \<Rightarrow> bool" where
  "result_ok r = (case r of Inl _ \<Rightarrow> False | Inr _ \<Rightarrow> True)"

lemma result_ok_simps [simp]:
  "result_ok (Inr v)"
  "\<not> result_ok (Inl e)"
  by (simp_all add: result_ok_def)

lemma result_okE:
  assumes "result_ok r"
  obtains v where "r = Inr v"
  using assms by (cases r) auto

definition result_bind :: "'e + 'a \<Rightarrow> ('a \<Rightarrow> 'e + 'b) \<Rightarrow> 'e + 'b" where
  "result_bind r f = (case r of Inl e \<Rightarrow> Inl e | Inr v \<Rightarrow> f v)"

lemma result_bind_simps [simp]:
  "result_bind (Inl e) f = Inl e"
  "result_bind (Inr v) f = f v"
  by (simp_all add: result_bind_def)

lemma result_bind_Inr_iff:
  "result_bind r f = Inr w \<longleftrightarrow> (\<exists>v. r = Inr v \<and> f v = Inr w)"
  by (cases r) auto

text \<open>A loop over a list whose body may raise: the first error stops it.\<close>

fun fold_result :: "('a \<Rightarrow> 's \<Rightarrow> 'e + 's) \<Rightarrow> 'a list \<Rightarrow> 's \<Rightarrow> 'e + 's" where
  "fold_result f [] s = Inr s"
| "fold_result f (x # xs) s = result_bind (f x s) (fold_result f xs)"

lemma fold_result_append:
  "fold_result f (xs @ ys) s = result_bind (fold_result f xs s) (fold_result f ys)"
  by (induction xs arbitrary: s) (auto simp: result_bind_def split: sum.splits)

text \<open>An invariant of the body is an invariant of the loop.\<close>

lemma fold_result_invariant:
  assumes "fold_result f xs s = Inr t"
    and "P s"
    and "\<And>x u v. x \<in> set xs \<Longrightarrow> P u \<Longrightarrow> f x u = Inr v \<Longrightarrow> P v"
  shows "P t"
  using assms
proof (induction xs arbitrary: s)
  case Nil
  then show ?case by simp
next
  case (Cons x xs)
  from Cons.prems(1) obtain v where v: "f x s = Inr v" "fold_result f xs v = Inr t"
    by (auto simp: result_bind_Inr_iff)
  from Cons.prems(2,3) v(1) have "P v" by (meson list.set_intros(1))
  moreover have "\<And>y u w. y \<in> set xs \<Longrightarrow> P u \<Longrightarrow> f y u = Inr w \<Longrightarrow> P w"
    using Cons.prems(3) by (meson list.set_intros(2))
  ultimately show ?case using Cons.IH [OF v(2)] by blast
qed

text \<open>A loop whose body fails on fixed elements succeeds when none of them occurs.\<close>

lemma fold_result_ok_iff:
  assumes "\<And>x u. result_ok (f x u) \<longleftrightarrow> P x"
  shows "result_ok (fold_result f xs s) \<longleftrightarrow> (\<forall>x\<in>set xs. P x)"
proof (induction xs arbitrary: s)
  case (Cons x xs)
  show ?case
  proof (cases "f x s")
    case (Inl e)
    then have "\<not> P x" using assms [of x s] by simp
    with Inl show ?thesis by simp
  next
    case (Inr v)
    then have "P x" using assms [of x s] by simp
    with Inr Cons show ?thesis by simp
  qed
qed simp

section \<open>Lists\<close>

lemma dropWhile_idem [simp]: "dropWhile P (dropWhile P xs) = dropWhile P xs"
  by (induction xs) auto

lemma dropWhile_eq_self_iff: "dropWhile P xs = xs \<longleftrightarrow> xs = [] \<or> \<not> P (hd xs)"
proof (cases xs)
  case (Cons y ys)
  show ?thesis
  proof
    assume eq: "dropWhile P xs = xs"
    show "xs = [] \<or> \<not> P (hd xs)"
    proof (rule ccontr)
      assume "\<not> (xs = [] \<or> \<not> P (hd xs))"
      then have "dropWhile P xs = dropWhile P ys" using Cons by simp
      moreover have "length (dropWhile P ys) \<le> length ys" by (rule length_dropWhile_le)
      ultimately show False using eq Cons by simp
    qed
  next
    assume "xs = [] \<or> \<not> P (hd xs)"
    then show "dropWhile P xs = xs" using Cons by simp
  qed
qed simp

lemma hd_dropWhile_not: "dropWhile P xs \<noteq> [] \<Longrightarrow> \<not> P (hd (dropWhile P xs))"
  by (induction xs) (auto split: if_splits)

lemma last_dropWhile: "dropWhile P xs \<noteq> [] \<Longrightarrow> last (dropWhile P xs) = last xs"
  by (induction xs) (auto split: if_splits)

lemma find_Some_in_set: "find P xs = Some x \<Longrightarrow> x \<in> set xs \<and> P x"
  by (induction xs) (auto split: if_splits)

lemma map_of_eq_Some_in_set: "map_of ps k = Some v \<Longrightarrow> (k, v) \<in> set ps"
  by (rule map_of_SomeD)

text \<open>Floor division by a positive number, as a Galois connection.\<close>

lemma le_zdiv_iff:
  fixes a b c :: int
  assumes "0 < c"
  shows "a \<le> b div c \<longleftrightarrow> a * c \<le> b"
proof
  assume "a \<le> b div c"
  then have "a * c \<le> b div c * c" using assms by simp
  also have "\<dots> = b - b mod c" by (simp add: minus_mod_eq_div_mult)
  also have "\<dots> \<le> b" using assms by simp
  finally show "a * c \<le> b" .
next
  assume "a * c \<le> b"
  then have "a * c div c \<le> b div c" using assms by (rule zdiv_mono1)
  then show "a \<le> b div c" using assms by simp
qed

end
