(* ===== verification/PyText.thy ===== *)
theory PyText
  imports Prelude
begin

text \<open>
  Python text, as the program uses it: \<open>str.strip\<close>, \<open>str.lower\<close>, \<open>str.split\<close>, \<open>str(int)\<close> and
  \<open>int(str)\<close>. A string is a list of code points below 256 (Latin-1), on which the definitions
  agree with Python's: white space is \<open>str.isspace\<close>, the decimal digits are \<open>0\<close> to \<open>9\<close>, and
  \<open>int\<close> accepts surrounding white space, one sign and single underscores between digits.
\<close>

section \<open>Characters\<close>

definition is_space :: "char \<Rightarrow> bool" where
  "is_space c = List.member
     [CHR 0x09, CHR 0x0A, CHR 0x0B, CHR 0x0C, CHR 0x0D, CHR 0x1C, CHR 0x1D, CHR 0x1E, CHR 0x1F,
      CHR 0x20, CHR 0x85, CHR 0xA0] c"

definition is_digit :: "char \<Rightarrow> bool" where
  "is_digit c = (48 \<le> (of_char c :: int) \<and> (of_char c :: int) \<le> 57)"

definition digit_val :: "char \<Rightarrow> int" where
  "digit_val c = of_char c - 48"

definition digit_char :: "int \<Rightarrow> char" where
  "digit_char n = char_of (48 + n)"

definition lower_char :: "char \<Rightarrow> char" where
  "lower_char c =
     (let n = (of_char c :: int) in
      if (65 \<le> n \<and> n \<le> 90) \<or> (192 \<le> n \<and> n \<le> 222 \<and> n \<noteq> 215) then char_of (n + 32) else c)"

lemma digit_val_char [simp]: "0 \<le> n \<Longrightarrow> n < 10 \<Longrightarrow> digit_val (digit_char n) = n"
  by (simp add: digit_val_def digit_char_def)

lemma is_digit_char [simp]: "0 \<le> n \<Longrightarrow> n < 10 \<Longrightarrow> is_digit (digit_char n)"
  by (simp add: is_digit_def digit_char_def)

lemma digit_not_space: "is_digit c \<Longrightarrow> \<not> is_space c"
  by (auto simp: is_digit_def is_space_def)

lemma digit_neq [simp]:
  "is_digit c \<Longrightarrow> c \<noteq> CHR ''_''"
  "is_digit c \<Longrightarrow> c \<noteq> CHR ''-''"
  "is_digit c \<Longrightarrow> c \<noteq> CHR ''+''"
  "is_digit c \<Longrightarrow> c \<noteq> CHR '',''"
  "is_digit c \<Longrightarrow> c \<noteq> CHR ''.''"
  by (auto simp: is_digit_def)

section \<open>strip, lower, split\<close>

definition py_lstrip :: "string \<Rightarrow> string" where
  "py_lstrip s = dropWhile is_space s"

definition py_rstrip :: "string \<Rightarrow> string" where
  "py_rstrip s = rev (dropWhile is_space (rev s))"

definition py_strip :: "string \<Rightarrow> string" where
  "py_strip s = py_rstrip (py_lstrip s)"

definition py_lower :: "string \<Rightarrow> string" where
  "py_lower s = map lower_char s"

fun split_on :: "char \<Rightarrow> string \<Rightarrow> string list" where
  "split_on d [] = [[]]"
| "split_on d (c # cs) =
     (if c = d then [] # split_on d cs
      else (case split_on d cs of [] \<Rightarrow> [[c]] | p # ps \<Rightarrow> (c # p) # ps))"

fun join_with :: "string \<Rightarrow> string list \<Rightarrow> string" where
  "join_with d [] = []"
| "join_with d [p] = p"
| "join_with d (p # q # ps) = p @ d @ join_with d (q # ps)"

definition starts_with :: "string \<Rightarrow> string \<Rightarrow> bool" where
  "starts_with p s = (take (length p) s = p)"

text \<open>\<open>str.splitlines\<close>, for the newline.\<close>

definition split_lines :: "string \<Rightarrow> string list" where
  "split_lines s = (let ls = split_on (CHR 0x0A) s in if last ls = [] then butlast ls else ls)"

text \<open>\<open>str.split()\<close>: the maximal runs without white space.\<close>

function py_words :: "string \<Rightarrow> string list" where
  "py_words s = (let t = py_lstrip s in
     if t = [] then [] else takeWhile (\<lambda>c. \<not> is_space c) t # py_words (dropWhile (\<lambda>c. \<not> is_space c) t))"
  by pat_completeness auto
termination
proof (relation "measure length")
  fix s t :: string
  assume t: "t = py_lstrip s" and ne: "t \<noteq> []"
  then have "\<not> is_space (hd t)" using hd_dropWhile_not [of is_space s] by (simp add: py_lstrip_def)
  then have "length (dropWhile (\<lambda>c. \<not> is_space c) t) < length t"
    using ne length_dropWhile_le [of "\<lambda>c. \<not> is_space c" "tl t"] by (cases t) auto
  also have "\<dots> \<le> length s" using t by (simp add: py_lstrip_def length_dropWhile_le)
  finally show "(dropWhile (\<lambda>c. \<not> is_space c) t, s) \<in> measure length" by simp
qed simp

declare py_words.simps [simp del]

lemma split_on_nonempty [simp]: "split_on d s \<noteq> []"
  by (induction s) (auto split: list.splits)

lemma join_split_on: "join_with [d] (split_on d s) = s"
proof (induction s)
  case (Cons c s)
  then show ?case
    by (cases "split_on d s"; cases "tl (split_on d s)") (auto split: list.splits)
qed simp

text \<open>A stripped string neither starts nor ends with white space, and stripping leaves it alone.\<close>

definition stripped :: "string \<Rightarrow> bool" where
  "stripped s = (s = [] \<or> (\<not> is_space (hd s) \<and> \<not> is_space (last s)))"

lemma stripped_strip: "stripped (py_strip s)"
proof -
  let ?l = "dropWhile is_space s"
  let ?r = "dropWhile is_space (rev ?l)"
  have eq: "py_strip s = rev ?r" by (simp add: py_strip_def py_rstrip_def py_lstrip_def)
  show ?thesis
  proof (cases "?r = []")
    case True
    then show ?thesis using eq by (simp add: stripped_def)
  next
    case False
    then have ne: "?l \<noteq> []" by (metis dropWhile.simps(1) rev.simps(1))
    have "last (rev ?r) = hd ?r" using False by (simp add: last_rev)
    moreover have "\<not> is_space (hd ?r)" using False by (rule hd_dropWhile_not)
    moreover have "hd (rev ?r) = last ?r" using False by (simp add: hd_rev)
    moreover have "last ?r = last (rev ?l)" using False by (rule last_dropWhile)
    moreover have "last (rev ?l) = hd ?l" using ne by (simp add: last_rev)
    moreover have "\<not> is_space (hd ?l)" using ne by (rule hd_dropWhile_not)
    ultimately show ?thesis using eq by (simp add: stripped_def)
  qed
qed

lemma strip_stripped [simp]:
  assumes "stripped s"
  shows "py_strip s = s"
proof -
  from assms have "dropWhile is_space s = s" and "dropWhile is_space (rev s) = rev s"
    by (auto simp: stripped_def dropWhile_eq_self_iff hd_rev)
  then show ?thesis by (simp add: py_strip_def py_rstrip_def py_lstrip_def)
qed

lemma strip_idem [simp]: "py_strip (py_strip s) = py_strip s"
  by (rule strip_stripped) (rule stripped_strip)

lemma set_strip_subset: "set (py_strip s) \<subseteq> set s"
  by (force simp: py_strip_def py_rstrip_def py_lstrip_def dest: set_dropWhileD)

lemma stripped_if_no_space: "list_all (\<lambda>c. \<not> is_space c) s \<Longrightarrow> stripped s"
  by (cases s rule: rev_cases) (auto simp: stripped_def list_all_iff hd_append)

section \<open>Integers as text\<close>

function show_pos :: "int \<Rightarrow> string" where
  "show_pos n = (if n < 10 then [digit_char n] else show_pos (n div 10) @ [digit_char (n mod 10)])"
  by pat_completeness auto
termination
  by (relation "measure nat") auto

declare show_pos.simps [simp del]

definition show_int :: "int \<Rightarrow> string" where
  "show_int i = (if i < 0 then CHR ''-'' # show_pos (- i) else show_pos i)"

definition digits_val :: "string \<Rightarrow> int" where
  "digits_val s = foldl (\<lambda>a c. 10 * a + digit_val c) 0 s"

text \<open>
  Underscores as \<open>int\<close> and \<open>float\<close> read them: each must stand between two digits, and is then
  dropped. \<open>None\<close> is the rejection.
\<close>

fun drop_underscores :: "bool \<Rightarrow> string \<Rightarrow> string option" where
  "drop_underscores p [] = Some []"
| "drop_underscores p (c # cs) =
     (if c = CHR ''_'' then
        (if p \<and> cs \<noteq> [] \<and> is_digit (hd cs) then drop_underscores False cs else None)
      else map_option (Cons c) (drop_underscores (is_digit c) cs))"

definition split_sign :: "string \<Rightarrow> bool \<times> string" where
  "split_sign s = (case s of [] \<Rightarrow> (False, [])
     | c # cs \<Rightarrow> if c = CHR ''-'' then (True, cs) else if c = CHR ''+'' then (False, cs) else (False, s))"

definition py_int :: "string \<Rightarrow> int option" where
  "py_int s =
     (let (neg, body) = split_sign (py_strip s) in
      case drop_underscores False body of None \<Rightarrow> None
      | Some ds \<Rightarrow>
          if ds \<noteq> [] \<and> list_all is_digit ds
          then Some (if neg then - digits_val ds else digits_val ds) else None)"

lemma show_pos_digits: "0 \<le> n \<Longrightarrow> list_all is_digit (show_pos n)"
proof (induction n rule: show_pos.induct)
  case (1 n)
  then show ?case by (subst show_pos.simps) auto
qed

lemma show_pos_nonempty [simp]: "show_pos n \<noteq> []"
  by (subst show_pos.simps) simp

lemma digits_val_show_pos [simp]: "0 \<le> n \<Longrightarrow> digits_val (show_pos n) = n"
proof (induction n rule: show_pos.induct)
  case (1 n)
  show ?case
  proof (cases "n < 10")
    case True
    with 1 show ?thesis by (subst show_pos.simps) (simp add: digits_val_def)
  next
    case False
    then have "digits_val (show_pos (n div 10)) = n div 10" using 1 by simp
    with False show ?thesis by (subst show_pos.simps) (simp add: digits_val_def)
  qed
qed

lemma drop_underscores_digits: "list_all is_digit s \<Longrightarrow> drop_underscores p s = Some s"
  by (induction s arbitrary: p) auto

lemma split_sign_digits: "list_all is_digit s \<Longrightarrow> split_sign s = (False, s)"
  by (cases s) (auto simp: split_sign_def)

lemma stripped_digits: "list_all is_digit s \<Longrightarrow> stripped s"
  by (rule stripped_if_no_space) (auto simp: list_all_iff digit_not_space)

lemma stripped_show_int: "stripped (show_int i)"
proof (cases "i < 0")
  case True
  then have "list_all (\<lambda>c. \<not> is_space c) (show_pos (- i))"
    using show_pos_digits [of "- i"] by (auto simp: list_all_iff digit_not_space)
  moreover have "\<not> is_space CHR ''-''" by (simp add: is_space_def)
  ultimately show ?thesis using True by (intro stripped_if_no_space) (simp add: show_int_def)
next
  case False
  then show ?thesis by (simp add: show_int_def stripped_digits show_pos_digits)
qed

lemma show_int_nonempty [simp]: "show_int i \<noteq> []"
  by (simp add: show_int_def)

text \<open>Printing an integer and reading it back is the identity.\<close>

lemma py_int_show_int [simp]: "py_int (show_int i) = Some i"
proof (cases "i < 0")
  case True
  then have d: "list_all is_digit (show_pos (- i))" by (simp add: show_pos_digits)
  from True have "split_sign (show_int i) = (True, show_pos (- i))"
    by (simp add: show_int_def split_sign_def)
  then show ?thesis using True d
    by (simp add: py_int_def stripped_show_int drop_underscores_digits)
next
  case False
  then have d: "list_all is_digit (show_pos i)" by (simp add: show_pos_digits)
  with False have "split_sign (show_int i) = (False, show_pos i)"
    by (simp add: show_int_def split_sign_digits)
  then show ?thesis using False d
    by (simp add: py_int_def stripped_show_int drop_underscores_digits)
qed

lemma py_int_strip [simp]: "py_int (py_strip s) = py_int s"
  by (simp add: py_int_def)

end
