(* ===== verification/PyFloat.thy ===== *)
theory PyFloat
  imports PyText Complex_Main
begin

text \<open>
  Python floats as the program uses them: IEEE binary64 values, with rounding to nearest even
  written out over the rationals, \<open>float(str)\<close>, \<open>repr\<close> and the \<open>g\<close> format. The sign of zero is not
  kept (\<open>0.0\<close> and \<open>-0.0\<close> compare equal in Python).
\<close>

datatype pyfloat = Fin rat | PInf | NInf | NaN

definition flt_finite :: "pyfloat \<Rightarrow> bool" where
  "flt_finite f = (case f of Fin _ \<Rightarrow> True | _ \<Rightarrow> False)"

text \<open>The comparisons of IEEE: every comparison with NaN is false.\<close>

fun flt_lt :: "pyfloat \<Rightarrow> pyfloat \<Rightarrow> bool" where
  "flt_lt NaN _ = False"
| "flt_lt _ NaN = False"
| "flt_lt (Fin a) (Fin b) = (a < b)"
| "flt_lt NInf b = (b \<noteq> NInf)"
| "flt_lt a PInf = (a \<noteq> PInf)"
| "flt_lt _ _ = False"

definition flt_eq :: "pyfloat \<Rightarrow> pyfloat \<Rightarrow> bool" where
  "flt_eq a b = (a = b \<and> a \<noteq> NaN)"

definition flt_le :: "pyfloat \<Rightarrow> pyfloat \<Rightarrow> bool" where
  "flt_le a b = (flt_lt a b \<or> flt_eq a b)"

section \<open>Rounding to binary64\<close>

text \<open>The number of digits of a natural number in a base, and the least exponent above a positive
  rational: \<open>b ^ (expo b q - 1) \<le> q < b ^ expo b q\<close>.\<close>

function ilen :: "int \<Rightarrow> int \<Rightarrow> int" where
  "ilen b n = (if b < 2 \<or> n \<le> 0 then 0 else 1 + ilen b (n div b))"
  by pat_completeness auto
termination
  by (relation "measure (\<lambda>(b, n). nat n)") (auto simp: int_div_less_self)

declare ilen.simps [simp del]

text \<open>Integer powers as rationals, by repeated squaring.\<close>

function ipow :: "int \<Rightarrow> int \<Rightarrow> int" where
  "ipow b n = (if n \<le> 0 then 1 else let h = ipow b (n div 2) in if even n then h * h else b * (h * h))"
  by pat_completeness auto
termination
  by (relation "measure (\<lambda>(b, n). nat n)") auto

declare ipow.simps [simp del]

definition pow_int :: "int \<Rightarrow> int \<Rightarrow> rat" where
  "pow_int b e = (if 0 \<le> e then of_int (ipow b e) else 1 / of_int (ipow b (- e)))"

definition expo :: "int \<Rightarrow> rat \<Rightarrow> int" where
  "expo b q =
     (let (n, d) = quotient_of q; e = ilen b n - ilen b d in
      if q < pow_int b e then e else e + 1)"

definition round_half_even :: "rat \<Rightarrow> int" where
  "round_half_even x =
     (let f = \<lfloor>x\<rfloor>; d = x - of_int f in
      if d < 1 / 2 then f else if 1 / 2 < d then f + 1 else if even f then f else f + 1)"

definition b64 :: "rat \<Rightarrow> pyfloat" where
  "b64 q =
     (if q = 0 then Fin 0
      else let a = \<bar>q\<bar>; u = max (expo 2 a - 53) (- 1074);
               r = of_int (round_half_even (a / pow_int 2 u)) * pow_int 2 u
           in if pow_int 2 1024 \<le> r then (if q < 0 then NInf else PInf)
              else Fin (if q < 0 then - r else r))"

lemma b64_not_nan [simp]: "b64 q \<noteq> NaN"
  by (simp add: b64_def Let_def)

section \<open>float(str)\<close>

definition take_digits :: "string \<Rightarrow> string \<times> string" where
  "take_digits s = (takeWhile is_digit s, dropWhile is_digit s)"

text \<open>The decimal exponent part: nothing, or \<open>e\<close> with an optionally signed number up to the end.\<close>

definition parse_exponent :: "string \<Rightarrow> int option" where
  "parse_exponent s =
     (case s of [] \<Rightarrow> Some 0
      | c # cs \<Rightarrow>
          if lower_char c = CHR ''e'' then
            (let (neg, ds) = split_sign cs in
             if ds \<noteq> [] \<and> list_all is_digit ds
             then Some (if neg then - digits_val ds else digits_val ds) else None)
          else None)"

definition parse_decimal :: "string \<Rightarrow> rat option" where
  "parse_decimal s =
     (let (ip, r1) = take_digits s;
          (fp, r2) = (case r1 of [] \<Rightarrow> ([], []) | c # cs \<Rightarrow> if c = CHR ''.'' then take_digits cs else ([], r1))
      in if ip = [] \<and> fp = [] then None
         else case parse_exponent r2 of None \<Rightarrow> None
              | Some e \<Rightarrow> Some (of_int (digits_val (ip @ fp)) * pow_int 10 (e - int (length fp))))"

definition py_float :: "string \<Rightarrow> pyfloat option" where
  "py_float s =
     (let (neg, body) = split_sign (py_strip s) in
      if List.member [''inf'', ''infinity''] (py_lower body) then Some (if neg then NInf else PInf)
      else if py_lower body = ''nan'' then Some NaN
      else case drop_underscores False body of None \<Rightarrow> None
           | Some t \<Rightarrow> map_option (\<lambda>q. b64 (if neg then - q else q)) (parse_decimal t))"

section \<open>repr and the g format\<close>

text \<open>The \<open>n\<close> significant decimal digits nearest to a positive rational, with the decimal exponent.\<close>

definition sig_digits :: "int \<Rightarrow> rat \<Rightarrow> int \<times> int" where
  "sig_digits n q =
     (let e = expo 10 q; m = round_half_even (q / pow_int 10 (e - n)) in
      if m = ipow 10 n then (ipow 10 (n - 1), e + 1) else (m, e))"

fun shortest :: "nat \<Rightarrow> int \<Rightarrow> rat \<Rightarrow> int \<times> int" where
  "shortest 0 n q = sig_digits n q"
| "shortest (Suc k) n q =
     (let (m, e) = sig_digits n q in
      if b64 (of_int m * pow_int 10 (e - n)) = Fin q then (m, e) else shortest k (n + 1) q)"

definition strip_zeros :: "string \<Rightarrow> string" where
  "strip_zeros s = rev (dropWhile (\<lambda>c. c = CHR ''0'') (rev s))"

definition exponent_text :: "int \<Rightarrow> string" where
  "exponent_text x =
     (let d = show_pos \<bar>x\<bar> in
      ''e'' @ (if x < 0 then ''-'' else ''+'') @ (if length d < 2 then ''0'' @ d else d))"

definition scientific :: "string \<Rightarrow> int \<Rightarrow> string" where
  "scientific ds e =
     (case ds of [] \<Rightarrow> [] | c # cs \<Rightarrow> [c] @ (if cs = [] then [] else ''.'' @ cs) @ exponent_text (e - 1))"

definition positional :: "string \<Rightarrow> int \<Rightarrow> string" where
  "positional ds e =
     (if e \<le> 0 then ''0.'' @ replicate (nat (- e)) CHR ''0'' @ ds
      else if int (length ds) \<le> e then ds @ replicate (nat e - length ds) CHR ''0''
      else take (nat e) ds @ ''.'' @ drop (nat e) ds)"

definition float_repr :: "pyfloat \<Rightarrow> string" where
  "float_repr f = (case f of NaN \<Rightarrow> ''nan'' | PInf \<Rightarrow> ''inf'' | NInf \<Rightarrow> ''-inf''
     | Fin q \<Rightarrow>
         if q = 0 then ''0.0''
         else let (m, e) = shortest 16 1 \<bar>q\<bar>; ds = strip_zeros (show_pos m);
                  body = (if - 4 < e \<and> e \<le> 16
                          then positional ds e @ (if int (length ds) \<le> e then ''.0'' else [])
                          else scientific ds e)
              in (if q < 0 then ''-'' else []) @ body)"

definition float_g :: "pyfloat \<Rightarrow> string" where
  "float_g f = (case f of NaN \<Rightarrow> ''nan'' | PInf \<Rightarrow> ''inf'' | NInf \<Rightarrow> ''-inf''
     | Fin q \<Rightarrow>
         if q = 0 then ''0''
         else let (m, e) = sig_digits 6 \<bar>q\<bar>; ds = strip_zeros (show_pos m);
                  body = (if - 4 \<le> e - 1 \<and> e - 1 < 6 then positional ds e else scientific ds e)
              in (if q < 0 then ''-'' else []) @ body)"

end
