(* ===== verification/Registry.thy ===== *)
theory Registry
  imports PyFloat "HOL-Library.AList"
begin

text \<open>
  The static tables of \<^verbatim>\<open>scripts/glm_config.py\<close>: the knob registry \<open>KNOBS\<close> (key, type with its bounds or
  choices, default, scoping and flags), the model families, the checkpoint variants with their
  derived copies, and the speculative drafts. Labels, groups, restart scopes and rationale texts
  are display data of the landing page and are left out. A Python dict is an association list in
  insertion order, its \<open>update\<close> is \<open>dict_update\<close>.
\<close>

section \<open>Values and keys\<close>

text \<open>
  A JSON or environment value. \<open>VObj s\<close> stands for any compound value (a list or an object): the
  configuration code only ever sees it through \<open>str\<close>, whose text is \<open>s\<close>.
\<close>

datatype pyval = VNone | VBool bool | VInt int | VFlt pyfloat | VStr string | VObj string

definition py_str :: "pyval \<Rightarrow> string" where
  "py_str v = (case v of VNone \<Rightarrow> ''None'' | VBool b \<Rightarrow> (if b then ''True'' else ''False'')
     | VInt i \<Rightarrow> show_int i | VFlt f \<Rightarrow> float_repr f | VStr s \<Rightarrow> s | VObj s \<Rightarrow> s)"

definition truthy :: "pyval \<Rightarrow> bool" where
  "truthy v = (case v of VNone \<Rightarrow> False | VBool b \<Rightarrow> b | VInt i \<Rightarrow> i \<noteq> 0 | VFlt f \<Rightarrow> f \<noteq> Fin 0
     | VStr s \<Rightarrow> s \<noteq> [] | VObj s \<Rightarrow> List.member [''[]'', ''{}''] s = False)"

text \<open>A key is the name of a knob or any other string.\<close>

datatype (plugins only: code size) key =
    MODEL_FAMILY | TENSOR_PARALLEL_SIZE | MODEL_VARIANT | MODEL_ID | REASONING_EFFORT_DEFAULT
    | PREFILL_SCHEDULE_INTERVAL | PREFILL_FAIRNESS_ENGINE | PREFILL_COMPUTE_SHARE
    | TRUST_REMOTE_CODE | QUANTIZATION | REASONING_PARSER | TOOL_CALL_PARSER | MULTIMODAL
    | MM_MAX_PIXELS | MAX_MODEL_LEN | CLAMP_ROPE_TABLES | GPU_BLOCKS_OVERRIDE | KV_CACHE_DTYPE
    | KV_SCALE_MODE | ONLINE_QUANT | VLLM_EXL3_ONLINE_CACHE_DIR | VLLM_EXL3_ONLINE_CACHE_MODE
    | MTP_DRAFT | MTP_TOKENS | MTP_DRAFT_SAMPLE_METHOD | MTP_REJECTION_SAMPLE_METHOD | DRAFT_MODEL
    | DRAFT_QUANTIZATION | DCP | MAX_NUM_SEQS | MAX_NUM_BATCHED_TOKENS
    | VLLM_EXL3_PREFILL_CAPACITY | DCP_PREFILL_WORKSPACE_MIB | DCP_CKV_PREFETCH_DEPTH
    | DCP_CKV_GATHER_MAX_TOKENS | DCP_KV_CACHE_INTERLEAVE_SIZE
    | DCP_QUERY_SPLIT_MIN_CONTEXT_TOKENS | B12X_PCIE_DMA | F8_DMA | PCIE_CALIBRATION
    | PCIE_DMA_MIN_BYTES | MAX_CUDAGRAPH_CAPTURE_SIZE | CUDAGRAPH_CAPTURE_SIZES
    | VLLM_EXL3_TRELLIS_MAX_M | GPU_MEMORY_UTILIZATION | KV_CACHE_MEMORY_BYTES | LOAD_FORMAT
    | MODEL_OUTPUT_LIMIT | OFFLOAD_FRACTION | PREFIX_CACHE_BACKEND | LMCACHE_L1_MAX_GB
    | PREFIX_CACHE_DISK_GB | PREFIX_CACHE_DISK_FRACTION | VISION | VISION_CHUNKS
    | SERVED_MODEL_NAME | Other string

type_synonym dict = "(key \<times> pyval) list"

fun key_name :: "key \<Rightarrow> string" where
  "key_name MODEL_FAMILY = ''MODEL_FAMILY''"
| "key_name TENSOR_PARALLEL_SIZE = ''TENSOR_PARALLEL_SIZE''"
| "key_name MODEL_VARIANT = ''MODEL_VARIANT''"
| "key_name MODEL_ID = ''MODEL_ID''"
| "key_name REASONING_EFFORT_DEFAULT = ''REASONING_EFFORT_DEFAULT''"
| "key_name PREFILL_SCHEDULE_INTERVAL = ''PREFILL_SCHEDULE_INTERVAL''"
| "key_name PREFILL_FAIRNESS_ENGINE = ''PREFILL_FAIRNESS_ENGINE''"
| "key_name PREFILL_COMPUTE_SHARE = ''PREFILL_COMPUTE_SHARE''"
| "key_name TRUST_REMOTE_CODE = ''TRUST_REMOTE_CODE''"
| "key_name QUANTIZATION = ''QUANTIZATION''"
| "key_name REASONING_PARSER = ''REASONING_PARSER''"
| "key_name TOOL_CALL_PARSER = ''TOOL_CALL_PARSER''"
| "key_name MULTIMODAL = ''MULTIMODAL''"
| "key_name MM_MAX_PIXELS = ''MM_MAX_PIXELS''"
| "key_name MAX_MODEL_LEN = ''MAX_MODEL_LEN''"
| "key_name CLAMP_ROPE_TABLES = ''CLAMP_ROPE_TABLES''"
| "key_name GPU_BLOCKS_OVERRIDE = ''GPU_BLOCKS_OVERRIDE''"
| "key_name KV_CACHE_DTYPE = ''KV_CACHE_DTYPE''"
| "key_name KV_SCALE_MODE = ''KV_SCALE_MODE''"
| "key_name ONLINE_QUANT = ''ONLINE_QUANT''"
| "key_name VLLM_EXL3_ONLINE_CACHE_DIR = ''VLLM_EXL3_ONLINE_CACHE_DIR''"
| "key_name VLLM_EXL3_ONLINE_CACHE_MODE = ''VLLM_EXL3_ONLINE_CACHE_MODE''"
| "key_name MTP_DRAFT = ''MTP_DRAFT''"
| "key_name MTP_TOKENS = ''MTP_TOKENS''"
| "key_name MTP_DRAFT_SAMPLE_METHOD = ''MTP_DRAFT_SAMPLE_METHOD''"
| "key_name MTP_REJECTION_SAMPLE_METHOD = ''MTP_REJECTION_SAMPLE_METHOD''"
| "key_name DRAFT_MODEL = ''DRAFT_MODEL''"
| "key_name DRAFT_QUANTIZATION = ''DRAFT_QUANTIZATION''"
| "key_name DCP = ''DCP''"
| "key_name MAX_NUM_SEQS = ''MAX_NUM_SEQS''"
| "key_name MAX_NUM_BATCHED_TOKENS = ''MAX_NUM_BATCHED_TOKENS''"
| "key_name VLLM_EXL3_PREFILL_CAPACITY = ''VLLM_EXL3_PREFILL_CAPACITY''"
| "key_name DCP_PREFILL_WORKSPACE_MIB = ''DCP_PREFILL_WORKSPACE_MIB''"
| "key_name DCP_CKV_PREFETCH_DEPTH = ''DCP_CKV_PREFETCH_DEPTH''"
| "key_name DCP_CKV_GATHER_MAX_TOKENS = ''DCP_CKV_GATHER_MAX_TOKENS''"
| "key_name DCP_KV_CACHE_INTERLEAVE_SIZE = ''DCP_KV_CACHE_INTERLEAVE_SIZE''"
| "key_name DCP_QUERY_SPLIT_MIN_CONTEXT_TOKENS = ''DCP_QUERY_SPLIT_MIN_CONTEXT_TOKENS''"
| "key_name B12X_PCIE_DMA = ''B12X_PCIE_DMA''"
| "key_name F8_DMA = ''F8_DMA''"
| "key_name PCIE_CALIBRATION = ''PCIE_CALIBRATION''"
| "key_name PCIE_DMA_MIN_BYTES = ''PCIE_DMA_MIN_BYTES''"
| "key_name MAX_CUDAGRAPH_CAPTURE_SIZE = ''MAX_CUDAGRAPH_CAPTURE_SIZE''"
| "key_name CUDAGRAPH_CAPTURE_SIZES = ''CUDAGRAPH_CAPTURE_SIZES''"
| "key_name VLLM_EXL3_TRELLIS_MAX_M = ''VLLM_EXL3_TRELLIS_MAX_M''"
| "key_name GPU_MEMORY_UTILIZATION = ''GPU_MEMORY_UTILIZATION''"
| "key_name KV_CACHE_MEMORY_BYTES = ''KV_CACHE_MEMORY_BYTES''"
| "key_name LOAD_FORMAT = ''LOAD_FORMAT''"
| "key_name MODEL_OUTPUT_LIMIT = ''MODEL_OUTPUT_LIMIT''"
| "key_name OFFLOAD_FRACTION = ''OFFLOAD_FRACTION''"
| "key_name PREFIX_CACHE_BACKEND = ''PREFIX_CACHE_BACKEND''"
| "key_name LMCACHE_L1_MAX_GB = ''LMCACHE_L1_MAX_GB''"
| "key_name PREFIX_CACHE_DISK_GB = ''PREFIX_CACHE_DISK_GB''"
| "key_name PREFIX_CACHE_DISK_FRACTION = ''PREFIX_CACHE_DISK_FRACTION''"
| "key_name VISION = ''VISION''"
| "key_name VISION_CHUNKS = ''VISION_CHUNKS''"
| "key_name SERVED_MODEL_NAME = ''SERVED_MODEL_NAME''"
| "key_name (Other s) = s"

definition dict_update :: "('k \<times> 'v) list \<Rightarrow> ('k \<times> 'v) list \<Rightarrow> ('k \<times> 'v) list" where
  "dict_update d upd = foldl (\<lambda>acc (k, v). AList.update k v acc) d upd"

lemma map_of_dict_update [simp]:
  "distinct (map fst upd) \<Longrightarrow> map_of (dict_update d upd) = map_of d ++ map_of upd"
proof (induction upd arbitrary: d)
  case Nil
  then show ?case by (simp add: dict_update_def)
next
  case (Cons p upd)
  obtain k v where p: "p = (k, v)" by force
  have "map_of (dict_update d (p # upd)) = map_of (dict_update (AList.update k v d) upd)"
    by (simp add: dict_update_def p)
  also have "\<dots> = (map_of d)(k \<mapsto> v) ++ map_of upd"
    using Cons by (simp add: update_conv')
  also have "\<dots> = map_of d ++ map_of (p # upd)"
  proof -
    have "k \<notin> dom (map_of upd)" using Cons.prems p by (simp add: dom_map_of_conv_image_fst)
    then show ?thesis by (auto simp: p map_add_def fun_eq_iff split: option.splits)
  qed
  finally show ?case .
qed

section \<open>Record types\<close>

text \<open>The type of a knob with the attributes that belong to it: bounds, strictness, choices.\<close>

datatype ktype =
    TBool
  | TInt "int option" "int option"
  | TFloat "pyfloat option" "pyfloat option" bool bool
  | TChoice "string list"
  | TCsv
  | TStr

record knob =
  kkey :: key
  ktyp :: ktype
  kdefault :: pyval
  kfams :: "string list option"
  kaliases :: "string list"
  kreject :: bool
  kedit :: bool

definition mk_knob :: "key \<Rightarrow> ktype \<Rightarrow> pyval \<Rightarrow> knob" where
  "mk_knob k t d = \<lparr>kkey = k, ktyp = t, kdefault = d, kfams = None, kaliases = [],
     kreject = False, kedit = True\<rparr>"

text \<open>A serve-line template, already split at its \<^verbatim>\<open>%(KNOB)s\<close> placeholders.\<close>

datatype piece = Lit string | Sub key

record family =
  f_tested :: bool
  f_env_block :: string
  f_default_variant :: string
  f_kv_dtypes :: "string list"
  f_spec_method :: string
  f_defaults :: dict
  f_serve_args :: "piece list list"
  f_compilation :: "piece list option"

record variant =
  v_family :: string
  v_repo :: string
  v_revision :: string
  v_dirname :: string
  v_quantization :: string
  v_native_mtp :: string
  v_default_draft :: "string option"
  v_graft_ok :: bool
  v_quant_config :: "string option"
  v_defaults :: dict
  v_runtime_env :: "(string \<times> string) list"
  v_kv_calibrated :: bool
  v_download_gib :: int
  v_tested :: bool

record draft =
  d_mtp78_mode :: string
  d_quantization :: string

section \<open>Families\<close>

definition family_glm52_defaults :: dict where
  "family_glm52_defaults = [
     (MAX_MODEL_LEN, VInt 524288), (MODEL_OUTPUT_LIMIT, VInt 131072), (MTP_TOKENS, VInt 3),
     (MAX_NUM_SEQS, VInt 8), (MAX_NUM_BATCHED_TOKENS, VInt 3072),
     (DCP_PREFILL_WORKSPACE_MIB, VInt 1024), (DCP_CKV_PREFETCH_DEPTH, VStr ''auto''),
     (DCP_CKV_GATHER_MAX_TOKENS, VInt 140000), (DCP_KV_CACHE_INTERLEAVE_SIZE, VInt 64),
     (DCP_QUERY_SPLIT_MIN_CONTEXT_TOKENS, VInt (- 1)), (B12X_PCIE_DMA, VBool True),
     (F8_DMA, VStr ''0''), (PCIE_CALIBRATION, VStr ''auto''), (PCIE_DMA_MIN_BYTES, VInt (- 1)),
     (CLAMP_ROPE_TABLES, VBool True), (GPU_MEMORY_UTILIZATION, VFlt (b64 (24 / 25))),
     (GPU_BLOCKS_OVERRIDE, VInt 0), (OFFLOAD_FRACTION, VInt 0), (VISION, VBool False),
     (KV_CACHE_DTYPE, VStr ''nvfp4_ds_mla''), (KV_SCALE_MODE, VStr ''static-calibrated''),
     (ONLINE_QUANT, VStr ''none''), (LOAD_FORMAT, VStr ''safetensors''),
     (MTP_DRAFT_SAMPLE_METHOD, VStr ''greedy''), (SERVED_MODEL_NAME, VStr ''GLM-5.2'')]"

definition family_glm52 :: family where
  \<open>family_glm52 = \<lparr>f_tested = True, f_env_block = ''glm52'',
     f_default_variant = ''exl3-tr3'', f_kv_dtypes = [''fp8'', ''nvfp4_ds_mla''],
     f_spec_method = ''mtp'', f_defaults = family_glm52_defaults,
     f_serve_args = [
       [Lit ''--decode-context-parallel-size''], [Sub DCP], [Lit ''--dcp-comm-backend''],
       [Lit ''a2a''], [Lit ''--dcp-kv-cache-interleave-size''],
       [Sub DCP_KV_CACHE_INTERLEAVE_SIZE], [Lit ''--attention-backend''],
       [Lit ''B12X_MLA_SPARSE''], [Lit ''--moe-backend''], [Lit ''b12x''],
       [Lit ''--load-format''], [Sub LOAD_FORMAT], [Lit ''--prefill-schedule-interval''],
       [Sub PREFILL_SCHEDULE_INTERVAL], [Lit ''--enable-auto-tool-choice''],
       [Lit ''--tool-call-parser''], [Lit ''glm47''], [Lit ''--reasoning-parser''],
       [Lit ''glm45''], [Lit ''--default-chat-template-kwargs''],
       [Lit ''{"reasoning_effort":"'', Sub REASONING_EFFORT_DEFAULT, Lit ''"}''],
       [Lit ''--hf-overrides''],
       [Lit ''{"use_index_cache":true,"index_topk_pattern":"FFFSSSFSSSFSSSFSSSFSSSFSSSFSSSFSSSFSSSFSSSFSSSFSSSFSSSFSSSFSSSFSSSFSSSFSSSFSSS"}'']],
     f_compilation = Some [Lit ''{"cudagraph_mode":"FULL_AND_PIECEWISE","cudagraph_capture_sizes":['', Sub CUDAGRAPH_CAPTURE_SIZES, Lit ''],"custom_ops":["all"],"pass_config":{"fuse_allreduce_rms":true}}'']\<rparr>\<close>

definition family_qwen36_defaults :: dict where
  "family_qwen36_defaults = [
     (TENSOR_PARALLEL_SIZE, VInt 1), (MAX_MODEL_LEN, VInt 196608),
     (MODEL_OUTPUT_LIMIT, VInt 8192), (MTP_TOKENS, VInt 0), (MAX_NUM_SEQS, VInt 4),
     (MAX_NUM_BATCHED_TOKENS, VInt 4096), (GPU_MEMORY_UTILIZATION, VFlt (b64 (9 / 10))),
     (GPU_BLOCKS_OVERRIDE, VInt 0), (OFFLOAD_FRACTION, VInt 0), (KV_CACHE_DTYPE, VStr ''auto''),
     (LOAD_FORMAT, VStr ''safetensors''), (SERVED_MODEL_NAME, VStr ''Qwen3.6-27B''),
     (MULTIMODAL, VBool True), (MM_MAX_PIXELS, VInt 8388608)]"

definition family_qwen36 :: family where
  \<open>family_qwen36 = \<lparr>f_tested = True, f_env_block = ''generic'',
     f_default_variant = ''qwen36-nvfp4'', f_kv_dtypes = [''auto'', ''fp8''],
     f_spec_method = ''mtp'', f_defaults = family_qwen36_defaults,
     f_serve_args = [
       [Lit ''--load-format''], [Sub LOAD_FORMAT], [Lit ''--mm-processor-kwargs''],
       [Lit ''{"max_pixels":'', Sub MM_MAX_PIXELS, Lit ''}''],
       [Lit ''--enable-auto-tool-choice''], [Lit ''--tool-call-parser''], [Lit ''qwen3_coder''],
       [Lit ''--reasoning-parser''], [Lit ''qwen3'']],
     f_compilation = None\<rparr>\<close>

definition family_custom_defaults :: dict where
  "family_custom_defaults = [
     (TENSOR_PARALLEL_SIZE, VInt 1), (MAX_MODEL_LEN, VInt 32768), (MODEL_OUTPUT_LIMIT, VInt 8192),
     (MTP_TOKENS, VInt 0), (MAX_NUM_SEQS, VInt 4), (MAX_NUM_BATCHED_TOKENS, VInt 4096),
     (GPU_MEMORY_UTILIZATION, VFlt (b64 (9 / 10))), (GPU_BLOCKS_OVERRIDE, VInt 0),
     (OFFLOAD_FRACTION, VInt 0), (KV_CACHE_DTYPE, VStr ''auto''),
     (LOAD_FORMAT, VStr ''safetensors''), (SERVED_MODEL_NAME, VStr ''Local-model''),
     (MODEL_ID, VStr ''''), (QUANTIZATION, VStr ''''), (REASONING_PARSER, VStr ''''),
     (TOOL_CALL_PARSER, VStr ''''), (MULTIMODAL, VBool True)]"

definition family_custom :: family where
  \<open>family_custom = \<lparr>f_tested = False, f_env_block = ''generic'',
     f_default_variant = ''custom'', f_kv_dtypes = [''auto'', ''fp8''],
     f_spec_method = ''mtp'', f_defaults = family_custom_defaults,
     f_serve_args = [],
     f_compilation = None\<rparr>\<close>

definition FAMILIES :: "(string \<times> family) list" where
  "FAMILIES = [(''glm52'', family_glm52), (''qwen36'', family_qwen36), (''custom'', family_custom)]"

definition family_of :: "string \<Rightarrow> family" where
  "family_of name = (case map_of FAMILIES (if name = [] then ''glm52'' else name) of
     Some f \<Rightarrow> f | None \<Rightarrow> family_glm52)"

section \<open>Variants\<close>

definition variant_exl3_tr3 :: variant where
  \<open>variant_exl3_tr3 = \<lparr>v_family = ''glm52'',
     v_repo = ''brandonmusic/GLM-5.2-EXL3-TR3-3.0bpw'',
     v_revision = ''9297b9f1d53af5c67cffa01e30cc071a1ff7144b'',
     v_dirname = ''GLM-5.2-EXL3-TR3-3.0bpw'',
     v_quantization = ''exl3'', v_native_mtp = ''exl3-tr3'',
     v_default_draft = Some ''native'', v_graft_ok = True,
     v_quant_config = None,
     v_defaults = [
       (DCP, VStr ''2''), (MAX_MODEL_LEN, VInt 524288), (MAX_NUM_BATCHED_TOKENS, VInt 3072),
       (MAX_NUM_SEQS, VInt 8), (KV_SCALE_MODE, VStr ''dynamic-token''), (MTP_TOKENS, VInt 5),
       (MTP_DRAFT_SAMPLE_METHOD, VStr ''probabilistic''), (DCP_PREFILL_WORKSPACE_MIB, VInt 1024),
       (DCP_CKV_PREFETCH_DEPTH, VStr ''0''), (DCP_CKV_GATHER_MAX_TOKENS, VInt 140000),
       (DCP_KV_CACHE_INTERLEAVE_SIZE, VStr ''1''),
       (DCP_QUERY_SPLIT_MIN_CONTEXT_TOKENS, VInt 8192),
       (GPU_MEMORY_UTILIZATION, VFlt (b64 (957 / 1000))), (GPU_BLOCKS_OVERRIDE, VInt 0),
       (LOAD_FORMAT, VStr ''safetensors''), (OFFLOAD_FRACTION, VFlt (b64 (1 / 2))),
       (PREFIX_CACHE_BACKEND, VStr ''lmcache''), (F8_DMA, VStr ''0''),
       (PCIE_CALIBRATION, VStr ''auto''), (PCIE_DMA_MIN_BYTES, VInt (- 1)),
       (MAX_CUDAGRAPH_CAPTURE_SIZE, VInt 64),
       (CUDAGRAPH_CAPTURE_SIZES, VStr ''4,8,12,16,20,24,28,32,36,40,44,48,52,56,60,64''),
       (VLLM_EXL3_TRELLIS_MAX_M, VInt 64)],
     v_runtime_env = [
       (''VLLM_B12X_MLA_SPEC_EXTEND_AS_DECODE'', ''1''), (''VLLM_DCP_TOPK_OWNER_MERGE'', ''0''),
       (''VLLM_DISABLE_SHARED_EXPERTS_STREAM'', ''0''), (''VLLM_EXL3_PREFILL_BLOCK_M'', ''64''),
       (''VLLM_EXL3_PREFILL_CHUNK'', ''128''), (''VLLM_EXL3_TRELLIS_BLOCK_M'', ''8''),
       (''VLLM_MULTI_STREAM_GEMM_TOKEN_THRESHOLD'', ''1024''),
       (''VLLM_SHARED_EXPERTS_STREAM_TOKEN_THRESHOLD'', ''16''),
       (''VLLM_PCIE_ONESHOT_ALLOW_CROSS_NUMA'', ''1''),
       (''VLLM_PCIE_ONESHOT_SINGLE_CHANNEL'', ''0''), (''SPARKINFER_FUSED_INDEXER'', ''1''),
       (''SPARKINFER_INDEXER_DIRECT_K'', ''1''), (''SPARKINFER_INDEXER_STREAM_SCORER'', ''1''),
       (''SPARKINFER_MLA_PREFILL_STRATEGY'', ''auto''),
       (''SPARKINFER_MLA_SM120_NUM_SPLITS'', ''0''), (''SPARKINFER_MLA_SM120_PREFILL_MG'', ''1''),
       (''SPARKINFER_PAGED_INDEX_SUPERTILE_K'', ''32768''),
       (''SPARKINFER_W4A16_SMALL_M_DIRECT'', ''1''),
       (''B12X_PAGED_INDEX_SUPERTILE_K'', ''32768''),
       (''VLLM_PROMPT_LOGPROBS_CHUNK_SIZE'', ''128'')],
     v_kv_calibrated = True, v_download_gib = 309, v_tested = True\<rparr>\<close>

definition variant_exl3_tr3_max_context :: variant where
  \<open>variant_exl3_tr3_max_context = \<lparr>v_family = ''glm52'',
     v_repo = ''brandonmusic/GLM-5.2-EXL3-TR3-3.0bpw'',
     v_revision = ''9297b9f1d53af5c67cffa01e30cc071a1ff7144b'',
     v_dirname = ''GLM-5.2-EXL3-TR3-3.0bpw'',
     v_quantization = ''exl3'', v_native_mtp = ''exl3-tr3'',
     v_default_draft = Some ''native'', v_graft_ok = True,
     v_quant_config = None,
     v_defaults = [
       (DCP, VStr ''4''), (MAX_MODEL_LEN, VInt 524288), (MAX_NUM_BATCHED_TOKENS, VInt 4096),
       (MAX_NUM_SEQS, VInt 8), (MTP_TOKENS, VInt 5),
       (MTP_DRAFT_SAMPLE_METHOD, VStr ''probabilistic''), (DCP_PREFILL_WORKSPACE_MIB, VInt 1024),
       (DCP_CKV_PREFETCH_DEPTH, VStr ''auto''), (DCP_CKV_GATHER_MAX_TOKENS, VInt 140000),
       (DCP_KV_CACHE_INTERLEAVE_SIZE, VStr ''64''),
       (DCP_QUERY_SPLIT_MIN_CONTEXT_TOKENS, VInt (- 1)),
       (GPU_MEMORY_UTILIZATION, VFlt (b64 (49 / 50))), (GPU_BLOCKS_OVERRIDE, VInt 0),
       (OFFLOAD_FRACTION, VFlt (b64 (1 / 2))), (F8_DMA, VStr ''0''),
       (PCIE_CALIBRATION, VStr ''auto''), (PCIE_DMA_MIN_BYTES, VInt (- 1)),
       (MAX_CUDAGRAPH_CAPTURE_SIZE, VInt 64),
       (CUDAGRAPH_CAPTURE_SIZES, VStr ''4,8,12,16,20,24,28,32,36,40,44,48,52,56,60,64''),
       (VLLM_EXL3_TRELLIS_MAX_M, VInt 64)],
     v_runtime_env = [],
     v_kv_calibrated = True, v_download_gib = 309, v_tested = True\<rparr>\<close>

definition variant_nvfp4 :: variant where
  \<open>variant_nvfp4 = \<lparr>v_family = ''glm52'',
     v_repo = ''lukealonso/GLM-5.2-NVFP4'',
     v_revision = '''',
     v_dirname = ''GLM-5.2-NVFP4'',
     v_quantization = ''modelopt_fp4'', v_native_mtp = '''',
     v_default_draft = None, v_graft_ok = True,
     v_quant_config = None,
     v_defaults = [],
     v_runtime_env = [],
     v_kv_calibrated = True, v_download_gib = 400, v_tested = False\<rparr>\<close>

definition variant_madeby561_hybrid :: variant where
  \<open>variant_madeby561_hybrid = \<lparr>v_family = ''glm52'',
     v_repo = ''madeby561/GLM-5.2-MXFP8-NVFP4-NF3-Hybrid'',
     v_revision = ''66f3623dd8fefb5ca8046706912d5d31c8d196af'',
     v_dirname = ''GLM-5.2-MXFP8-NVFP4-NF3-Hybrid'',
     v_quantization = ''nvfp4_nf3_hybrid'', v_native_mtp = '''',
     v_default_draft = Some ''native'', v_graft_ok = True,
     v_quant_config = Some (''{"linear":{"weight":"mxfp8"},"shared_experts":{"weight":"mxfp8"},"ignore":["re:^model'' @ [CHR 0x5C, CHR 0x5C] @ ''.layers'' @ [CHR 0x5C, CHR 0x5C] @ ''.0'' @ [CHR 0x5C, CHR 0x5C] @ ''.","re:.*'' @ [CHR 0x5C, CHR 0x5C] @ ''.self_attn'' @ [CHR 0x5C, CHR 0x5C] @ ''.indexer'' @ [CHR 0x5C, CHR 0x5C] @ ''.","re:.*'' @ [CHR 0x5C, CHR 0x5C] @ ''.mlp'' @ [CHR 0x5C, CHR 0x5C] @ ''.gate$","model.layers.78.eh_proj","lm_head"]}''),
     v_defaults = [
       (MAX_NUM_BATCHED_TOKENS, VInt 2048), (DCP_PREFILL_WORKSPACE_MIB, VInt 512),
       (GPU_MEMORY_UTILIZATION, VFlt (b64 (49 / 50))), (GPU_BLOCKS_OVERRIDE, VInt 2048),
       (MTP_DRAFT_SAMPLE_METHOD, VStr ''probabilistic''), (DCP_CKV_PREFETCH_DEPTH, VStr ''0''),
       (DCP_QUERY_SPLIT_MIN_CONTEXT_TOKENS, VInt 8192), (F8_DMA, VStr ''ring''),
       (PCIE_CALIBRATION, VStr ''off''), (PCIE_DMA_MIN_BYTES, VInt 393216)],
     v_runtime_env = [],
     v_kv_calibrated = True, v_download_gib = 341, v_tested = True\<rparr>\<close>

definition variant_qwen36_nvfp4 :: variant where
  \<open>variant_qwen36_nvfp4 = \<lparr>v_family = ''qwen36'',
     v_repo = ''nvidia/Qwen3.6-27B-NVFP4'',
     v_revision = ''0893e1606ff3d5f97a441f405d5fc541a6bdf404'',
     v_dirname = ''Qwen3.6-27B-NVFP4'',
     v_quantization = ''modelopt'', v_native_mtp = '''',
     v_default_draft = None, v_graft_ok = True,
     v_quant_config = None,
     v_defaults = [],
     v_runtime_env = [],
     v_kv_calibrated = False, v_download_gib = 21, v_tested = True\<rparr>\<close>

definition variant_custom :: variant where
  \<open>variant_custom = \<lparr>v_family = ''custom'',
     v_repo = '''',
     v_revision = '''',
     v_dirname = ''custom'',
     v_quantization = '''', v_native_mtp = '''',
     v_default_draft = None, v_graft_ok = True,
     v_quant_config = None,
     v_defaults = [],
     v_runtime_env = [],
     v_kv_calibrated = False, v_download_gib = 0, v_tested = False\<rparr>\<close>

definition variant_exl3_tr3_3_25bpw :: variant where
  "variant_exl3_tr3_3_25bpw = \<lparr>v_family = ''glm52'',
     v_repo = ''willfalco/GLM-5.2-EXL3-TR3-3.25bpw'',
     v_revision = ''d7d79c2d14599dfce7a5d12b85f7ad73f40e623d'',
     v_dirname = ''GLM-5.2-EXL3-TR3-3.25bpw'',
     v_quantization = ''exl3'', v_native_mtp = ''exl3-tr3'',
     v_default_draft = Some ''native'', v_graft_ok = True, v_quant_config = None,
     v_defaults = dict_update (v_defaults variant_exl3_tr3) [
       (DCP, VStr ''4''), (MAX_MODEL_LEN, VInt 524288), (MAX_NUM_BATCHED_TOKENS, VInt 2048),
       (VLLM_EXL3_PREFILL_CAPACITY, VInt 1024), (MAX_NUM_SEQS, VInt 8), (MTP_TOKENS, VInt 3),
       (DCP_CKV_PREFETCH_DEPTH, VStr ''0''), (DCP_CKV_GATHER_MAX_TOKENS, VInt 140000),
       (DCP_KV_CACHE_INTERLEAVE_SIZE, VStr ''64''),
       (DCP_QUERY_SPLIT_MIN_CONTEXT_TOKENS, VInt (- 1)),
       (GPU_MEMORY_UTILIZATION, VFlt (b64 (957 / 1000))), (GPU_BLOCKS_OVERRIDE, VInt 2048),
       (OFFLOAD_FRACTION, VFlt (b64 (1 / 2))), (PREFIX_CACHE_BACKEND, VStr ''lmcache''),
       (PREFIX_CACHE_DISK_GB, VInt 0), (PCIE_CALIBRATION, VStr ''off''),
       (MAX_CUDAGRAPH_CAPTURE_SIZE, VInt 32),
       (CUDAGRAPH_CAPTURE_SIZES, VStr ''4,8,12,16,20,24,28,32''),
       (VLLM_EXL3_TRELLIS_MAX_M, VInt 32)],
     v_runtime_env = dict_update (v_runtime_env variant_exl3_tr3) [
       (''PYTORCH_CUDA_ALLOC_CONF'', ''expandable_segments:True''),
       (''SAFETENSORS_FAST_GPU'', ''1''), (''VLLM_B12X_MLA_SPEC_EXTEND_AS_DECODE'', ''0''),
       (''VLLM_DCP_TOPK_OWNER_MERGE'', ''1''), (''VLLM_DISABLE_SHARED_EXPERTS_STREAM'', ''1''),
       (''B12X_INDEXER_TWO_LEVEL_FOLD_MAX_MIB'', ''64'')],
     v_kv_calibrated = True, v_download_gib = 316, v_tested = True\<rparr>"

definition variant_exl3_tr3_3_36bpw :: variant where
  "variant_exl3_tr3_3_36bpw = \<lparr>v_family = ''glm52'',
     v_repo = ''willfalco/GLM-5.2-EXL3-TR3-3.36bpw'',
     v_revision = ''8d9aa923a17502675ca23737349b67f2e66bb69d'',
     v_dirname = ''GLM-5.2-EXL3-TR3-3.36bpw'',
     v_quantization = ''exl3'', v_native_mtp = ''exl3-tr3'',
     v_default_draft = Some ''native'', v_graft_ok = True, v_quant_config = None,
     v_defaults = dict_update (v_defaults variant_exl3_tr3_3_25bpw) [
       (MAX_NUM_BATCHED_TOKENS, VInt 3072), (VLLM_EXL3_PREFILL_CAPACITY, VInt 3072),
       (GPU_BLOCKS_OVERRIDE, VInt 2048), (ONLINE_QUANT, VStr ''exl3-b6''),
       (PREFIX_CACHE_BACKEND, VStr ''lmcache''), (PREFIX_CACHE_DISK_GB, VInt 0),
       (OFFLOAD_FRACTION, VFlt (b64 (1 / 2))), (PCIE_CALIBRATION, VStr ''auto''),
       (PCIE_DMA_MIN_BYTES, VInt (- 1))],
     v_runtime_env = dict_update (v_runtime_env variant_exl3_tr3_3_25bpw) [
       (''NCCL_BUFFSIZE'', ''1048576''), (''VLLM_DCP_A2A_MAX_TOKENS'', ''48''),
       (''VLLM_DCP_TOPK_OWNER_MERGE'', ''0''), (''VLLM_EXL3_PREFILL_BLOCK_M'', ''32''),
       (''PYTORCH_CUDA_ALLOC_CONF'', ''expandable_segments:False'')],
     v_kv_calibrated = True, v_download_gib = 327, v_tested = True\<rparr>"

definition variant_exl3_tr3_3_42bpw :: variant where
  "variant_exl3_tr3_3_42bpw = \<lparr>v_family = ''glm52'',
     v_repo = ''willfalco/GLM-5.2-EXL3-TR3-3.42bpw'',
     v_revision = ''a350292cb2038f2c31732569a711a89e5d72fd46'',
     v_dirname = ''GLM-5.2-EXL3-TR3-3.42bpw'',
     v_quantization = ''exl3'', v_native_mtp = ''exl3-tr3'',
     v_default_draft = Some ''native'', v_graft_ok = True, v_quant_config = None,
     v_defaults = dict_update (v_defaults variant_exl3_tr3_3_36bpw) [
       (MAX_MODEL_LEN, VInt 520192), (GPU_MEMORY_UTILIZATION, VFlt (b64 (93 / 100))),
       (GPU_BLOCKS_OVERRIDE, VInt 0), (KV_CACHE_MEMORY_BYTES, VInt 4518907904),
       (MTP_DRAFT_SAMPLE_METHOD, VStr ''probabilistic'')],
     v_runtime_env = v_runtime_env variant_exl3_tr3_3_36bpw,
     v_kv_calibrated = True, v_download_gib = 328, v_tested = True\<rparr>"

definition variant_exl3_tr3_glm53_3_42bpw :: variant where
  "variant_exl3_tr3_glm53_3_42bpw = \<lparr>v_family = ''glm52'',
     v_repo = ''davidsyoung/GLM-5.3-EXL3-TR3-3.42bpw'',
     v_revision = ''8bef807a0fcdd180e984a26b50e731cdba9a8ff2'',
     v_dirname = ''GLM-5.3-EXL3-TR3-3.42bpw'',
     v_quantization = ''exl3'', v_native_mtp = ''exl3-tr3'',
     v_default_draft = Some ''native'', v_graft_ok = False, v_quant_config = None,
     v_defaults = dict_update (v_defaults variant_exl3_tr3_3_42bpw) [
       (SERVED_MODEL_NAME, VStr ''GLM-5.3''), (MAX_MODEL_LEN, VInt 393216),
       (KV_CACHE_MEMORY_BYTES, VInt 3415867392)],
     v_runtime_env = v_runtime_env variant_exl3_tr3_3_42bpw,
     v_kv_calibrated = True, v_download_gib = 331, v_tested = True\<rparr>"

definition variant_exl3_tr3_glm53_3_25bpw :: variant where
  "variant_exl3_tr3_glm53_3_25bpw = \<lparr>v_family = ''glm52'',
     v_repo = ''davidsyoung/GLM-5.3-EXL3-TR3-3.25bpw'',
     v_revision = ''6d6bd738c0c1635513e0bd0fdf0302049bd820a9'',
     v_dirname = ''GLM-5.3-EXL3-TR3-3.25bpw'',
     v_quantization = ''exl3'', v_native_mtp = ''exl3-tr3'',
     v_default_draft = Some ''native'', v_graft_ok = False, v_quant_config = None,
     v_defaults = dict_update (v_defaults variant_exl3_tr3_glm53_3_42bpw) [
       (MAX_MODEL_LEN, VInt 524288), (KV_CACHE_MEMORY_BYTES, VInt 4554489856),
       (MAX_NUM_BATCHED_TOKENS, VInt 2048), (VLLM_EXL3_PREFILL_CAPACITY, VInt 1024)],
     v_runtime_env = v_runtime_env variant_exl3_tr3_glm53_3_42bpw,
     v_kv_calibrated = True, v_download_gib = 317, v_tested = False\<rparr>"

definition variant_exl3_tr3_glm53_3_42bpw_500k :: variant where
  "variant_exl3_tr3_glm53_3_42bpw_500k = variant_exl3_tr3_glm53_3_42bpw\<lparr>
     v_revision := ''99c6f951333d2b38f1efefa533c7afadf0d376e3'',
     v_defaults := dict_update (v_defaults variant_exl3_tr3_glm53_3_42bpw) [
       (MAX_MODEL_LEN, VInt 520192), (KV_CACHE_MEMORY_BYTES, VInt 4518907904),
       (MAX_NUM_BATCHED_TOKENS, VInt 2048), (VLLM_EXL3_PREFILL_CAPACITY, VInt 1024)],
     v_tested := False\<rparr>"

definition VARIANTS :: "(string \<times> variant) list" where
  "VARIANTS = [
     (''exl3-tr3'', variant_exl3_tr3), (''exl3-tr3-max-context'', variant_exl3_tr3_max_context),
     (''nvfp4'', variant_nvfp4), (''madeby561-hybrid'', variant_madeby561_hybrid),
     (''qwen36-nvfp4'', variant_qwen36_nvfp4), (''custom'', variant_custom),
     (''exl3-tr3-3.25bpw'', variant_exl3_tr3_3_25bpw),
     (''exl3-tr3-3.36bpw'', variant_exl3_tr3_3_36bpw),
     (''exl3-tr3-3.42bpw'', variant_exl3_tr3_3_42bpw),
     (''exl3-tr3-glm53-3.42bpw'', variant_exl3_tr3_glm53_3_42bpw),
     (''exl3-tr3-glm53-3.25bpw'', variant_exl3_tr3_glm53_3_25bpw),
     (''exl3-tr3-glm53-3.42bpw-500k'', variant_exl3_tr3_glm53_3_42bpw_500k)]"

section \<open>Drafts\<close>

definition DRAFTS :: "(string \<times> draft) list" where
  "DRAFTS = [
     (''off'', \<lparr>d_mtp78_mode = ''off'', d_quantization = ''''\<rparr>),
     (''native'', \<lparr>d_mtp78_mode = ''off'', d_quantization = ''''\<rparr>),
     (''bf16'', \<lparr>d_mtp78_mode = ''off'', d_quantization = ''''\<rparr>),
     (''tr3-graft'', \<lparr>d_mtp78_mode = ''graft'', d_quantization = ''''\<rparr>),
     (''tr3-override'', \<lparr>d_mtp78_mode = ''override'', d_quantization = ''''\<rparr>),
     (''nvfp4'', \<lparr>d_mtp78_mode = ''off'', d_quantization = ''modelopt_fp4''\<rparr>)]"

section \<open>Knobs\<close>

definition knobs_model :: "knob list" where
  "knobs_model = [
     mk_knob MODEL_FAMILY (TChoice (map fst FAMILIES)) (VStr ''glm52''),
     mk_knob TENSOR_PARALLEL_SIZE (TInt (Some 1) (Some 16)) (VInt 4),
     mk_knob MODEL_VARIANT (TChoice (map fst VARIANTS)) (VStr ''exl3-tr3''),
     (mk_knob MODEL_ID TStr (VStr ''''))
       \<lparr>kfams := Some [''custom'']\<rparr>,
     (mk_knob REASONING_EFFORT_DEFAULT (TChoice [''low'', ''high'', ''max'']) (VStr ''high''))
       \<lparr>kfams := Some [''glm52'']\<rparr>,
     (mk_knob PREFILL_SCHEDULE_INTERVAL (TInt (Some 1) (Some 64)) (VInt 1))
       \<lparr>kfams := Some [''glm52'']\<rparr>,
     (mk_knob PREFILL_FAIRNESS_ENGINE (TChoice [''off'', ''compute_share'']) (VStr ''off''))
       \<lparr>kfams := Some [''glm52''], kreject := True\<rparr>,
     (mk_knob PREFILL_COMPUTE_SHARE (TFloat (Some (b64 0)) (Some (b64 1)) True True) (VFlt (b64 (3 / 5))))
       \<lparr>kfams := Some [''glm52''], kreject := True\<rparr>,
     mk_knob TRUST_REMOTE_CODE TBool (VBool False)]"

definition knobs_parsers :: "knob list" where
  "knobs_parsers = [
     (mk_knob QUANTIZATION TStr (VStr ''''))
       \<lparr>kfams := Some [''custom'']\<rparr>,
     (mk_knob REASONING_PARSER TStr (VStr ''''))
       \<lparr>kfams := Some [''custom'']\<rparr>,
     (mk_knob TOOL_CALL_PARSER TStr (VStr ''''))
       \<lparr>kfams := Some [''custom'']\<rparr>,
     (mk_knob MULTIMODAL TBool (VBool True))
       \<lparr>kfams := Some [''qwen36'', ''custom'']\<rparr>,
     (mk_knob MM_MAX_PIXELS (TInt (Some 262144) (Some 16777216)) (VInt 8388608))
       \<lparr>kfams := Some [''qwen36'']\<rparr>,
     mk_knob MAX_MODEL_LEN (TInt (Some 4096) (Some 1048576)) (VInt 524288),
     (mk_knob CLAMP_ROPE_TABLES TBool (VBool True))
       \<lparr>kfams := Some [''glm52'']\<rparr>]"

definition knobs_kv :: "knob list" where
  "knobs_kv = [
     mk_knob GPU_BLOCKS_OVERRIDE (TInt (Some 0) (Some 65536)) (VInt 0),
     mk_knob KV_CACHE_DTYPE (TChoice [''auto'', ''fp8'', ''nvfp4_ds_mla'']) (VStr ''fp8''),
     (mk_knob KV_SCALE_MODE (TChoice [''static-calibrated'', ''dynamic-token'']) (VStr ''static-calibrated''))
       \<lparr>kfams := Some [''glm52'']\<rparr>,
     (mk_knob ONLINE_QUANT (TChoice [''none'', ''mxfp8'', ''exl3-b6'']) (VStr ''none''))
       \<lparr>kfams := Some [''glm52'']\<rparr>,
     (mk_knob VLLM_EXL3_ONLINE_CACHE_DIR TStr (VStr ''''))
       \<lparr>kfams := Some [''glm52'']\<rparr>,
     (mk_knob VLLM_EXL3_ONLINE_CACHE_MODE (TChoice ['''', ''readonly'', ''readwrite'']) (VStr ''''))
       \<lparr>kfams := Some [''glm52'']\<rparr>,
     (mk_knob MTP_DRAFT (TChoice (map fst DRAFTS)) (VStr ''native''))
       \<lparr>kfams := Some [''glm52'']\<rparr>,
     mk_knob MTP_TOKENS (TInt (Some 0) (Some 8)) (VInt 3)]"

definition knobs_draft :: "knob list" where
  "knobs_draft = [
     (mk_knob MTP_DRAFT_SAMPLE_METHOD (TChoice [''greedy'', ''probabilistic'']) (VStr ''greedy''))
       \<lparr>kfams := Some [''glm52'']\<rparr>,
     (mk_knob MTP_REJECTION_SAMPLE_METHOD (TChoice [''standard'', ''block'']) (VStr ''standard''))
       \<lparr>kfams := Some [''glm52'']\<rparr>,
     (mk_knob DRAFT_MODEL TStr (VStr ''''))
       \<lparr>kfams := Some [''glm52'']\<rparr>,
     (mk_knob DRAFT_QUANTIZATION TStr (VStr ''''))
       \<lparr>kfams := Some [''glm52'']\<rparr>,
     (mk_knob DCP (TChoice [''1'', ''2'', ''4'', ''8'']) (VStr ''4''))
       \<lparr>kfams := Some [''glm52'']\<rparr>,
     mk_knob MAX_NUM_SEQS (TInt (Some 1) (Some 256)) (VInt 8),
     mk_knob MAX_NUM_BATCHED_TOKENS (TInt (Some 512) (Some 65536)) (VInt 3072),
     (mk_knob VLLM_EXL3_PREFILL_CAPACITY (TInt (Some 1) (Some 65536)) (VInt 3072))
       \<lparr>kfams := Some [''glm52'']\<rparr>,
     (mk_knob DCP_PREFILL_WORKSPACE_MIB (TInt (Some 256) (Some 16384)) (VInt 1024))
       \<lparr>kfams := Some [''glm52'']\<rparr>]"

definition knobs_dcp :: "knob list" where
  "knobs_dcp = [
     (mk_knob DCP_CKV_PREFETCH_DEPTH (TChoice [''auto'', ''0'', ''1'']) (VStr ''auto''))
       \<lparr>kfams := Some [''glm52'']\<rparr>,
     (mk_knob DCP_CKV_GATHER_MAX_TOKENS (TInt (Some 512) (Some 1048576)) (VInt 140000))
       \<lparr>kfams := Some [''glm52'']\<rparr>,
     (mk_knob DCP_KV_CACHE_INTERLEAVE_SIZE (TChoice [''1'', ''2'', ''4'', ''8'', ''16'', ''32'', ''64'']) (VStr ''64''))
       \<lparr>kfams := Some [''glm52'']\<rparr>,
     (mk_knob DCP_QUERY_SPLIT_MIN_CONTEXT_TOKENS (TInt (Some (- 1)) (Some 1048576)) (VInt (- 1)))
       \<lparr>kfams := Some [''glm52'']\<rparr>,
     (mk_knob B12X_PCIE_DMA TBool (VBool True))
       \<lparr>kfams := Some [''glm52'']\<rparr>,
     (mk_knob F8_DMA (TChoice [''0'', ''ag'', ''ring'', ''a2a'', ''i8'', ''i8_ring'', ''i8_a2a'', ''mx'', ''mx_ring'', ''mx_a2a'']) (VStr ''0''))
       \<lparr>kfams := Some [''glm52'']\<rparr>,
     (mk_knob PCIE_CALIBRATION (TChoice [''auto'', ''off'', ''force'']) (VStr ''auto''))
       \<lparr>kfams := Some [''glm52'']\<rparr>,
     (mk_knob PCIE_DMA_MIN_BYTES (TInt (Some (- 1)) (Some 67108864)) (VInt (- 1)))
       \<lparr>kfams := Some [''glm52'']\<rparr>]"

definition knobs_window :: "knob list" where
  "knobs_window = [
     mk_knob MAX_CUDAGRAPH_CAPTURE_SIZE (TInt (Some 1) (Some 512)) (VInt 32),
     mk_knob CUDAGRAPH_CAPTURE_SIZES TCsv (VStr ''4,8,12,16,20,24,28,32''),
     (mk_knob VLLM_EXL3_TRELLIS_MAX_M (TInt (Some 4) (Some 512)) (VInt 32))
       \<lparr>kfams := Some [''glm52''], kaliases := [''TUNE_VLLM_EXL3_TRELLIS_MAX_M'']\<rparr>,
     mk_knob GPU_MEMORY_UTILIZATION (TFloat (Some (b64 (1 / 2))) (Some (b64 (99 / 100))) False False) (VFlt (b64 (9 / 10))),
     mk_knob KV_CACHE_MEMORY_BYTES (TInt (Some 0) (Some 1000000000000)) (VInt 0),
     mk_knob LOAD_FORMAT (TChoice [''safetensors'', ''instanttensor'']) (VStr ''safetensors''),
     mk_knob MODEL_OUTPUT_LIMIT (TInt (Some 256) (Some 262144)) (VInt 131072)]"

definition knobs_memory :: "knob list" where
  "knobs_memory = [
     mk_knob OFFLOAD_FRACTION (TFloat (Some (b64 0)) (Some (b64 (19 / 20))) False False) (VFlt (b64 0)),
     mk_knob PREFIX_CACHE_BACKEND (TChoice [''native'', ''lmcache'']) (VStr ''native''),
     mk_knob LMCACHE_L1_MAX_GB (TInt (Some 0) (Some 8192)) (VInt 0),
     mk_knob PREFIX_CACHE_DISK_GB (TInt (Some 0) (Some 8192)) (VInt 0),
     mk_knob PREFIX_CACHE_DISK_FRACTION (TFloat (Some (b64 0)) (Some (b64 1)) False False) (VFlt (b64 0)),
     (mk_knob VISION TBool (VBool False))
       \<lparr>kfams := Some [''glm52'']\<rparr>,
     (mk_knob VISION_CHUNKS (TInt (Some 1) (Some 64)) (VInt 8))
       \<lparr>kfams := Some [''glm52'']\<rparr>,
     mk_knob SERVED_MODEL_NAME TStr (VStr ''GLM-5.2'')]"

definition KNOBS :: "knob list" where
  "KNOBS = knobs_model @ knobs_parsers @ knobs_kv @ knobs_draft @ knobs_dcp @ knobs_window @ knobs_memory"

definition knob_by_key :: "key \<Rightarrow> knob option" where
  "knob_by_key k = find (\<lambda>kb. kkey kb = k) KNOBS"

end
