(* ===== verification/Coerce.thy ===== *)
theory Coerce
  imports Registry
begin

text \<open>
  Typing one knob value: \<open>coerce\<close> and \<open>to_text\<close> of \<^verbatim>\<open>scripts/glm_config.py\<close>. The predicate \<open>fits\<close>
  says what a value of a knob's declared type is; the lemmas show that \<open>coerce\<close> returns exactly
  such values, that it leaves them alone, and that printing and reading back is the identity for
  every type but float.
\<close>

section \<open>coerce\<close>

text \<open>\<open>ConfigError\<close>, by the check that raised it.\<close>

datatype cfg_error =
    NotBool key
  | NotInt key
  | NotNumber key
  | NotFinite key
  | BelowMin key
  | AboveMax key
  | AtMin key
  | AtMax key
  | NotChoice key
  | CsvEmpty key
  | CsvBad key
  | ControlChar key
  | ForbiddenKey key
  | StateUnreadable
  | NotObject
  | ValuesNotObject

type_synonym 'a outcome = "cfg_error + 'a"

definition coerce_bool :: "key \<Rightarrow> pyval \<Rightarrow> pyval outcome" where
  "coerce_bool k raw =
     (case raw of VBool b \<Rightarrow> Inr (VBool b)
      | _ \<Rightarrow> (let s = py_lower (py_strip (py_str raw)) in
          if List.member [''1'', ''true'', ''yes'', ''on''] s then Inr (VBool True)
          else if List.member [''0'', ''false'', ''no'', ''off'', ''''] s then Inr (VBool False)
          else Inl (NotBool k)))"

definition below :: "('a \<Rightarrow> 'a \<Rightarrow> bool) \<Rightarrow> 'a \<Rightarrow> 'a option \<Rightarrow> bool" where
  "below lt v lo = (case lo of None \<Rightarrow> False | Some m \<Rightarrow> lt v m)"

definition above :: "('a \<Rightarrow> 'a \<Rightarrow> bool) \<Rightarrow> 'a \<Rightarrow> 'a option \<Rightarrow> bool" where
  "above lt v hi = (case hi of None \<Rightarrow> False | Some m \<Rightarrow> lt m v)"

definition coerce_int :: "key \<Rightarrow> int option \<Rightarrow> int option \<Rightarrow> pyval \<Rightarrow> pyval outcome" where
  "coerce_int k lo hi raw =
     (case py_int (py_strip (py_str raw)) of None \<Rightarrow> Inl (NotInt k)
      | Some v \<Rightarrow> if below (<) v lo then Inl (BelowMin k)
                  else if above (<) v hi then Inl (AboveMax k) else Inr (VInt v))"

text \<open>\<open>float(str(raw).strip())\<close>; for a float, \<open>repr\<close> round-trips by the language's guarantee.\<close>

definition float_of_raw :: "pyval \<Rightarrow> pyfloat option" where
  "float_of_raw raw = (case raw of VFlt f \<Rightarrow> Some f | _ \<Rightarrow> py_float (py_strip (py_str raw)))"

definition coerce_float ::
    "key \<Rightarrow> pyfloat option \<Rightarrow> pyfloat option \<Rightarrow> bool \<Rightarrow> bool \<Rightarrow> pyval \<Rightarrow> pyval outcome" where
  "coerce_float k lo hi exlo exhi raw =
     (case float_of_raw raw of None \<Rightarrow> Inl (NotNumber k)
      | Some v \<Rightarrow> if \<not> flt_finite v then Inl (NotFinite k)
                  else if below flt_lt v lo then Inl (BelowMin k)
                  else if above flt_lt v hi then Inl (AboveMax k)
                  else if exlo \<and> lo = Some v then Inl (AtMin k)
                  else if exhi \<and> hi = Some v then Inl (AtMax k)
                  else Inr (VFlt v))"

definition coerce_choice :: "key \<Rightarrow> string list \<Rightarrow> pyval \<Rightarrow> pyval outcome" where
  "coerce_choice k cs raw =
     (let v = py_strip (py_str raw) in
      if List.member cs v then Inr (VStr v) else Inl (NotChoice k))"

definition csv_ok :: "string \<Rightarrow> bool" where
  "csv_ok v = list_all (\<lambda>p. p \<noteq> [] \<and> list_all is_digit p) (split_on CHR '','' v)"

definition coerce_csv :: "key \<Rightarrow> pyval \<Rightarrow> pyval outcome" where
  "coerce_csv k raw =
     (let v = filter (\<lambda>c. \<not> is_space c) (py_str raw) in
      if v = [] then Inl (CsvEmpty k) else if csv_ok v then Inr (VStr v) else Inl (CsvBad k))"

definition has_control :: "string \<Rightarrow> bool" where
  "has_control v = list_ex (\<lambda>c. List.member [CHR 0x0D, CHR 0x0A, CHR 0x00] c) v"

definition coerce_str :: "key \<Rightarrow> pyval \<Rightarrow> pyval outcome" where
  "coerce_str k raw =
     (let v = py_strip (py_str raw) in if has_control v then Inl (ControlChar k) else Inr (VStr v))"

definition coerce :: "knob \<Rightarrow> pyval \<Rightarrow> pyval outcome" where
  "coerce kb raw =
     (if raw = VNone then Inr (kdefault kb)
      else case ktyp kb of
        TBool \<Rightarrow> coerce_bool (kkey kb) raw
      | TInt lo hi \<Rightarrow> coerce_int (kkey kb) lo hi raw
      | TFloat lo hi exlo exhi \<Rightarrow> coerce_float (kkey kb) lo hi exlo exhi raw
      | TChoice cs \<Rightarrow> coerce_choice (kkey kb) cs raw
      | TCsv \<Rightarrow> coerce_csv (kkey kb) raw
      | TStr \<Rightarrow> coerce_str (kkey kb) raw)"

definition to_text :: "knob \<Rightarrow> pyval \<Rightarrow> string" where
  "to_text kb v = (case ktyp kb of
       TBool \<Rightarrow> (if truthy v then ''1'' else ''0'')
     | TFloat _ _ _ _ \<Rightarrow> (case v of VFlt f \<Rightarrow> float_g f | _ \<Rightarrow> py_str v)
     | _ \<Rightarrow> py_str v)"

section \<open>What a typed value is\<close>

text \<open>The values a knob of a type can hold once coerced.\<close>

definition fits :: "ktype \<Rightarrow> pyval \<Rightarrow> bool" where
  "fits t v = (case t of
       TBool \<Rightarrow> (\<exists>b. v = VBool b)
     | TInt lo hi \<Rightarrow> (\<exists>i. v = VInt i \<and> (\<forall>m. lo = Some m \<longrightarrow> m \<le> i) \<and> (\<forall>m. hi = Some m \<longrightarrow> i \<le> m))
     | TFloat lo hi exlo exhi \<Rightarrow>
         (\<exists>q. v = VFlt (Fin q) \<and> \<not> below flt_lt (Fin q) lo \<and> \<not> above flt_lt (Fin q) hi \<and>
              (exlo \<longrightarrow> lo \<noteq> Some (Fin q)) \<and> (exhi \<longrightarrow> hi \<noteq> Some (Fin q)))
     | TChoice cs \<Rightarrow> (\<exists>s. v = VStr s \<and> s \<in> set cs \<and> stripped s)
     | TCsv \<Rightarrow> (\<exists>s. v = VStr s \<and> s \<noteq> [] \<and> list_all (\<lambda>c. \<not> is_space c) s \<and> csv_ok s)
     | TStr \<Rightarrow> (\<exists>s. v = VStr s \<and> stripped s \<and> \<not> has_control s))"

lemma filter_no_space: "list_all (\<lambda>c. \<not> is_space c) (filter (\<lambda>c. \<not> is_space c) s)"
  by (simp add: list_all_iff)

lemma flt_finite_iff: "flt_finite f \<longleftrightarrow> (\<exists>q. f = Fin q)"
  by (cases f) (auto simp: flt_finite_def)

text \<open>Each coercion returns a value of its type.\<close>

lemma coerce_bool_fits: "coerce_bool k raw = Inr v \<Longrightarrow> fits TBool v"
  by (auto simp: coerce_bool_def fits_def Let_def split: pyval.splits if_splits)

lemma coerce_int_fits: "coerce_int k lo hi raw = Inr v \<Longrightarrow> fits (TInt lo hi) v"
  by (auto simp: coerce_int_def fits_def below_def above_def split: option.splits if_splits)

lemma coerce_float_fits:
  assumes "coerce_float k lo hi exlo exhi raw = Inr v"
  shows "fits (TFloat lo hi exlo exhi) v"
proof -
  from assms obtain f where f: "v = VFlt f" "flt_finite f" "\<not> below flt_lt f lo" "\<not> above flt_lt f hi"
      "\<not> (exlo \<and> lo = Some f)" "\<not> (exhi \<and> hi = Some f)"
    by (auto simp: coerce_float_def split: option.splits if_splits)
  then obtain q where "f = Fin q" by (auto simp: flt_finite_iff)
  with f show ?thesis by (simp add: fits_def)
qed

lemma coerce_choice_fits: "coerce_choice k cs raw = Inr v \<Longrightarrow> fits (TChoice cs) v"
  by (auto simp: coerce_choice_def fits_def Let_def stripped_strip split: if_splits)

lemma coerce_csv_fits: "coerce_csv k raw = Inr v \<Longrightarrow> fits TCsv v"
  by (auto simp: coerce_csv_def fits_def Let_def list_all_iff split: if_splits)

lemma coerce_str_fits: "coerce_str k raw = Inr v \<Longrightarrow> fits TStr v"
  by (auto simp: coerce_str_def fits_def Let_def stripped_strip split: if_splits)

lemmas coerce_fits_rules =
  coerce_bool_fits coerce_int_fits coerce_float_fits coerce_choice_fits coerce_csv_fits coerce_str_fits

lemma coerce_fits:
  assumes "coerce kb raw = Inr v" and "fits (ktyp kb) (kdefault kb)"
  shows "fits (ktyp kb) v"
proof (cases "raw = VNone")
  case True
  with assms show ?thesis by (simp add: coerce_def)
next
  case False
  with assms(1) show ?thesis
    by (cases "ktyp kb") (auto simp: coerce_def intro: coerce_fits_rules)
qed

text \<open>A value of the type is a fixed point.\<close>

lemma coerce_fixes:
  assumes "fits (ktyp kb) v"
  shows "coerce kb v = Inr v"
proof (cases "ktyp kb")
  case TBool
  with assms show ?thesis by (auto simp: fits_def coerce_def coerce_bool_def)
next
  case (TInt lo hi)
  with assms obtain i where i: "v = VInt i" "\<And>m. lo = Some m \<Longrightarrow> m \<le> i" "\<And>m. hi = Some m \<Longrightarrow> i \<le> m"
    by (auto simp: fits_def)
  then have "\<not> below (<) i lo" "\<not> above (<) i hi"
    by (auto simp: below_def above_def split: option.splits dest: leD)
  with TInt i(1) show ?thesis
    by (simp add: coerce_def coerce_int_def py_str_def stripped_show_int)
next
  case (TFloat lo hi exlo exhi)
  with assms show ?thesis
    by (auto simp: fits_def coerce_def coerce_float_def float_of_raw_def flt_finite_def)
next
  case (TChoice cs)
  with assms show ?thesis by (auto simp: fits_def coerce_def coerce_choice_def py_str_def)
next
  case TCsv
  with assms obtain s where "v = VStr s" "s \<noteq> []" "list_all (\<lambda>c. \<not> is_space c) s" "csv_ok s"
    by (auto simp: fits_def)
  moreover from this(3) have "filter (\<lambda>c. \<not> is_space c) s = s"
    by (simp add: list_all_iff)
  ultimately show ?thesis using TCsv by (simp add: coerce_def coerce_csv_def py_str_def)
next
  case TStr
  with assms show ?thesis by (auto simp: fits_def coerce_def coerce_str_def py_str_def)
qed

text \<open>Hence \<open>coerce\<close> accepts a value that is not \<open>None\<close> unchanged exactly when it is of the type.\<close>

lemma coerce_fixed_iff:
  assumes "v \<noteq> VNone"
  shows "coerce kb v = Inr v \<longleftrightarrow> fits (ktyp kb) v"
proof
  assume "coerce kb v = Inr v"
  with assms show "fits (ktyp kb) v"
    by (cases "ktyp kb") (auto simp: coerce_def intro: coerce_fits_rules)
next
  assume "fits (ktyp kb) v"
  then show "coerce kb v = Inr v" by (rule coerce_fixes)
qed

section \<open>Printing and reading back\<close>

lemma coerce_to_text:
  assumes "fits (ktyp kb) v" and "\<And>lo hi a b. ktyp kb \<noteq> TFloat lo hi a b"
  shows "coerce kb (VStr (to_text kb v)) = Inr v"
proof (cases "ktyp kb")
  case TBool
  with assms(1) obtain b where "v = VBool b" by (auto simp: fits_def)
  moreover have "coerce_bool k (VStr ''1'') = Inr (VBool True)"
      "coerce_bool k (VStr ''0'') = Inr (VBool False)" for k by code_simp+
  ultimately show ?thesis using TBool
    by (cases b) (simp_all add: coerce_def to_text_def truthy_def)
next
  case (TInt lo hi)
  with assms(1) obtain i where i: "v = VInt i" by (auto simp: fits_def)
  have "coerce kb (VStr (show_int i)) = coerce kb (VInt i)"
    using TInt by (simp add: coerce_def coerce_int_def py_str_def)
  also have "\<dots> = Inr v" using coerce_fixes [OF assms(1)] i by simp
  finally show ?thesis using TInt i by (simp add: to_text_def py_str_def)
next
  case (TFloat lo hi a b)
  with assms(2) show ?thesis by blast
next
  case (TChoice cs)
  with assms(1) obtain s where "v = VStr s" by (auto simp: fits_def)
  with TChoice coerce_fixes [OF assms(1)] show ?thesis by (simp add: to_text_def py_str_def)
next
  case TCsv
  with assms(1) obtain s where "v = VStr s" by (auto simp: fits_def)
  with TCsv coerce_fixes [OF assms(1)] show ?thesis by (simp add: to_text_def py_str_def)
next
  case TStr
  with assms(1) obtain s where "v = VStr s" by (auto simp: fits_def)
  with TStr coerce_fixes [OF assms(1)] show ?thesis by (simp add: to_text_def py_str_def)
qed

end
