(* ===== verification/Layers.thy ===== *)
theory Layers
  imports Coerce
begin

text \<open>
  The configuration layers of \<^verbatim>\<open>scripts/glm_config.py\<close>: the startup environment (\<open>env_layer\<close>), the
  state file (\<open>load_state_file\<close>), the withdrawn model selectors, and \<open>resolve\<close>, which layers built-in
  defaults, family, detected hardware, variant, environment and state file. Message texts are kept
  as constructors that name the key; the file contents and the environment are arguments.
\<close>

type_synonym env = "string \<Rightarrow> string option"

definition env_get :: "env \<Rightarrow> string \<Rightarrow> string" where
  "env_get e n = (case e n of None \<Rightarrow> [] | Some s \<Rightarrow> s)"

section \<open>The environment layer\<close>

text \<open>
  The frozen environment layer: knob values (and the GPU count under its own name), and the
  messages of rejected values that \<open>snapshot_startup_env\<close> stores beside them.
\<close>

record env_doc =
  layer :: dict
  invalid_env :: "cfg_error list"

definition env_knob :: "env \<Rightarrow> knob \<Rightarrow> pyval option \<times> cfg_error list" where
  "env_knob e kb =
     (case find (\<lambda>n. env_get e n \<noteq> []) (key_name (kkey kb) # kaliases kb) of
        None \<Rightarrow> (None, [])
      | Some n \<Rightarrow>
          (case coerce kb (VStr (env_get e n)) of
             Inr v \<Rightarrow> (Some v, [])
           | Inl err \<Rightarrow> if kreject kb then (Some (VStr (env_get e n)), []) else (None, [err])))"

text \<open>The draft spellings that predate the \<open>MTP_DRAFT\<close> knob, in the order the code applies them.\<close>

definition legacy_draft :: "env \<Rightarrow> string option" where
  "legacy_draft e =
     (let mode = env_get e ''MTP78_MODE'';
          l1 = (if mode = ''graft'' then Some ''tr3-graft''
                else if mode = ''override'' then Some ''tr3-override''
                else if mode = ''off'' then Some ''native'' else None);
          l2 = (if env_get e ''MTP78_TRELLIS'' = ''0'' then Some ''native'' else l1)
      in if env_get e ''DRAFT_MODEL'' \<noteq> []
         then (if env_get e ''DRAFT_QUANTIZATION'' = ''modelopt_fp4'' then Some ''nvfp4'' else l2)
         else l2)"

definition GPU_COUNT :: key where
  "GPU_COUNT = Other ''GLM_GPU_COUNT''"

fun env_knobs :: "env \<Rightarrow> knob list \<Rightarrow> env_doc" where
  "env_knobs e [] = \<lparr>layer = [], invalid_env = []\<rparr>"
| "env_knobs e (kb # kbs) =
     (let (v, errs) = env_knob e kb; rest = env_knobs e kbs in
      \<lparr>layer = (case v of None \<Rightarrow> layer rest | Some x \<Rightarrow> (kkey kb, x) # layer rest),
       invalid_env = errs @ invalid_env rest\<rparr>)"

definition env_layer :: "env \<Rightarrow> env_doc" where
  "env_layer e =
     (let d = env_knobs e KNOBS;
          l1 = (if map_of (layer d) MTP_DRAFT = None
                then (case legacy_draft e of None \<Rightarrow> layer d
                      | Some s \<Rightarrow> layer d @ [(MTP_DRAFT, VStr s)])
                else layer d);
          g = env_get e ''GLM_GPU_COUNT'';
          l2 = (if py_strip g \<noteq> [] then l1 @ [(GPU_COUNT, VStr g)] else l1)
      in d\<lparr>layer := l2\<rparr>)"

section \<open>The state file\<close>

definition FORBIDDEN_STATE_KEYS :: "key list" where
  "FORBIDDEN_STATE_KEYS = [Other ''TERMINATE_ENABLED'', Other ''TERMINATE_LOCKED'']"

definition check_forbidden :: "dict \<Rightarrow> unit outcome" where
  "check_forbidden values =
     (case find (\<lambda>k. map_of values k \<noteq> None) FORBIDDEN_STATE_KEYS of
        None \<Rightarrow> Inr () | Some k \<Rightarrow> Inl (ForbiddenKey k))"

text \<open>
  The parsed state file: absent, not an object, an object without \<open>values\<close> (then the object itself
  holds the values), or an object whose \<open>values\<close> entry is an object or something else. What cannot
  be opened or parsed at all is \<open>Unreadable\<close>.
\<close>

datatype state_file = Absent | Unreadable | NonObject | Bare dict | Wrapped dict | BadValues

definition load_state_file :: "state_file \<Rightarrow> dict outcome" where
  "load_state_file f =
     (case f of Absent \<Rightarrow> Inr []
      | Unreadable \<Rightarrow> Inl StateUnreadable
      | NonObject \<Rightarrow> Inl NotObject
      | BadValues \<Rightarrow> Inl ValuesNotObject
      | Bare d \<Rightarrow> result_bind (check_forbidden d) (\<lambda>_. Inr d)
      | Wrapped d \<Rightarrow> result_bind (check_forbidden d) (\<lambda>_. Inr d))"

section \<open>Families, withdrawn selectors, detected hardware\<close>

definition applies_to :: "knob \<Rightarrow> string \<Rightarrow> bool" where
  "applies_to kb fam = (case kfams kb of None \<Rightarrow> True
     | Some fs \<Rightarrow> fs = [] \<or> List.member fs (if fam = [] then ''glm52'' else fam))"

definition WITHDRAWN_FLASH_FAMILIES :: "string list" where
  "WITHDRAWN_FLASH_FAMILIES = [''glm53'']"

definition WITHDRAWN_FLASH_VARIANTS :: "string list" where
  "WITHDRAWN_FLASH_VARIANTS = [''glm53-k6'', ''glm53-k8'']"

text \<open>\<open>str(layer.get(key, "")).strip()\<close>\<close>

definition selector_text :: "dict \<Rightarrow> key \<Rightarrow> string" where
  "selector_text d k = py_strip (case map_of d k of None \<Rightarrow> [] | Some v \<Rightarrow> py_str v)"

text \<open>The first layer and selector that name a withdrawn profile; \<open>None\<close> lets resolution go on.\<close>

fun check_flash_selectors :: "dict list \<Rightarrow> (key \<times> string) option" where
  "check_flash_selectors [] = None"
| "check_flash_selectors (d # ds) =
     (if List.member WITHDRAWN_FLASH_FAMILIES (selector_text d MODEL_FAMILY)
      then Some (MODEL_FAMILY, selector_text d MODEL_FAMILY)
      else if List.member WITHDRAWN_FLASH_VARIANTS (selector_text d MODEL_VARIANT)
      then Some (MODEL_VARIANT, selector_text d MODEL_VARIANT)
      else check_flash_selectors ds)"

text \<open>Why a resolution raises: the withdrawn selector, or a strict knob's invalid value.\<close>

datatype resolve_error = FlashUnavailable key string | Strict cfg_error

definition family_step :: "dict \<Rightarrow> string \<Rightarrow> string" where
  "family_step d name =
     (case map_of d MODEL_FAMILY of None \<Rightarrow> name
      | Some raw \<Rightarrow>
          (case knob_by_key MODEL_FAMILY of None \<Rightarrow> name
           | Some kb \<Rightarrow> (case coerce kb raw of Inr (VStr s) \<Rightarrow> s | _ \<Rightarrow> name)))"

definition resolve_family :: "dict \<Rightarrow> dict \<Rightarrow> resolve_error + string" where
  "resolve_family state_values env_values =
     (case check_flash_selectors [env_values, state_values] of
        Some (k, s) \<Rightarrow> Inl (FlashUnavailable k s)
      | None \<Rightarrow> Inr (family_step state_values (family_step env_values ''glm52'')))"

text \<open>\<open>GLM_GPU_COUNT\<close> of the layer, or of the process environment when the layer is empty.\<close>

definition detected_gpu_count :: "env \<Rightarrow> env_doc \<Rightarrow> int option" where
  "detected_gpu_count proc d =
     (let text = (if layer d = [] \<and> invalid_env d = [] then env_get proc ''GLM_GPU_COUNT''
                  else (case map_of (layer d) GPU_COUNT of None \<Rightarrow> [] | Some v \<Rightarrow> py_str v))
      in case py_int text of None \<Rightarrow> None | Some n \<Rightarrow> if 0 < n then Some n else None)"

end
