(* ===== verification/Validate.thy ===== *)
theory Validate
  imports Layers
begin

text \<open>
  \<open>validate\<close> of \<^verbatim>\<open>scripts/glm_config.py\<close>: the matrix of rules an effective configuration is judged by
  before it is applied. Each group of rules is a definition in the order of the code, and the whole
  is their concatenation; a finding keeps its rule id, its level and its keys, the message text is
  left out. A configuration is a map from keys to typed values as \<open>resolve\<close> returns it: the
  readers below fall back only on keys that no such map lacks.
\<close>

section \<open>Configurations and findings\<close>

type_synonym cfg = "key \<Rightarrow> pyval option"

definition cfg_get :: "cfg \<Rightarrow> key \<Rightarrow> pyval \<Rightarrow> pyval" where
  "cfg_get c k dflt = (case c k of None \<Rightarrow> dflt | Some v \<Rightarrow> v)"

definition cfg_int :: "cfg \<Rightarrow> key \<Rightarrow> int" where
  "cfg_int c k = (case c k of Some (VInt i) \<Rightarrow> i | Some (VBool b) \<Rightarrow> (if b then 1 else 0) | _ \<Rightarrow> 0)"

definition cfg_str :: "cfg \<Rightarrow> key \<Rightarrow> string" where
  "cfg_str c k = (case c k of Some (VStr s) \<Rightarrow> s | _ \<Rightarrow> [])"

definition cfg_flt :: "cfg \<Rightarrow> key \<Rightarrow> pyfloat" where
  "cfg_flt c k = (case c k of Some (VFlt f) \<Rightarrow> f | _ \<Rightarrow> Fin 0)"

definition cfg_set :: "cfg \<Rightarrow> key \<Rightarrow> bool" where
  "cfg_set c k = (case c k of None \<Rightarrow> False | Some v \<Rightarrow> truthy v)"

text \<open>\<open>int(s)\<close> of a string knob whose choices are numbers.\<close>

definition int_text :: "string \<Rightarrow> int" where
  "int_text s = (case py_int s of None \<Rightarrow> 0 | Some n \<Rightarrow> n)"

datatype level = LError | LWarn

record finding =
  f_id :: string
  f_level :: level
  f_keys :: "key list"

definition err_if :: "bool \<Rightarrow> string \<Rightarrow> key list \<Rightarrow> finding list" where
  "err_if b i ks = (if b then [\<lparr>f_id = i, f_level = LError, f_keys = ks\<rparr>] else [])"

definition warn_if :: "bool \<Rightarrow> string \<Rightarrow> key list \<Rightarrow> finding list" where
  "warn_if b i ks = (if b then [\<lparr>f_id = i, f_level = LWarn, f_keys = ks\<rparr>] else [])"

record check_context =
  gpu_count :: "int option"
  vision_available :: "bool option"
  state_keys :: "key list"

text \<open>\<open>cfg.get("MODEL_FAMILY", "glm52")\<close>, its profile, and the variant with its fallback.\<close>

definition cfg_family :: "cfg \<Rightarrow> string" where
  "cfg_family c = py_str (cfg_get c MODEL_FAMILY (VStr ''glm52''))"

definition is_glm :: "cfg \<Rightarrow> bool" where
  "is_glm c = (cfg_family c = ''glm52'')"

definition cfg_variant :: "cfg \<Rightarrow> variant" where
  "cfg_variant c = (case map_of VARIANTS (cfg_str c MODEL_VARIANT) of
     Some v \<Rightarrow> v | None \<Rightarrow> variant_exl3_tr3)"

definition is_exl3 :: "cfg \<Rightarrow> bool" where
  "is_exl3 c = (v_quantization (cfg_variant c) = ''exl3'')"

section \<open>The rules\<close>

definition rules_fairness :: "cfg \<Rightarrow> finding list" where
  "rules_fairness c =
     (let on = cfg_get c PREFILL_FAIRNESS_ENGINE (VStr ''off'') = VStr ''compute_share''
      in err_if (on \<and> \<not> is_glm c) ''fairness-family'' [PREFILL_FAIRNESS_ENGINE, MODEL_FAMILY]
       @ err_if (on \<and> cfg_get c PREFILL_SCHEDULE_INTERVAL (VInt 1) \<noteq> VInt 1) ''fairness-cadence''
           [PREFILL_FAIRNESS_ENGINE, PREFILL_SCHEDULE_INTERVAL]
       @ err_if (on \<and> 0 < cfg_int c MTP_TOKENS \<and> f_spec_method (family_of (cfg_family c)) \<noteq> ''mtp'')
           ''fairness-speculation'' [PREFILL_FAIRNESS_ENGINE, MTP_TOKENS]
       @ err_if (is_glm c \<and>
             (case knob_by_key PREFILL_COMPUTE_SHARE of None \<Rightarrow> False
              | Some kb \<Rightarrow> \<not> result_ok (coerce kb (cfg_get c PREFILL_COMPUTE_SHARE (VFlt (b64 (3 / 5)))))))
           ''fairness-share'' [PREFILL_COMPUTE_SHARE]
       @ warn_if (cfg_family c = ''qwen36'' \<and> 0 < cfg_int c MTP_TOKENS) ''qwen-mtp-eager'' [MTP_TOKENS])"

definition rules_family :: "cfg \<Rightarrow> finding list" where
  "rules_family c =
     (let fam = family_of (cfg_family c); var = cfg_variant c;
          online = cfg_get c ONLINE_QUANT (VStr ''none'') \<noteq> VStr ''none''
      in warn_if (\<not> f_tested fam) ''family-untested'' [MODEL_FAMILY]
       @ err_if (cfg_family c = ''custom'' \<and> \<not> cfg_set c MODEL_ID) ''custom-model-required'' [MODEL_ID]
       @ err_if (v_family var \<noteq> [] \<and> v_family var \<noteq> cfg_family c) ''variant-family-mismatch''
           [MODEL_VARIANT, MODEL_FAMILY]
       @ err_if (is_glm c \<and> online \<and> \<not> is_exl3 c) ''online-quant-needs-exl3'' [ONLINE_QUANT, MODEL_VARIANT]
       @ warn_if (is_glm c \<and> online) ''online-quant-needs-quality-gate'' [ONLINE_QUANT, MODEL_VARIANT]
       @ err_if (py_strip (py_str (cfg_get c SERVED_MODEL_NAME (VStr ''''))) = []) ''served-name-empty''
           [SERVED_MODEL_NAME]
       @ err_if (\<not> List.member (f_kv_dtypes fam) (cfg_str c KV_CACHE_DTYPE)) ''kv-dtype-family''
           [KV_CACHE_DTYPE, MODEL_FAMILY])"

definition rules_ranks :: "cfg \<Rightarrow> check_context \<Rightarrow> finding list" where
  "rules_ranks c ctx =
     (let tp = cfg_int c TENSOR_PARALLEL_SIZE
      in err_if (case gpu_count ctx of None \<Rightarrow> False | Some n \<Rightarrow> n < tp) ''tp-exceeds-gpus''
           [TENSOR_PARALLEL_SIZE]
       @ err_if (is_glm c \<and> tp < 4) ''glm-needs-four-ranks'' [TENSOR_PARALLEL_SIZE, MODEL_FAMILY]
       @ warn_if (is_glm c \<and> tp \<noteq> 4) ''tp-off-measured'' [TENSOR_PARALLEL_SIZE]
       @ warn_if (is_glm c \<and> tp \<noteq> 4 \<and> cfg_set c GPU_BLOCKS_OVERRIDE) ''pool-pin-off-measured''
           [GPU_BLOCKS_OVERRIDE, TENSOR_PARALLEL_SIZE])"

text \<open>The width of a decode step, the window it has to stay in, and the captured sizes.\<close>

definition decode_width :: "cfg \<Rightarrow> int" where
  "decode_width c = cfg_int c MAX_NUM_SEQS * (1 + cfg_int c MTP_TOKENS)"

definition capture_window :: "cfg \<Rightarrow> int" where
  "capture_window c = (if is_exl3 c
     then min (cfg_int c MAX_CUDAGRAPH_CAPTURE_SIZE) (cfg_int c VLLM_EXL3_TRELLIS_MAX_M)
     else cfg_int c MAX_CUDAGRAPH_CAPTURE_SIZE)"

definition size_list :: "string \<Rightarrow> int list" where
  "size_list s = map int_text (filter (\<lambda>x. x \<noteq> []) (split_on CHR '','' s))"

definition capture_sizes :: "cfg \<Rightarrow> int list" where
  "capture_sizes c = size_list (py_str (cfg_get c CUDAGRAPH_CAPTURE_SIZES VNone))"

definition rules_window :: "cfg \<Rightarrow> finding list" where
  "rules_window c =
     (let sizes = capture_sizes c
      in err_if (is_glm c \<and> capture_window c < decode_width c) ''concurrency-window''
           [MAX_NUM_SEQS, MTP_TOKENS, MAX_CUDAGRAPH_CAPTURE_SIZE, VLLM_EXL3_TRELLIS_MAX_M]
       @ warn_if (sizes \<noteq> [] \<and> Max (set sizes) \<noteq> cfg_int c MAX_CUDAGRAPH_CAPTURE_SIZE)
           ''capture-sizes-max'' [CUDAGRAPH_CAPTURE_SIZES, MAX_CUDAGRAPH_CAPTURE_SIZE]
       @ err_if (sizes \<noteq> [] \<and> is_glm c \<and> is_exl3 c \<and> Min (set sizes) < 4)
           ''capture-sizes-floor'' [CUDAGRAPH_CAPTURE_SIZES])"

text \<open>The quantization the draft is served with: the knob, or the draft registry's.\<close>

definition effective_draft_quant :: "cfg \<Rightarrow> string" where
  "effective_draft_quant c = (if cfg_set c DRAFT_QUANTIZATION then cfg_str c DRAFT_QUANTIZATION
     else (case map_of DRAFTS (cfg_str c MTP_DRAFT) of None \<Rightarrow> [] | Some d \<Rightarrow> d_quantization d))"

definition rules_draft :: "cfg \<Rightarrow> finding list" where
  "rules_draft c =
     (let draft = cfg_str c MTP_DRAFT
      in err_if (is_glm c \<and> starts_with ''tr3-'' draft \<and> \<not> is_exl3 c) ''tr3-draft-needs-exl3''
           [MTP_DRAFT, MODEL_VARIANT]
       @ err_if (is_glm c \<and> draft = ''tr3-graft'' \<and> \<not> cfg_set c DRAFT_MODEL \<and> \<not> v_graft_ok (cfg_variant c))
           ''mtp-graft-incompatible'' [MTP_DRAFT, MODEL_VARIANT]
       @ err_if (is_glm c \<and> draft = ''nvfp4'' \<and> effective_draft_quant c \<noteq> ''modelopt_fp4'')
           ''draft-quant-inherit'' [DRAFT_QUANTIZATION, MTP_DRAFT]
       @ err_if (is_glm c \<and> cfg_set c DRAFT_MODEL \<and>
             list_ex (\<lambda>x. x = CHR 0x22 \<or> x = CHR 0x5C) (py_str (cfg_get c DRAFT_MODEL VNone)))
           ''draft-model-quoting'' [DRAFT_MODEL]
       @ warn_if (is_glm c \<and> cfg_set c DRAFT_MODEL \<and>
             List.member [''tr3-graft'', ''native'', ''bf16'', ''off''] draft)
           ''draft-model-overrides'' [DRAFT_MODEL, MTP_DRAFT])"

definition rules_kv :: "cfg \<Rightarrow> finding list" where
  "rules_kv c =
     err_if (is_glm c \<and> \<not> List.member [''fp8'', ''auto''] (cfg_str c KV_CACHE_DTYPE)
             \<and> \<not> v_kv_calibrated (cfg_variant c))
       ''kv-nvfp4-uncalibrated'' [KV_CACHE_DTYPE, MODEL_VARIANT]
   @ err_if (is_glm c \<and> cfg_str c KV_SCALE_MODE = ''dynamic-token''
             \<and> cfg_str c KV_CACHE_DTYPE \<noteq> ''nvfp4_ds_mla'')
       ''kv-dynamic-dtype'' [KV_SCALE_MODE, KV_CACHE_DTYPE]"

definition rules_vision :: "cfg \<Rightarrow> check_context \<Rightarrow> finding list" where
  "rules_vision c ctx =
     warn_if (is_glm c \<and> cfg_set c VISION \<and> starts_with ''exl3-tr3'' (cfg_str c MODEL_VARIANT))
       ''vision-long-context'' [VISION]
   @ warn_if (is_glm c \<and> cfg_set c VISION \<and> 393216 < cfg_int c MAX_MODEL_LEN)
       ''vision-kv-pressure'' [VISION, MAX_MODEL_LEN]
   @ warn_if (is_glm c \<and> cfg_set c VISION \<and> vision_available ctx = Some False)
       ''vision-unavailable'' [VISION]"

definition rules_disk_cache :: "cfg \<Rightarrow> finding list" where
  "rules_disk_cache c =
     (let gb = cfg_set c PREFIX_CACHE_DISK_GB; frac = cfg_set c PREFIX_CACHE_DISK_FRACTION;
          lmcache = cfg_str c PREFIX_CACHE_BACKEND = ''lmcache''; l1 = cfg_set c OFFLOAD_FRACTION
      in err_if (gb \<and> \<not> lmcache) ''disk-cache-needs-lmcache'' [PREFIX_CACHE_DISK_GB, PREFIX_CACHE_BACKEND]
       @ err_if (gb \<and> \<not> l1) ''disk-cache-needs-l1'' [PREFIX_CACHE_DISK_GB, OFFLOAD_FRACTION]
       @ err_if (frac \<and> \<not> lmcache) ''disk-fraction-needs-lmcache''
           [PREFIX_CACHE_DISK_FRACTION, PREFIX_CACHE_BACKEND]
       @ err_if (frac \<and> \<not> l1) ''disk-fraction-needs-l1'' [PREFIX_CACHE_DISK_FRACTION, OFFLOAD_FRACTION]
       @ warn_if frac ''disk-fraction-sensitive'' [PREFIX_CACHE_DISK_FRACTION, PREFIX_CACHE_BACKEND]
       @ warn_if gb ''disk-cache-sensitive'' [PREFIX_CACHE_DISK_GB, PREFIX_CACHE_BACKEND])"

text \<open>The bounded envelopes of the GLM-5.3 variants.\<close>

definition outside_qualified_envelope :: "cfg \<Rightarrow> bool" where
  "outside_qualified_envelope c =
     (393216 < cfg_int c MAX_MODEL_LEN \<or> \<not> cfg_set c KV_CACHE_MEMORY_BYTES
      \<or> 3415867392 < cfg_int c KV_CACHE_MEMORY_BYTES)"

definition table_int :: "dict \<Rightarrow> key \<Rightarrow> int" where
  "table_int d k = (case map_of d k of Some (VInt i) \<Rightarrow> i | _ \<Rightarrow> 0)"

definition outside_candidate_envelope :: "cfg \<Rightarrow> bool" where
  "outside_candidate_envelope c =
     (let envelope = v_defaults (cfg_variant c);
          parity = cfg_str c MODEL_VARIANT = ''exl3-tr3-glm53-3.42bpw-500k'';
          scheduler_max = (if parity then 3072 else 2048);
          prefill_max = (if parity then 3072 else 1024);
          sizes = capture_sizes c;
          cap_max = cfg_int c MAX_CUDAGRAPH_CAPTURE_SIZE;
          trellis_max = cfg_int c VLLM_EXL3_TRELLIS_MAX_M
      in cfg_int c TENSOR_PARALLEL_SIZE \<noteq> 4 \<or> cfg_str c DCP \<noteq> ''4''
       \<or> cfg_str c KV_CACHE_DTYPE \<noteq> ''nvfp4_ds_mla''
       \<or> cfg_str c KV_SCALE_MODE \<noteq> ''dynamic-token''
       \<or> table_int envelope MAX_MODEL_LEN < cfg_int c MAX_MODEL_LEN
       \<or> cfg_int c KV_CACHE_MEMORY_BYTES \<noteq> table_int envelope KV_CACHE_MEMORY_BYTES
       \<or> scheduler_max < cfg_int c MAX_NUM_BATCHED_TOKENS
       \<or> prefill_max < cfg_int c VLLM_EXL3_PREFILL_CAPACITY
       \<or> parity \<and> (12 < cfg_int c MAX_NUM_SEQS \<or> 48 < cap_max \<or> 48 < trellis_max \<or> trellis_max < cap_max
                  \<or> sizes = [] \<or> Max (set sizes) \<noteq> cap_max))"

definition rules_fixed_kv :: "cfg \<Rightarrow> finding list" where
  "rules_fixed_kv c =
     (let fixed = cfg_set c KV_CACHE_MEMORY_BYTES; var = cfg_str c MODEL_VARIANT
      in err_if (fixed \<and> cfg_set c GPU_BLOCKS_OVERRIDE) ''fixed-kv-block-conflict''
           [KV_CACHE_MEMORY_BYTES, GPU_BLOCKS_OVERRIDE]
       @ (if var = ''exl3-tr3-glm53-3.42bpw'' \<and> outside_qualified_envelope c
          then err_if True ''glm53-qualified-envelope'' [MAX_MODEL_LEN, KV_CACHE_MEMORY_BYTES, MODEL_VARIANT]
          else if List.member [''exl3-tr3-glm53-3.25bpw'', ''exl3-tr3-glm53-3.42bpw-500k''] var
          then err_if (outside_candidate_envelope c) ''glm53-candidate-envelope''
            [MODEL_VARIANT, MAX_MODEL_LEN, KV_CACHE_MEMORY_BYTES, TENSOR_PARALLEL_SIZE, DCP,
             KV_CACHE_DTYPE, KV_SCALE_MODE, MAX_NUM_BATCHED_TOKENS, VLLM_EXL3_PREFILL_CAPACITY,
             MAX_NUM_SEQS, MAX_CUDAGRAPH_CAPTURE_SIZE, CUDAGRAPH_CAPTURE_SIZES, VLLM_EXL3_TRELLIS_MAX_M]
          else warn_if fixed ''fixed-kv-cache'' [KV_CACHE_MEMORY_BYTES, GPU_MEMORY_UTILIZATION]))"

text \<open>The two messages of \<^verbatim>\<open>gpu-util-high\<close> differ in their text only, which is left out.\<close>

definition rules_memory :: "cfg \<Rightarrow> finding list" where
  "rules_memory c =
     (let len = cfg_int c MAX_MODEL_LEN; util = cfg_flt c GPU_MEMORY_UTILIZATION;
          pinned = cfg_set c GPU_BLOCKS_OVERRIDE; var = cfg_str c MODEL_VARIANT
      in warn_if (is_glm c \<and> starts_with ''exl3-tr3'' var \<and> cfg_str c LOAD_FORMAT = ''instanttensor''
             \<and> 524288 \<le> len \<and> flt_le util (b64 (978 / 1000)))
           ''instanttensor-context-margin'' [LOAD_FORMAT, MAX_MODEL_LEN, GPU_MEMORY_UTILIZATION]
       @ warn_if (flt_lt (b64 (95 / 100)) util \<and> \<not> pinned \<and> \<not> cfg_set c KV_CACHE_MEMORY_BYTES)
           ''gpu-util-high'' [GPU_MEMORY_UTILIZATION]
       @ warn_if (is_glm c \<and> var = ''madeby561-hybrid'' \<and> 524288 \<le> len \<and> \<not> pinned)
           ''hybrid-512k-needs-pool-pin'' [MODEL_VARIANT, MAX_MODEL_LEN, GPU_BLOCKS_OVERRIDE]
       @ err_if (is_glm c \<and> is_exl3 c
             \<and> cfg_int c MAX_NUM_BATCHED_TOKENS < cfg_int c VLLM_EXL3_PREFILL_CAPACITY)
           ''exl3-prefill-capacity-above-scheduler'' [VLLM_EXL3_PREFILL_CAPACITY, MAX_NUM_BATCHED_TOKENS]
       @ err_if (is_glm c \<and> var = ''exl3-tr3-3.25bpw'' \<and> 524288 \<le> len
             \<and> 2048 \<le> cfg_int c GPU_BLOCKS_OVERRIDE \<and> flt_lt (Fin 0) (cfg_flt c OFFLOAD_FRACTION)
             \<and> 2048 < cfg_int c MAX_NUM_BATCHED_TOKENS)
           ''mixed-325-offload-headroom''
           [MODEL_VARIANT, MAX_MODEL_LEN, GPU_BLOCKS_OVERRIDE, OFFLOAD_FRACTION, MAX_NUM_BATCHED_TOKENS]
       @ warn_if (is_glm c \<and> var = ''exl3-tr3-3.36bpw'' \<and> 524288 \<le> len
             \<and> flt_lt (Fin 0) (cfg_flt c OFFLOAD_FRACTION) \<and> \<not> pinned)
           ''mixed-336-offload-needs-pool-pin''
           [MODEL_VARIANT, MAX_MODEL_LEN, GPU_BLOCKS_OVERRIDE, OFFLOAD_FRACTION])"

text \<open>A block holds 64 tokens, times the context-parallel size on the GLM path only.\<close>

definition tokens_per_block :: "cfg \<Rightarrow> int" where
  "tokens_per_block c = 64 * (if is_glm c
     then int_text (if cfg_set c DCP then py_str (cfg_get c DCP (VStr ''1'')) else ''1'') else 1)"

definition qualified_madeby_ring :: "cfg \<Rightarrow> bool" where
  "qualified_madeby_ring c =
     (cfg_str c MODEL_VARIANT = ''madeby561-hybrid'' \<and> cfg_str c F8_DMA = ''ring''
      \<and> cfg_int c MAX_MODEL_LEN = 524288 \<and> cfg_int c MAX_NUM_BATCHED_TOKENS = 2048
      \<and> cfg_int c DCP_PREFILL_WORKSPACE_MIB = 512 \<and> cfg_int c GPU_BLOCKS_OVERRIDE = 2048
      \<and> py_str (cfg_get c DCP_CKV_PREFETCH_DEPTH VNone) = ''0''
      \<and> cfg_int c DCP_QUERY_SPLIT_MIN_CONTEXT_TOKENS = 8192 \<and> cfg_int c PCIE_DMA_MIN_BYTES = 393216)"

definition rules_pool :: "cfg \<Rightarrow> finding list" where
  "rules_pool c =
     err_if (cfg_set c GPU_BLOCKS_OVERRIDE
             \<and> cfg_int c GPU_BLOCKS_OVERRIDE * tokens_per_block c < cfg_int c MAX_MODEL_LEN)
       ''pool-smaller-than-context'' [GPU_BLOCKS_OVERRIDE, MAX_MODEL_LEN]
   @ warn_if (cfg_int c MAX_MODEL_LEN < cfg_int c MAX_NUM_BATCHED_TOKENS)
       ''chunk-bigger-than-context'' [MAX_NUM_BATCHED_TOKENS, MAX_MODEL_LEN]
   @ warn_if (is_glm c \<and> cfg_str c F8_DMA \<noteq> ''0'' \<and> \<not> qualified_madeby_ring c)
       ''compressed-dma-needs-retrieval'' [F8_DMA, MAX_MODEL_LEN]"

definition rules_parallel :: "cfg \<Rightarrow> finding list" where
  "rules_parallel c =
     err_if (is_glm c \<and> cfg_int c TENSOR_PARALLEL_SIZE mod int_text (cfg_str c DCP) \<noteq> 0)
       ''dcp-divides-tp'' [DCP, TENSOR_PARALLEL_SIZE]
   @ warn_if (is_glm c \<and> int_text (cfg_str c DCP) = 1 \<and> 262144 < cfg_int c MAX_MODEL_LEN)
       ''dcp-reduces-pool'' [DCP, MAX_MODEL_LEN]
   @ warn_if (\<not> v_tested (cfg_variant c)) ''variant-untested'' [MODEL_VARIANT]
   @ warn_if (is_glm c \<and> cfg_int c MTP_TOKENS = 0) ''spec-off'' [MTP_TOKENS]"

definition rules_state :: "cfg \<Rightarrow> check_context \<Rightarrow> finding list" where
  "rules_state c ctx = concat (map (\<lambda>k. case knob_by_key k of None \<Rightarrow> []
     | Some kb \<Rightarrow> err_if (\<not> applies_to kb (cfg_family c)) ''knob-inapplicable'' [k, MODEL_FAMILY])
       (state_keys ctx))"

definition validate :: "cfg \<Rightarrow> check_context \<Rightarrow> finding list" where
  "validate c ctx = concat
     [rules_fairness c, rules_family c, rules_ranks c ctx, rules_window c, rules_draft c, rules_kv c,
      rules_vision c ctx, rules_disk_cache c, rules_fixed_kv c, rules_memory c, rules_pool c,
      rules_parallel c, rules_state c ctx]"

definition errors :: "finding list \<Rightarrow> finding list" where
  "errors fs = filter (\<lambda>f. f_level f = LError) fs"

end
