(* ===== verification/RegistryFacts.thy ===== *)
theory RegistryFacts
  imports Coerce
begin

text \<open>
  Closed facts about the static tables, each evaluated by the kernel from the tables themselves:
  keys are distinct, every default is a value of its own knob, every family and variant default is
  acceptable to the knob it sets, and every cross reference between the tables resolves.
\<close>

section \<open>Evaluating the tables\<close>

text \<open>The float constants of the tables, as the doubles they denote.\<close>

lemma b64_table [registry_simps]:
  "b64 (1 / 2) = Fin (1 / 2)"
  "b64 (19 / 20) = Fin (4278419646001971 / 4503599627370496)"
  "b64 (24 / 25) = Fin (1080863910568919 / 1125899906842624)"
  "b64 (3 / 5) = Fin (5404319552844595 / 9007199254740992)"
  "b64 (49 / 50) = Fin (2206763817411543 / 2251799813685248)"
  "b64 (9 / 10) = Fin (8106479329266893 / 9007199254740992)"
  "b64 (93 / 100) = Fin (8376695306909123 / 9007199254740992)"
  "b64 (957 / 1000) = Fin (8619889686787129 / 9007199254740992)"
  "b64 (99 / 100) = Fin (4458563631096791 / 4503599627370496)"
  "b64 0 = Fin 0"
  "b64 1 = Fin 1"
  by code_simp+

lemmas knob_tables =
  KNOBS_def knobs_model_def knobs_parsers_def knobs_kv_def knobs_draft_def knobs_dcp_def
  knobs_window_def knobs_memory_def mk_knob_def

lemmas text_eval =
  py_strip_def py_rstrip_def py_lstrip_def is_space_def stripped_def

lemma knob_keys_distinct: "distinct (map kkey KNOBS)"
  by (simp add: knob_tables)

lemma fits_value_simps [coerce_simps]:
  "fits TBool (VBool b)"
  "fits (TInt lo hi) (VInt i) \<longleftrightarrow>
     (\<forall>m. lo = Some m \<longrightarrow> m \<le> i) \<and> (\<forall>m. hi = Some m \<longrightarrow> i \<le> m)"
  "fits (TFloat flo fhi exlo exhi) (VFlt (Fin q)) \<longleftrightarrow>
     \<not> below flt_lt (Fin q) flo \<and> \<not> above flt_lt (Fin q) fhi \<and>
     (exlo \<longrightarrow> flo \<noteq> Some (Fin q)) \<and> (exhi \<longrightarrow> fhi \<noteq> Some (Fin q))"
  "fits (TChoice cs) (VStr s) \<longleftrightarrow> s \<in> set cs \<and> stripped s"
  "fits TCsv (VStr s) \<longleftrightarrow> s \<noteq> [] \<and> list_all (\<lambda>c. \<not> is_space c) s \<and> csv_ok s"
  "fits TStr (VStr s) \<longleftrightarrow> stripped s \<and> \<not> has_control s"
  by (simp_all add: fits_def)

lemmas choice_names = FAMILIES_def VARIANTS_def DRAFTS_def

lemmas value_eval =
  below_def above_def has_control_def csv_ok_def is_digit_def stripped_def is_space_def

lemma knob_defaults_fit: "list_all (\<lambda>kb. fits (ktyp kb) (kdefault kb)) KNOBS"
  by (simp add: knob_tables choice_names value_eval registry_simps coerce_simps)

text \<open>Looking a knob up by its key finds it.\<close>

lemma find_by_key:
  "distinct (map kkey ks) \<Longrightarrow> kb \<in> set ks \<Longrightarrow> find (\<lambda>x. kkey x = kkey kb) ks = Some kb"
  by (induction ks) (auto simp: rev_image_eqI)

lemma knob_by_key_self: "kb \<in> set KNOBS \<Longrightarrow> knob_by_key (kkey kb) = Some kb"
  using find_by_key [OF knob_keys_distinct] by (simp add: knob_by_key_def)

lemma knob_by_key_Some: "knob_by_key k = Some kb \<Longrightarrow> kb \<in> set KNOBS \<and> kkey kb = k"
  by (auto simp: knob_by_key_def dest: find_Some_in_set)

definition ktype_of :: "key \<Rightarrow> ktype option" where
  "ktype_of k = map_option ktyp (knob_by_key k)"

lemma find_map_of: "map_option g (find (\<lambda>x. f x = k) xs) = map_of (map (\<lambda>x. (f x, g x)) xs) k"
  by (induction xs) auto

lemma ktype_of_map_of: "ktype_of k = map_of (map (\<lambda>kb. (kkey kb, ktyp kb)) KNOBS) k"
  by (simp add: ktype_of_def knob_by_key_def find_map_of)

lemma knob_type_table: "map (\<lambda>kb. (kkey kb, ktyp kb)) KNOBS = [
    (MODEL_FAMILY, TChoice (map fst FAMILIES)),
    (TENSOR_PARALLEL_SIZE, TInt (Some 1) (Some 16)),
    (MODEL_VARIANT, TChoice (map fst VARIANTS)),
    (MODEL_ID, TStr),
    (REASONING_EFFORT_DEFAULT, TChoice [''low'', ''high'', ''max'']),
    (PREFILL_SCHEDULE_INTERVAL, TInt (Some 1) (Some 64)),
    (PREFILL_FAIRNESS_ENGINE, TChoice [''off'', ''compute_share'']),
    (PREFILL_COMPUTE_SHARE, TFloat (Some (b64 0)) (Some (b64 1)) True True),
    (TRUST_REMOTE_CODE, TBool),
    (QUANTIZATION, TStr),
    (REASONING_PARSER, TStr),
    (TOOL_CALL_PARSER, TStr),
    (MULTIMODAL, TBool),
    (MM_MAX_PIXELS, TInt (Some 262144) (Some 16777216)),
    (MAX_MODEL_LEN, TInt (Some 4096) (Some 1048576)),
    (CLAMP_ROPE_TABLES, TBool),
    (GPU_BLOCKS_OVERRIDE, TInt (Some 0) (Some 65536)),
    (KV_CACHE_DTYPE, TChoice [''auto'', ''fp8'', ''nvfp4_ds_mla'']),
    (KV_SCALE_MODE, TChoice [''static-calibrated'', ''dynamic-token'']),
    (ONLINE_QUANT, TChoice [''none'', ''mxfp8'', ''exl3-b6'']),
    (VLLM_EXL3_ONLINE_CACHE_DIR, TStr),
    (VLLM_EXL3_ONLINE_CACHE_MODE, TChoice ['''', ''readonly'', ''readwrite'']),
    (MTP_DRAFT, TChoice (map fst DRAFTS)),
    (MTP_TOKENS, TInt (Some 0) (Some 8)),
    (MTP_DRAFT_SAMPLE_METHOD, TChoice [''greedy'', ''probabilistic'']),
    (MTP_REJECTION_SAMPLE_METHOD, TChoice [''standard'', ''block'']),
    (DRAFT_MODEL, TStr),
    (DRAFT_QUANTIZATION, TStr),
    (DCP, TChoice [''1'', ''2'', ''4'', ''8'']),
    (MAX_NUM_SEQS, TInt (Some 1) (Some 256)),
    (MAX_NUM_BATCHED_TOKENS, TInt (Some 512) (Some 65536)),
    (VLLM_EXL3_PREFILL_CAPACITY, TInt (Some 1) (Some 65536)),
    (DCP_PREFILL_WORKSPACE_MIB, TInt (Some 256) (Some 16384)),
    (DCP_CKV_PREFETCH_DEPTH, TChoice [''auto'', ''0'', ''1'']),
    (DCP_CKV_GATHER_MAX_TOKENS, TInt (Some 512) (Some 1048576)),
    (DCP_KV_CACHE_INTERLEAVE_SIZE, TChoice [''1'', ''2'', ''4'', ''8'', ''16'', ''32'', ''64'']),
    (DCP_QUERY_SPLIT_MIN_CONTEXT_TOKENS, TInt (Some (- 1)) (Some 1048576)),
    (B12X_PCIE_DMA, TBool),
    (F8_DMA, TChoice [''0'', ''ag'', ''ring'', ''a2a'', ''i8'', ''i8_ring'', ''i8_a2a'', ''mx'', ''mx_ring'', ''mx_a2a'']),
    (PCIE_CALIBRATION, TChoice [''auto'', ''off'', ''force'']),
    (PCIE_DMA_MIN_BYTES, TInt (Some (- 1)) (Some 67108864)),
    (MAX_CUDAGRAPH_CAPTURE_SIZE, TInt (Some 1) (Some 512)),
    (CUDAGRAPH_CAPTURE_SIZES, TCsv),
    (VLLM_EXL3_TRELLIS_MAX_M, TInt (Some 4) (Some 512)),
    (GPU_MEMORY_UTILIZATION, TFloat (Some (b64 (1 / 2))) (Some (b64 (99 / 100))) False False),
    (KV_CACHE_MEMORY_BYTES, TInt (Some 0) (Some 1000000000000)),
    (LOAD_FORMAT, TChoice [''safetensors'', ''instanttensor'']),
    (MODEL_OUTPUT_LIMIT, TInt (Some 256) (Some 262144)),
    (OFFLOAD_FRACTION, TFloat (Some (b64 0)) (Some (b64 (19 / 20))) False False),
    (PREFIX_CACHE_BACKEND, TChoice [''native'', ''lmcache'']),
    (LMCACHE_L1_MAX_GB, TInt (Some 0) (Some 8192)),
    (PREFIX_CACHE_DISK_GB, TInt (Some 0) (Some 8192)),
    (PREFIX_CACHE_DISK_FRACTION, TFloat (Some (b64 0)) (Some (b64 1)) False False),
    (VISION, TBool),
    (VISION_CHUNKS, TInt (Some 1) (Some 64)),
    (SERVED_MODEL_NAME, TStr)]"
  by (simp add: knob_tables)

text \<open>The types of all knobs, by key.\<close>

lemma ktype_of_simps [registry_simps]:
  "ktype_of MODEL_FAMILY = Some (TChoice (map fst FAMILIES))"
  "ktype_of TENSOR_PARALLEL_SIZE = Some (TInt (Some 1) (Some 16))"
  "ktype_of MODEL_VARIANT = Some (TChoice (map fst VARIANTS))"
  "ktype_of MODEL_ID = Some TStr"
  "ktype_of REASONING_EFFORT_DEFAULT = Some (TChoice [''low'', ''high'', ''max''])"
  "ktype_of PREFILL_SCHEDULE_INTERVAL = Some (TInt (Some 1) (Some 64))"
  "ktype_of PREFILL_FAIRNESS_ENGINE = Some (TChoice [''off'', ''compute_share''])"
  "ktype_of PREFILL_COMPUTE_SHARE = Some (TFloat (Some (b64 0)) (Some (b64 1)) True True)"
  "ktype_of TRUST_REMOTE_CODE = Some TBool"
  "ktype_of QUANTIZATION = Some TStr"
  "ktype_of REASONING_PARSER = Some TStr"
  "ktype_of TOOL_CALL_PARSER = Some TStr"
  "ktype_of MULTIMODAL = Some TBool"
  "ktype_of MM_MAX_PIXELS = Some (TInt (Some 262144) (Some 16777216))"
  "ktype_of MAX_MODEL_LEN = Some (TInt (Some 4096) (Some 1048576))"
  "ktype_of CLAMP_ROPE_TABLES = Some TBool"
  "ktype_of GPU_BLOCKS_OVERRIDE = Some (TInt (Some 0) (Some 65536))"
  "ktype_of KV_CACHE_DTYPE = Some (TChoice [''auto'', ''fp8'', ''nvfp4_ds_mla''])"
  "ktype_of KV_SCALE_MODE = Some (TChoice [''static-calibrated'', ''dynamic-token''])"
  "ktype_of ONLINE_QUANT = Some (TChoice [''none'', ''mxfp8'', ''exl3-b6''])"
  "ktype_of VLLM_EXL3_ONLINE_CACHE_DIR = Some TStr"
  "ktype_of VLLM_EXL3_ONLINE_CACHE_MODE = Some (TChoice ['''', ''readonly'', ''readwrite''])"
  "ktype_of MTP_DRAFT = Some (TChoice (map fst DRAFTS))"
  "ktype_of MTP_TOKENS = Some (TInt (Some 0) (Some 8))"
  "ktype_of MTP_DRAFT_SAMPLE_METHOD = Some (TChoice [''greedy'', ''probabilistic''])"
  "ktype_of MTP_REJECTION_SAMPLE_METHOD = Some (TChoice [''standard'', ''block''])"
  "ktype_of DRAFT_MODEL = Some TStr"
  "ktype_of DRAFT_QUANTIZATION = Some TStr"
  "ktype_of DCP = Some (TChoice [''1'', ''2'', ''4'', ''8''])"
  "ktype_of MAX_NUM_SEQS = Some (TInt (Some 1) (Some 256))"
  "ktype_of MAX_NUM_BATCHED_TOKENS = Some (TInt (Some 512) (Some 65536))"
  "ktype_of VLLM_EXL3_PREFILL_CAPACITY = Some (TInt (Some 1) (Some 65536))"
  "ktype_of DCP_PREFILL_WORKSPACE_MIB = Some (TInt (Some 256) (Some 16384))"
  "ktype_of DCP_CKV_PREFETCH_DEPTH = Some (TChoice [''auto'', ''0'', ''1''])"
  "ktype_of DCP_CKV_GATHER_MAX_TOKENS = Some (TInt (Some 512) (Some 1048576))"
  "ktype_of DCP_KV_CACHE_INTERLEAVE_SIZE = Some (TChoice [''1'', ''2'', ''4'', ''8'', ''16'', ''32'', ''64''])"
  "ktype_of DCP_QUERY_SPLIT_MIN_CONTEXT_TOKENS = Some (TInt (Some (- 1)) (Some 1048576))"
  "ktype_of B12X_PCIE_DMA = Some TBool"
  "ktype_of F8_DMA = Some (TChoice [''0'', ''ag'', ''ring'', ''a2a'', ''i8'', ''i8_ring'', ''i8_a2a'', ''mx'', ''mx_ring'', ''mx_a2a''])"
  "ktype_of PCIE_CALIBRATION = Some (TChoice [''auto'', ''off'', ''force''])"
  "ktype_of PCIE_DMA_MIN_BYTES = Some (TInt (Some (- 1)) (Some 67108864))"
  "ktype_of MAX_CUDAGRAPH_CAPTURE_SIZE = Some (TInt (Some 1) (Some 512))"
  "ktype_of CUDAGRAPH_CAPTURE_SIZES = Some TCsv"
  "ktype_of VLLM_EXL3_TRELLIS_MAX_M = Some (TInt (Some 4) (Some 512))"
  "ktype_of GPU_MEMORY_UTILIZATION = Some (TFloat (Some (b64 (1 / 2))) (Some (b64 (99 / 100))) False False)"
  "ktype_of KV_CACHE_MEMORY_BYTES = Some (TInt (Some 0) (Some 1000000000000))"
  "ktype_of LOAD_FORMAT = Some (TChoice [''safetensors'', ''instanttensor''])"
  "ktype_of MODEL_OUTPUT_LIMIT = Some (TInt (Some 256) (Some 262144))"
  "ktype_of OFFLOAD_FRACTION = Some (TFloat (Some (b64 0)) (Some (b64 (19 / 20))) False False)"
  "ktype_of PREFIX_CACHE_BACKEND = Some (TChoice [''native'', ''lmcache''])"
  "ktype_of LMCACHE_L1_MAX_GB = Some (TInt (Some 0) (Some 8192))"
  "ktype_of PREFIX_CACHE_DISK_GB = Some (TInt (Some 0) (Some 8192))"
  "ktype_of PREFIX_CACHE_DISK_FRACTION = Some (TFloat (Some (b64 0)) (Some (b64 1)) False False)"
  "ktype_of VISION = Some TBool"
  "ktype_of VISION_CHUNKS = Some (TInt (Some 1) (Some 64))"
  "ktype_of SERVED_MODEL_NAME = Some TStr"
  by (simp_all only: ktype_of_map_of knob_type_table map_of_Cons_code key.distinct simp_thms if_True if_False)

text \<open>The variants, one unfolding at a time.\<close>

lemmas variant_defs =
  variant_exl3_tr3_def variant_exl3_tr3_max_context_def variant_nvfp4_def
  variant_madeby561_hybrid_def variant_qwen36_nvfp4_def variant_custom_def
  variant_exl3_tr3_3_25bpw_def variant_exl3_tr3_3_36bpw_def variant_exl3_tr3_3_42bpw_def
  variant_exl3_tr3_glm53_3_42bpw_def variant_exl3_tr3_glm53_3_25bpw_def
  variant_exl3_tr3_glm53_3_42bpw_500k_def

lemmas family_defs =
  family_glm52_def family_qwen36_def family_custom_def
  family_glm52_defaults_def family_qwen36_defaults_def family_custom_defaults_def

lemma variant_family_ok: "list_all (\<lambda>(_, v). map_of FAMILIES (v_family v) \<noteq> None) VARIANTS"
  by (simp add: choice_names variant_defs)

lemma family_variant_ok:
  "list_all (\<lambda>(n, f). map_option v_family (map_of VARIANTS (f_default_variant f)) = Some n) FAMILIES"
  by (simp add: choice_names variant_defs family_defs)

lemma variant_draft_ok:
  "list_all (\<lambda>(_, v). case v_default_draft v of None \<Rightarrow> True
     | Some d \<Rightarrow> d \<in> set (map fst DRAFTS)) VARIANTS"
  by (simp add: choice_names variant_defs)

lemma names_stripped: "list_all stripped (map fst FAMILIES @ map fst VARIANTS @ map fst DRAFTS)"
  by (simp add: choice_names value_eval)

text \<open>Every entry of a table of defaults names a knob and is acceptable to it.\<close>

definition entry_ok :: "key \<times> pyval \<Rightarrow> bool" where
  "entry_ok p = (case knob_by_key (fst p) of None \<Rightarrow> False
     | Some kb \<Rightarrow> result_ok (coerce kb (snd p)))"

lemma result_ok_coerce: "fits (ktyp kb) v \<Longrightarrow> result_ok (coerce kb v)"
  by (simp add: coerce_fixes)

definition entry_fits :: "key \<times> pyval \<Rightarrow> bool" where
  "entry_fits p = (case ktype_of (fst p) of None \<Rightarrow> False | Some t \<Rightarrow> fits t (snd p))"

lemma entry_ok_fits: "entry_fits p \<Longrightarrow> entry_ok p"
  by (auto simp: entry_fits_def entry_ok_def ktype_of_def coerce_fixes split: option.splits)

lemma entry_ok_dict_update:
  assumes "list_all entry_ok d" and "list_all entry_ok u"
  shows "list_all entry_ok (dict_update d u)"
proof -
  have upd: "list_all entry_ok d \<Longrightarrow> entry_ok (k, v) \<Longrightarrow> list_all entry_ok (AList.update k v d)" for k v d
    by (induction d) auto
  from assms show ?thesis
    by (induction u arbitrary: d) (auto simp: dict_update_def intro: upd)
qed

lemma coerce_zero_offload: "entry_ok (OFFLOAD_FRACTION, VInt 0)"
  by (simp add: entry_ok_def knob_by_key_def knob_tables) code_simp

lemma coerce_int_interleave: "entry_ok (DCP_KV_CACHE_INTERLEAVE_SIZE, VInt 64)"
  by (simp add: entry_ok_def knob_by_key_def knob_tables) code_simp

lemmas entry_eval =
  entry_ok_fits coerce_zero_offload coerce_int_interleave entry_ok_dict_update entry_fits_def
  choice_names value_eval registry_simps coerce_simps

lemma family_defaults_ok: "list_all (\<lambda>(_, f). list_all entry_ok (f_defaults f)) FAMILIES"
  by (simp add: FAMILIES_def family_defs entry_eval)

lemma variant_defaults_ok: "list_all (\<lambda>(_, v). list_all entry_ok (v_defaults v)) VARIANTS"
  by (simp add: VARIANTS_def variant_defs entry_eval)

section \<open>What the tables promise of single knobs\<close>

lemma knob_default_fits: "kb \<in> set KNOBS \<Longrightarrow> fits (ktyp kb) (kdefault kb)"
  using knob_defaults_fit by (simp add: list_all_iff)

lemma knob_key_inj:
  "kb \<in> set KNOBS \<Longrightarrow> kb' \<in> set KNOBS \<Longrightarrow> kkey kb = kkey kb' \<Longrightarrow> kb = kb'"
  by (metis knob_by_key_self option.inject)

lemma coerce_registered_fits:
  "kb \<in> set KNOBS \<Longrightarrow> coerce kb raw = Inr v \<Longrightarrow> fits (ktyp kb) v"
  by (rule coerce_fits) (auto intro: knob_default_fits)

lemma knob_type: "kb \<in> set KNOBS \<Longrightarrow> ktype_of (kkey kb) = Some t \<Longrightarrow> ktyp kb = t"
  by (simp add: ktype_of_def knob_by_key_self)

lemma family_of_in: "\<exists>n. (n, family_of name) \<in> set FAMILIES"
proof (cases "map_of FAMILIES (if name = [] then ''glm52'' else name)")
  case None
  have "(''glm52'', family_glm52) \<in> set FAMILIES" by (simp add: FAMILIES_def)
  with None show ?thesis unfolding family_of_def by auto
next
  case (Some f)
  then show ?thesis by (auto simp: family_of_def dest: map_of_SomeD)
qed

lemma family_default_variant_fits:
  "fits (TChoice (map fst VARIANTS)) (VStr (f_default_variant (family_of name)))"
proof -
  obtain n where "(n, family_of name) \<in> set FAMILIES" using family_of_in by blast
  then have "map_of VARIANTS (f_default_variant (family_of name)) \<noteq> None"
    using family_variant_ok by (auto simp: list_all_iff)
  then have "f_default_variant (family_of name) \<in> set (map fst VARIANTS)"
    by (metis map_of_eq_None_iff set_map)
  moreover from this have "stripped (f_default_variant (family_of name))"
    using names_stripped by (auto simp: list_all_iff)
  ultimately show ?thesis by (simp add: fits_def)
qed

lemma variant_draft_fits:
  assumes "(n, v) \<in> set VARIANTS" and "v_default_draft v = Some d"
  shows "fits (TChoice (map fst DRAFTS)) (VStr d)"
proof -
  have "d \<in> set (map fst DRAFTS)" using assms variant_draft_ok by (fastforce simp: list_all_iff)
  moreover from this have "stripped d" using names_stripped by (auto simp: list_all_iff)
  ultimately show ?thesis by (simp add: fits_def)
qed

text \<open>The default of every family and variant reaches the knob it names.\<close>

lemma family_entry_ok:
  assumes "map_of (f_defaults (family_of name)) k = Some raw"
  obtains kb v where "knob_by_key k = Some kb" "coerce kb raw = Inr v"
proof -
  obtain n where "(n, family_of name) \<in> set FAMILIES" using family_of_in by blast
  with map_of_SomeD [OF assms] family_defaults_ok have "entry_ok (k, raw)"
    by (fastforce simp: list_all_iff)
  then show thesis using that by (auto simp: entry_ok_def split: option.splits elim: result_okE)
qed

lemma variant_entry_ok:
  assumes "(n, v) \<in> set VARIANTS" and "(k, raw) \<in> set (v_defaults v)"
  obtains kb w where "knob_by_key k = Some kb" "coerce kb raw = Inr w"
proof -
  have "entry_ok (k, raw)" using assms variant_defaults_ok by (fastforce simp: list_all_iff)
  then show thesis using that by (auto simp: entry_ok_def split: option.splits elim: result_okE)
qed

end
