(* ===== verification/Resolve.thy ===== *)
theory Resolve
  imports Layers
begin

text \<open>
  \<open>resolve\<close> of \<^verbatim>\<open>scripts/glm_config.py\<close>: one pass over the registry that layers default, family,
  detected hardware, environment and state file for each knob, then the variant's own defaults, the
  variant's stock draft, the detected context-parallel size and the draft switch.
\<close>

section \<open>One knob through the layers\<close>

datatype source =
  SDefault | SFamily | SDetected | SVariant | SEnv | SFile | SNA | SDerived

datatype cfg_note =
    InvalidEnv cfg_error
  | StateIgnored cfg_error
  | FamilyDefaultBad cfg_error
  | EnvBad cfg_error
  | LockedKey key
  | StateBad cfg_error
  | UnknownKeys "key list"
  | VariantDefaultBad cfg_error
  | DraftOffOverrides

text \<open>
  The value so far, its source, the last error of a strict layer, and the notes.
\<close>

record slot =
  s_value :: pyval
  s_source :: source
  s_invalid :: "cfg_error option"
  s_notes :: "cfg_note list"

definition default_slot :: "family \<Rightarrow> knob \<Rightarrow> slot" where
  "default_slot fam kb =
     (if kkey kb = MODEL_VARIANT
      then \<lparr>s_value = VStr (f_default_variant fam), s_source = SFamily, s_invalid = None, s_notes = []\<rparr>
      else \<lparr>s_value = kdefault kb, s_source = SDefault, s_invalid = None, s_notes = []\<rparr>)"

definition family_slot :: "family \<Rightarrow> knob \<Rightarrow> slot \<Rightarrow> slot" where
  "family_slot fam kb s =
     (case map_of (f_defaults fam) (kkey kb) of None \<Rightarrow> s
      | Some raw \<Rightarrow>
          (case coerce kb raw of
             Inr v \<Rightarrow> s\<lparr>s_value := v, s_source := SFamily\<rparr>
           | Inl e \<Rightarrow> s\<lparr>s_notes := s_notes s @ [FamilyDefaultBad e]\<rparr>))"

definition detected_slot :: "int option \<Rightarrow> knob \<Rightarrow> slot \<Rightarrow> slot" where
  "detected_slot ngpu kb s =
     (case ngpu of None \<Rightarrow> s
      | Some n \<Rightarrow>
          if kkey kb = TENSOR_PARALLEL_SIZE
          then s\<lparr>s_value := VInt (case ktyp kb of TInt _ (Some hi) \<Rightarrow> min n hi | _ \<Rightarrow> n),
                 s_source := SDetected\<rparr>
          else if kkey kb = DCP
          then s\<lparr>s_value := VStr (show_int (min n 8)), s_source := SDetected\<rparr>
          else s)"

definition env_slot :: "dict \<Rightarrow> knob \<Rightarrow> slot \<Rightarrow> slot" where
  "env_slot env_values kb s =
     (case map_of env_values (kkey kb) of None \<Rightarrow> s
      | Some raw \<Rightarrow>
          (case coerce kb raw of
             Inr v \<Rightarrow> s\<lparr>s_value := v, s_source := SEnv\<rparr>
           | Inl e \<Rightarrow> s\<lparr>s_notes := s_notes s @ [EnvBad e],
                        s_invalid := (if kreject kb then Some e else s_invalid s)\<rparr>))"

definition file_slot :: "dict \<Rightarrow> knob \<Rightarrow> slot \<Rightarrow> slot" where
  "file_slot state_values kb s =
     (case map_of state_values (kkey kb) of None \<Rightarrow> s
      | Some raw \<Rightarrow>
          if \<not> kedit kb then s\<lparr>s_notes := s_notes s @ [LockedKey (kkey kb)]\<rparr>
          else (case coerce kb raw of
                  Inr v \<Rightarrow> s\<lparr>s_value := v, s_source := SFile\<rparr>
                | Inl e \<Rightarrow> s\<lparr>s_notes := s_notes s @ [StateBad e],
                             s_invalid := (if kreject kb then Some e else s_invalid s)\<rparr>))"

definition resolve_knob ::
    "string \<Rightarrow> int option \<Rightarrow> dict \<Rightarrow> dict \<Rightarrow> knob \<Rightarrow> resolve_error + slot" where
  "resolve_knob fam_name ngpu env_values state_values kb =
     (let fam = family_of fam_name;
          s = file_slot state_values kb (env_slot env_values kb
                (detected_slot ngpu kb (family_slot fam kb (default_slot fam kb))))
      in case s_invalid s of
           Some e \<Rightarrow> if s_source s \<noteq> SFile \<and> applies_to kb fam_name then Inl (Strict e)
                     else Inr (if applies_to kb fam_name then s else s\<lparr>s_source := SNA\<rparr>)
         | None \<Rightarrow> Inr (if applies_to kb fam_name then s else s\<lparr>s_source := SNA\<rparr>))"

section \<open>The whole registry\<close>

text \<open>\<open>effective\<close>, \<open>sources\<close> and \<open>notes\<close>.\<close>

record resolved =
  eff :: "key \<Rightarrow> pyval option"
  src :: "key \<Rightarrow> source option"
  r_notes :: "cfg_note list"

definition resolve_step ::
    "string \<Rightarrow> int option \<Rightarrow> dict \<Rightarrow> dict \<Rightarrow> knob \<Rightarrow> resolved \<Rightarrow> resolve_error + resolved" where
  "resolve_step fam_name ngpu env_values state_values kb r =
     result_bind (resolve_knob fam_name ngpu env_values state_values kb)
       (\<lambda>s. Inr \<lparr>eff = (eff r)(kkey kb \<mapsto> s_value s), src = (src r)(kkey kb \<mapsto> s_source s),
                 r_notes = r_notes r @ s_notes s\<rparr>)"

text \<open>The checkpoint variant's measured defaults, above the family and below explicit choices.\<close>

definition variant_step :: "key \<times> pyval \<Rightarrow> resolved \<Rightarrow> resolved" where
  "variant_step p r =
     (case knob_by_key (fst p) of None \<Rightarrow> r
      | Some kb \<Rightarrow>
          if src r (fst p) \<notin> {Some SDefault, Some SFamily, Some SDetected} then r
          else (case coerce kb (snd p) of
                  Inr v \<Rightarrow> r\<lparr>eff := (eff r)(fst p \<mapsto> v), src := (src r)(fst p \<mapsto> SVariant)\<rparr>
                | Inl e \<Rightarrow> r\<lparr>r_notes := r_notes r @ [VariantDefaultBad e]\<rparr>))"

definition selected_variant :: "(key \<Rightarrow> pyval option) \<Rightarrow> variant option" where
  "selected_variant e = (case e MODEL_VARIANT of Some (VStr s) \<Rightarrow> map_of VARIANTS s | _ \<Rightarrow> None)"

definition variant_layer :: "resolved \<Rightarrow> resolved" where
  "variant_layer r = (case selected_variant (eff r) of None \<Rightarrow> r
     | Some v \<Rightarrow> fold variant_step (v_defaults v) r)"

definition stock_draft :: "string \<Rightarrow> resolved \<Rightarrow> resolved" where
  "stock_draft fam_name r =
     (case selected_variant (eff r) of None \<Rightarrow> r
      | Some v \<Rightarrow>
          (case v_default_draft v of None \<Rightarrow> r
           | Some d \<Rightarrow>
               if fam_name = ''glm52'' \<and> d \<noteq> [] \<and> src r MTP_DRAFT \<in> {Some SDefault, Some SFamily}
               then r\<lparr>eff := (eff r)(MTP_DRAFT \<mapsto> VStr d), src := (src r)(MTP_DRAFT \<mapsto> SVariant)\<rparr>
               else r))"

definition as_int :: "pyval option \<Rightarrow> int" where
  "as_int v = (case v of Some (VInt i) \<Rightarrow> i | Some (VBool b) \<Rightarrow> (if b then 1 else 0) | _ \<Rightarrow> 0)"

text \<open>
  A detected context-parallel size follows the resolved tensor-parallel size: the largest legal
  choice that divides it.
\<close>

definition dcp_choices :: "int list" where
  "dcp_choices = [8, 4, 2, 1]"

definition dcp_for :: "int \<Rightarrow> int" where
  "dcp_for tp = (case find (\<lambda>c. c \<le> tp \<and> tp mod c = 0) dcp_choices of None \<Rightarrow> 1 | Some c \<Rightarrow> c)"

definition detected_dcp :: "resolved \<Rightarrow> resolved" where
  "detected_dcp r =
     (if src r DCP = Some SDetected
      then let tp0 = as_int (eff r TENSOR_PARALLEL_SIZE); tp = (if tp0 = 0 then 1 else tp0)
           in r\<lparr>eff := (eff r)(DCP \<mapsto> VStr (show_int (dcp_for tp)))\<rparr>
      else r)"

text \<open>\<open>MTP_DRAFT=off\<close> is made authoritative: the speculation depth becomes 0.\<close>

definition draft_off :: "string \<Rightarrow> resolved \<Rightarrow> resolved" where
  "draft_off fam_name r =
     (if fam_name = ''glm52'' \<and> eff r MTP_DRAFT = Some (VStr ''off'')
         \<and> (case eff r MTP_TOKENS of None \<Rightarrow> False | Some v \<Rightarrow> truthy v)
      then r\<lparr>eff := (eff r)(MTP_TOKENS \<mapsto> VInt 0), src := (src r)(MTP_TOKENS \<mapsto> SDerived),
             r_notes := r_notes r @ (if src r MTP_TOKENS \<in> {Some SEnv, Some SFile}
                                 then [DraftOffOverrides] else [])\<rparr>
      else r)"

definition unknown_keys :: "dict \<Rightarrow> key list" where
  "unknown_keys d = filter (\<lambda>k. knob_by_key k = None) (map fst d)"

definition empty_resolved :: resolved where
  "empty_resolved = \<lparr>eff = (\<lambda>_. None), src = (\<lambda>_. None), r_notes = []\<rparr>"

definition resolve_with ::
    "cfg_note list \<Rightarrow> env \<Rightarrow> dict \<Rightarrow> env_doc \<Rightarrow> resolve_error + resolved" where
  "resolve_with ns proc state_values d =
     result_bind (resolve_family state_values (layer d)) (\<lambda>fam_name.
     result_bind
       (fold_result (resolve_step fam_name (detected_gpu_count proc d) (layer d) state_values) KNOBS
          (empty_resolved\<lparr>r_notes := map InvalidEnv (invalid_env d) @ ns\<rparr>)) (\<lambda>r.
     let r1 = (if unknown_keys state_values = [] then r
               else r\<lparr>r_notes := r_notes r @ [UnknownKeys (unknown_keys state_values)]\<rparr>)
     in Inr (draft_off fam_name (detected_dcp (stock_draft fam_name (variant_layer r1))))))"

text \<open>\<open>resolve(state_values=..., env_values=...)\<close> with both layers given.\<close>

definition resolve :: "env \<Rightarrow> dict \<Rightarrow> env_doc \<Rightarrow> resolve_error + resolved" where
  "resolve proc state_values d = resolve_with [] proc state_values d"

text \<open>With no explicit state values the state file is read; an unusable one is noted and ignored.\<close>

definition resolve_boot :: "env \<Rightarrow> state_file \<Rightarrow> env_doc \<Rightarrow> resolve_error + resolved" where
  "resolve_boot proc f d =
     (case load_state_file f of
        Inr vs \<Rightarrow> resolve_with [] proc vs d
      | Inl e \<Rightarrow> resolve_with [StateIgnored e] proc [] d)"

end
