(* ===== verification/ResolveFacts.thy ===== *)
theory ResolveFacts
  imports RegistryFacts Resolve
begin

text \<open>
  What resolution guarantees: the value and source of a knob after the pass over the registry, and
  how the later steps (variant defaults, stock draft, detected context-parallel size, draft switch)
  keep every value in its knob's type.
\<close>

section \<open>One knob\<close>

text \<open>A value the hardware offers for the context-parallel size, before it is rounded to a legal one.\<close>

definition provisional :: "knob \<Rightarrow> slot \<Rightarrow> bool" where
  "provisional kb s \<longleftrightarrow> kkey kb = DCP \<and> s_source s = SDetected \<and> (\<exists>t. s_value s = VStr t)"

lemma default_slot_fits:
  assumes "kb \<in> set KNOBS"
  shows "fits (ktyp kb) (s_value (default_slot fam kb)) \<or> kkey kb = MODEL_VARIANT"
  using assms by (simp add: default_slot_def knob_default_fits)

lemma default_slot_of_family_fits:
  assumes "kb \<in> set KNOBS"
  shows "fits (ktyp kb) (s_value (default_slot (family_of name) kb))"
proof (cases "kkey kb = MODEL_VARIANT")
  case True
  with knob_type [OF assms] have "ktyp kb = TChoice (map fst VARIANTS)"
    by (simp add: registry_simps)
  with True family_default_variant_fits [of name] show ?thesis by (simp add: default_slot_def)
qed (use assms in \<open>simp add: default_slot_def knob_default_fits\<close>)

lemma family_slot_fits:
  assumes "kb \<in> set KNOBS" and "fits (ktyp kb) (s_value s)"
  shows "fits (ktyp kb) (s_value (family_slot fam kb s))"
  using assms by (auto simp: family_slot_def intro: coerce_registered_fits split: option.splits sum.splits)

lemma detected_slot_fits:
  assumes "kb \<in> set KNOBS" and "fits (ktyp kb) (s_value s)" and "\<And>n. ngpu = Some n \<Longrightarrow> 0 < n"
  shows "fits (ktyp kb) (s_value (detected_slot ngpu kb s)) \<or>
         provisional kb (detected_slot ngpu kb s)"
proof (cases "kkey kb = TENSOR_PARALLEL_SIZE")
  case True
  with knob_type [OF assms(1)] have "ktyp kb = TInt (Some 1) (Some 16)" by (simp add: registry_simps)
  with True assms(2,3) show ?thesis
    by (auto simp: detected_slot_def coerce_simps min_def split: option.splits)
qed (use assms in \<open>auto simp: detected_slot_def provisional_def split: option.splits\<close>)

lemma env_slot_fits:
  assumes "kb \<in> set KNOBS"
    and "fits (ktyp kb) (s_value s) \<or> provisional kb s"
  shows "fits (ktyp kb) (s_value (env_slot e kb s)) \<or>
         provisional kb (env_slot e kb s)"
  using assms by (auto simp: env_slot_def provisional_def intro: coerce_registered_fits split: option.splits sum.splits)

lemma file_slot_fits:
  assumes "kb \<in> set KNOBS"
    and "fits (ktyp kb) (s_value s) \<or> provisional kb s"
  shows "fits (ktyp kb) (s_value (file_slot sv kb s)) \<or>
         provisional kb (file_slot sv kb s)"
  using assms by (auto simp: file_slot_def provisional_def intro: coerce_registered_fits split: option.splits sum.splits)

lemma detected_gpu_count_pos: "detected_gpu_count proc d = Some n \<Longrightarrow> 0 < n"
  by (auto simp: detected_gpu_count_def Let_def split: option.splits if_splits)

text \<open>The slot before the applicability check.\<close>

definition raw_slot :: "string \<Rightarrow> int option \<Rightarrow> dict \<Rightarrow> dict \<Rightarrow> knob \<Rightarrow> slot" where
  "raw_slot fam_name ngpu env_values state_values kb =
     file_slot state_values kb (env_slot env_values kb
       (detected_slot ngpu kb (family_slot (family_of fam_name) kb
         (default_slot (family_of fam_name) kb))))"

lemma raw_slot_fits:
  assumes "kb \<in> set KNOBS" and "\<And>n. ngpu = Some n \<Longrightarrow> 0 < n"
  shows "fits (ktyp kb) (s_value (raw_slot fam ngpu ev sv kb)) \<or>
         provisional kb (raw_slot fam ngpu ev sv kb)"
  unfolding raw_slot_def using assms
  by (intro file_slot_fits env_slot_fits detected_slot_fits family_slot_fits
        default_slot_of_family_fits) auto

lemma resolve_knob_Inr_iff:
  "resolve_knob fam ngpu ev sv kb = Inr s \<longleftrightarrow>
     (let r = raw_slot fam ngpu ev sv kb in
      (s_invalid r = None \<or> s_source r = SFile \<or> \<not> applies_to kb fam) \<and>
      s = (if applies_to kb fam then r else r\<lparr>s_source := SNA\<rparr>))"
  by (auto simp: resolve_knob_def raw_slot_def Let_def split: option.splits)

lemma resolve_knob_Inl_iff:
  "resolve_knob fam ngpu ev sv kb = Inl x \<longleftrightarrow>
     (\<exists>e. x = Strict e \<and> s_invalid (raw_slot fam ngpu ev sv kb) = Some e \<and>
          s_source (raw_slot fam ngpu ev sv kb) \<noteq> SFile \<and> applies_to kb fam)"
  by (auto simp: resolve_knob_def raw_slot_def Let_def split: option.splits)

section \<open>The pass over the registry\<close>

lemma resolve_step_Inr_iff:
  "resolve_step fam ngpu ev sv kb r0 = Inr r \<longleftrightarrow>
     (\<exists>s. resolve_knob fam ngpu ev sv kb = Inr s \<and>
          r = \<lparr>eff = (eff r0)(kkey kb \<mapsto> s_value s), src = (src r0)(kkey kb \<mapsto> s_source s),
               r_notes = r_notes r0 @ s_notes s\<rparr>)"
  by (auto simp: resolve_step_def result_bind_Inr_iff)

text \<open>After the pass every knob holds its own slot, and other keys are as before.\<close>

lemma registry_pass:
  assumes "fold_result (resolve_step fam ngpu ev sv) ks r0 = Inr r" and "distinct (map kkey ks)"
  shows "(\<forall>kb\<in>set ks. \<exists>s. resolve_knob fam ngpu ev sv kb = Inr s \<and>
             eff r (kkey kb) = Some (s_value s) \<and> src r (kkey kb) = Some (s_source s)) \<and>
         (\<forall>k. k \<notin> kkey ` set ks \<longrightarrow> eff r k = eff r0 k \<and> src r k = src r0 k)"
  using assms
proof (induction ks arbitrary: r0)
  case Nil
  then show ?case by simp
next
  case (Cons kb ks)
  from Cons.prems(1) obtain s where s: "resolve_knob fam ngpu ev sv kb = Inr s"
    and rest: "fold_result (resolve_step fam ngpu ev sv) ks
       \<lparr>eff = (eff r0)(kkey kb \<mapsto> s_value s), src = (src r0)(kkey kb \<mapsto> s_source s),
        r_notes = r_notes r0 @ s_notes s\<rparr> = Inr r"
    by (fastforce simp: result_bind_Inr_iff resolve_step_Inr_iff)
  have fresh: "kkey kb \<notin> kkey ` set ks" using Cons.prems(2) by auto
  show ?case using Cons.IH [OF rest] Cons.prems(2) s fresh by auto
qed

lemma registry_pass_ok:
  "result_ok (fold_result (resolve_step fam ngpu ev sv) ks r0) \<longleftrightarrow>
     (\<forall>kb\<in>set ks. result_ok (resolve_knob fam ngpu ev sv kb))"
  by (rule fold_result_ok_iff) (auto simp: resolve_step_def result_bind_def split: sum.splits)

section \<open>Every value is of its knob's type\<close>

definition value_ok :: "resolved \<Rightarrow> knob \<Rightarrow> bool" where
  "value_ok r kb = (\<exists>v. eff r (kkey kb) = Some v \<and>
     (fits (ktyp kb) v \<or> kkey kb = DCP \<and> src r DCP \<in> {Some SNA, Some SDetected} \<and> (\<exists>t. v = VStr t)))"

definition typed :: "resolved \<Rightarrow> bool" where
  "typed r = (\<forall>kb\<in>set KNOBS. value_ok r kb)"

lemma typed_cong: "eff r = eff r' \<Longrightarrow> src r = src r' \<Longrightarrow> typed r = typed r'"
  by (simp add: typed_def value_ok_def)

text \<open>Setting one registered knob to a value of its type keeps the map typed.\<close>

lemma typed_set:
  assumes "typed r" and "ktype_of k = Some t" and "fits t v"
  shows "typed (r\<lparr>eff := (eff r)(k \<mapsto> v), src := (src r)(k \<mapsto> s), r_notes := ns\<rparr>)"
  unfolding typed_def
proof
  fix kb assume kb: "kb \<in> set KNOBS"
  have "kkey kb = k \<Longrightarrow> fits (ktyp kb) v" using knob_type [OF kb] assms(2,3) by auto
  moreover have "value_ok r kb" using assms(1) kb by (simp add: typed_def)
  ultimately show "value_ok (r\<lparr>eff := (eff r)(k \<mapsto> v), src := (src r)(k \<mapsto> s), r_notes := ns\<rparr>) kb"
    by (cases "kkey kb = k") (auto simp: value_ok_def)
qed

lemma typed_set': 
  assumes "typed r" and "ktype_of k = Some t" and "fits t v"
  shows "typed (r\<lparr>eff := (eff r)(k \<mapsto> v), src := (src r)(k \<mapsto> s)\<rparr>)"
  using typed_set [OF assms, where s = s and ns = "r_notes r"] by simp

lemma registry_pass_typed:
  assumes "fold_result (resolve_step fam ngpu ev sv) KNOBS r0 = Inr r"
    and "\<And>n. ngpu = Some n \<Longrightarrow> 0 < n"
  shows "typed r"
  unfolding typed_def
proof
  fix kb assume kb: "kb \<in> set KNOBS"
  with registry_pass [OF assms(1) knob_keys_distinct] obtain s
    where s: "resolve_knob fam ngpu ev sv kb = Inr s"
      and e: "eff r (kkey kb) = Some (s_value s)" "src r (kkey kb) = Some (s_source s)" by blast
  have "fits (ktyp kb) (s_value s) \<or> kkey kb = DCP \<and> s_source s \<in> {SNA, SDetected} \<and> (\<exists>t. s_value s = VStr t)"
    using raw_slot_fits [OF kb assms(2), where fam = fam and ev = ev and sv = sv] s
    by (auto simp: resolve_knob_Inr_iff Let_def provisional_def split: if_splits)
  with e show "value_ok r kb" by (auto simp: value_ok_def)
qed

lemma variant_step_typed:
  assumes "typed r"
  shows "typed (variant_step p r)"
proof (cases "knob_by_key (fst p)")
  case (Some kb)
  then have kb: "kb \<in> set KNOBS" "ktype_of (fst p) = Some (ktyp kb)"
    by (auto simp: ktype_of_def dest: knob_by_key_Some)
  show ?thesis
  proof (cases "coerce kb (snd p)")
    case (Inl e)
    with Some assms show ?thesis by (simp add: variant_step_def cong: typed_cong)
  next
    case (Inr v)
    then have "fits (ktyp kb) v" by (rule coerce_registered_fits [OF kb(1)])
    from typed_set' [OF assms kb(2) this] Some Inr assms show ?thesis by (simp add: variant_step_def)
  qed
qed (use assms in \<open>simp add: variant_step_def\<close>)

lemma fold_invariant_all: "P r \<Longrightarrow> (\<And>x r. P r \<Longrightarrow> P (f x r)) \<Longrightarrow> P (fold f xs r)"
  by (induction xs arbitrary: r) auto

lemma variant_layer_typed: "typed r \<Longrightarrow> typed (variant_layer r)"
  by (auto simp: variant_layer_def intro: fold_invariant_all variant_step_typed split: option.splits)

lemma selected_variant_in: "selected_variant e = Some v \<Longrightarrow> \<exists>n. (n, v) \<in> set VARIANTS"
  by (auto simp: selected_variant_def dest: map_of_SomeD split: option.splits pyval.splits)

lemma stock_draft_typed: "typed r \<Longrightarrow> typed (stock_draft fam r)"
  by (auto simp: stock_draft_def registry_simps split: option.splits
      dest!: selected_variant_in intro!: typed_set' variant_draft_fits)

lemma dcp_for_choice: "dcp_for n \<in> {1, 2, 4, 8}"
  by (auto simp: dcp_for_def dcp_choices_def)

lemma ktype_of_DCP: "ktype_of DCP = Some (TChoice [''1'', ''2'', ''4'', ''8''])"
  by (simp add: registry_simps)

lemma show_dcp: "n \<in> {1, 2, 4, 8} \<Longrightarrow> fits (TChoice [''1'', ''2'', ''4'', ''8'']) (VStr (show_int n))"
proof -
  have "show_int 1 = ''1''" "show_int 2 = ''2''" "show_int 4 = ''4''" "show_int 8 = ''8''"
    by code_simp+
  then show "n \<in> {1, 2, 4, 8} \<Longrightarrow> ?thesis" by (auto simp: coerce_simps value_eval)
qed

lemma detected_dcp_typed:
  assumes "typed r"
  shows "typed (detected_dcp r)"
proof (cases "src r DCP = Some SDetected")
  case True
  then have "detected_dcp r = r\<lparr>eff := eff (detected_dcp r), src := (src r)(DCP \<mapsto> SDetected)\<rparr>"
    by (simp add: detected_dcp_def Let_def fun_upd_idem)
  moreover obtain n where "eff (detected_dcp r) = (eff r)(DCP \<mapsto> VStr (show_int (dcp_for n)))"
    using True by (simp add: detected_dcp_def Let_def)
  ultimately have "detected_dcp r =
      r\<lparr>eff := (eff r)(DCP \<mapsto> VStr (show_int (dcp_for n))), src := (src r)(DCP \<mapsto> SDetected)\<rparr>"
    by simp
  then show ?thesis
    using typed_set' [OF assms ktype_of_DCP show_dcp [OF dcp_for_choice]] by simp
qed (use assms in \<open>simp add: detected_dcp_def\<close>)

lemma draft_off_typed:
  assumes "typed r"
  shows "typed (draft_off fam r)"
proof -
  have "ktype_of MTP_TOKENS = Some (TInt (Some 0) (Some 8))" "fits (TInt (Some 0) (Some 8)) (VInt 0)"
    by (simp_all add: registry_simps coerce_simps)
  from typed_set [OF assms this] assms show ?thesis unfolding draft_off_def by simp
qed

section \<open>The shape of a successful resolution\<close>

definition finish :: "string \<Rightarrow> resolved \<Rightarrow> resolved" where
  "finish fam r = draft_off fam (detected_dcp (stock_draft fam (variant_layer r)))"

lemma finish_typed: "typed r \<Longrightarrow> typed (finish fam r)"
  by (simp add: finish_def variant_layer_typed stock_draft_typed detected_dcp_typed draft_off_typed)

lemma resolve_withE:
  assumes "resolve_with ns proc sv d = Inr r"
  obtains fam r0 r1 where "resolve_family sv (layer d) = Inr fam"
    and "fold_result (resolve_step fam (detected_gpu_count proc d) (layer d) sv) KNOBS
           (empty_resolved\<lparr>r_notes := map InvalidEnv (invalid_env d) @ ns\<rparr>) = Inr r0"
    and "eff r1 = eff r0" and "src r1 = src r0" and "r = finish fam r1"
proof -
  let ?base = "empty_resolved\<lparr>r_notes := map InvalidEnv (invalid_env d) @ ns\<rparr>"
  from assms obtain fam r0 where *: "resolve_family sv (layer d) = Inr fam"
      "fold_result (resolve_step fam (detected_gpu_count proc d) (layer d) sv) KNOBS ?base = Inr r0"
      "r = finish fam (if unknown_keys sv = [] then r0
             else r0\<lparr>r_notes := r_notes r0 @ [UnknownKeys (unknown_keys sv)]\<rparr>)"
    by (auto simp: resolve_with_def result_bind_Inr_iff finish_def Let_def)
  show thesis by (rule that [OF *(1,2) _ _ *(3)]) simp_all
qed

lemma resolve_with_typed: "resolve_with ns proc sv d = Inr r \<Longrightarrow> typed r"
  by (erule resolve_withE)
    (metis finish_typed registry_pass_typed detected_gpu_count_pos typed_cong)

section \<open>Precedence of the layers\<close>

text \<open>
  The specification: per knob, the layers from the strongest to the weakest, each with the value it
  offers. A layer offers nothing when it does not set the knob or sets it to a value the knob's type
  refuses; the first offer is the effective value.
\<close>

definition offer :: "dict \<Rightarrow> knob \<Rightarrow> pyval option" where
  "offer d kb = (case map_of d (kkey kb) of None \<Rightarrow> None
     | Some raw \<Rightarrow> (case coerce kb raw of Inl _ \<Rightarrow> None | Inr v \<Rightarrow> Some v))"

definition hardware_offer :: "int option \<Rightarrow> knob \<Rightarrow> pyval option" where
  "hardware_offer ngpu kb = (case ngpu of None \<Rightarrow> None
     | Some n \<Rightarrow> if kkey kb = TENSOR_PARALLEL_SIZE then Some (VInt (min n 16))
                 else if kkey kb = DCP then Some (VStr (show_int (min n 8))) else None)"

definition family_offer :: "string \<Rightarrow> knob \<Rightarrow> pyval option" where
  "family_offer fam kb =
     (case offer (f_defaults (family_of fam)) kb of
        None \<Rightarrow> if kkey kb = MODEL_VARIANT then Some (VStr (f_default_variant (family_of fam))) else None
      | Some v \<Rightarrow> Some v)"

definition variant_offer :: "string \<Rightarrow> variant option \<Rightarrow> knob \<Rightarrow> pyval option" where
  "variant_offer fam var kb = (case var of None \<Rightarrow> None
     | Some v \<Rightarrow> if applies_to kb fam then offer (v_defaults v) kb else None)"

fun first_offer :: "('a \<times> 'b option) list \<Rightarrow> ('a \<times> 'b) option" where
  "first_offer [] = None"
| "first_offer ((s, Some v) # _) = Some (s, v)"
| "first_offer ((s, None) # rest) = first_offer rest"

definition precedence ::
    "string \<Rightarrow> int option \<Rightarrow> dict \<Rightarrow> dict \<Rightarrow> variant option \<Rightarrow> knob \<Rightarrow> (source \<times> pyval) option" where
  "precedence fam ngpu ev sv var kb = first_offer
     [(SFile, offer sv kb), (SEnv, offer ev kb), (SVariant, variant_offer fam var kb),
      (SDetected, hardware_offer ngpu kb), (SFamily, family_offer fam kb),
      (SDefault, Some (kdefault kb))]"

lemma knobs_editable: "list_all kedit KNOBS"
  by (simp add: knob_tables)

text \<open>What a slot holds, and each layer's effect on it.\<close>

definition holding :: "slot \<Rightarrow> source \<times> pyval" where
  "holding s = (s_source s, s_value s)"

definition override :: "source \<Rightarrow> pyval option \<Rightarrow> source \<times> pyval \<Rightarrow> source \<times> pyval" where
  "override l offered h = (case offered of None \<Rightarrow> h | Some v \<Rightarrow> (l, v))"

lemma first_offer_override: "first_offer ((l, x) # rest) = (case first_offer rest of
    None \<Rightarrow> map_option (\<lambda>v. (l, v)) x | Some h \<Rightarrow> Some (override l x h))"
  by (cases x) (auto simp: override_def split: option.splits)

lemma holding_file: "kedit kb \<Longrightarrow>
    holding (file_slot sv kb s) = override SFile (offer sv kb) (holding s)"
  by (simp add: holding_def override_def offer_def file_slot_def split: option.splits sum.splits)

lemma holding_env: "holding (env_slot ev kb s) = override SEnv (offer ev kb) (holding s)"
  by (simp add: holding_def override_def offer_def env_slot_def split: option.splits sum.splits)

lemma holding_detected:
  assumes "kb \<in> set KNOBS"
  shows "holding (detected_slot ngpu kb s) = override SDetected (hardware_offer ngpu kb) (holding s)"
proof -
  have "kkey kb = TENSOR_PARALLEL_SIZE \<Longrightarrow> ktyp kb = TInt (Some 1) (Some 16)"
    using knob_type [OF assms] by (simp add: registry_simps)
  then show ?thesis
    by (simp add: holding_def override_def hardware_offer_def detected_slot_def split: option.splits)
qed

lemma holding_family: "holding (family_slot (family_of fam) kb (default_slot (family_of fam) kb)) =
    override SFamily (family_offer fam kb) (SDefault, kdefault kb)"
  by (cases "map_of (f_defaults (family_of fam)) (kkey kb)";
      cases "kkey kb = MODEL_VARIANT")
    (simp_all add: holding_def override_def family_offer_def offer_def family_slot_def default_slot_def
      split: sum.splits)

lemma raw_slot_precedence:
  assumes kb: "kb \<in> set KNOBS"
  shows "precedence fam ngpu ev sv None kb = Some (holding (raw_slot fam ngpu ev sv kb))"
proof -
  have "kedit kb" using kb knobs_editable by (simp add: list_all_iff)
  then show ?thesis
    by (simp add: precedence_def first_offer_override variant_offer_def raw_slot_def holding_file
        holding_env holding_detected [OF kb] holding_family) (simp add: override_def)
qed

lemma precedence_variant:
  assumes "precedence fam ngpu ev sv None kb = Some (s, v)"
  shows "precedence fam ngpu ev sv var kb =
    (if s \<in> {SDefault, SFamily, SDetected}
     then Some (override SVariant (variant_offer fam var kb) (s, v)) else Some (s, v))"
  using assms
  by (cases "offer sv kb"; cases "offer ev kb"; cases "hardware_offer ngpu kb"; cases "family_offer fam kb")
    (auto simp: precedence_def first_offer_override override_def variant_offer_def split: option.splits)

text \<open>The variant layer, entry by entry, and as a layer of its own.\<close>

definition weak :: "source option \<Rightarrow> bool" where
  "weak s = (s \<in> {Some SDefault, Some SFamily, Some SDetected})"

lemma weak_simps [simp]:
  "weak (Some SDefault)" "weak (Some SFamily)" "weak (Some SDetected)"
  "\<not> weak (Some SVariant)" "\<not> weak (Some SNA)" "\<not> weak None"
  by (simp_all add: weak_def)

lemma variant_step_at:
  assumes "knob_by_key k = Some kb" and "result_ok (coerce kb raw)"
  shows "eff (variant_step (k, raw) r) =
           (if weak (src r k) then (eff r)(k := map_option id (offer [(k, raw)] kb)) else eff r)"
    and "src (variant_step (k, raw) r) =
           (if weak (src r k) then (src r)(k \<mapsto> SVariant) else src r)"
proof -
  have "kkey kb = k" using assms(1) by (auto dest: knob_by_key_Some)
  with assms show "eff (variant_step (k, raw) r) =
           (if weak (src r k) then (eff r)(k := map_option id (offer [(k, raw)] kb)) else eff r)"
      and "src (variant_step (k, raw) r) =
           (if weak (src r k) then (src r)(k \<mapsto> SVariant) else src r)"
    by (auto simp: variant_step_def weak_def offer_def elim!: result_okE)
qed

lemma fold_variant_step:
  assumes "list_all entry_ok d" and kb: "kb \<in> set KNOBS"
  shows "eff (fold variant_step d r) (kkey kb) =
           (if weak (src r (kkey kb)) \<and> offer d kb \<noteq> None then offer d kb else eff r (kkey kb)) \<and>
         src (fold variant_step d r) (kkey kb) =
           (if weak (src r (kkey kb)) \<and> offer d kb \<noteq> None then Some SVariant else src r (kkey kb))"
  using assms(1)
proof (induction d arbitrary: r)
  case Nil
  then show ?case by (simp add: offer_def)
next
  case (Cons p d)
  obtain k raw where p: "p = (k, raw)" by force
  from Cons.prems p obtain kb' where kb': "knob_by_key k = Some kb'" "result_ok (coerce kb' raw)"
    by (auto simp: entry_ok_def split: option.splits)
  have same: "k = kkey kb \<Longrightarrow> kb' = kb" using kb'(1) knob_by_key_self [OF kb] by simp
  from Cons.prems have ok: "list_all entry_ok d" by simp
  show ?case
  proof (cases "k = kkey kb")
    case True
    with same kb'(2) obtain v where v: "coerce kb raw = Inr v" by (auto elim: result_okE)
    have "offer (p # d) kb = Some v" using p True v by (simp add: offer_def)
    moreover have "offer [(k, raw)] kb' = Some v" using True v same by (simp add: offer_def)
    ultimately show ?thesis
      using Cons.IH [OF ok, of "variant_step p r"] variant_step_at [OF kb', of r] p True by auto
  next
    case False
    then have "offer (p # d) kb = offer d kb" using p by (simp add: offer_def)
    then show ?thesis
      using Cons.IH [OF ok, of "variant_step p r"] variant_step_at [OF kb', of r] p False by auto
  qed
qed

lemma variant_layer_at:
  assumes "kb \<in> set KNOBS"
  shows "eff (variant_layer r) (kkey kb) = (case selected_variant (eff r) of None \<Rightarrow> eff r (kkey kb)
           | Some v \<Rightarrow> if weak (src r (kkey kb)) \<and> offer (v_defaults v) kb \<noteq> None
                       then offer (v_defaults v) kb else eff r (kkey kb)) \<and>
         src (variant_layer r) (kkey kb) = (case selected_variant (eff r) of None \<Rightarrow> src r (kkey kb)
           | Some v \<Rightarrow> if weak (src r (kkey kb)) \<and> offer (v_defaults v) kb \<noteq> None
                       then Some SVariant else src r (kkey kb))"
proof (cases "selected_variant (eff r)")
  case (Some v)
  then have "list_all entry_ok (v_defaults v)"
    using variant_defaults_ok by (auto simp: list_all_iff dest!: selected_variant_in)
  from fold_variant_step [OF this assms] Some show ?thesis by (simp add: variant_layer_def)
qed (simp add: variant_layer_def)

text \<open>No variant table chooses a variant or a family, so the selection survives its own layer.\<close>

lemma variant_tables_keep_selectors:
  "list_all (\<lambda>(_, v). MODEL_VARIANT \<notin> fst ` set (v_defaults v) \<and>
                      MODEL_FAMILY \<notin> fst ` set (v_defaults v)) VARIANTS"
proof -
  have upd: "fst ` set (dict_update d u) = fst ` set d \<union> fst ` set u" for d u :: dict
  proof (induction u arbitrary: d)
    case (Cons p u)
    have "dict_update d (p # u) = dict_update (AList.update (fst p) (snd p) d) u"
      by (simp add: dict_update_def case_prod_beta)
    with Cons show ?case by (simp add: dom_update)
  qed (simp add: dict_update_def)
  show ?thesis by (simp add: VARIANTS_def variant_defs upd)
qed

lemma variant_keeps_selectors:
  assumes "selected_variant e = Some v"
  shows "map_of (v_defaults v) MODEL_VARIANT = None \<and> map_of (v_defaults v) MODEL_FAMILY = None"
proof -
  from selected_variant_in [OF assms] obtain n where "(n, v) \<in> set VARIANTS" by blast
  from variant_tables_keep_selectors [unfolded list_all_iff, rule_format, OF this]
  show ?thesis by (simp add: map_of_eq_None_iff)
qed

lemma registered: "ktype_of k = Some t \<Longrightarrow> \<exists>kb\<in>set KNOBS. kkey kb = k \<and> ktyp kb = t"
  by (auto simp: ktype_of_def dest: knob_by_key_Some)

lemma variant_layer_keeps:
  assumes "k = MODEL_VARIANT \<or> k = MODEL_FAMILY"
  shows "eff (variant_layer r) k = eff r k \<and> src (variant_layer r) k = src r k"
proof (cases "selected_variant (eff r)")
  case (Some v)
  then have "map_of (v_defaults v) k = None" using variant_keeps_selectors [of "eff r" v] assms by auto
  moreover obtain kb where "kb \<in> set KNOBS" "kkey kb = k"
    using assms registered [of MODEL_VARIANT] registered [of MODEL_FAMILY]
    by (auto simp: registry_simps)
  ultimately show ?thesis using variant_layer_at [of kb r] Some by (auto simp: offer_def)
qed (simp add: variant_layer_def)

lemma finish_keeps:
  assumes "k \<notin> {MTP_DRAFT, MTP_TOKENS, DCP}"
  shows "eff (finish fam r) k = eff (variant_layer r) k \<and> src (finish fam r) k = src (variant_layer r) k"
  using assms
  by (auto simp: finish_def draft_off_def detected_dcp_def stock_draft_def Let_def split: option.splits)

lemma finish_selected_variant: "selected_variant (eff (finish fam r)) = selected_variant (eff r)"
  using finish_keeps [of MODEL_VARIANT fam r] variant_layer_keeps [of MODEL_VARIANT r]
  by (simp add: selected_variant_def)

lemma registry_pass_at:
  assumes "fold_result (resolve_step fam ngpu ev sv) KNOBS r0 = Inr r" and kb: "kb \<in> set KNOBS"
  shows "\<exists>s v. precedence fam ngpu ev sv None kb = Some (s, v) \<and> eff r (kkey kb) = Some v \<and>
           src r (kkey kb) = Some (if applies_to kb fam then s else SNA)"
proof -
  from registry_pass [OF assms(1) knob_keys_distinct] kb obtain sl
    where "resolve_knob fam ngpu ev sv kb = Inr sl"
      "eff r (kkey kb) = Some (s_value sl)" "src r (kkey kb) = Some (s_source sl)" by blast
  then show ?thesis using raw_slot_precedence [OF kb, of fam ngpu ev sv]
    by (auto simp: resolve_knob_Inr_iff Let_def holding_def)
qed

text \<open>Before the last three steps every knob, without exception, follows the precedence.\<close>

lemma resolve_with_layers:
  assumes "resolve_with ns proc sv d = Inr r" and fam: "resolve_family sv (layer d) = Inr fam"
  obtains r1 where "r = finish fam r1"
    and "\<And>kb. kb \<in> set KNOBS \<Longrightarrow>
      \<exists>s v. precedence fam (detected_gpu_count proc d) (layer d) sv (selected_variant (eff r)) kb
               = Some (s, v) \<and>
           eff (variant_layer r1) (kkey kb) = Some v \<and>
           src (variant_layer r1) (kkey kb) = Some (if applies_to kb fam then s else SNA)"
proof -
  from assms obtain r0 r1 where
    pass: "fold_result (resolve_step fam (detected_gpu_count proc d) (layer d) sv) KNOBS
           (empty_resolved\<lparr>r_notes := map InvalidEnv (invalid_env d) @ ns\<rparr>) = Inr r0"
    and r1: "eff r1 = eff r0" "src r1 = src r0" and r: "r = finish fam r1"
    by (elim resolve_withE) auto
  have sel: "selected_variant (eff r) = selected_variant (eff r1)"
    by (simp add: r finish_selected_variant)
  show thesis
  proof (rule that [OF r])
    fix kb assume kb: "kb \<in> set KNOBS"
    from registry_pass_at [OF pass kb] obtain s v where
      p: "precedence fam (detected_gpu_count proc d) (layer d) sv None kb = Some (s, v)"
      and e: "eff r0 (kkey kb) = Some v" "src r0 (kkey kb) = Some (if applies_to kb fam then s else SNA)"
      by blast
    have weak_s: "weak (src r1 (kkey kb)) \<longleftrightarrow> applies_to kb fam \<and> s \<in> {SDefault, SFamily, SDetected}"
      using e(2) r1 by (auto simp: weak_def)
    show "\<exists>s v. precedence fam (detected_gpu_count proc d) (layer d) sv (selected_variant (eff r)) kb
               = Some (s, v) \<and>
           eff (variant_layer r1) (kkey kb) = Some v \<and>
           src (variant_layer r1) (kkey kb) = Some (if applies_to kb fam then s else SNA)"
      using precedence_variant [OF p, of "selected_variant (eff r)"]
        variant_layer_at [OF kb, of r1] e r1 weak_s sel
      by (auto simp: variant_offer_def override_def split: option.splits if_splits)
  qed
qed

lemma resolve_precedence_all:
  assumes "resolve_with ns proc sv d = Inr r" and "resolve_family sv (layer d) = Inr fam"
    and kb: "kb \<in> set KNOBS" and k: "kkey kb \<notin> {MTP_DRAFT, MTP_TOKENS, DCP}"
  shows "\<exists>s v. precedence fam (detected_gpu_count proc d) (layer d) sv (selected_variant (eff r)) kb
             = Some (s, v) \<and>
           eff r (kkey kb) = Some v \<and> src r (kkey kb) = Some (if applies_to kb fam then s else SNA)"
proof -
  from assms(1,2) obtain r1 where "r = finish fam r1"
    and "\<And>kb. kb \<in> set KNOBS \<Longrightarrow>
      \<exists>s v. precedence fam (detected_gpu_count proc d) (layer d) sv (selected_variant (eff r)) kb
               = Some (s, v) \<and> eff (variant_layer r1) (kkey kb) = Some v \<and>
           src (variant_layer r1) (kkey kb) = Some (if applies_to kb fam then s else SNA)"
    by (rule resolve_with_layers) blast
  then show ?thesis using kb finish_keeps [OF k, of fam r1] by metis
qed

lemma finish_keeps_dcp_source: "src (finish fam r) DCP = src (variant_layer r) DCP"
  by (auto simp: finish_def draft_off_def detected_dcp_def stock_draft_def Let_def split: option.splits)

text \<open>The source of the context-parallel size also follows the precedence.\<close>

lemma resolve_dcp_source:
  assumes "resolve_with ns proc sv d = Inr r" and "resolve_family sv (layer d) = Inr fam"
    and kb: "kb \<in> set KNOBS" "kkey kb = DCP" and "applies_to kb fam"
    and "precedence fam (detected_gpu_count proc d) (layer d) sv (selected_variant (eff r)) kb = Some (s, v)"
  shows "src r DCP = Some s"
proof -
  from assms(1,2) obtain r1 where "r = finish fam r1"
    and "\<And>kb. kb \<in> set KNOBS \<Longrightarrow>
      \<exists>s v. precedence fam (detected_gpu_count proc d) (layer d) sv (selected_variant (eff r)) kb
               = Some (s, v) \<and> eff (variant_layer r1) (kkey kb) = Some v \<and>
           src (variant_layer r1) (kkey kb) = Some (if applies_to kb fam then s else SNA)"
    by (rule resolve_with_layers) blast
  from this(1) this(2) [OF kb(1)] assms(3-) finish_keeps_dcp_source [of fam r1] show ?thesis by auto
qed

text \<open>The family the pass used is the one it reports.\<close>

lemma offer_family: "knob_by_key MODEL_FAMILY = Some kb \<Longrightarrow>
    family_step d name = (case offer d kb of Some (VStr s) \<Rightarrow> s | _ \<Rightarrow> name)"
  by (auto simp: family_step_def offer_def dest!: knob_by_key_Some split: option.splits sum.splits pyval.splits)

lemma family_tables_keep_family:
  "list_all (\<lambda>(_, f). MODEL_FAMILY \<notin> fst ` set (f_defaults f)) FAMILIES"
  by (simp add: FAMILIES_def family_defs)

lemma resolve_reports_family:
  assumes res: "resolve_with ns proc sv d = Inr r" and fam: "resolve_family sv (layer d) = Inr fam"
  shows "eff r MODEL_FAMILY = Some (VStr fam)"
proof -
  obtain kb where kb: "kb \<in> set KNOBS" "kkey kb = MODEL_FAMILY"
    using registered [of MODEL_FAMILY] by (auto simp: registry_simps)
  then have by_key: "knob_by_key MODEL_FAMILY = Some kb" using knob_by_key_self by metis
  have default: "kdefault kb = VStr ''glm52''"
    using by_key by (simp add: knob_by_key_def KNOBS_def knobs_model_def mk_knob_def) auto
  have str: "offer d' kb = Some w \<Longrightarrow> \<exists>s. w = VStr s" for d' w
    using coerce_registered_fits [OF kb(1)] knob_type [OF kb(1)] kb(2)
    by (fastforce simp: offer_def registry_simps fits_def split: option.splits sum.splits)
  obtain n where "(n, family_of fam) \<in> set FAMILIES" using family_of_in by blast
  from family_tables_keep_family [unfolded list_all_iff, rule_format, OF this]
  have "MODEL_FAMILY \<notin> fst ` set (f_defaults (family_of fam))" by simp
  then have no_fam: "family_offer fam kb = None"
    using kb(2) by (simp add: family_offer_def offer_def map_of_eq_None_iff [THEN iffD2])
  have no_var: "variant_offer fam (selected_variant e) kb = None" for e
    using kb(2) by (auto simp: variant_offer_def offer_def dest: variant_keeps_selectors split: option.splits)
  have "fam = family_step sv (family_step (layer d) ''glm52'')"
    using fam by (auto simp: resolve_family_def split: option.splits)
  then show ?thesis
    using resolve_precedence_all [OF res fam kb(1)] kb(2) no_fam no_var default
      str [of sv] str [of "layer d"]
    by (cases "offer sv kb"; cases "offer (layer d) kb")
      (auto simp: precedence_def hardware_offer_def offer_family [OF by_key] split: option.splits)
qed

section \<open>When resolution succeeds\<close>

text \<open>
  A strict knob of the running family must be set legally: by the file, or else by the environment
  with the file silent, or by neither.
\<close>

definition legal_or_silent :: "dict \<Rightarrow> knob \<Rightarrow> bool" where
  "legal_or_silent d kb = (map_of d (kkey kb) = None \<or> offer d kb \<noteq> None)"

definition strict_ok :: "dict \<Rightarrow> dict \<Rightarrow> knob \<Rightarrow> bool" where
  "strict_ok ev sv kb = (offer sv kb \<noteq> None \<or> legal_or_silent sv kb \<and> legal_or_silent ev kb)"

lemma raw_slot_invalid:
  assumes "kb \<in> set KNOBS"
  shows "s_invalid (raw_slot fam ngpu ev sv kb) \<noteq> None \<and> s_source (raw_slot fam ngpu ev sv kb) \<noteq> SFile
    \<longleftrightarrow> kreject kb \<and> \<not> strict_ok ev sv kb"
proof -
  have ed: "kedit kb" using assms knobs_editable by (simp add: list_all_iff)
  have low: "s_source (detected_slot ngpu kb (family_slot f kb (default_slot f kb))) \<noteq> SFile"
    "s_invalid (detected_slot ngpu kb (family_slot f kb (default_slot f kb))) = None" for f
    by (auto simp: detected_slot_def family_slot_def default_slot_def split: option.splits sum.splits)
  then show ?thesis
    by (auto simp: raw_slot_def file_slot_def env_slot_def ed strict_ok_def legal_or_silent_def offer_def
        split: option.splits sum.splits)
qed

lemma resolve_knob_ok:
  assumes "kb \<in> set KNOBS"
  shows "result_ok (resolve_knob fam ngpu ev sv kb) \<longleftrightarrow>
    (kreject kb \<and> applies_to kb fam \<longrightarrow> strict_ok ev sv kb)"
proof -
  have "result_ok (resolve_knob fam ngpu ev sv kb) \<longleftrightarrow>
      \<not> (s_invalid (raw_slot fam ngpu ev sv kb) \<noteq> None \<and>
         s_source (raw_slot fam ngpu ev sv kb) \<noteq> SFile \<and> applies_to kb fam)"
    by (auto simp: result_ok_def resolve_knob_def raw_slot_def Let_def split: sum.splits option.splits)
  with raw_slot_invalid [OF assms, of fam ngpu ev sv] show ?thesis by blast
qed

lemma resolve_with_ok:
  "result_ok (resolve_with ns proc sv d) \<longleftrightarrow>
     (\<exists>fam. resolve_family sv (layer d) = Inr fam \<and>
        (\<forall>kb\<in>set KNOBS. kreject kb \<and> applies_to kb fam \<longrightarrow> strict_ok (layer d) sv kb))"
proof (cases "resolve_family sv (layer d)")
  case (Inr fam)
  have "result_ok (result_bind x (\<lambda>r. Inr (f r))) = result_ok x"
    for x :: "resolve_error + resolved" and f :: "resolved \<Rightarrow> resolved" by (cases x) auto
  then show ?thesis using Inr
    by (simp add: resolve_with_def Let_def registry_pass_ok resolve_knob_ok)
qed (simp add: resolve_with_def)

section \<open>Hardware and draft\<close>

lemma dcp_for_divides: "0 < n \<Longrightarrow> n mod dcp_for n = 0 \<and> dcp_for n \<le> n"
  by (auto simp: dcp_for_def dcp_choices_def)

lemma dcp_for_greatest: "0 < n \<Longrightarrow> c \<in> {1, 2, 4, 8} \<Longrightarrow> n mod c = 0 \<Longrightarrow> c \<le> dcp_for n"
  by (auto simp: dcp_for_def dcp_choices_def)

end
