(* ===== verification/ResolveTheorems.thy ===== *)
theory ResolveTheorems
  imports ResolveFacts
begin

text \<open>
  The theorems of the configuration resolver, each with an instance at the bare template: no
  environment and no state file.
\<close>

definition bare_env :: env_doc where
  "bare_env = \<lparr>layer = [], invalid_env = []\<rparr>"

lemma bare_family: "resolve_family [] (layer bare_env) = Inr ''glm52''"
  by (simp add: resolve_family_def bare_env_def selector_text_def py_strip_def py_rstrip_def
      py_lstrip_def WITHDRAWN_FLASH_FAMILIES_def WITHDRAWN_FLASH_VARIANTS_def family_step_def)

lemma bare_resolves: "\<exists>r. resolve_with [] (\<lambda>_. None) [] bare_env = Inr r"
proof -
  have "result_ok (resolve_with [] (\<lambda>_. None) [] bare_env)"
    unfolding resolve_with_ok bare_family
    by (simp add: strict_ok_def legal_or_silent_def bare_env_def)
  then show ?thesis by (auto elim: result_okE)
qed

section \<open>Typing\<close>

lemma finish_dcp:
  assumes "src (finish fam r) DCP = Some SDetected"
  shows "\<exists>n. eff (finish fam r) DCP = Some (VStr (show_int (dcp_for n))) \<and>
    n = (let t = as_int (eff (variant_layer r) TENSOR_PARALLEL_SIZE) in if t = 0 then 1 else t)"
  using assms
  by (auto simp: finish_def draft_off_def detected_dcp_def stock_draft_def Let_def
      split: option.splits if_splits)

lemma resolve_value_fits:
  assumes "resolve_with ns proc sv d = Inr r" and kb: "kb \<in> set KNOBS"
  shows "\<exists>v. eff r (kkey kb) = Some v \<and> (fits (ktyp kb) v \<or> kkey kb = DCP \<and> src r DCP = Some SNA)"
proof -
  have "value_ok r kb" using resolve_with_typed [OF assms(1)] kb by (simp add: typed_def)
  then obtain v where v: "eff r (kkey kb) = Some v"
    and ok: "fits (ktyp kb) v \<or> kkey kb = DCP \<and> src r DCP \<in> {Some SNA, Some SDetected}"
    by (auto simp: value_ok_def)
  show ?thesis
  proof (cases "kkey kb = DCP \<and> src r DCP = Some SDetected")
    case True
    from assms(1) obtain fam r1 where "r = finish fam r1" by (elim resolve_withE) auto
    with True v finish_dcp obtain n where "v = VStr (show_int (dcp_for n))" by force
    moreover have "ktyp kb = TChoice [''1'', ''2'', ''4'', ''8'']"
      using True knob_type [OF kb] ktype_of_DCP by simp
    ultimately show ?thesis using v show_dcp [OF dcp_for_choice] by simp
  qed (use v ok in auto)
qed

text \<open>C5: a successful resolution gives every registered knob a value of its declared type and
  bounds, whatever the environment and the state file contain; the one exception is the
  context-parallel size under a family that does not have it.\<close>

theorem resolve_typed:
  assumes "resolve_with ns proc sv d = Inr r"
  shows "\<forall>kb\<in>set KNOBS. \<exists>v. eff r (kkey kb) = Some v \<and>
    (fits (ktyp kb) v \<or> kkey kb = DCP \<and> src r DCP = Some SNA)"
  using resolve_value_fits [OF assms] by blast

theorem resolve_typed_witness:
  "\<exists>r. resolve_with [] (\<lambda>_. None) [] bare_env = Inr r \<and>
     (\<forall>kb\<in>set KNOBS. \<exists>v. eff r (kkey kb) = Some v \<and>
       (fits (ktyp kb) v \<or> kkey kb = DCP \<and> src r DCP = Some SNA))"
  using bare_resolves resolve_typed [of "[]" "\<lambda>_. None" "[]" bare_env] by blast

section \<open>Precedence\<close>

text \<open>C1: the effective value of a knob and its source are those of the strongest layer that offers
  a value of the knob's type, in the order file, environment, variant, detected hardware, family,
  registry default; a knob the family does not have is reported as not applicable. (The draft, the
  speculation depth and the context-parallel size have a step of their own.)\<close>

theorem resolve_precedence:
  assumes "resolve_with ns proc sv d = Inr r" and "resolve_family sv (layer d) = Inr fam"
    and "kb \<in> set KNOBS" and "kkey kb \<notin> {MTP_DRAFT, MTP_TOKENS, DCP}"
  shows "\<exists>s v. precedence fam (detected_gpu_count proc d) (layer d) sv (selected_variant (eff r)) kb
             = Some (s, v) \<and>
           eff r (kkey kb) = Some v \<and> src r (kkey kb) = Some (if applies_to kb fam then s else SNA)"
  by (rule resolve_precedence_all [OF assms])

theorem resolve_precedence_witness:
  "\<exists>r kb s v. resolve_with [] (\<lambda>_. None) [] bare_env = Inr r \<and> kkey kb = MAX_MODEL_LEN \<and>
     precedence ''glm52'' (detected_gpu_count (\<lambda>_. None) bare_env) (layer bare_env) []
       (selected_variant (eff r)) kb = Some (s, v) \<and> eff r MAX_MODEL_LEN = Some v"
proof -
  obtain r where r: "resolve_with [] (\<lambda>_. None) [] bare_env = Inr r" using bare_resolves by blast
  obtain kb where kb: "kb \<in> set KNOBS" "kkey kb = MAX_MODEL_LEN"
    using registered [of MAX_MODEL_LEN] by (auto simp: registry_simps)
  from resolve_precedence [OF r bare_family kb(1)] kb r show ?thesis by auto
qed

section \<open>Success and failure\<close>

text \<open>C6: resolution fails exactly when a layer names a withdrawn profile or a strict knob of the
  running family is left illegal: an illegal file value, or an illegal environment value that no
  legal file value replaces.\<close>

theorem resolve_succeeds_iff:
  "(\<exists>r. resolve_with ns proc sv d = Inr r) \<longleftrightarrow>
     (\<exists>fam. check_flash_selectors [layer d, sv] = None \<and>
        fam = family_step sv (family_step (layer d) ''glm52'') \<and>
        (\<forall>kb\<in>set KNOBS. kreject kb \<and> applies_to kb fam \<longrightarrow> strict_ok (layer d) sv kb))"
proof -
  have "(\<exists>r. resolve_with ns proc sv d = Inr r) \<longleftrightarrow> result_ok (resolve_with ns proc sv d)"
    by (auto elim: result_okE)
  then show ?thesis unfolding resolve_with_ok resolve_family_def by (auto split: option.splits)
qed

theorem resolve_succeeds_iff_witness:
  "\<exists>kb\<in>set KNOBS. kreject kb \<and> kkey kb = PREFILL_FAIRNESS_ENGINE \<and>
     (\<nexists>r. resolve_with [] (\<lambda>_. None) [(PREFILL_FAIRNESS_ENGINE, VStr ''fast'')] bare_env = Inr r)"
proof -
  let ?sv = "[(PREFILL_FAIRNESS_ENGINE, VStr ''fast'')]"
  let ?kb = "(mk_knob PREFILL_FAIRNESS_ENGINE (TChoice [''off'', ''compute_share'']) (VStr ''off''))
       \<lparr>kfams := Some [''glm52''], kreject := True\<rparr>"
  have kb: "?kb \<in> set KNOBS" unfolding KNOBS_def knobs_model_def by simp
  have fam: "family_step ?sv (family_step (layer bare_env) ''glm52'') = ''glm52''"
    by (simp add: family_step_def bare_env_def)
  have rej: "kreject ?kb" by simp
  have app: "applies_to ?kb ''glm52''" by (simp add: applies_to_def mk_knob_def)
  have "coerce ?kb (VStr ''fast'') = Inl (NotChoice PREFILL_FAIRNESS_ENGINE)" by code_simp
  then have "\<not> strict_ok (layer bare_env) ?sv ?kb"
    by (simp add: strict_ok_def legal_or_silent_def offer_def mk_knob_def)
  then have "\<nexists>r. resolve_with [] (\<lambda>_. None) ?sv bare_env = Inr r"
    unfolding resolve_succeeds_iff fam using kb app rej by blast
  moreover have "kkey ?kb = PREFILL_FAIRNESS_ENGINE" by (simp add: mk_knob_def)
  ultimately show ?thesis using kb rej by blast
qed

text \<open>The family whose rules and defaults the resolution used is the family it reports.\<close>

lemma resolve_family_reported:
  assumes "resolve_with ns proc sv d = Inr r" and "resolve_family sv (layer d) = Inr fam"
  shows "eff r MODEL_FAMILY = Some (VStr fam)"
  by (rule resolve_reports_family [OF assms])

lemma resolve_family_reported_instance:
  "\<exists>r. resolve_with [] (\<lambda>_. None) [] bare_env = Inr r \<and> eff r MODEL_FAMILY = Some (VStr ''glm52'')"
  using bare_resolves resolve_family_reported [OF _ bare_family, of "[]" "\<lambda>_. None"] by blast

section \<open>Hardware and draft\<close>

lemma resolve_detected_dcp:
  assumes "resolve_with ns proc sv d = Inr r" and "src r DCP = Some SDetected"
    and "eff r TENSOR_PARALLEL_SIZE = Some (VInt tp)" and "0 < tp"
  shows "eff r DCP = Some (VStr (show_int (dcp_for tp)))"
proof -
  from assms(1) obtain fam r1 where r: "r = finish fam r1" by (elim resolve_withE) auto
  have "eff (variant_layer r1) TENSOR_PARALLEL_SIZE = Some (VInt tp)"
    using assms(3) finish_keeps [of TENSOR_PARALLEL_SIZE fam r1] r by simp
  then have n: "(let t = as_int (eff (variant_layer r1) TENSOR_PARALLEL_SIZE) in if t = 0 then 1 else t) = tp"
    using assms(4) by (simp add: as_int_def)
  show ?thesis using finish_dcp [of fam r1] assms(2) unfolding r n by blast
qed

lemma resolve_tensor_parallel:
  assumes "resolve_with ns proc sv d = Inr r"
  obtains tp where "eff r TENSOR_PARALLEL_SIZE = Some (VInt tp)" "0 < tp"
proof -
  obtain kb where kb: "kb \<in> set KNOBS" "kkey kb = TENSOR_PARALLEL_SIZE" "ktyp kb = TInt (Some 1) (Some 16)"
    using registered [of TENSOR_PARALLEL_SIZE] by (auto simp: registry_simps)
  with resolve_value_fits [OF assms] that show thesis by (fastforce simp: fits_def)
qed

text \<open>A context-parallel size taken from the detected hardware is the largest legal size that
  divides the effective tensor-parallel size.\<close>

lemma detected_dcp_divides:
  assumes "resolve_with ns proc sv d = Inr r" and "src r DCP = Some SDetected"
  shows "\<exists>tp c. eff r TENSOR_PARALLEL_SIZE = Some (VInt tp) \<and> eff r DCP = Some (VStr (show_int c)) \<and>
    c \<in> {1, 2, 4, 8} \<and> tp mod c = 0 \<and> (\<forall>c'\<in>{1, 2, 4, 8}. tp mod c' = 0 \<longrightarrow> c' \<le> c)"
proof -
  obtain tp where tp: "eff r TENSOR_PARALLEL_SIZE = Some (VInt tp)" "0 < tp"
    using resolve_tensor_parallel [OF assms(1)] .
  with resolve_detected_dcp [OF assms] dcp_for_choice [of tp] dcp_for_divides [OF tp(2)]
    dcp_for_greatest [OF tp(2)]
  show ?thesis by (intro exI [of _ tp] exI [of _ "dcp_for tp"]) simp
qed

text \<open>An instance: six GPUs and a variant that leaves the context-parallel size open.\<close>

definition six_gpus :: env_doc where
  "six_gpus = \<lparr>layer = [(MODEL_VARIANT, VStr ''nvfp4''), (GPU_COUNT, VStr ''6'')], invalid_env = []\<rparr>"

lemma six_gpus_family: "resolve_family [] (layer six_gpus) = Inr ''glm52''"
  by (simp add: resolve_family_def six_gpus_def GPU_COUNT_def selector_text_def py_strip_def py_rstrip_def
      py_lstrip_def is_space_def py_str_def WITHDRAWN_FLASH_FAMILIES_def WITHDRAWN_FLASH_VARIANTS_def
      family_step_def)

lemma six_gpus_resolves: "\<exists>r. resolve_with [] (\<lambda>_. None) [] six_gpus = Inr r \<and> src r DCP = Some SDetected"
proof -
  have "strict_ok (layer six_gpus) [] kb" if "kb \<in> set KNOBS" "kreject kb" for kb
  proof -
    have "list_all (\<lambda>kb. kreject kb \<longrightarrow> kkey kb \<noteq> MODEL_VARIANT \<and> kkey kb \<noteq> GPU_COUNT) KNOBS"
      by (simp add: knob_tables GPU_COUNT_def)
    with that show ?thesis
      by (auto simp: list_all_iff strict_ok_def legal_or_silent_def six_gpus_def)
  qed
  then have "result_ok (resolve_with [] (\<lambda>_. None) [] six_gpus)"
    unfolding resolve_with_ok six_gpus_family by simp
  then obtain r where r: "resolve_with [] (\<lambda>_. None) [] six_gpus = Inr r" by (auto elim: result_okE)
  obtain kv where kv: "kv \<in> set KNOBS" "kkey kv = MODEL_VARIANT" "ktyp kv = TChoice (map fst VARIANTS)"
    using registered [of MODEL_VARIANT] by (auto simp: registry_simps)
  have "fits (ktyp kv) (VStr ''nvfp4'')"
    by (simp add: kv(3) coerce_simps VARIANTS_def value_eval)
  then have "offer (layer six_gpus) kv = Some (VStr ''nvfp4'')"
    by (simp add: offer_def six_gpus_def kv(2) coerce_fixes)
  with resolve_precedence_all [OF r six_gpus_family kv(1)] kv(2)
  have "eff r MODEL_VARIANT = Some (VStr ''nvfp4'')"
    by (auto simp: precedence_def offer_def)
  then have sel: "selected_variant (eff r) = Some variant_nvfp4"
    by (simp add: selected_variant_def VARIANTS_def)
  define kd where "kd = (mk_knob DCP (TChoice [''1'', ''2'', ''4'', ''8'']) (VStr ''4''))\<lparr>kfams := Some [''glm52'']\<rparr>"
  have kd: "kd \<in> set KNOBS" unfolding KNOBS_def knobs_draft_def kd_def by simp
  have "detected_gpu_count (\<lambda>_. None) six_gpus = Some 6" by code_simp
  then have "precedence ''glm52'' (detected_gpu_count (\<lambda>_. None) six_gpus) (layer six_gpus) []
      (selected_variant (eff r)) kd = Some (SDetected, VStr (show_int (min 6 8)))"
    by (simp add: precedence_def offer_def sel variant_offer_def hardware_offer_def kd_def mk_knob_def
        six_gpus_def GPU_COUNT_def variant_nvfp4_def)
  moreover have "kkey kd = DCP" "applies_to kd ''glm52''" by (simp_all add: kd_def mk_knob_def applies_to_def)
  ultimately have "src r DCP = Some SDetected" using resolve_dcp_source [OF r six_gpus_family kd] by blast
  with r show ?thesis by blast
qed

lemma detected_dcp_divides_instance:
  "\<exists>r tp c. resolve_with [] (\<lambda>_. None) [] six_gpus = Inr r \<and> src r DCP = Some SDetected \<and>
     eff r TENSOR_PARALLEL_SIZE = Some (VInt tp) \<and> eff r DCP = Some (VStr (show_int c)) \<and> tp mod c = 0"
proof -
  from six_gpus_resolves obtain r where
    r: "resolve_with [] (\<lambda>_. None) [] six_gpus = Inr r" "src r DCP = Some SDetected" by blast
  from detected_dcp_divides [OF r] obtain tp c where
    "eff r TENSOR_PARALLEL_SIZE = Some (VInt tp)" "eff r DCP = Some (VStr (show_int c))" "tp mod c = 0"
    by (elim exE conjE)
  with r show ?thesis by (intro exI [of _ r] exI [of _ tp] exI [of _ c] conjI)
qed

text \<open>Under the GLM family a configuration whose draft is off never keeps a speculation depth.\<close>

lemma draft_off_disables_speculation:
  assumes "resolve_with ns proc sv d = Inr r" and "eff r MODEL_FAMILY = Some (VStr ''glm52'')"
    and "eff r MTP_DRAFT = Some (VStr ''off'')"
  shows "eff r MTP_TOKENS = Some (VInt 0)"
proof -
  obtain kb where kb: "kb \<in> set KNOBS" "kkey kb = MTP_TOKENS" "ktyp kb = TInt (Some 0) (Some 8)"
    using registered [of MTP_TOKENS] by (auto simp: registry_simps)
  with resolve_value_fits [OF assms(1)] obtain n where n: "eff r MTP_TOKENS = Some (VInt n)"
    by (fastforce simp: fits_def)
  from assms(1) obtain fam r1 where fam: "resolve_family sv (layer d) = Inr fam" and r: "r = finish fam r1"
    by (elim resolve_withE) auto
  have "fam = ''glm52''" using resolve_reports_family [OF assms(1) fam] assms(2) by simp
  then show ?thesis using n assms(3) r
    by (auto simp: finish_def draft_off_def truthy_def split: if_splits)
qed

text \<open>An instance: the draft switched off in the environment.\<close>

definition draft_off_env :: env_doc where
  "draft_off_env = \<lparr>layer = [(MTP_DRAFT, VStr ''off'')], invalid_env = []\<rparr>"

lemma finish_keeps_chosen_draft:
  "src (variant_layer r) MTP_DRAFT \<notin> {Some SDefault, Some SFamily} \<Longrightarrow>
     eff (finish fam r) MTP_DRAFT = eff (variant_layer r) MTP_DRAFT"
  by (auto simp: finish_def draft_off_def detected_dcp_def stock_draft_def Let_def split: option.splits)

lemma draft_off_env_family: "resolve_family [] (layer draft_off_env) = Inr ''glm52''"
  by (simp add: resolve_family_def draft_off_env_def selector_text_def py_strip_def py_rstrip_def
      py_lstrip_def WITHDRAWN_FLASH_FAMILIES_def WITHDRAWN_FLASH_VARIANTS_def family_step_def)

lemma draft_off_env_resolves:
  "\<exists>r. resolve_with [] (\<lambda>_. None) [] draft_off_env = Inr r \<and> eff r MODEL_FAMILY = Some (VStr ''glm52'') \<and>
     eff r MTP_DRAFT = Some (VStr ''off'')"
proof -
  have "strict_ok (layer draft_off_env) [] kb" if "kb \<in> set KNOBS" "kreject kb" for kb
  proof -
    have "list_all (\<lambda>kb. kreject kb \<longrightarrow> kkey kb \<noteq> MTP_DRAFT) KNOBS" by (simp add: knob_tables)
    with that show ?thesis by (auto simp: list_all_iff strict_ok_def legal_or_silent_def draft_off_env_def)
  qed
  then have "result_ok (resolve_with [] (\<lambda>_. None) [] draft_off_env)"
    unfolding resolve_with_ok draft_off_env_family by simp
  then obtain r where r: "resolve_with [] (\<lambda>_. None) [] draft_off_env = Inr r" by (auto elim: result_okE)
  obtain kb where kb: "kb \<in> set KNOBS" "kkey kb = MTP_DRAFT" "ktyp kb = TChoice (map fst DRAFTS)"
    using registered [of MTP_DRAFT] by (auto simp: registry_simps)
  have "fits (ktyp kb) (VStr ''off'')" by (simp add: kb(3) coerce_simps DRAFTS_def value_eval)
  then have off: "offer (layer draft_off_env) kb = Some (VStr ''off'')"
    by (simp add: offer_def draft_off_env_def kb(2) coerce_fixes)
  obtain r1 where r1: "r = finish ''glm52'' r1"
    and at: "\<And>kb. kb \<in> set KNOBS \<Longrightarrow> \<exists>s v.
       precedence ''glm52'' (detected_gpu_count (\<lambda>_. None) draft_off_env) (layer draft_off_env) []
        (selected_variant (eff r)) kb = Some (s, v) \<and> eff (variant_layer r1) (kkey kb) = Some v \<and>
       src (variant_layer r1) (kkey kb) = Some (if applies_to kb ''glm52'' then s else SNA)"
    by (rule resolve_with_layers [OF r draft_off_env_family]) blast
  have "eff (variant_layer r1) MTP_DRAFT = Some (VStr ''off'')"
      "src (variant_layer r1) MTP_DRAFT \<in> {Some SEnv, Some SNA}"
    using at [OF kb(1)] kb(2) off by (auto simp: precedence_def offer_def)
  with r1 finish_keeps_chosen_draft [of r1 "''glm52''"] have "eff r MTP_DRAFT = Some (VStr ''off'')" by auto
  with r resolve_reports_family [OF r draft_off_env_family] show ?thesis by blast
qed

lemma draft_off_disables_speculation_instance:
  "\<exists>r. resolve_with [] (\<lambda>_. None) [] draft_off_env = Inr r \<and> eff r MTP_DRAFT = Some (VStr ''off'') \<and>
     eff r MTP_TOKENS = Some (VInt 0)"
  using draft_off_env_resolves draft_off_disables_speculation [of "[]" "\<lambda>_. None" "[]" draft_off_env]
  by blast

end
