(* ===== verification/ValidateFacts.thy ===== *)
theory ValidateFacts
  imports Validate ResolveTheorems
begin

text \<open>
  The errors of the rule matrix, group by group: the simplification rules every proof about
  \<open>validate\<close> shares.
\<close>

section \<open>Errors of the matrix\<close>

named_theorems rule_simps \<open>the errors of findings built with the matrix' two helpers\<close>

lemma errors_simps [rule_simps, simp]:
  "errors [] = []"
  "errors (xs @ ys) = errors xs @ errors ys"
  "errors (err_if b i ks) = err_if b i ks"
  "errors (warn_if b i ks) = []"
  by (simp_all add: errors_def err_if_def warn_if_def)

lemma errors_concat [rule_simps]: "errors (concat xss) = concat (map errors xss)"
  by (induction xss) auto

lemma err_if_empty [rule_simps, simp]: "err_if b i ks = [] \<longleftrightarrow> \<not> b"
  by (simp add: err_if_def)

lemma no_errors_groups:
  assumes "errors (validate c ctx) = []"
  shows "errors (rules_fairness c) = []" "errors (rules_family c) = []" "errors (rules_ranks c ctx) = []"
    "errors (rules_window c) = []" "errors (rules_draft c) = []" "errors (rules_kv c) = []"
    "errors (rules_disk_cache c) = []" "errors (rules_fixed_kv c) = []" "errors (rules_memory c) = []"
    "errors (rules_pool c) = []" "errors (rules_parallel c) = []" "errors (rules_state c ctx) = []"
  using assms by (simp_all add: validate_def errors_concat)

end
