(* ===== verification/Profiles.thy ===== *)
theory Profiles
  imports ValidateFacts
begin

text \<open>
  The shipped GLM profiles, resolved: with nothing but the variant selected, the effective
  configuration is the table below the theorem, computed by the kernel from the registry, the family
  and the variant.
\<close>

section \<open>What selecting a variant resolves to\<close>

definition profile_state :: "string \<Rightarrow> dict" where
  "profile_state n = [(MODEL_VARIANT, VStr n)]"

definition profile_value :: "string \<Rightarrow> variant \<Rightarrow> knob \<Rightarrow> pyval" where
  "profile_value n v kb =
     (if kkey kb = MODEL_VARIANT then VStr n
      else case first_offer [(SVariant, variant_offer ''glm52'' (Some v) kb),
                             (SFamily, family_offer ''glm52'' kb), (SDefault, Some (kdefault kb))] of
             None \<Rightarrow> VNone | Some (_, w) \<Rightarrow> w)"

definition profile_table :: "string \<Rightarrow> variant \<Rightarrow> dict" where
  "profile_table n v = map (\<lambda>kb. (kkey kb, profile_value n v kb)) KNOBS"

text \<open>State values that name at most the GLM family and the variant.\<close>

definition selects :: "string \<Rightarrow> dict \<Rightarrow> bool" where
  "selects n st = (map_of st MODEL_FAMILY \<in> {None, Some (VStr ''glm52'')} \<and> map_of st MODEL_VARIANT = Some (VStr n) \<and>
     (\<forall>k. k \<noteq> MODEL_FAMILY \<and> k \<noteq> MODEL_VARIANT \<longrightarrow> map_of st k = None))"

lemma selects_family: "selects n st \<Longrightarrow> map_of st MODEL_FAMILY = None \<or> map_of st MODEL_FAMILY = Some (VStr ''glm52'')"
  by (simp add: selects_def)

lemma selects_profile_state: "selects n (profile_state n)"
  by (simp add: selects_def profile_state_def)

lemma glm_fits: "fits (TChoice (map fst FAMILIES)) (VStr ''glm52'')"
  by (simp add: coerce_simps FAMILIES_def value_eval)

lemma profile_family:
  assumes "map_of VARIANTS n = Some v" and st: "selects n st"
  shows "resolve_family st (layer bare_env) = Inr ''glm52''"
proof -
  have "stripped n" using assms(1) names_stripped by (force simp: list_all_iff dest: map_of_SomeD)
  then have "selector_text st MODEL_VARIANT = n"
    using st by (simp add: selector_text_def selects_def py_str_def)
  moreover have "py_strip [] = []" "py_strip ''glm52'' = ''glm52''" by code_simp+
  then have "selector_text st MODEL_FAMILY \<in> {[], ''glm52''}"
    using selects_family [OF st] by (elim disjE) (simp_all add: selector_text_def py_str_def)
  moreover have "selector_text (layer bare_env) k = []" for k
    by (simp add: selector_text_def bare_env_def py_strip_def py_rstrip_def py_lstrip_def)
  moreover have "n \<notin> set WITHDRAWN_FLASH_VARIANTS"
    using assms(1) by (auto simp: WITHDRAWN_FLASH_VARIANTS_def VARIANTS_def)
  moreover have "family_step st ''glm52'' = ''glm52''"
  proof -
    obtain kf where "knob_by_key MODEL_FAMILY = Some kf" "ktyp kf = TChoice (map fst FAMILIES)"
      using registered [of MODEL_FAMILY] knob_by_key_self by (fastforce simp: registry_simps)
    with coerce_fixes [of kf "VStr ''glm52''"] glm_fits selects_family [OF st] show ?thesis
      by (elim disjE) (simp_all add: family_step_def)
  qed
  ultimately show ?thesis
    by (auto simp: resolve_family_def WITHDRAWN_FLASH_FAMILIES_def WITHDRAWN_FLASH_VARIANTS_def
        family_step_def [of "[]"] bare_env_def)
qed

lemma strict_knobs: "kb \<in> set KNOBS \<Longrightarrow> kreject kb \<Longrightarrow> kkey kb \<noteq> MODEL_VARIANT \<and> kkey kb \<noteq> MODEL_FAMILY"
proof -
  have "list_all (\<lambda>kb. kreject kb \<longrightarrow> kkey kb \<noteq> MODEL_VARIANT \<and> kkey kb \<noteq> MODEL_FAMILY) KNOBS" by (simp add: knob_tables)
  then show "kb \<in> set KNOBS \<Longrightarrow> kreject kb \<Longrightarrow> ?thesis" by (simp add: list_all_iff)
qed

lemma profile_resolves:
  assumes "map_of VARIANTS n = Some v" and st: "selects n st"
  shows "\<exists>r. resolve_with [] (\<lambda>_. None) st bare_env = Inr r"
proof -
  have "strict_ok (layer bare_env) st kb" if "kb \<in> set KNOBS" "kreject kb" for kb
    using strict_knobs [OF that] st
    by (simp add: strict_ok_def legal_or_silent_def selects_def bare_env_def)
  then have "result_ok (resolve_with [] (\<lambda>_. None) st bare_env)"
    unfolding resolve_with_ok profile_family [OF assms] by simp
  then show ?thesis by (auto elim: result_okE)
qed

lemma profile_variant_offer:
  assumes "map_of VARIANTS n = Some v" and st: "selects n st" and kb: "kb \<in> set KNOBS" "kkey kb = MODEL_VARIANT"
  shows "offer st kb = Some (VStr n)"
proof -
  have "stripped n" using assms(1) names_stripped by (force simp: list_all_iff dest: map_of_SomeD)
  moreover have "n \<in> set (map fst VARIANTS)" using map_of_SomeD [OF assms(1)] by force
  moreover have "ktyp kb = TChoice (map fst VARIANTS)" using knob_type [OF kb(1)] kb(2)
    by (simp add: registry_simps)
  ultimately have "fits (ktyp kb) (VStr n)" by (simp add: coerce_simps)
  then show ?thesis using st by (simp add: offer_def selects_def kb(2) coerce_fixes)
qed

lemma first_offer_skip: "first_offer (p # (s, None) # rest) = first_offer (p # rest)"
  by (cases p; cases "snd p") auto

lemma profile_layers:
  assumes n: "map_of VARIANTS n = Some v" and st: "selects n st"
    and res: "resolve_with [] (\<lambda>_. None) st bare_env = Inr r"
  obtains r1 where "r = finish ''glm52'' r1"
    and "\<And>kb. kb \<in> set KNOBS \<Longrightarrow> eff (variant_layer r1) (kkey kb) = Some (profile_value n v kb)"
    and "\<And>kb. kb \<in> set KNOBS \<Longrightarrow> src (variant_layer r1) (kkey kb) \<noteq> Some SDetected"
proof -
  obtain r1 where r1: "r = finish ''glm52'' r1"
    and at: "\<And>kb. kb \<in> set KNOBS \<Longrightarrow> \<exists>s w.
       precedence ''glm52'' (detected_gpu_count (\<lambda>_. None) bare_env) (layer bare_env) st
        (selected_variant (eff r)) kb = Some (s, w) \<and> eff (variant_layer r1) (kkey kb) = Some w \<and>
       src (variant_layer r1) (kkey kb) = Some (if applies_to kb ''glm52'' then s else SNA)"
    by (rule resolve_with_layers [OF res profile_family [OF n st]]) blast
  have ngpu: "detected_gpu_count (\<lambda>_. None) bare_env = None" by code_simp
  obtain kv where kv: "kv \<in> set KNOBS" "kkey kv = MODEL_VARIANT"
    using registered [of MODEL_VARIANT] by (auto simp: registry_simps)
  from at [OF kv(1)] kv profile_variant_offer [OF n st kv] have "eff (variant_layer r1) MODEL_VARIANT = Some (VStr n)"
    by (auto simp: precedence_def)
  then have "eff r MODEL_VARIANT = Some (VStr n)" using finish_keeps [of MODEL_VARIANT] r1 by simp
  then have sel: "selected_variant (eff r) = Some v" using n by (simp add: selected_variant_def)
  have other: "offer st kb = None" if "kkey kb \<noteq> MODEL_VARIANT" "kkey kb \<noteq> MODEL_FAMILY" for kb
    using that st by (simp add: offer_def selects_def)
  have fam: "offer st kb \<in> {None, Some (VStr ''glm52'')}" "variant_offer ''glm52'' (Some v) kb = None"
      "family_offer ''glm52'' kb = None" "kdefault kb = VStr ''glm52''"
    if "kb \<in> set KNOBS" "kkey kb = MODEL_FAMILY" for kb
  proof -
    have "ktyp kb = TChoice (map fst FAMILIES)" using knob_type [OF that(1)] that(2) by (simp add: registry_simps)
    with glm_fits have "coerce kb (VStr ''glm52'') = Inr (VStr ''glm52'')" by (simp add: coerce_fixes)
    then show "offer st kb \<in> {None, Some (VStr ''glm52'')}" using selects_family [OF st] that(2)
      by (elim disjE) (simp_all add: offer_def)
    have "selected_variant [MODEL_VARIANT \<mapsto> VStr n] = Some v" using n by (simp add: selected_variant_def)
    with variant_keeps_selectors that(2)
    show "variant_offer ''glm52'' (Some v) kb = None" by (fastforce simp: variant_offer_def offer_def)
    obtain m where "(m, family_of ''glm52'') \<in> set FAMILIES" using family_of_in by blast
    with family_tables_keep_family have "map_of (f_defaults (family_of ''glm52'')) MODEL_FAMILY = None"
      by (auto simp: list_all_iff map_of_eq_None_iff)
    with that(2) show "family_offer ''glm52'' kb = None" by (simp add: family_offer_def offer_def)
    have "list_all (\<lambda>kb. kkey kb = MODEL_FAMILY \<longrightarrow> kdefault kb = VStr ''glm52'') KNOBS" by (simp add: knob_tables)
    with that show "kdefault kb = VStr ''glm52''" by (simp add: list_all_iff)
  qed
  have env: "offer (layer bare_env) kb = None" for kb by (simp add: offer_def bare_env_def)
  have hw: "hardware_offer None kb = None" for kb by (simp add: hardware_offer_def)
  show thesis
  proof (rule that [OF r1])
    fix kb assume kb: "kb \<in> set KNOBS"
    show "eff (variant_layer r1) (kkey kb) = Some (profile_value n v kb)"
      using at [OF kb] other [of kb] profile_variant_offer [OF n st kb] fam [OF kb]
      by (cases "kkey kb = MODEL_VARIANT"; cases "kkey kb = MODEL_FAMILY")
        (auto simp: precedence_def ngpu env hw sel profile_value_def first_offer_skip)
    show "src (variant_layer r1) (kkey kb) \<noteq> Some SDetected"
      using at [OF kb] by (auto simp: precedence_def ngpu hw first_offer_override override_def split: option.splits)
  qed
qed

text \<open>The last steps leave such a profile alone when its draft is the stock one and is not off.\<close>

lemma profile_effective:
  assumes n: "map_of VARIANTS n = Some v" and st: "selects n st"
    and res: "resolve_with [] (\<lambda>_. None) st bare_env = Inr r"
    and draft: "map_of (profile_table n v) MTP_DRAFT = Some (VStr ''native'')"
      "v_default_draft v \<in> {None, Some ''native''}"
    and k: "map_of (profile_table n v) k = Some w"
  shows "eff r k = Some w"
proof -
  obtain r1 where r1: "r = finish ''glm52'' r1"
    and e: "\<And>kb. kb \<in> set KNOBS \<Longrightarrow> eff (variant_layer r1) (kkey kb) = Some (profile_value n v kb)"
    and s: "\<And>kb. kb \<in> set KNOBS \<Longrightarrow> src (variant_layer r1) (kkey kb) \<noteq> Some SDetected"
    by (rule profile_layers [OF n st res]) blast
  have at: "map_of (profile_table n v) k' = Some w' \<Longrightarrow> eff (variant_layer r1) k' = Some w'" for k' w'
    using e by (force simp: profile_table_def dest!: map_of_SomeD)
  let ?q = "stock_draft ''glm52'' (variant_layer r1)"
  obtain kd where "kd \<in> set KNOBS" "kkey kd = DCP" using registered [OF ktype_of_DCP] by blast
  with s have "src (variant_layer r1) DCP \<noteq> Some SDetected" by metis
  then have dcp: "detected_dcp ?q = ?q"
    by (auto simp: detected_dcp_def stock_draft_def split: option.splits)
  have sel: "selected_variant (eff (variant_layer r1)) = Some v"
  proof -
    obtain kv where "kv \<in> set KNOBS" "kkey kv = MODEL_VARIANT"
      using registered [of MODEL_VARIANT] by (auto simp: registry_simps)
    with e [of kv] n show ?thesis by (simp add: selected_variant_def profile_value_def)
  qed
  have q: "eff ?q = eff (variant_layer r1)"
    using draft(2) at [OF draft(1)] sel by (auto simp: stock_draft_def fun_upd_idem)
  have "eff r = eff (variant_layer r1)"
    using q dcp at [OF draft(1)] by (simp add: r1 finish_def draft_off_def)
  then show ?thesis using at [OF k] by simp
qed

section \<open>Two profiles, computed\<close>

lemma coerce_interleave:
  "ktyp kb = TChoice [''1'', ''2'', ''4'', ''8'', ''16'', ''32'', ''64''] \<Longrightarrow>
     coerce kb (VInt 64) = Inr (VStr ''64'')"
  by (simp add: coerce_def) code_simp

lemma coerce_zero_fraction:
  "ktyp kb = TFloat (Some (b64 0)) (Some (b64 (19 / 20))) False False \<Longrightarrow>
     coerce kb (VInt 0) = Inr (VFlt (Fin 0))"
  by (simp add: coerce_def) code_simp

lemma glm_defaults: "f_defaults (family_of ''glm52'') = family_glm52_defaults"
    "f_default_variant (family_of ''glm52'') = ''exl3-tr3''"
  by (simp_all add: family_of_def FAMILIES_def family_glm52_def)

lemma variant_names [registry_simps]: "map fst VARIANTS = [''exl3-tr3'', ''exl3-tr3-max-context'', ''nvfp4'',
    ''madeby561-hybrid'', ''qwen36-nvfp4'', ''custom'', ''exl3-tr3-3.25bpw'', ''exl3-tr3-3.36bpw'',
    ''exl3-tr3-3.42bpw'', ''exl3-tr3-glm53-3.42bpw'', ''exl3-tr3-glm53-3.25bpw'', ''exl3-tr3-glm53-3.42bpw-500k'']"
  "map fst FAMILIES = [''glm52'', ''qwen36'', ''custom'']"
  "map fst DRAFTS = [''off'', ''native'', ''bf16'', ''tr3-graft'', ''tr3-override'', ''nvfp4'']"
  by (simp_all add: VARIANTS_def FAMILIES_def DRAFTS_def)

lemmas profile_eval =
  profile_value_def variant_offer_def family_offer_def offer_def glm_defaults family_glm52_defaults_def
  applies_to_def coerce_fixes coerce_simps value_eval registry_simps coerce_interleave coerce_zero_fraction

lemma defaults_exl3_tr3:
  "v_defaults variant_exl3_tr3 = [
       (DCP, VStr ''2''), (MAX_MODEL_LEN, VInt 524288), (MAX_NUM_BATCHED_TOKENS, VInt 3072),
       (MAX_NUM_SEQS, VInt 8), (KV_SCALE_MODE, VStr ''dynamic-token''), (MTP_TOKENS, VInt 5),
       (MTP_DRAFT_SAMPLE_METHOD, VStr ''probabilistic''), (DCP_PREFILL_WORKSPACE_MIB, VInt 1024),
       (DCP_CKV_PREFETCH_DEPTH, VStr ''0''), (DCP_CKV_GATHER_MAX_TOKENS, VInt 140000),
       (DCP_KV_CACHE_INTERLEAVE_SIZE, VStr ''1''),
       (DCP_QUERY_SPLIT_MIN_CONTEXT_TOKENS, VInt 8192),
       (GPU_MEMORY_UTILIZATION, VFlt (b64 (957 / 1000))), (GPU_BLOCKS_OVERRIDE, VInt 0),
       (LOAD_FORMAT, VStr ''safetensors''), (OFFLOAD_FRACTION, VFlt (b64 (1 / 2))),
       (PREFIX_CACHE_BACKEND, VStr ''lmcache''), (F8_DMA, VStr ''0''),
       (PCIE_CALIBRATION, VStr ''auto''), (PCIE_DMA_MIN_BYTES, VInt (- 1)),
       (MAX_CUDAGRAPH_CAPTURE_SIZE, VInt 64),
       (CUDAGRAPH_CAPTURE_SIZES, VStr ''4,8,12,16,20,24,28,32,36,40,44,48,52,56,60,64''),
       (VLLM_EXL3_TRELLIS_MAX_M, VInt 64)]"
  by (simp add: variant_exl3_tr3_def)

definition table_exl3_tr3 :: dict where
  "table_exl3_tr3 = [
    (MODEL_FAMILY, VStr ''glm52''), (TENSOR_PARALLEL_SIZE, VInt 4),
    (MODEL_VARIANT, VStr ''exl3-tr3''), (MODEL_ID, VStr ''''),
    (REASONING_EFFORT_DEFAULT, VStr ''high''), (PREFILL_SCHEDULE_INTERVAL, VInt 1),
    (PREFILL_FAIRNESS_ENGINE, VStr ''off''),
    (PREFILL_COMPUTE_SHARE, VFlt (Fin (5404319552844595 / 9007199254740992))),
    (TRUST_REMOTE_CODE, VBool False), (QUANTIZATION, VStr ''''), (REASONING_PARSER, VStr ''''),
    (TOOL_CALL_PARSER, VStr ''''), (MULTIMODAL, VBool True), (MM_MAX_PIXELS, VInt 8388608),
    (MAX_MODEL_LEN, VInt 524288), (CLAMP_ROPE_TABLES, VBool True), (GPU_BLOCKS_OVERRIDE, VInt 0),
    (KV_CACHE_DTYPE, VStr ''nvfp4_ds_mla''), (KV_SCALE_MODE, VStr ''dynamic-token''),
    (ONLINE_QUANT, VStr ''none''), (VLLM_EXL3_ONLINE_CACHE_DIR, VStr ''''),
    (VLLM_EXL3_ONLINE_CACHE_MODE, VStr ''''), (MTP_DRAFT, VStr ''native''), (MTP_TOKENS, VInt 5),
    (MTP_DRAFT_SAMPLE_METHOD, VStr ''probabilistic''),
    (MTP_REJECTION_SAMPLE_METHOD, VStr ''standard''), (DRAFT_MODEL, VStr ''''),
    (DRAFT_QUANTIZATION, VStr ''''), (DCP, VStr ''2''), (MAX_NUM_SEQS, VInt 8),
    (MAX_NUM_BATCHED_TOKENS, VInt 3072), (VLLM_EXL3_PREFILL_CAPACITY, VInt 3072),
    (DCP_PREFILL_WORKSPACE_MIB, VInt 1024), (DCP_CKV_PREFETCH_DEPTH, VStr ''0''),
    (DCP_CKV_GATHER_MAX_TOKENS, VInt 140000), (DCP_KV_CACHE_INTERLEAVE_SIZE, VStr ''1''),
    (DCP_QUERY_SPLIT_MIN_CONTEXT_TOKENS, VInt 8192), (B12X_PCIE_DMA, VBool True),
    (F8_DMA, VStr ''0''), (PCIE_CALIBRATION, VStr ''auto''), (PCIE_DMA_MIN_BYTES, VInt (- 1)),
    (MAX_CUDAGRAPH_CAPTURE_SIZE, VInt 64),
    (CUDAGRAPH_CAPTURE_SIZES, VStr ''4,8,12,16,20,24,28,32,36,40,44,48,52,56,60,64''),
    (VLLM_EXL3_TRELLIS_MAX_M, VInt 64),
    (GPU_MEMORY_UTILIZATION, VFlt (Fin (8619889686787129 / 9007199254740992))),
    (KV_CACHE_MEMORY_BYTES, VInt 0), (LOAD_FORMAT, VStr ''safetensors''),
    (MODEL_OUTPUT_LIMIT, VInt 131072), (OFFLOAD_FRACTION, VFlt (Fin (1 / 2))),
    (PREFIX_CACHE_BACKEND, VStr ''lmcache''), (LMCACHE_L1_MAX_GB, VInt 0),
    (PREFIX_CACHE_DISK_GB, VInt 0), (PREFIX_CACHE_DISK_FRACTION, VFlt (Fin 0)),
    (VISION, VBool False), (VISION_CHUNKS, VInt 8), (SERVED_MODEL_NAME, VStr ''GLM-5.2'')]"

lemma profile_exl3_tr3: "profile_table ''exl3-tr3'' variant_exl3_tr3 = table_exl3_tr3"
  unfolding profile_table_def knob_tables list.map append.simps
  by (simp add: profile_eval defaults_exl3_tr3 table_exl3_tr3_def)

lemma defaults_3_25bpw: "v_defaults variant_exl3_tr3_3_25bpw = [
    (DCP, VStr ''4''), (MAX_MODEL_LEN, VInt 524288), (MAX_NUM_BATCHED_TOKENS, VInt 2048),
    (MAX_NUM_SEQS, VInt 8), (KV_SCALE_MODE, VStr ''dynamic-token''), (MTP_TOKENS, VInt 3),
    (MTP_DRAFT_SAMPLE_METHOD, VStr ''probabilistic''), (DCP_PREFILL_WORKSPACE_MIB, VInt 1024),
    (DCP_CKV_PREFETCH_DEPTH, VStr ''0''), (DCP_CKV_GATHER_MAX_TOKENS, VInt 140000),
    (DCP_KV_CACHE_INTERLEAVE_SIZE, VStr ''64''), (DCP_QUERY_SPLIT_MIN_CONTEXT_TOKENS, VInt (- 1)),
    (GPU_MEMORY_UTILIZATION, VFlt (Fin (8619889686787129 / 9007199254740992))),
    (GPU_BLOCKS_OVERRIDE, VInt 2048), (LOAD_FORMAT, VStr ''safetensors''),
    (OFFLOAD_FRACTION, VFlt (Fin (1 / 2))), (PREFIX_CACHE_BACKEND, VStr ''lmcache''),
    (F8_DMA, VStr ''0''), (PCIE_CALIBRATION, VStr ''off''), (PCIE_DMA_MIN_BYTES, VInt (- 1)),
    (MAX_CUDAGRAPH_CAPTURE_SIZE, VInt 32),
    (CUDAGRAPH_CAPTURE_SIZES, VStr ''4,8,12,16,20,24,28,32''), (VLLM_EXL3_TRELLIS_MAX_M, VInt 32),
    (VLLM_EXL3_PREFILL_CAPACITY, VInt 1024), (PREFIX_CACHE_DISK_GB, VInt 0)]"
  by (simp add: variant_exl3_tr3_3_25bpw_def defaults_exl3_tr3 dict_update_def registry_simps)

definition table_3_25bpw :: dict where
  "table_3_25bpw = [
    (MODEL_FAMILY, VStr ''glm52''), (TENSOR_PARALLEL_SIZE, VInt 4),
    (MODEL_VARIANT, VStr ''exl3-tr3-3.25bpw''), (MODEL_ID, VStr ''''),
    (REASONING_EFFORT_DEFAULT, VStr ''high''), (PREFILL_SCHEDULE_INTERVAL, VInt 1),
    (PREFILL_FAIRNESS_ENGINE, VStr ''off''),
    (PREFILL_COMPUTE_SHARE, VFlt (Fin (5404319552844595 / 9007199254740992))),
    (TRUST_REMOTE_CODE, VBool False), (QUANTIZATION, VStr ''''), (REASONING_PARSER, VStr ''''),
    (TOOL_CALL_PARSER, VStr ''''), (MULTIMODAL, VBool True), (MM_MAX_PIXELS, VInt 8388608),
    (MAX_MODEL_LEN, VInt 524288), (CLAMP_ROPE_TABLES, VBool True),
    (GPU_BLOCKS_OVERRIDE, VInt 2048), (KV_CACHE_DTYPE, VStr ''nvfp4_ds_mla''),
    (KV_SCALE_MODE, VStr ''dynamic-token''), (ONLINE_QUANT, VStr ''none''),
    (VLLM_EXL3_ONLINE_CACHE_DIR, VStr ''''), (VLLM_EXL3_ONLINE_CACHE_MODE, VStr ''''),
    (MTP_DRAFT, VStr ''native''), (MTP_TOKENS, VInt 3),
    (MTP_DRAFT_SAMPLE_METHOD, VStr ''probabilistic''),
    (MTP_REJECTION_SAMPLE_METHOD, VStr ''standard''), (DRAFT_MODEL, VStr ''''),
    (DRAFT_QUANTIZATION, VStr ''''), (DCP, VStr ''4''), (MAX_NUM_SEQS, VInt 8),
    (MAX_NUM_BATCHED_TOKENS, VInt 2048), (VLLM_EXL3_PREFILL_CAPACITY, VInt 1024),
    (DCP_PREFILL_WORKSPACE_MIB, VInt 1024), (DCP_CKV_PREFETCH_DEPTH, VStr ''0''),
    (DCP_CKV_GATHER_MAX_TOKENS, VInt 140000), (DCP_KV_CACHE_INTERLEAVE_SIZE, VStr ''64''),
    (DCP_QUERY_SPLIT_MIN_CONTEXT_TOKENS, VInt (- 1)), (B12X_PCIE_DMA, VBool True),
    (F8_DMA, VStr ''0''), (PCIE_CALIBRATION, VStr ''off''), (PCIE_DMA_MIN_BYTES, VInt (- 1)),
    (MAX_CUDAGRAPH_CAPTURE_SIZE, VInt 32),
    (CUDAGRAPH_CAPTURE_SIZES, VStr ''4,8,12,16,20,24,28,32''), (VLLM_EXL3_TRELLIS_MAX_M, VInt 32),
    (GPU_MEMORY_UTILIZATION, VFlt (Fin (8619889686787129 / 9007199254740992))),
    (KV_CACHE_MEMORY_BYTES, VInt 0), (LOAD_FORMAT, VStr ''safetensors''),
    (MODEL_OUTPUT_LIMIT, VInt 131072), (OFFLOAD_FRACTION, VFlt (Fin (1 / 2))),
    (PREFIX_CACHE_BACKEND, VStr ''lmcache''), (LMCACHE_L1_MAX_GB, VInt 0),
    (PREFIX_CACHE_DISK_GB, VInt 0), (PREFIX_CACHE_DISK_FRACTION, VFlt (Fin 0)),
    (VISION, VBool False), (VISION_CHUNKS, VInt 8), (SERVED_MODEL_NAME, VStr ''GLM-5.2'')]"

lemma profile_3_25bpw: "profile_table ''exl3-tr3-3.25bpw'' variant_exl3_tr3_3_25bpw = table_3_25bpw"
  unfolding profile_table_def knob_tables list.map append.simps
  by (simp add: profile_eval defaults_3_25bpw table_3_25bpw_def)

lemma profile_in_force:
  assumes "map_of VARIANTS n = Some v" and "profile_table n v = t"
    and "map_of t MTP_DRAFT = Some (VStr ''native'')" and "v_default_draft v = Some ''native''"
    and "selects n st"
  obtains r where "resolve_with [] (\<lambda>_. None) st bare_env = Inr r"
    and "\<And>k. map_of t k \<noteq> None \<Longrightarrow> eff r k = map_of t k"
proof -
  obtain r where r: "resolve_with [] (\<lambda>_. None) st bare_env = Inr r"
    using profile_resolves [OF assms(1,5)] by blast
  have "eff r k = map_of t k" if "map_of t k \<noteq> None" for k
    using profile_effective [OF assms(1,5) r] assms(2-4) that by fastforce
  with r that show thesis by blast
qed

definition rule_context :: "int \<Rightarrow> check_context" where
  "rule_context n = \<lparr>gpu_count = Some n, vision_available = None, state_keys = [MODEL_VARIANT]\<rparr>"

lemmas rules_eval =
  rules_fairness_def rules_family_def rules_ranks_def rules_window_def rules_draft_def rules_kv_def
  rules_vision_def rules_disk_cache_def rules_fixed_kv_def rules_memory_def rules_pool_def
  rules_parallel_def rules_state_def

lemmas read_eval =
  cfg_family_def cfg_get_def cfg_int_def cfg_str_def cfg_flt_def cfg_set_def truthy_def
  is_glm_def cfg_variant_def is_exl3_def py_str_def

lemma registered_accepts:
  "ktype_of k = Some t \<Longrightarrow> fits t v \<Longrightarrow>
     \<not> (case knob_by_key k of None \<Rightarrow> False | Some kb \<Rightarrow> \<not> result_ok (coerce kb v))"
  by (auto simp: ktype_of_def coerce_fixes)

lemma variant_selector_applies:
  assumes "state_keys ctx = [MODEL_VARIANT]"
  shows "rules_state c ctx = []"
proof -
  obtain kb where "knob_by_key MODEL_VARIANT = Some kb" "kfams kb = None"
    by (simp add: knob_by_key_def KNOBS_def knobs_model_def mk_knob_def)
  then show ?thesis by (simp add: rules_state_def assms applies_to_def err_if_def)
qed

text \<open>The facts about a variant that the rules read.\<close>

lemma variant_facts [registry_simps]:
  "map_of VARIANTS ''exl3-tr3'' = Some variant_exl3_tr3"
  "map_of VARIANTS ''exl3-tr3-3.25bpw'' = Some variant_exl3_tr3_3_25bpw"
  "v_family variant_exl3_tr3 = ''glm52''" "v_family variant_exl3_tr3_3_25bpw = ''glm52''"
  "v_quantization variant_exl3_tr3 = ''exl3''" "v_quantization variant_exl3_tr3_3_25bpw = ''exl3''"
  "v_kv_calibrated variant_exl3_tr3" "v_kv_calibrated variant_exl3_tr3_3_25bpw"
  "v_default_draft variant_exl3_tr3 = Some ''native''" "v_default_draft variant_exl3_tr3_3_25bpw = Some ''native''"
  by (simp_all add: VARIANTS_def variant_exl3_tr3_def variant_exl3_tr3_3_25bpw_def)

lemma family_facts [registry_simps]:
  "f_kv_dtypes (family_of ''glm52'') = [''fp8'', ''nvfp4_ds_mla'']" "f_tested (family_of ''glm52'')"
  "f_spec_method (family_of ''glm52'') = ''mtp''"
  by (simp_all add: family_of_def FAMILIES_def family_glm52_def)

lemmas group_eval =
  Let_def read_eval registry_simps rule_context_def outside_qualified_envelope_def starts_with_def
  effective_draft_quant_def capture_window_def decode_width_def tokens_per_block_def value_eval

text \<open>The capture lists of the two profiles, read.\<close>

lemma sizes_text:
  "size_list ''4,8,12,16,20,24,28,32,36,40,44,48,52,56,60,64''
     = [4,8,12,16,20,24,28,32,36,40,44,48,52,56,60,64]"
  "size_list ''4,8,12,16,20,24,28,32'' = [4,8,12,16,20,24,28,32]"
  "int_text ''2'' = 2" "int_text ''4'' = 4"
  by code_simp+

lemma table_exl3_tr3_clean:
  assumes "\<And>k. map_of table_exl3_tr3 k \<noteq> None \<Longrightarrow> c k = map_of table_exl3_tr3 k"
    and "gpu_count ctx = None \<or> gpu_count ctx = Some 4" and "state_keys ctx = [MODEL_VARIANT]"
  shows "errors (validate c ctx) = []"
proof -
  note at = assms(1) [unfolded table_exl3_tr3_def]
  have sizes: "capture_sizes c = [4,8,12,16,20,24,28,32,36,40,44,48,52,56,60,64]"
    by (simp add: capture_sizes_def cfg_get_def py_str_def at sizes_text)
  have "errors (rules_window c) = []"
    by (simp add: rules_window_def sizes at group_eval)
  moreover have "errors (rules_fairness c) = []"
    using registered_accepts
      [of PREFILL_COMPUTE_SHARE _ "cfg_get c PREFILL_COMPUTE_SHARE (VFlt (b64 (3 / 5)))"]
    by (simp add: rules_fairness_def at group_eval coerce_simps)
  moreover have "errors (rules_family c) = []"
    by (simp add: rules_family_def at group_eval)
  moreover have "errors (rules_ranks c ctx) = []"
    using assms(2) by (elim disjE) (simp_all add: rules_ranks_def at group_eval)
  moreover have "errors (rules_draft c) = []"
    by (simp add: rules_draft_def at group_eval)
  moreover have "errors (rules_kv c) = []"
    by (simp add: rules_kv_def at group_eval)
  moreover have "errors (rules_vision c ctx) = []"
    by (simp add: rules_vision_def)
  moreover have "errors (rules_disk_cache c) = []"
    by (simp add: rules_disk_cache_def at group_eval)
  moreover have "errors (rules_fixed_kv c) = []"
    by (simp add: rules_fixed_kv_def at group_eval)
  moreover have "errors (rules_memory c) = []"
    by (simp add: rules_memory_def at group_eval)
  moreover have "errors (rules_pool c) = []"
    by (simp add: rules_pool_def at group_eval sizes_text)
  moreover have "errors (rules_parallel c) = []"
    by (simp add: rules_parallel_def at group_eval sizes_text)
  ultimately show ?thesis
    by (simp add: validate_def errors_concat variant_selector_applies [OF assms(3)])
qed

lemma exl3_tr3_clean:
  "\<exists>r. resolve_with [] (\<lambda>_. None) (profile_state ''exl3-tr3'') bare_env = Inr r \<and>
     errors (validate (eff r) (rule_context 4)) = [] \<and>
     (\<forall>k. map_of table_exl3_tr3 k \<noteq> None \<longrightarrow> eff r k = map_of table_exl3_tr3 k)"
proof -
  have "map_of VARIANTS ''exl3-tr3'' = Some variant_exl3_tr3" by (simp add: registry_simps)
  moreover have "map_of table_exl3_tr3 MTP_DRAFT = Some (VStr ''native'')" by (simp add: table_exl3_tr3_def)
  moreover have "v_default_draft variant_exl3_tr3 = Some ''native''" by (simp add: registry_simps)
  ultimately obtain r where r: "resolve_with [] (\<lambda>_. None) (profile_state ''exl3-tr3'') bare_env = Inr r"
    and e: "\<And>k. map_of table_exl3_tr3 k \<noteq> None \<Longrightarrow> eff r k = map_of table_exl3_tr3 k"
    using profile_in_force [OF _ profile_exl3_tr3 _ _ selects_profile_state] by blast
  have "errors (validate (eff r) (rule_context 4)) = []"
    by (rule table_exl3_tr3_clean [OF e]) (simp_all add: rule_context_def)
  with r e show ?thesis by blast
qed

lemma table_3_25bpw_clean:
  assumes "\<And>k. map_of table_3_25bpw k \<noteq> None \<Longrightarrow> c k = map_of table_3_25bpw k"
    and "gpu_count ctx = None \<or> gpu_count ctx = Some 4" and "state_keys ctx = [MODEL_VARIANT]"
  shows "errors (validate c ctx) = []"
proof -
  note at = assms(1) [unfolded table_3_25bpw_def]
  have sizes: "capture_sizes c = [4,8,12,16,20,24,28,32]"
    by (simp add: capture_sizes_def cfg_get_def py_str_def at sizes_text)
  have "errors (rules_window c) = []"
    by (simp add: rules_window_def sizes at group_eval)
  moreover have "errors (rules_fairness c) = []"
    using registered_accepts
      [of PREFILL_COMPUTE_SHARE _ "cfg_get c PREFILL_COMPUTE_SHARE (VFlt (b64 (3 / 5)))"]
    by (simp add: rules_fairness_def at group_eval coerce_simps)
  moreover have "errors (rules_family c) = []"
    by (simp add: rules_family_def at group_eval)
  moreover have "errors (rules_ranks c ctx) = []"
    using assms(2) by (elim disjE) (simp_all add: rules_ranks_def at group_eval)
  moreover have "errors (rules_draft c) = []"
    by (simp add: rules_draft_def at group_eval)
  moreover have "errors (rules_kv c) = []"
    by (simp add: rules_kv_def at group_eval)
  moreover have "errors (rules_vision c ctx) = []"
    by (simp add: rules_vision_def)
  moreover have "errors (rules_disk_cache c) = []"
    by (simp add: rules_disk_cache_def at group_eval)
  moreover have "errors (rules_fixed_kv c) = []"
    by (simp add: rules_fixed_kv_def at group_eval)
  moreover have "errors (rules_memory c) = []"
    by (simp add: rules_memory_def at group_eval)
  moreover have "errors (rules_pool c) = []"
    by (simp add: rules_pool_def at group_eval sizes_text)
  moreover have "errors (rules_parallel c) = []"
    by (simp add: rules_parallel_def at group_eval sizes_text)
  ultimately show ?thesis
    by (simp add: validate_def errors_concat variant_selector_applies [OF assms(3)])
qed

lemma profile_3_25bpw_clean:
  "\<exists>r. resolve_with [] (\<lambda>_. None) (profile_state ''exl3-tr3-3.25bpw'') bare_env = Inr r \<and>
     errors (validate (eff r) (rule_context 4)) = [] \<and>
     (\<forall>k. map_of table_3_25bpw k \<noteq> None \<longrightarrow> eff r k = map_of table_3_25bpw k)"
proof -
  have "map_of VARIANTS ''exl3-tr3-3.25bpw'' = Some variant_exl3_tr3_3_25bpw" by (simp add: registry_simps)
  moreover have "map_of table_3_25bpw MTP_DRAFT = Some (VStr ''native'')" by (simp add: table_3_25bpw_def)
  moreover have "v_default_draft variant_exl3_tr3_3_25bpw = Some ''native''" by (simp add: registry_simps)
  ultimately obtain r where r: "resolve_with [] (\<lambda>_. None) (profile_state ''exl3-tr3-3.25bpw'') bare_env = Inr r"
    and e: "\<And>k. map_of table_3_25bpw k \<noteq> None \<Longrightarrow> eff r k = map_of table_3_25bpw k"
    using profile_in_force [OF _ profile_3_25bpw _ _ selects_profile_state] by blast
  have "errors (validate (eff r) (rule_context 4)) = []"
    by (rule table_3_25bpw_clean [OF e]) (simp_all add: rule_context_def)
  with r e show ?thesis by blast
qed

text \<open>The two profiles in force, with their values.\<close>

lemma profile_3_25bpw_in_force:
  obtains r where "resolve_with [] (\<lambda>_. None) (profile_state ''exl3-tr3-3.25bpw'') bare_env = Inr r"
    and "errors (validate (eff r) (rule_context 4)) = []" and "is_glm (eff r)" and "is_exl3 (eff r)"
    and "cfg_int (eff r) MTP_TOKENS = 3" and "cfg_int (eff r) MAX_NUM_SEQS = 8"
    and "cfg_int (eff r) MAX_CUDAGRAPH_CAPTURE_SIZE = 32" and "cfg_int (eff r) VLLM_EXL3_TRELLIS_MAX_M = 32"
    and "cfg_int (eff r) GPU_BLOCKS_OVERRIDE = 2048" and "cfg_int (eff r) MAX_MODEL_LEN = 524288"
    and "tokens_per_block (eff r) = 256"
proof -
  obtain r where r: "resolve_with [] (\<lambda>_. None) (profile_state ''exl3-tr3-3.25bpw'') bare_env = Inr r"
      "errors (validate (eff r) (rule_context 4)) = []"
    and e: "\<And>k. map_of table_3_25bpw k \<noteq> None \<Longrightarrow> eff r k = map_of table_3_25bpw k"
    using profile_3_25bpw_clean by blast
  note at = e [unfolded table_3_25bpw_def]
  show thesis
    by (rule that [OF r]) (simp_all add: at read_eval registry_simps tokens_per_block_def sizes_text)
qed

end
