(* ===== verification/ValidateTheorems.thy ===== *)
theory ValidateTheorems
  imports Profiles
begin

text \<open>
  What the rule matrix guarantees: a configuration without errors stays inside the captured decode
  window and its pinned pool holds a request of maximum length, the remedies the messages advise
  really clear their rules, more hardware never adds an error, and a resolved configuration cannot
  trip the rules resolution already enforces.
\<close>

section \<open>The decode window\<close>

lemma sum_bounded:
  fixes b :: int
  shows "0 \<le> b \<Longrightarrow> \<forall>w\<in>set ws. w \<le> b \<Longrightarrow> sum_list ws \<le> int (length ws) * b"
  by (induction ws) (auto simp: algebra_simps)



text \<open>The number of sequences the error message advises.\<close>

definition advised_seqs :: "cfg \<Rightarrow> int" where
  "advised_seqs c = max 1 (capture_window c div (1 + cfg_int c MTP_TOKENS))"

lemma capture_window_upd [simp]:
  "capture_window (c(MAX_NUM_SEQS \<mapsto> v)) = capture_window c"
  by (simp add: capture_window_def is_exl3_def cfg_variant_def cfg_str_def cfg_int_def)

text \<open>Lowering \<open>MAX_NUM_SEQS\<close> to the value the error message advises clears the window rule exactly
  when the window has room for one sequence with its drafts; otherwise the advice cannot help.\<close>

lemma advised_seqs_clears:
  assumes "0 \<le> cfg_int c MTP_TOKENS"
  shows "decode_width (c(MAX_NUM_SEQS \<mapsto> VInt (advised_seqs c))) \<le> capture_window c \<longleftrightarrow>
    1 + cfg_int c MTP_TOKENS \<le> capture_window c"
proof -
  let ?t = "1 + cfg_int c MTP_TOKENS"
  have width: "decode_width (c(MAX_NUM_SEQS \<mapsto> VInt (advised_seqs c))) = advised_seqs c * ?t"
    by (simp add: decode_width_def cfg_int_def)
  have pos: "0 < ?t" using assms by simp
  have le: "a * ?t \<le> capture_window c \<longleftrightarrow> a \<le> capture_window c div ?t" for a
    using le_zdiv_iff [OF pos] by simp
  show ?thesis using width le [of "advised_seqs c"] le [of 1] by (auto simp: advised_seqs_def)
qed

lemma advised_seqs_clears_instance:
  "\<exists>r :: resolved. cfg_int (eff r) MTP_TOKENS = 3 \<and>
     decode_width ((eff r)(MAX_NUM_SEQS \<mapsto> VInt (advised_seqs (eff r)))) \<le> capture_window (eff r)"
proof -
  obtain r :: resolved where r: "is_exl3 (eff r)" "cfg_int (eff r) MTP_TOKENS = 3"
      "cfg_int (eff r) MAX_CUDAGRAPH_CAPTURE_SIZE = 32" "cfg_int (eff r) VLLM_EXL3_TRELLIS_MAX_M = 32"
    by (rule profile_3_25bpw_in_force) blast
  then have "capture_window (eff r) = 32" by (simp add: capture_window_def)
  with advised_seqs_clears [of "eff r"] r(2) show ?thesis by (intro exI [of _ r]) simp
qed

section \<open>The pinned pool\<close>

text \<open>The block count the message advises, and the blocks a request of \<open>n\<close> tokens takes.\<close>

definition blocks_for :: "cfg \<Rightarrow> int \<Rightarrow> int" where
  "blocks_for c n = - (- n div tokens_per_block c)"

lemma blocks_for_le_iff: "0 < tokens_per_block c \<Longrightarrow> blocks_for c n \<le> b \<longleftrightarrow> n \<le> b * tokens_per_block c"
proof -
  assume p: "0 < tokens_per_block c"
  have "blocks_for c n \<le> b \<longleftrightarrow> - b \<le> - n div tokens_per_block c" unfolding blocks_for_def by linarith
  also have "\<dots> \<longleftrightarrow> - b * tokens_per_block c \<le> - n" using p by (rule le_zdiv_iff)
  finally show ?thesis by simp
qed

definition pool_short :: "cfg \<Rightarrow> bool" where
  "pool_short c = (cfg_int c GPU_BLOCKS_OVERRIDE * tokens_per_block c < cfg_int c MAX_MODEL_LEN)"

lemma tokens_per_block_upd [simp]:
  "tokens_per_block (c(GPU_BLOCKS_OVERRIDE \<mapsto> v)) = tokens_per_block c"
  by (simp add: tokens_per_block_def is_glm_def cfg_family_def cfg_set_def cfg_get_def)

lemma rules_pool_errors: "errors (rules_pool c) = [] \<longleftrightarrow> \<not> (cfg_set c GPU_BLOCKS_OVERRIDE \<and> pool_short c)"
  by (simp add: rules_pool_def pool_short_def)

text \<open>C31: in a configuration without errors a pinned KV pool holds every request up to the maximum
  length, counted in whole blocks, and the block count the message advises is the least pin that
  passes.\<close>

theorem pinned_pool_holds_context:
  assumes "errors (validate c ctx) = []" and "cfg_set c GPU_BLOCKS_OVERRIDE" and "0 < tokens_per_block c"
  shows "(\<forall>n \<le> cfg_int c MAX_MODEL_LEN. blocks_for c n \<le> cfg_int c GPU_BLOCKS_OVERRIDE) \<and>
    (\<forall>b. b \<noteq> 0 \<longrightarrow> errors (rules_pool (c(GPU_BLOCKS_OVERRIDE \<mapsto> VInt b))) = [] \<longleftrightarrow>
          blocks_for c (cfg_int c MAX_MODEL_LEN) \<le> b)"
proof -
  have "errors (rules_pool c) = []" using assms(1) by (rule no_errors_groups)
  then have fits: "cfg_int c MAX_MODEL_LEN \<le> cfg_int c GPU_BLOCKS_OVERRIDE * tokens_per_block c"
    using assms(2) by (simp add: rules_pool_errors pool_short_def)
  have len: "cfg_int (c(GPU_BLOCKS_OVERRIDE \<mapsto> VInt b)) MAX_MODEL_LEN = cfg_int c MAX_MODEL_LEN" for b
    by (simp add: cfg_int_def)
  have "errors (rules_pool (c(GPU_BLOCKS_OVERRIDE \<mapsto> VInt b))) = [] \<longleftrightarrow>
          blocks_for c (cfg_int c MAX_MODEL_LEN) \<le> b" if "b \<noteq> 0" for b
    using that len
    by (auto simp: rules_pool_errors pool_short_def blocks_for_le_iff [OF assms(3)] cfg_set_def truthy_def
        cfg_int_def)
  moreover have "\<forall>n \<le> cfg_int c MAX_MODEL_LEN. blocks_for c n \<le> cfg_int c GPU_BLOCKS_OVERRIDE"
    using fits by (auto simp: blocks_for_le_iff [OF assms(3)])
  ultimately show ?thesis by blast
qed

theorem pinned_pool_holds_context_witness:
  "\<exists>r :: resolved. errors (validate (eff r) (rule_context 4)) = [] \<and>
     blocks_for (eff r) 524288 \<le> 2048 \<and> cfg_int (eff r) GPU_BLOCKS_OVERRIDE = 2048"
proof -
  obtain r :: resolved where r: "errors (validate (eff r) (rule_context 4)) = []" "cfg_int (eff r) GPU_BLOCKS_OVERRIDE = 2048"
      "cfg_int (eff r) MAX_MODEL_LEN = 524288" "tokens_per_block (eff r) = 256"
    by (rule profile_3_25bpw_in_force) blast
  have "cfg_set (eff r) GPU_BLOCKS_OVERRIDE"
    using r(2) by (auto simp: cfg_int_def cfg_set_def truthy_def split: option.splits pyval.splits if_splits)
  with pinned_pool_holds_context [OF r(1)] r show ?thesis by (intro exI [of _ r]) simp
qed

section \<open>Hardware\<close>

text \<open>A host with more GPUs never adds an error to a configuration.\<close>

lemma more_gpus_no_new_errors:
  assumes "gpu_count ctx = Some n" and "n \<le> m"
  shows "set (errors (validate c (ctx\<lparr>gpu_count := Some m\<rparr>))) \<subseteq> set (errors (validate c ctx))"
  using assms
  by (auto simp: validate_def errors_concat rules_ranks_def rules_vision_def rules_state_def Let_def err_if_def)

text \<open>A resolved GLM configuration whose context-parallel size came from the detected hardware
  never violates the rule that it divide the tensor-parallel size.\<close>

lemma detected_dcp_passes_rule:
  assumes "resolve_with ns proc sv d = Inr r" and "src r DCP = Some SDetected"
  shows "errors (rules_parallel (eff r)) = []"
proof -
  obtain tp where tp: "eff r TENSOR_PARALLEL_SIZE = Some (VInt tp)" "0 < tp"
    using resolve_tensor_parallel [OF assms(1)] .
  from resolve_detected_dcp [OF assms tp] have "eff r DCP = Some (VStr (show_int (dcp_for tp)))" .
  moreover have "int_text (show_int (dcp_for tp)) = dcp_for tp" by (simp add: int_text_def)
  ultimately show ?thesis using tp(1) dcp_for_divides [OF tp(2)]
    by (simp add: rules_parallel_def cfg_int_def cfg_str_def)
qed

lemma more_gpus_no_new_errors_instance:
  "\<exists>r :: resolved. set (errors (validate (eff r) ((rule_context 4)\<lparr>gpu_count := Some 8\<rparr>))) \<subseteq>
     set (errors (validate (eff r) (rule_context 4))) \<and> errors (validate (eff r) (rule_context 4)) = []"
proof -
  obtain r :: resolved where "errors (validate (eff r) (rule_context 4)) = []" by (rule profile_3_25bpw_in_force) blast
  moreover have "gpu_count (rule_context 4) = Some 4" by (simp add: rule_context_def)
  ultimately show ?thesis using more_gpus_no_new_errors [of "rule_context 4" 4 8 "eff r"]
    by (intro exI [of _ r]) auto
qed

lemma detected_dcp_passes_rule_instance:
  "\<exists>r. resolve_with [] (\<lambda>_. None) [] six_gpus = Inr r \<and> src r DCP = Some SDetected \<and>
     errors (rules_parallel (eff r)) = []"
  using six_gpus_resolves detected_dcp_passes_rule [of "[]" "\<lambda>_. None" "[]" six_gpus] by blast

text \<open>Whatever the environment and the state file say, the compute share a resolution returns is a
  finite number strictly between 0 and 1, so the rule that guards it cannot fire.\<close>

lemma resolved_share_legal:
  assumes "resolve_with ns proc sv d = Inr r"
  shows "\<exists>q. eff r PREFILL_COMPUTE_SHARE = Some (VFlt (Fin q)) \<and> 0 < q \<and> q < 1 \<and>
    ''fairness-share'' \<notin> f_id ` set (rules_fairness (eff r))"
proof -
  obtain kb where kb: "kb \<in> set KNOBS" "kkey kb = PREFILL_COMPUTE_SHARE"
      "ktyp kb = TFloat (Some (b64 0)) (Some (b64 1)) True True"
    using registered [of PREFILL_COMPUTE_SHARE] by (auto simp: registry_simps)
  with resolve_value_fits [OF assms kb(1)] obtain v
    where v: "eff r PREFILL_COMPUTE_SHARE = Some v" and fits: "fits (ktyp kb) v" by auto
  from fits kb(3) obtain q where q: "v = VFlt (Fin q)" "0 < q" "q < 1"
    by (auto simp: fits_def below_def above_def registry_simps)
  have by_key: "knob_by_key PREFILL_COMPUTE_SHARE = Some kb" using knob_by_key_self [OF kb(1)] kb(2) by simp
  have "result_ok (coerce kb v)" using fits by (simp add: coerce_fixes)
  then have "''fairness-share'' \<notin> f_id ` set (rules_fairness (eff r))"
    using v by (auto simp: rules_fairness_def Let_def err_if_def warn_if_def by_key cfg_get_def)
  with v q show ?thesis by blast
qed

lemma resolved_share_legal_instance:
  "\<exists>r q. resolve_with [] (\<lambda>_. None) [] bare_env = Inr r \<and>
     eff r PREFILL_COMPUTE_SHARE = Some (VFlt (Fin q)) \<and> q < 1"
  using bare_resolves resolved_share_legal [of "[]" "\<lambda>_. None" "[]" bare_env] by blast

end
