(* ===== verification/Minimize.thy ===== *)
theory Minimize
  imports Resolve
begin

text \<open>
  \<open>minimize\<close> of \<^verbatim>\<open>scripts/glm_config.py\<close>: from the values a user submits, the ones worth writing to
  the state file, i.e. those that differ from what the layers below would give. The startup layer is
  an argument (the code reads its snapshot). A submitted value of an unregistered key is dropped.
\<close>

text \<open>The strict knobs the environment sets illegally, and the environment without them.\<close>

definition invalid_env_keys :: "dict \<Rightarrow> key list" where
  "invalid_env_keys ev = map kkey (filter (\<lambda>kb. kreject kb \<and>
     (case map_of ev (kkey kb) of None \<Rightarrow> False | Some raw \<Rightarrow> \<not> result_ok (coerce kb raw))) KNOBS)"

definition baseline_env :: "dict \<Rightarrow> dict" where
  "baseline_env ev = filter (\<lambda>(k, _). \<not> List.member (invalid_env_keys ev) k) ev"

text \<open>Why minimizing raises: a resolution it needs raises, or a strict value is illegal.\<close>

datatype minimize_error = BaseFails resolve_error | StrictValue cfg_error

definition base_result :: "resolve_error + 'a \<Rightarrow> minimize_error + 'a" where
  "base_result r = (case r of Inl e \<Rightarrow> Inl (BaseFails e) | Inr v \<Rightarrow> Inr v)"

definition selected_of :: "dict \<Rightarrow> pyval \<Rightarrow> pyval" where
  "selected_of values dflt =
     (case map_of values MODEL_VARIANT of None \<Rightarrow> dflt
      | Some raw \<Rightarrow> (case knob_by_key MODEL_VARIANT of None \<Rightarrow> dflt
          | Some kb \<Rightarrow> (case coerce kb raw of Inr v \<Rightarrow> v | Inl _ \<Rightarrow> dflt)))"

text \<open>One knob of the loop: what is written, and the key reported as dropped.\<close>

definition minimize_knob ::
    "string \<Rightarrow> key list \<Rightarrow> (key \<Rightarrow> pyval option) \<Rightarrow> dict \<Rightarrow> knob \<Rightarrow> dict \<times> key list
       \<Rightarrow> minimize_error + dict \<times> key list" where
  "minimize_knob fam bad_env var_base values kb acc =
     (if kkey kb = MODEL_FAMILY \<or> kkey kb = MODEL_VARIANT \<or> \<not> kedit kb then Inr acc
      else case map_of values (kkey kb) of None \<Rightarrow> Inr acc
      | Some raw \<Rightarrow>
          (case coerce kb raw of
             Inl e \<Rightarrow> if kreject kb \<and> applies_to kb fam then Inl (StrictValue e) else Inr acc
           | Inr v \<Rightarrow>
               if \<not> applies_to kb fam
               then Inr (fst acc, if v \<noteq> kdefault kb then snd acc @ [kkey kb] else snd acc)
               else if Some v \<noteq> var_base (kkey kb) \<or> List.member bad_env (kkey kb)
               then Inr (fst acc @ [(kkey kb, v)], snd acc)
               else Inr acc))"

definition minimize ::
    "env \<Rightarrow> env_doc \<Rightarrow> dict \<Rightarrow> minimize_error + dict \<times> key list" where
  "minimize proc d values =
     result_bind (base_result (resolve_family values (layer d))) (\<lambda>fam.
     let bad = invalid_env_keys (layer d);
         bd = d\<lparr>layer := baseline_env (layer d)\<rparr> in
     result_bind (base_result (resolve proc [(MODEL_FAMILY, VStr fam)] bd)) (\<lambda>base.
     result_bind (base_result (resolve proc [] bd)) (\<lambda>unfiled.
     let dflt = (case eff base MODEL_VARIANT of None \<Rightarrow> VNone | Some v \<Rightarrow> v);
         sel = selected_of values dflt in
     result_bind (base_result (resolve proc [(MODEL_FAMILY, VStr fam), (MODEL_VARIANT, sel)] bd)) (\<lambda>var_base.
     let out = (if Some (VStr fam) \<noteq> eff unfiled MODEL_FAMILY then [(MODEL_FAMILY, VStr fam)] else [])
             @ (if Some sel \<noteq> eff base MODEL_VARIANT then [(MODEL_VARIANT, sel)] else [])
     in fold_result (minimize_knob fam bad (eff var_base) values) KNOBS (out, [])))))"

end
