(* ===== verification/MinimizeFacts.thy ===== *)
theory MinimizeFacts
  imports Profiles Minimize
begin

text \<open>
  The round trip of an apply: what \<open>minimize\<close> writes to the state file resolves, on the next boot, to
  the values that were submitted.
\<close>

section \<open>What is written\<close>

text \<open>The entry of one knob.\<close>

definition written :: "string \<Rightarrow> key list \<Rightarrow> (key \<Rightarrow> pyval option) \<Rightarrow> dict \<Rightarrow> knob \<Rightarrow> (key \<times> pyval) option" where
  "written fam bad_env var_base values kb =
     (if kkey kb = MODEL_FAMILY \<or> kkey kb = MODEL_VARIANT \<or> \<not> applies_to kb fam then None
      else case offer values kb of None \<Rightarrow> None
      | Some v \<Rightarrow> if Some v \<noteq> var_base (kkey kb) \<or> kkey kb \<in> set bad_env then Some (kkey kb, v) else None)"

lemma minimize_knob_Inr:
  assumes "minimize_knob fam bad vb values kb acc = Inr acc'" and "kedit kb"
  shows "fst acc' = fst acc @ (case written fam bad vb values kb of None \<Rightarrow> [] | Some p \<Rightarrow> [p])"
    and "kreject kb \<and> applies_to kb fam \<and> kkey kb \<noteq> MODEL_FAMILY \<and> kkey kb \<noteq> MODEL_VARIANT
      \<longrightarrow> legal_or_silent values kb"
  using assms
  by (auto simp: minimize_knob_def written_def offer_def legal_or_silent_def
      split: option.splits sum.splits if_splits)

lemma minimize_loop:
  assumes "fold_result (minimize_knob fam bad vb values) ks acc = Inr acc'" and "\<forall>kb\<in>set ks. kedit kb"
  shows "fst acc' = fst acc @ List.map_filter (written fam bad vb values) ks \<and>
    (\<forall>kb\<in>set ks. kreject kb \<and> applies_to kb fam \<and> kkey kb \<noteq> MODEL_FAMILY \<and> kkey kb \<noteq> MODEL_VARIANT
      \<longrightarrow> legal_or_silent values kb)"
  using assms
proof (induction ks arbitrary: acc)
  case Nil
  then show ?case by (simp add: List.map_filter_def)
next
  case (Cons kb ks)
  from Cons.prems(1) obtain acc1 where a: "minimize_knob fam bad vb values kb acc = Inr acc1"
    and rest: "fold_result (minimize_knob fam bad vb values) ks acc1 = Inr acc'"
    by (auto simp: result_bind_Inr_iff)
  from Cons.prems(2) have kb: "kedit kb" by simp
  show ?case using Cons.IH [OF rest] Cons.prems(2) minimize_knob_Inr [OF a kb]
    by (auto simp: map_filter_simps split: option.splits)
qed

lemma map_of_map_filter:
  assumes "distinct (map kkey ks)" and "\<And>kb p. f kb = Some p \<Longrightarrow> fst p = kkey kb" and "kb \<in> set ks"
  shows "map_of (List.map_filter f ks) (kkey kb) = map_option snd (f kb)"
  using assms(1,3)
proof (induction ks)
  case (Cons x ks)
  have notin: "map_of (List.map_filter f ks) k = None" if "k \<notin> kkey ` set ks" for k
    using that assms(2) by (fastforce simp: map_of_eq_None_iff List.map_filter_def)
  show ?case
  proof (cases "kb = x")
    case True
    with Cons.prems notin [of "kkey x"] assms(2) [of x] show ?thesis
      by (cases "f x") (auto simp: map_filter_simps)
  next
    case False
    with Cons.prems have "kb \<in> set ks" by simp
    then have "kkey kb \<in> kkey ` set ks" by blast
    with Cons.prems(1) have "kkey kb \<noteq> kkey x" by auto
    with Cons \<open>kb \<in> set ks\<close> assms(2) [of x] show ?thesis
      by (cases "f x") (auto simp: map_filter_simps)
  qed
qed simp

section \<open>The baseline environment offers the same\<close>

lemma map_of_filter_keys: "map_of (filter (\<lambda>(k, _). P k) d) k = (if P k then map_of d k else None)"
  by (induction d) auto

lemma invalid_env_keys_iff:
  assumes "kb \<in> set KNOBS"
  shows "kkey kb \<in> set (invalid_env_keys ev) \<longleftrightarrow> kreject kb \<and> \<not> legal_or_silent ev kb"
proof
  assume "kkey kb \<in> set (invalid_env_keys ev)"
  then obtain kb' where kb': "kb' \<in> set KNOBS" "kkey kb' = kkey kb" "kreject kb'"
      "case map_of ev (kkey kb') of None \<Rightarrow> False | Some raw \<Rightarrow> \<not> result_ok (coerce kb' raw)"
    by (auto simp: invalid_env_keys_def)
  then have "kb' = kb" using assms knob_key_inj by blast
  with kb' show "kreject kb \<and> \<not> legal_or_silent ev kb"
    by (auto simp: legal_or_silent_def offer_def result_ok_def split: option.splits sum.splits)
next
  assume "kreject kb \<and> \<not> legal_or_silent ev kb"
  with assms show "kkey kb \<in> set (invalid_env_keys ev)"
    by (force simp: invalid_env_keys_def legal_or_silent_def offer_def result_ok_def
        split: option.splits sum.splits)
qed

lemma offer_baseline: "kb \<in> set KNOBS \<Longrightarrow> offer (baseline_env ev) kb = offer ev kb"
  using invalid_env_keys_iff [of kb ev]
  by (auto simp: offer_def baseline_env_def map_of_filter_keys legal_or_silent_def split: option.splits sum.splits)

lemma selectors_not_strict: "list_all (\<lambda>kb. kreject kb \<longrightarrow> kkey kb \<noteq> MODEL_VARIANT \<and> kkey kb \<noteq> MODEL_FAMILY) KNOBS"
  by (simp add: knob_tables)

lemma baseline_selectors:
  assumes "k = MODEL_FAMILY \<or> k = MODEL_VARIANT"
  shows "map_of (baseline_env ev) k = map_of ev k"
proof -
  have "k \<notin> set (invalid_env_keys ev)"
    using assms selectors_not_strict by (auto simp: invalid_env_keys_def list_all_iff)
  then show ?thesis by (simp add: baseline_env_def map_of_filter_keys)
qed

lemma resolve_family_baseline: "resolve_family sv (baseline_env ev) = resolve_family sv ev"
  by (simp add: resolve_family_def selector_text_def baseline_selectors family_step_def)

section \<open>Resolving again\<close>

text \<open>What the layers below the file give a knob, for a chosen variant.\<close>

definition below_file :: "string \<Rightarrow> int option \<Rightarrow> dict \<Rightarrow> variant option \<Rightarrow> knob \<Rightarrow> pyval option" where
  "below_file fam ngpu ev var kb = map_option snd (precedence fam ngpu ev [] var kb)"

lemma precedence_file:
  "map_option snd (precedence fam ngpu ev sv var kb) =
     (case offer sv kb of Some v \<Rightarrow> Some v | None \<Rightarrow> below_file fam ngpu ev var kb)"
  by (auto simp: precedence_def below_file_def offer_def split: option.splits)

lemma below_file_baseline:
  "kb \<in> set KNOBS \<Longrightarrow> below_file fam ngpu (baseline_env ev) var kb = below_file fam ngpu ev var kb"
  by (simp add: below_file_def precedence_def offer_baseline)

lemma resolve_at:
  assumes "resolve_with ns proc sv d = Inr r" and "resolve_family sv (layer d) = Inr fam"
    and "kb \<in> set KNOBS" and "kkey kb \<notin> {MTP_DRAFT, MTP_TOKENS, DCP}"
  shows "eff r (kkey kb) = (case offer sv kb of Some v \<Rightarrow> Some v
    | None \<Rightarrow> below_file fam (detected_gpu_count proc d) (layer d) (selected_variant (eff r)) kb)"
proof -
  from resolve_precedence_all [OF assms] obtain s v where
    "precedence fam (detected_gpu_count proc d) (layer d) sv (selected_variant (eff r)) kb = Some (s, v)"
    "eff r (kkey kb) = Some v" by blast
  then show ?thesis using precedence_file [of fam "detected_gpu_count proc d" "layer d" sv "selected_variant (eff r)" kb]
    by simp
qed

lemma variant_never_offers_selectors:
  "kkey kb = MODEL_VARIANT \<or> kkey kb = MODEL_FAMILY \<Longrightarrow> variant_offer fam (selected_variant e) kb = None"
  by (auto simp: variant_offer_def offer_def dest: variant_keeps_selectors split: option.splits)

lemma resolve_variant_at:
  assumes "resolve_with ns proc sv d = Inr r" and "resolve_family sv (layer d) = Inr fam"
    and kv: "kv \<in> set KNOBS" "kkey kv = MODEL_VARIANT"
  shows "eff r MODEL_VARIANT = (case offer sv kv of Some v \<Rightarrow> Some v
    | None \<Rightarrow> below_file fam None (layer d) None kv)"
proof -
  have "below_file fam (detected_gpu_count proc d) (layer d) (selected_variant (eff r)) kv =
      below_file fam None (layer d) None kv"
    using variant_never_offers_selectors [of kv fam "eff r"] kv(2)
    by (auto simp: below_file_def precedence_def hardware_offer_def variant_offer_def [of fam None] split: option.splits)
  with resolve_at [OF assms(1,2) kv(1)] kv(2) show ?thesis by (simp split: option.splits)
qed

text \<open>State values whose selectors are registered choices cannot be refused as withdrawn.\<close>

definition safe_selectors :: "dict \<Rightarrow> bool" where
  "safe_selectors st = (\<forall>(k, cs) \<in> {(MODEL_FAMILY, map fst FAMILIES), (MODEL_VARIANT, map fst VARIANTS)}.
     map_of st k = None \<or> (\<exists>s. map_of st k = Some (VStr s) \<and> fits (TChoice cs) (VStr s)))"

lemma safe_selectors_pass:
  assumes "safe_selectors st" and "resolve_family values ev = Inr fam"
  shows "resolve_family st ev = Inr (family_step st (family_step ev ''glm52''))"
proof -
  have blank: "py_strip [] = []" by (simp add: py_strip_def py_rstrip_def py_lstrip_def)
  have "selector_text st MODEL_FAMILY \<notin> set WITHDRAWN_FLASH_FAMILIES"
    using assms(1) by (auto simp: safe_selectors_def selector_text_def blank coerce_simps py_str_def
        WITHDRAWN_FLASH_FAMILIES_def FAMILIES_def)
  moreover have "selector_text st MODEL_VARIANT \<notin> set WITHDRAWN_FLASH_VARIANTS"
    using assms(1) by (auto simp: safe_selectors_def selector_text_def blank coerce_simps py_str_def
        WITHDRAWN_FLASH_VARIANTS_def VARIANTS_def)
  ultimately show ?thesis using assms(2)
    by (auto simp: resolve_family_def split: option.splits if_splits)
qed

lemma family_knob:
  obtains kf where "kf \<in> set KNOBS" "kkey kf = MODEL_FAMILY" "ktyp kf = TChoice (map fst FAMILIES)"
    "knob_by_key MODEL_FAMILY = Some kf"
  using registered [of MODEL_FAMILY] knob_by_key_self by (fastforce simp: ktype_of_simps)

lemma variant_knob:
  obtains kv where "kv \<in> set KNOBS" "kkey kv = MODEL_VARIANT" "ktyp kv = TChoice (map fst VARIANTS)"
    "knob_by_key MODEL_VARIANT = Some kv"
  using registered [of MODEL_VARIANT] knob_by_key_self by (fastforce simp: ktype_of_simps)

lemma resolved_family_fits:
  assumes "resolve_with ns proc sv d = Inr r" and "resolve_family sv (layer d) = Inr fam"
  shows "fits (TChoice (map fst FAMILIES)) (VStr fam)"
proof -
  obtain kf where kf: "kf \<in> set KNOBS" "kkey kf = MODEL_FAMILY" "ktyp kf = TChoice (map fst FAMILIES)"
    by (rule family_knob)
  with resolve_value_fits [OF assms(1) kf(1)] resolve_reports_family [OF assms] show ?thesis by simp
qed

lemma family_step_fits:
  assumes "fits (TChoice (map fst FAMILIES)) (VStr fam)" and "map_of st MODEL_FAMILY = Some (VStr fam)"
  shows "family_step st name = fam"
proof -
  obtain kf where kf: "ktyp kf = TChoice (map fst FAMILIES)" "knob_by_key MODEL_FAMILY = Some kf"
    by (rule family_knob)
  with assms coerce_fixes [of kf "VStr fam"] show ?thesis by (simp add: family_step_def)
qed

lemma family_step_silent: "map_of st MODEL_FAMILY = None \<Longrightarrow> family_step st name = name"
  by (simp add: family_step_def)

text \<open>What a successful minimization has computed on the way.\<close>

lemma minimizeE:
  assumes "minimize proc d values = Inr (out, dropped)" and "resolve_family values (layer d) = Inr fam"
  obtains base unfiled var_base bd sel heads
  where "bd = d\<lparr>layer := baseline_env (layer d)\<rparr>"
    and "resolve_with [] proc [(MODEL_FAMILY, VStr fam)] bd = Inr base"
    and "resolve_with [] proc [] bd = Inr unfiled"
    and "sel = selected_of values (case eff base MODEL_VARIANT of None \<Rightarrow> VNone | Some v \<Rightarrow> v)"
    and "resolve_with [] proc [(MODEL_FAMILY, VStr fam), (MODEL_VARIANT, sel)] bd = Inr var_base"
    and "heads = (if Some (VStr fam) \<noteq> eff unfiled MODEL_FAMILY then [(MODEL_FAMILY, VStr fam)] else [])
             @ (if Some sel \<noteq> eff base MODEL_VARIANT then [(MODEL_VARIANT, sel)] else [])"
    and "out = heads @ List.map_filter (written fam (invalid_env_keys (layer d)) (eff var_base) values) KNOBS"
proof -
  have edit: "\<forall>kb\<in>set KNOBS. kedit kb" using knobs_editable by (simp add: list_all_iff)
  have base: "base_result x = Inr v \<longleftrightarrow> x = Inr v" for x :: "resolve_error + 'a" and v
    by (cases x) (auto simp: base_result_def)
  let ?bd = "d\<lparr>layer := baseline_env (layer d)\<rparr>"
  from assms obtain base unfiled var_base where
    *: "resolve_with [] proc [(MODEL_FAMILY, VStr fam)] ?bd = Inr base"
      "resolve_with [] proc [] ?bd = Inr unfiled"
      "resolve_with [] proc [(MODEL_FAMILY, VStr fam),
         (MODEL_VARIANT, selected_of values (case eff base MODEL_VARIANT of None \<Rightarrow> VNone | Some v \<Rightarrow> v))] ?bd
       = Inr var_base"
    and loop: "fold_result (minimize_knob fam (invalid_env_keys (layer d)) (eff var_base) values) KNOBS
        ((if Some (VStr fam) \<noteq> eff unfiled MODEL_FAMILY then [(MODEL_FAMILY, VStr fam)] else [])
             @ (if Some (selected_of values (case eff base MODEL_VARIANT of None \<Rightarrow> VNone | Some v \<Rightarrow> v))
                   \<noteq> eff base MODEL_VARIANT
                then [(MODEL_VARIANT, selected_of values (case eff base MODEL_VARIANT of None \<Rightarrow> VNone | Some v \<Rightarrow> v))]
                else []), []) = Inr (out, dropped)"
    by (auto simp: minimize_def resolve_def result_bind_Inr_iff base Let_def)
  from minimize_loop [OF loop edit] show thesis
    by (intro that [OF refl *(1,2) refl *(3) refl]) simp
qed

lemma written_key: "written fam bad vb values kb = Some p \<Longrightarrow>
    fst p = kkey kb \<and> kkey kb \<noteq> MODEL_FAMILY \<and> kkey kb \<noteq> MODEL_VARIANT"
  by (auto simp: written_def split: option.splits if_splits)

lemma map_of_written:
  assumes "kb \<in> set KNOBS"
  shows "map_of (List.map_filter (written fam bad vb values) KNOBS) (kkey kb) =
    map_option snd (written fam bad vb values kb)"
  by (rule map_of_map_filter [OF knob_keys_distinct _ assms]) (auto dest: written_key)

lemma map_of_written_selectors:
  assumes "k = MODEL_FAMILY \<or> k = MODEL_VARIANT"
  shows "map_of (List.map_filter (written fam bad vb values) KNOBS) k = None"
  using assms written_key by (fastforce simp: map_of_eq_None_iff List.map_filter_def)

lemma offer_fits: "kb \<in> set KNOBS \<Longrightarrow> offer d kb = Some v \<Longrightarrow> fits (ktyp kb) v"
  by (auto simp: offer_def intro: coerce_registered_fits split: option.splits sum.splits)

text \<open>The offer of the written file.\<close>

lemma offer_written:
  assumes "kb \<in> set KNOBS" and "kkey kb \<noteq> MODEL_FAMILY" "kkey kb \<noteq> MODEL_VARIANT"
    and "fst ` set heads \<subseteq> {MODEL_FAMILY, MODEL_VARIANT}"
  shows "offer (heads @ List.map_filter (written fam bad vb values) KNOBS) kb =
    map_option snd (written fam bad vb values kb)"
proof -
  have "map_of heads (kkey kb) = None" using assms(2-4) by (auto simp: map_of_eq_None_iff)
  then have "map_of (heads @ List.map_filter (written fam bad vb values) KNOBS) (kkey kb) =
      map_option snd (written fam bad vb values kb)"
    by (simp add: map_of_written [OF assms(1)] map_add_def)
  moreover have "coerce kb (snd p) = Inr (snd p)" if "written fam bad vb values kb = Some p" for p
    using that offer_fits [OF assms(1)]
    by (auto simp: written_def intro: coerce_fixes split: option.splits if_splits)
  ultimately show ?thesis by (auto simp: offer_def split: option.splits)
qed

text \<open>The family and the variant survive the round trip.\<close>

lemma minimize_family:
  assumes fam: "resolve_family values (layer d) = Inr fam"
    and fits: "fits (TChoice (map fst FAMILIES)) (VStr fam)"
    and unf: "resolve_with [] proc [] (d\<lparr>layer := baseline_env (layer d)\<rparr>) = Inr unfiled"
    and heads: "map_of out MODEL_FAMILY = (if Some (VStr fam) \<noteq> eff unfiled MODEL_FAMILY then Some (VStr fam) else None)"
    and safe: "safe_selectors out"
  shows "resolve_family out (layer d) = Inr fam"
proof -
  let ?e = "family_step (layer d) ''glm52''"
  have "resolve_family [] (layer d) = Inr ?e"
    using safe_selectors_pass [OF _ fam, of "[]"] by (simp add: safe_selectors_def family_step_silent)
  then have "eff unfiled MODEL_FAMILY = Some (VStr ?e)"
    by (intro resolve_reports_family [OF unf]) (simp add: resolve_family_baseline)
  then have "family_step out ?e = fam"
    using heads family_step_fits [OF fits, of out ?e] family_step_silent [of out ?e]
    by (cases "fam = ?e") auto
  with safe_selectors_pass [OF safe fam] show ?thesis by simp
qed

lemma selected_of_offer:
  assumes "knob_by_key MODEL_VARIANT = Some kv" and "kkey kv = MODEL_VARIANT"
  shows "selected_of values w = (case offer values kv of Some v \<Rightarrow> v | None \<Rightarrow> w)"
  using assms by (simp add: selected_of_def offer_def split: option.splits sum.splits)

text \<open>The state a minimization has reached, with the selectors settled.\<close>

lemma minimize_settled:
  assumes m: "minimize proc d values = Inr (out, dropped)"
    and r: "resolve proc values d = Inr r"
    and fam: "resolve_family values (layer d) = Inr fam"
  obtains var_base bd heads st2
  where "bd = d\<lparr>layer := baseline_env (layer d)\<rparr>"
    and "resolve_with [] proc st2 bd = Inr var_base" and "resolve_family st2 (layer bd) = Inr fam"
    and "\<And>kb. kkey kb \<noteq> MODEL_FAMILY \<Longrightarrow> kkey kb \<noteq> MODEL_VARIANT \<Longrightarrow> offer st2 kb = None"
    and "eff var_base MODEL_VARIANT = eff r MODEL_VARIANT"
    and "resolve_family out (layer d) = Inr fam"
    and "\<And>r'. resolve_with [] proc out d = Inr r' \<Longrightarrow> eff r' MODEL_VARIANT = eff r MODEL_VARIANT"
    and "out = heads @ List.map_filter (written fam (invalid_env_keys (layer d)) (eff var_base) values) KNOBS"
    and "fst ` set heads \<subseteq> {MODEL_FAMILY, MODEL_VARIANT}"
proof -
  obtain kv where kv: "kv \<in> set KNOBS" "kkey kv = MODEL_VARIANT" "ktyp kv = TChoice (map fst VARIANTS)"
      "knob_by_key MODEL_VARIANT = Some kv" by (rule variant_knob)
  obtain base unfiled var_base bd sel heads where
      bd: "bd = d\<lparr>layer := baseline_env (layer d)\<rparr>"
    and base: "resolve_with [] proc [(MODEL_FAMILY, VStr fam)] bd = Inr base"
    and unf: "resolve_with [] proc [] bd = Inr unfiled"
    and sel: "sel = selected_of values (case eff base MODEL_VARIANT of None \<Rightarrow> VNone | Some v \<Rightarrow> v)"
    and vb: "resolve_with [] proc [(MODEL_FAMILY, VStr fam), (MODEL_VARIANT, sel)] bd = Inr var_base"
    and heads: "heads = (if Some (VStr fam) \<noteq> eff unfiled MODEL_FAMILY then [(MODEL_FAMILY, VStr fam)] else [])
             @ (if Some sel \<noteq> eff base MODEL_VARIANT then [(MODEL_VARIANT, sel)] else [])"
    and out: "out = heads @ List.map_filter (written fam (invalid_env_keys (layer d)) (eff var_base) values) KNOBS"
    by (rule minimizeE [OF m fam]) blast
  note r' = r [unfolded resolve_def]
  have layer_bd: "layer bd = baseline_env (layer d)" by (simp add: bd)
  have ffam: "fits (TChoice (map fst FAMILIES)) (VStr fam)" by (rule resolved_family_fits [OF r' fam])
  have fam_st: "resolve_family st (layer bd) = Inr fam"
    if "safe_selectors st" "map_of st MODEL_FAMILY = Some (VStr fam)" for st
    using safe_selectors_pass [OF that(1) fam] family_step_fits [OF ffam that(2)]
    by (simp add: layer_bd resolve_family_baseline)
  have fam1: "resolve_family [(MODEL_FAMILY, VStr fam)] (layer bd) = Inr fam"
    by (rule fam_st) (simp_all add: safe_selectors_def ffam)
  let ?low = "below_file fam None (layer d) None kv"
  have low: "eff base MODEL_VARIANT = ?low"
    using resolve_variant_at [OF base fam1 kv(1,2)] kv(2)
    by (simp add: offer_def layer_bd below_file_baseline [OF kv(1)])
  obtain w where w: "eff base MODEL_VARIANT = Some w" "fits (ktyp kv) w"
    using resolve_value_fits [OF base kv(1)] kv(2) by auto
  have rsel: "eff r MODEL_VARIANT = Some sel"
    using resolve_variant_at [OF r' fam kv(1,2)] w(1) low [symmetric]
    by (cases "offer values kv") (simp_all add: sel selected_of_offer [OF kv(4,2)])
  then have fsel: "fits (TChoice (map fst VARIANTS)) sel"
    using resolve_value_fits [OF r' kv(1)] kv(2,3) by simp
  then obtain sn where sn: "sel = VStr sn" by (auto simp: fits_def)
  let ?st2 = "[(MODEL_FAMILY, VStr fam), (MODEL_VARIANT, sel)]"
  have fam2: "resolve_family ?st2 (layer bd) = Inr fam"
    by (rule fam_st) (use ffam fsel sn in \<open>simp_all add: safe_selectors_def\<close>)
  have csel: "coerce kv sel = Inr sel" using fsel kv(3) by (simp add: coerce_fixes)
  have vsel: "eff var_base MODEL_VARIANT = Some sel"
    using resolve_variant_at [OF vb fam2 kv(1,2)] kv(2) csel by (simp add: offer_def)
  have keys: "fst ` set heads \<subseteq> {MODEL_FAMILY, MODEL_VARIANT}" by (auto simp: heads)
  have outk: "map_of out k = map_of heads k" if "k = MODEL_FAMILY \<or> k = MODEL_VARIANT" for k
    using map_of_written_selectors [OF that] unfolding out by (simp add: map_add_def split: option.splits)
  have safe: "safe_selectors out"
    using ffam fsel sn by (auto simp: safe_selectors_def outk heads)
  have famo: "resolve_family out (layer d) = Inr fam"
    by (rule minimize_family [OF fam ffam unf [unfolded bd] _ safe]) (simp add: outk heads)
  have again: "eff q MODEL_VARIANT = eff r MODEL_VARIANT" if "resolve_with [] proc out d = Inr q" for q
    using resolve_variant_at [OF that famo kv(1,2)] kv(2) csel low rsel
    by (auto simp: offer_def outk heads)
  show thesis
    by (rule that [OF bd vb fam2 _ _ famo again out keys]) (simp_all add: offer_def vsel rsel)
qed

section \<open>The round trip\<close>

lemma minimize_keeps_strict:
  assumes m: "minimize proc d values = Inr (out, dropped)" and fam: "resolve_family values (layer d) = Inr fam"
    and r: "resolve_with [] proc values d = Inr r"
    and out: "\<And>kb. kb \<in> set KNOBS \<Longrightarrow> kkey kb \<noteq> MODEL_FAMILY \<Longrightarrow> kkey kb \<noteq> MODEL_VARIANT \<Longrightarrow>
        map_of out (kkey kb) = map_option snd (written fam (invalid_env_keys (layer d)) vb values kb)"
    and kb: "kb \<in> set KNOBS" "kreject kb" "applies_to kb fam"
  shows "strict_ok (layer d) out kb"
proof -
  have k: "kkey kb \<noteq> MODEL_FAMILY" "kkey kb \<noteq> MODEL_VARIANT"
    using kb(1,2) selectors_not_strict by (auto simp: list_all_iff)
  have "strict_ok (layer d) values kb"
    using r fam kb resolve_with_ok [of "[]" proc "values" d] by auto
  show ?thesis
  proof (cases "offer values kb")
    case None
    then have "map_of out (kkey kb) = None" "legal_or_silent (layer d) kb"
      using out [OF kb(1) k] \<open>strict_ok (layer d) values kb\<close> by (simp_all add: written_def strict_ok_def)
    then show ?thesis by (simp add: strict_ok_def legal_or_silent_def)
  next
    case (Some v)
    have "coerce kb v = Inr v" using offer_fits [OF kb(1) Some] by (rule coerce_fixes)
    show ?thesis
    proof (cases "Some v \<noteq> vb (kkey kb) \<or> kkey kb \<in> set (invalid_env_keys (layer d))")
      case True
      with Some k kb(3) out [OF kb(1) k] \<open>coerce kb v = Inr v\<close>
      show ?thesis by (simp add: written_def strict_ok_def offer_def [of out])
    next
      case False
      then have "vb (kkey kb) = Some v" "kkey kb \<notin> set (invalid_env_keys (layer d))" by auto
      then have "written fam (invalid_env_keys (layer d)) vb values kb = None"
        by (simp add: written_def Some)
      then have "map_of out (kkey kb) = None" using out [OF kb(1) k] by simp
      then have "legal_or_silent out kb" by (simp add: legal_or_silent_def)
      then show ?thesis using False invalid_env_keys_iff [OF kb(1), of "layer d"] kb(2)
        by (simp add: strict_ok_def)
    qed
  qed
qed

lemma minimize_out_resolves:
  assumes m: "minimize proc d values = Inr (out, dropped)" and r: "resolve proc values d = Inr r"
    and fam: "resolve_family values (layer d) = Inr fam"
  shows "\<exists>r'. resolve_with [] proc out d = Inr r'"
proof -
  obtain var_base bd heads st2 where "bd = d\<lparr>layer := baseline_env (layer d)\<rparr>"
    and "resolve_with [] proc st2 bd = Inr var_base" and "resolve_family st2 (layer bd) = Inr fam"
    and "\<And>kb. kkey kb \<noteq> MODEL_FAMILY \<Longrightarrow> kkey kb \<noteq> MODEL_VARIANT \<Longrightarrow> offer st2 kb = None"
    and "eff var_base MODEL_VARIANT = eff r MODEL_VARIANT"
    and famo: "resolve_family out (layer d) = Inr fam"
    and "\<And>r'. resolve_with [] proc out d = Inr r' \<Longrightarrow> eff r' MODEL_VARIANT = eff r MODEL_VARIANT"
    and out: "out = heads @ List.map_filter (written fam (invalid_env_keys (layer d)) (eff var_base) values) KNOBS"
    and keys: "fst ` set heads \<subseteq> {MODEL_FAMILY, MODEL_VARIANT}"
    by (rule minimize_settled [OF m r fam]) blast
  have "map_of out (kkey kb) = map_option snd (written fam (invalid_env_keys (layer d)) (eff var_base) values kb)"
    if "kb \<in> set KNOBS" "kkey kb \<noteq> MODEL_FAMILY" "kkey kb \<noteq> MODEL_VARIANT" for kb
  proof -
    have "map_of heads (kkey kb) = None" using that(2,3) keys by (auto simp: map_of_eq_None_iff)
    then show ?thesis by (simp add: out map_of_written [OF that(1)] map_add_def)
  qed
  then have "result_ok (resolve_with [] proc out d)"
    unfolding resolve_with_ok using famo minimize_keeps_strict [OF m fam r [unfolded resolve_def]] by auto
  then show ?thesis by (auto elim: result_okE)
qed


text \<open>An instance: one explicit context length over the bare template.\<close>

lemma selector_state_resolves:
  assumes "safe_selectors st" and "fst ` set st \<subseteq> {MODEL_FAMILY, MODEL_VARIANT}"
  shows "\<exists>r. resolve_with [] proc st bare_env = Inr r"
proof -
  have "strict_ok (layer bare_env) st kb" if "kb \<in> set KNOBS" "kreject kb" for kb
  proof -
    have "kkey kb \<notin> {MODEL_FAMILY, MODEL_VARIANT}"
      using that selectors_not_strict by (auto simp: list_all_iff)
    then have "map_of st (kkey kb) = None" using assms(2) by (auto simp: map_of_eq_None_iff)
    then show ?thesis by (simp add: strict_ok_def legal_or_silent_def bare_env_def)
  qed
  then have "result_ok (resolve_with [] proc st bare_env)"
    unfolding resolve_with_ok using safe_selectors_pass [OF assms(1) bare_family] by auto
  then show ?thesis by (auto elim: result_okE)
qed

definition context_choice :: dict where
  "context_choice = [(MAX_MODEL_LEN, VInt 65536)]"

lemma context_choice_family: "resolve_family context_choice (layer bare_env) = Inr ''glm52''"
  using safe_selectors_pass [OF _ bare_family, of context_choice]
  by (simp add: safe_selectors_def context_choice_def family_step_def bare_env_def)

lemma context_choice_resolves: "\<exists>r. resolve_with [] (\<lambda>_. None) context_choice bare_env = Inr r"
proof -
  have "list_all (\<lambda>kb. kreject kb \<longrightarrow> kkey kb \<noteq> MAX_MODEL_LEN) KNOBS" by (simp add: knob_tables)
  then have "strict_ok (layer bare_env) context_choice kb" if "kb \<in> set KNOBS" "kreject kb" for kb
    using that by (auto simp: list_all_iff strict_ok_def legal_or_silent_def context_choice_def bare_env_def)
  then have "result_ok (resolve_with [] (\<lambda>_. None) context_choice bare_env)"
    unfolding resolve_with_ok context_choice_family by simp
  then show ?thesis by (auto elim: result_okE)
qed

lemma bare_baseline: "bare_env\<lparr>layer := baseline_env (layer bare_env)\<rparr> = bare_env"
  by (simp add: bare_env_def baseline_env_def)

lemma context_choice_minimizes: "\<exists>p. minimize (\<lambda>_. None) bare_env context_choice = Inr p"
proof -
  obtain kv where kv: "kv \<in> set KNOBS" "kkey kv = MODEL_VARIANT" "ktyp kv = TChoice (map fst VARIANTS)"
    by (rule variant_knob)
  have safe1: "safe_selectors [(MODEL_FAMILY, VStr ''glm52'')]" "safe_selectors []"
    using glm_fits by (simp_all add: safe_selectors_def)
  obtain base where base: "resolve_with [] (\<lambda>_. None) [(MODEL_FAMILY, VStr ''glm52'')] bare_env = Inr base"
    using selector_state_resolves [OF safe1(1)] by auto
  obtain unfiled where unf: "resolve_with [] (\<lambda>_. None) [] bare_env = Inr unfiled"
    using selector_state_resolves [OF safe1(2)] by auto
  obtain w where w: "eff base MODEL_VARIANT = Some (VStr w)" "fits (TChoice (map fst VARIANTS)) (VStr w)"
    using resolve_value_fits [OF base kv(1)] kv(2,3) by (auto simp: fits_def)
  then have "safe_selectors [(MODEL_FAMILY, VStr ''glm52''), (MODEL_VARIANT, VStr w)]"
    using glm_fits by (simp add: safe_selectors_def)
  then obtain vb where vb: "resolve_with [] (\<lambda>_. None)
      [(MODEL_FAMILY, VStr ''glm52''), (MODEL_VARIANT, VStr w)] bare_env = Inr vb"
    using selector_state_resolves by fastforce
  have "list_all (\<lambda>kb. kreject kb \<longrightarrow> kkey kb \<noteq> MAX_MODEL_LEN) KNOBS" by (simp add: knob_tables)
  then have step: "result_ok (minimize_knob fam bad v context_choice kb acc)" if "kb \<in> set KNOBS" for fam bad v kb acc
    using that by (auto simp: list_all_iff minimize_knob_def context_choice_def split: sum.splits)
  have loop: "result_ok (fold_result (minimize_knob fam bad v context_choice) ks acc)"
    if "set ks \<subseteq> set KNOBS" for fam bad v ks acc
    using that
  proof (induction ks arbitrary: acc)
    case (Cons kb ks)
    from step [of kb fam bad v acc] Cons.prems obtain acc' where
      "minimize_knob fam bad v context_choice kb acc = Inr acc'" by (auto elim: result_okE)
    with Cons show ?case by simp
  qed simp
  have "selected_of context_choice (VStr w) = VStr w" by (simp add: selected_of_def context_choice_def)
  then have "result_ok (minimize (\<lambda>_. None) bare_env context_choice)"
    by (simp add: minimize_def context_choice_family bare_baseline resolve_def base unf w vb base_result_def
        Let_def loop)
  then show ?thesis by (auto elim: result_okE)
qed


section \<open>Where the round trip fails\<close>

text \<open>The last steps on the draft and the speculation depth.\<close>

lemma draft_off_tokens:
  "eff (draft_off fam q) MTP_TOKENS =
     (if fam = ''glm52'' \<and> eff (draft_off fam q) MTP_DRAFT = Some (VStr ''off'') \<and>
         (case eff q MTP_TOKENS of None \<Rightarrow> False | Some v \<Rightarrow> truthy v)
      then Some (VInt 0) else eff q MTP_TOKENS)"
  by (simp add: draft_off_def)

lemma finish_tokens:
  "eff (finish fam r) MTP_TOKENS =
     (if fam = ''glm52'' \<and> eff (finish fam r) MTP_DRAFT = Some (VStr ''off'') \<and>
         (case eff (variant_layer r) MTP_TOKENS of None \<Rightarrow> False | Some v \<Rightarrow> truthy v)
      then Some (VInt 0) else eff (variant_layer r) MTP_TOKENS)"
proof -
  let ?q = "detected_dcp (stock_draft fam (variant_layer r))"
  have "eff ?q MTP_TOKENS = eff (variant_layer r) MTP_TOKENS"
    by (simp add: detected_dcp_def stock_draft_def Let_def split: option.splits)
  with draft_off_tokens [of fam ?q] show ?thesis unfolding finish_def by (simp only:)
qed

definition draft_choice :: dict where
  "draft_choice = [(MTP_DRAFT, VStr ''native''), (MTP_TOKENS, VInt 0)]"

lemma draft_choice_family: "resolve_family st (layer draft_off_env) = Inr ''glm52''"
  if "safe_selectors st" "map_of st MODEL_FAMILY \<in> {None, Some (VStr ''glm52'')}"
  using safe_selectors_pass [OF that(1) draft_off_env_family] that(2)
    family_step_fits [OF glm_fits, of st] family_step_silent [of st]
  by (auto simp: draft_off_env_def family_step_silent)

text \<open>Values that leave the strict knobs alone resolve.\<close>

lemma draft_state_resolves:
  assumes "safe_selectors st" and "map_of st MODEL_FAMILY \<in> {None, Some (VStr ''glm52'')}"
    and "fst ` set st \<subseteq> {MODEL_FAMILY, MODEL_VARIANT, MTP_DRAFT, MTP_TOKENS}"
  shows "\<exists>r. resolve_with [] (\<lambda>_. None) st draft_off_env = Inr r"
proof -
  have "list_all (\<lambda>kb. kreject kb \<longrightarrow>
      kkey kb \<notin> {MODEL_FAMILY, MODEL_VARIANT, MTP_DRAFT, MTP_TOKENS}) KNOBS" by (simp add: knob_tables)
  then have "strict_ok (layer draft_off_env) st kb" if "kb \<in> set KNOBS" "kreject kb" for kb
    using that assms(3)
    by (force simp: list_all_iff strict_ok_def legal_or_silent_def draft_off_env_def map_of_eq_None_iff)
  then have "result_ok (resolve_with [] (\<lambda>_. None) st draft_off_env)"
    unfolding resolve_with_ok draft_choice_family [OF assms(1,2)] by auto
  then show ?thesis by (auto elim: result_okE)
qed

lemma draft_knobs:
  obtains kd kt where "kd \<in> set KNOBS" "kkey kd = MTP_DRAFT" "ktyp kd = TChoice (map fst DRAFTS)"
    "applies_to kd ''glm52''" "\<not> kreject kd"
    and "kt \<in> set KNOBS" "kkey kt = MTP_TOKENS" "ktyp kt = TInt (Some 0) (Some 8)"
    "applies_to kt ''glm52''" "\<not> kreject kt"
proof -
  obtain kd where kd: "kd \<in> set KNOBS" "kkey kd = MTP_DRAFT" "ktyp kd = TChoice (map fst DRAFTS)"
    using registered [of MTP_DRAFT] by (auto simp: ktype_of_simps)
  obtain kt where kt: "kt \<in> set KNOBS" "kkey kt = MTP_TOKENS" "ktyp kt = TInt (Some 0) (Some 8)"
    using registered [of MTP_TOKENS] by (auto simp: ktype_of_simps)
  have "list_all (\<lambda>kb. kkey kb = MTP_DRAFT \<or> kkey kb = MTP_TOKENS \<longrightarrow>
      applies_to kb ''glm52'' \<and> \<not> kreject kb) KNOBS"
    by (simp add: knob_tables applies_to_def)
  with kd kt that show thesis by (simp add: list_all_iff)
qed

text \<open>The layers of a resolution over this environment with a silent or settled variant.\<close>

lemma draft_env_at:
  assumes res: "resolve_with [] (\<lambda>_. None) st draft_off_env = Inr r"
    and fam: "resolve_family st (layer draft_off_env) = Inr ''glm52''"
    and kb: "kb \<in> set KNOBS" "applies_to kb ''glm52''"
  obtains r1 s v where "r = finish ''glm52'' r1"
    and "precedence ''glm52'' None (layer draft_off_env) st (selected_variant (eff r)) kb = Some (s, v)"
    and "eff (variant_layer r1) (kkey kb) = Some v" and "src (variant_layer r1) (kkey kb) = Some s"
proof -
  have "detected_gpu_count (\<lambda>_. None) draft_off_env = None" by code_simp
  with resolve_with_layers [OF res fam] obtain r1 where r1: "r = finish ''glm52'' r1"
    and at: "\<And>kb. kb \<in> set KNOBS \<Longrightarrow> \<exists>s v.
       precedence ''glm52'' None (layer draft_off_env) st (selected_variant (eff r)) kb = Some (s, v) \<and>
       eff (variant_layer r1) (kkey kb) = Some v \<and>
       src (variant_layer r1) (kkey kb) = Some (if applies_to kb ''glm52'' then s else SNA)"
    by (metis (no_types, lifting))
  from at [OF kb(1)] kb(2) r1 that show thesis by auto
qed

text \<open>Every resolution below runs on the default variant.\<close>

lemma draft_env_variant:
  assumes "resolve_with [] (\<lambda>_. None) st draft_off_env = Inr r"
    and "resolve_family st (layer draft_off_env) = Inr ''glm52''"
    and "map_of st MODEL_VARIANT \<in> {None, Some (VStr ''exl3-tr3'')}"
  shows "eff r MODEL_VARIANT = Some (VStr ''exl3-tr3'')"
proof -
  obtain kv where kv: "kv \<in> set KNOBS" "kkey kv = MODEL_VARIANT" "ktyp kv = TChoice (map fst VARIANTS)"
    by (rule variant_knob)
  have "fits (ktyp kv) (VStr ''exl3-tr3'')"
    by (simp add: kv(3) coerce_simps variant_names value_eval)
  then have "coerce kv (VStr ''exl3-tr3'') = Inr (VStr ''exl3-tr3'')" by (rule coerce_fixes)
  moreover have "below_file ''glm52'' None (layer draft_off_env) None kv = Some (VStr ''exl3-tr3'')"
    by (simp add: below_file_def precedence_def offer_def kv(2) draft_off_env_def variant_offer_def
        hardware_offer_def family_offer_def glm_defaults family_glm52_defaults_def)
  ultimately show ?thesis
    using resolve_variant_at [OF assms(1,2) kv(1,2)] assms(3) kv(2) by (auto simp: offer_def)
qed

lemma draft_env_values:
  assumes res: "resolve_with [] (\<lambda>_. None) st draft_off_env = Inr r"
    and fam: "resolve_family st (layer draft_off_env) = Inr ''glm52''"
    and var: "eff r MODEL_VARIANT = Some (VStr ''exl3-tr3'')"
    and draft: "\<forall>kb\<in>set KNOBS. kkey kb = MTP_DRAFT \<longrightarrow> offer st kb = x" "x \<in> {None, Some (VStr ''native'')}"
    and toks: "\<forall>kb\<in>set KNOBS. kkey kb = MTP_TOKENS \<longrightarrow> offer st kb = y" "y \<in> {None, Some (VInt 0)}"
  shows "eff r MTP_DRAFT = Some (if x = None then VStr ''off'' else VStr ''native'')"
    and "eff r MTP_TOKENS = Some (VInt (if x = None \<or> y \<noteq> None then 0 else 5))"
proof -
  obtain kd kt where kd: "kd \<in> set KNOBS" "kkey kd = MTP_DRAFT" "ktyp kd = TChoice (map fst DRAFTS)"
      "applies_to kd ''glm52''" and kt: "kt \<in> set KNOBS" "kkey kt = MTP_TOKENS"
      "ktyp kt = TInt (Some 0) (Some 8)" "applies_to kt ''glm52''"
    by (rule draft_knobs) blast
  have c: "coerce kd (VStr ''native'') = Inr (VStr ''native'')" "coerce kd (VStr ''off'') = Inr (VStr ''off'')"
      "coerce kt (VInt 0) = Inr (VInt 0)" "coerce kt (VInt 5) = Inr (VInt 5)"
    using kd(3) kt(3) by (simp_all add: coerce_fixes coerce_simps variant_names value_eval)
  have off: "offer (layer draft_off_env) kd = Some (VStr ''off'')" "offer (layer draft_off_env) kt = None"
      "offer (v_defaults variant_exl3_tr3) kt = Some (VInt 5)"
    using c kd(2) kt(2) by (simp_all add: offer_def draft_off_env_def defaults_exl3_tr3)
  have sel: "selected_variant (eff r) = Some variant_exl3_tr3"
    using var by (simp add: selected_variant_def variant_facts)
  obtain r1 s v where r1: "r = finish ''glm52'' r1"
    and p: "precedence ''glm52'' None (layer draft_off_env) st (selected_variant (eff r)) kd = Some (s, v)"
      "eff (variant_layer r1) MTP_DRAFT = Some v" "src (variant_layer r1) MTP_DRAFT = Some s"
    using draft_env_at [OF res fam kd(1,4)] kd(2) by metis
  have "v = (if x = None then VStr ''off'' else VStr ''native'')" "s \<in> {SFile, SEnv}"
    using p(1) draft(1) [rule_format, OF kd(1,2)] draft(2) off(1) by (auto simp: precedence_def)
  with p(2,3) r1 finish_keeps_chosen_draft [of r1 "''glm52''"]
  show d: "eff r MTP_DRAFT = Some (if x = None then VStr ''off'' else VStr ''native'')" by auto
  obtain r2 s2 v2 where r2: "r = finish ''glm52'' r2"
    and q: "precedence ''glm52'' None (layer draft_off_env) st (selected_variant (eff r)) kt = Some (s2, v2)"
      "eff (variant_layer r2) MTP_TOKENS = Some v2"
    using draft_env_at [OF res fam kt(1,4)] kt(2) by metis
  have "v2 = VInt (if y = None then 5 else 0)"
    using q(1) toks(1) [rule_format, OF kt(1,2)] toks(2) kt(4) off(2,3) sel by (auto simp: precedence_def variant_offer_def)
  with q(2) r2 d finish_tokens [of "''glm52''" r2]
  show "eff r MTP_TOKENS = Some (VInt (if x = None \<or> y \<noteq> None then 0 else 5))"
    by (auto simp: truthy_def)
qed

lemma draft_baseline: "draft_off_env\<lparr>layer := baseline_env (layer draft_off_env)\<rparr> = draft_off_env"
    "invalid_env_keys (layer draft_off_env) = []"
proof -
  have "list_all (\<lambda>kb. kreject kb \<longrightarrow> kkey kb \<noteq> MTP_DRAFT) KNOBS" by (simp add: knob_tables)
  then show "invalid_env_keys (layer draft_off_env) = []"
    by (auto simp: invalid_env_keys_def draft_off_env_def filter_empty_conv list_all_iff)
  then show "draft_off_env\<lparr>layer := baseline_env (layer draft_off_env)\<rparr> = draft_off_env"
    by (simp add: baseline_env_def)
qed

lemma default_variant_fits: "fits (TChoice (map fst VARIANTS)) (VStr ''exl3-tr3'')"
  by (simp add: coerce_simps variant_names value_eval)

lemma draft_choice_minimizes: "\<exists>p. minimize (\<lambda>_. None) draft_off_env draft_choice = Inr p"
proof -
  let ?fam = "[(MODEL_FAMILY, VStr ''glm52'')]" and ?both = "[(MODEL_FAMILY, VStr ''glm52''), (MODEL_VARIANT, VStr ''exl3-tr3'')]"
  have safe: "safe_selectors ?fam" "safe_selectors []" "safe_selectors ?both" "safe_selectors draft_choice"
    using glm_fits default_variant_fits by (simp_all add: safe_selectors_def draft_choice_def)
  obtain base where base: "resolve_with [] (\<lambda>_. None) ?fam draft_off_env = Inr base"
    using draft_state_resolves [OF safe(1)] by auto
  obtain unfiled where unf: "resolve_with [] (\<lambda>_. None) [] draft_off_env = Inr unfiled"
    using draft_state_resolves [OF safe(2)] by auto
  obtain vb where vb: "resolve_with [] (\<lambda>_. None) ?both draft_off_env = Inr vb"
    using draft_state_resolves [OF safe(3)] by auto
  have v: "eff base MODEL_VARIANT = Some (VStr ''exl3-tr3'')"
    by (rule draft_env_variant [OF base draft_choice_family [OF safe(1)]]) simp_all
  have "list_all (\<lambda>kb. kreject kb \<longrightarrow> kkey kb \<noteq> MTP_DRAFT \<and> kkey kb \<noteq> MTP_TOKENS) KNOBS"
    by (simp add: knob_tables)
  then have step: "result_ok (minimize_knob fam bad w draft_choice kb acc)" if "kb \<in> set KNOBS" for fam bad w kb acc
    using that by (auto simp: list_all_iff minimize_knob_def draft_choice_def split: sum.splits)
  have loop: "result_ok (fold_result (minimize_knob fam bad w draft_choice) ks acc)"
    if "set ks \<subseteq> set KNOBS" for fam bad w ks acc
    using that
  proof (induction ks arbitrary: acc)
    case (Cons kb ks)
    from step [of kb fam bad w acc] Cons.prems obtain acc' where
      "minimize_knob fam bad w draft_choice kb acc = Inr acc'" by (auto elim: result_okE)
    with Cons show ?case by simp
  qed simp
  have "resolve_family draft_choice (layer draft_off_env) = Inr ''glm52''"
    by (rule draft_choice_family [OF safe(4)]) (simp add: draft_choice_def)
  moreover have "selected_of draft_choice (VStr ''exl3-tr3'') = VStr ''exl3-tr3''"
    by (simp add: selected_of_def draft_choice_def)
  ultimately have "result_ok (minimize (\<lambda>_. None) draft_off_env draft_choice)"
    by (simp add: minimize_def draft_baseline resolve_def base unf v vb base_result_def Let_def loop)
  then show ?thesis by (auto elim: result_okE)
qed

lemma draft_choice_offers:
  "\<forall>kb\<in>set KNOBS. kkey kb = MTP_DRAFT \<longrightarrow> offer draft_choice kb = Some (VStr ''native'')"
  "\<forall>kb\<in>set KNOBS. kkey kb = MTP_TOKENS \<longrightarrow> offer draft_choice kb = Some (VInt 0)"
  using knob_type
  by (auto simp: offer_def draft_choice_def ktype_of_simps coerce_fixes coerce_simps variant_names value_eval)

text \<open>An explicit speculation depth of 0 can be lost by an apply: when the environment switches the
  draft off, the depth of the baseline is 0 by derivation, so \<open>minimize\<close> drops a submitted 0 while it
  writes the draft, and the next boot speculates with the variant's depth of 5.\<close>

lemma minimize_loses_depth:
  "\<exists>out dropped r r'. minimize (\<lambda>_. None) draft_off_env draft_choice = Inr (out, dropped) \<and>
     resolve (\<lambda>_. None) draft_choice draft_off_env = Inr r \<and> resolve (\<lambda>_. None) out draft_off_env = Inr r' \<and>
     map_of draft_choice MTP_TOKENS = Some (VInt 0) \<and> eff r MTP_TOKENS = Some (VInt 0) \<and>
     eff r' MTP_DRAFT = eff r MTP_DRAFT \<and> eff r' MTP_TOKENS = Some (VInt 5)"
proof -
  obtain out dropped where m: "minimize (\<lambda>_. None) draft_off_env draft_choice = Inr (out, dropped)"
    using draft_choice_minimizes by auto
  have safe: "safe_selectors draft_choice" by (simp add: safe_selectors_def draft_choice_def)
  then obtain r where r: "resolve_with [] (\<lambda>_. None) draft_choice draft_off_env = Inr r"
    using draft_state_resolves [of draft_choice] by (auto simp: draft_choice_def)
  have fam: "resolve_family draft_choice (layer draft_off_env) = Inr ''glm52''"
    by (rule draft_choice_family [OF safe]) (simp add: draft_choice_def)
  have var: "eff r MODEL_VARIANT = Some (VStr ''exl3-tr3'')"
    by (rule draft_env_variant [OF r fam]) (simp add: draft_choice_def)
  have native: "Some (VStr ''native'') \<in> {None, Some (VStr ''native'')}" and zero: "Some (VInt 0) \<in> {None, Some (VInt 0)}"
    and none: "None \<in> {None, Some (VStr ''native'')}" "None \<in> {None, Some (VInt 0)}" by simp_all
  have r_vals: "eff r MTP_DRAFT = Some (VStr ''native'')" "eff r MTP_TOKENS = Some (VInt 0)"
    using draft_env_values [OF r fam var draft_choice_offers(1) native draft_choice_offers(2) zero]
    by simp_all
  obtain vb heads st2 where
      vb: "resolve_with [] (\<lambda>_. None) st2 draft_off_env = Inr vb"
        "resolve_family st2 (layer draft_off_env) = Inr ''glm52''"
    and st2: "\<And>kb. kkey kb \<noteq> MODEL_FAMILY \<Longrightarrow> kkey kb \<noteq> MODEL_VARIANT \<Longrightarrow> offer st2 kb = None"
    and vsel: "eff vb MODEL_VARIANT = eff r MODEL_VARIANT"
    and famo: "resolve_family out (layer draft_off_env) = Inr ''glm52''"
    and again: "\<And>r'. resolve_with [] (\<lambda>_. None) out draft_off_env = Inr r' \<Longrightarrow> eff r' MODEL_VARIANT = eff r MODEL_VARIANT"
    and out: "out = heads @ List.map_filter (written ''glm52'' [] (eff vb) draft_choice) KNOBS"
    and keys: "fst ` set heads \<subseteq> {MODEL_FAMILY, MODEL_VARIANT}"
    by (rule minimize_settled [OF m r [folded resolve_def] fam, unfolded draft_baseline]) blast
  have silent: "\<forall>kb\<in>set KNOBS. kkey kb = MTP_DRAFT \<longrightarrow> offer st2 kb = None"
      "\<forall>kb\<in>set KNOBS. kkey kb = MTP_TOKENS \<longrightarrow> offer st2 kb = None"
    using st2 by simp_all
  have vb_vals: "eff vb MTP_DRAFT = Some (VStr ''off'')" "eff vb MTP_TOKENS = Some (VInt 0)"
    using draft_env_values [OF vb vsel [unfolded var] silent(1) none(1) silent(2) none(2)] by simp_all
  have off: "offer out kb = map_option snd (written ''glm52'' [] (eff vb) draft_choice kb)"
    if "kb \<in> set KNOBS" "kkey kb = MTP_DRAFT \<or> kkey kb = MTP_TOKENS" for kb
    unfolding out by (rule offer_written [OF that(1) _ _ keys]) (use that(2) in auto)
  have app: "applies_to kb ''glm52''" if "kb \<in> set KNOBS" "kkey kb = MTP_DRAFT \<or> kkey kb = MTP_TOKENS" for kb
  proof -
    have "list_all (\<lambda>kb. kkey kb = MTP_DRAFT \<or> kkey kb = MTP_TOKENS \<longrightarrow> applies_to kb ''glm52'') KNOBS"
      by (simp add: knob_tables applies_to_def)
    with that show ?thesis by (auto simp: list_all_iff)
  qed
  have x: "\<forall>kb\<in>set KNOBS. kkey kb = MTP_DRAFT \<longrightarrow> offer out kb = Some (VStr ''native'')"
    using off app vb_vals draft_choice_offers(1) by (auto simp: written_def)
  have y: "\<forall>kb\<in>set KNOBS. kkey kb = MTP_TOKENS \<longrightarrow> offer out kb = None"
    using off vb_vals draft_choice_offers(2) by (auto simp: written_def)
  obtain r' where r': "resolve_with [] (\<lambda>_. None) out draft_off_env = Inr r'"
    using minimize_out_resolves [OF m r [folded resolve_def] fam] by blast
  have "eff r' MTP_DRAFT = Some (VStr ''native'')" "eff r' MTP_TOKENS = Some (VInt 5)"
    using draft_env_values [OF r' famo again [OF r', unfolded var] x native y none(2)] by simp_all
  with m r r' r_vals show ?thesis by (auto simp: resolve_def draft_choice_def)
qed

end
