(* ===== verification/CoerceTheorems.thy ===== *)
theory CoerceTheorems
  imports RegistryFacts Layers
begin

text \<open>
  The theorems about typing single values: acceptance, idempotence, the text round trip through the
  environment, and the one type whose printed form can leave its own bounds. The locale \<open>typing\<close>
  states what the layers rely on: a projection onto the values of a type.
\<close>

section \<open>The contract the layers use\<close>

text \<open>A projection: what it accepts is of the type, and what is of the type it leaves alone.\<close>

locale typing =
  fixes project :: "'raw \<Rightarrow> 'e + 'raw" and typed :: "'raw \<Rightarrow> bool"
  assumes project_typed: "project x = Inr y \<Longrightarrow> typed y"
    and typed_fixed: "typed y \<Longrightarrow> project y = Inr y"
begin

lemma project_idem: "project x = Inr y \<Longrightarrow> project y = Inr y"
  by (simp add: project_typed typed_fixed)

lemma typed_iff_fixed: "typed y \<longleftrightarrow> project y = Inr y"
  using project_typed typed_fixed by blast

lemma typed_iff_image: "typed y \<longleftrightarrow> (\<exists>x. project x = Inr y)"
  using project_typed typed_fixed by blast

end

text \<open>The coercion of the knob at an index of the registry, a number out of range meaning the first.\<close>

definition knob_at :: "nat \<Rightarrow> knob" where
  "knob_at i = (if i < length KNOBS then KNOBS ! i else hd KNOBS)"

lemma knob_at_in: "knob_at i \<in> set KNOBS"
proof -
  have "KNOBS \<noteq> []" by (simp add: KNOBS_def knobs_model_def)
  then show ?thesis by (simp add: knob_at_def)
qed

lemma in_knob_at: "kb \<in> set KNOBS \<Longrightarrow> \<exists>i. kb = knob_at i"
  by (metis in_set_conv_nth knob_at_def)

interpretation knob_typing: typing "coerce (knob_at i)" "fits (ktyp (knob_at i))" for i
  by unfold_locales (auto intro: coerce_registered_fits [OF knob_at_in] coerce_fixes)

section \<open>Theorems\<close>

text \<open>Coercing a registered knob's raw value, whatever it is, either raises or gives a value of the
  knob's type and bounds; the values of the type are exactly the results, and each is left alone.\<close>

lemma coerce_projects:
  assumes "kb \<in> set KNOBS"
  shows "(\<forall>raw v. coerce kb raw = Inr v \<longrightarrow> fits (ktyp kb) v \<and> coerce kb v = Inr v) \<and>
    (\<forall>v. fits (ktyp kb) v \<longleftrightarrow> (\<exists>raw. coerce kb raw = Inr v))"
proof -
  obtain i where "kb = knob_at i" using in_knob_at [OF assms] by blast
  then show ?thesis
    using knob_typing.project_typed [of i] knob_typing.project_idem [of i] knob_typing.typed_iff_image [of i]
    by blast
qed

lemma coerce_projects_instance:
  "\<exists>kb\<in>set KNOBS. kkey kb = MTP_TOKENS \<and> coerce kb (VStr '' 5 '') = Inr (VInt 5) \<and> fits (ktyp kb) (VInt 5)"
proof -
  let ?kb = "mk_knob MTP_TOKENS (TInt (Some 0) (Some 8)) (VInt 3)"
  have kb: "?kb \<in> set KNOBS" unfolding KNOBS_def knobs_kv_def by simp
  have "coerce ?kb (VStr '' 5 '') = Inr (VInt 5)" by code_simp
  moreover from this coerce_projects [OF kb] have "fits (ktyp ?kb) (VInt 5)" by blast
  moreover have "kkey ?kb = MTP_TOKENS" by (simp add: mk_knob_def)
  ultimately show ?thesis using kb by blast
qed

text \<open>Writing a typed value into the environment under the knob's own name and reading the
  environment layer gives the value back, for every type but float and every value that prints to
  some text.\<close>

lemma env_text_roundtrip:
  assumes "kb \<in> set KNOBS" and "fits (ktyp kb) v" and "\<forall>lo hi a b. ktyp kb \<noteq> TFloat lo hi a b"
    and "to_text kb v \<noteq> []"
  shows "env_knob (e(key_name (kkey kb) \<mapsto> to_text kb v)) kb = (Some v, [])"
proof -
  have "env_get (e(key_name (kkey kb) \<mapsto> to_text kb v)) (key_name (kkey kb)) = to_text kb v"
    by (simp add: env_get_def)
  moreover have "coerce kb (VStr (to_text kb v)) = Inr v"
    by (rule coerce_to_text) (use assms in auto)
  ultimately show ?thesis using assms(4) by (simp add: env_knob_def)
qed

lemma env_text_roundtrip_instance:
  "\<exists>kb\<in>set KNOBS. kkey kb = MTP_TOKENS \<and>
     env_knob (Map.empty(key_name (kkey kb) \<mapsto> to_text kb (VInt 5))) kb = (Some (VInt 5), [])"
proof -
  let ?kb = "mk_knob MTP_TOKENS (TInt (Some 0) (Some 8)) (VInt 3)"
  have kb: "?kb \<in> set KNOBS" unfolding KNOBS_def knobs_kv_def by simp
  have "fits (ktyp ?kb) (VInt 5)" by (simp add: mk_knob_def coerce_simps)
  moreover have "to_text ?kb (VInt 5) = ''5''" by code_simp
  moreover have "\<forall>lo hi a b. ktyp ?kb \<noteq> TFloat lo hi a b" by (simp add: mk_knob_def)
  ultimately have "env_knob (Map.empty(key_name (kkey ?kb) \<mapsto> to_text ?kb (VInt 5))) ?kb = (Some (VInt 5), [])"
    by (intro env_text_roundtrip [OF kb]) auto
  moreover have "kkey ?kb = MTP_TOKENS" by (simp add: mk_knob_def)
  ultimately show ?thesis using kb by blast
qed

text \<open>The text of a legal compute share can be illegal: 0.9999999 is accepted, but its six-digit
  form on the serve line is 1, which the knob's own exclusive bound refuses.\<close>

lemma share_text_leaves_bounds:
  "\<exists>kb\<in>set KNOBS. \<exists>v. kkey kb = PREFILL_COMPUTE_SHARE \<and> coerce kb (VStr ''0.9999999'') = Inr v \<and>
     to_text kb v = ''1'' \<and> coerce kb (VStr (to_text kb v)) = Inl (AtMax PREFILL_COMPUTE_SHARE)"
proof -
  let ?kb = "(mk_knob PREFILL_COMPUTE_SHARE (TFloat (Some (b64 0)) (Some (b64 1)) True True) (VFlt (b64 (3 / 5))))
       \<lparr>kfams := Some [''glm52''], kreject := True\<rparr>"
  let ?v = "VFlt (b64 (9999999 / 10000000))"
  have kb: "?kb \<in> set KNOBS" unfolding KNOBS_def knobs_model_def by simp
  have "coerce ?kb (VStr ''0.9999999'') = Inr ?v" by code_simp
  moreover have t: "to_text ?kb ?v = ''1''" by code_simp
  moreover have "coerce ?kb (VStr ''1'') = Inl (AtMax PREFILL_COMPUTE_SHARE)" by code_simp
  moreover have "kkey ?kb = PREFILL_COMPUTE_SHARE" by (simp add: mk_knob_def)
  ultimately show ?thesis using kb by metis
qed

end
