(* ===== verification/Switches.thy ===== *)
theory Switches
  imports Layers
begin

text \<open>
  The termination switches of \<^verbatim>\<open>scripts/glm_config.py\<close>: the startup environment decides them, the
  runtime file can only tighten them. The abstract contract is the locale \<open>ratchet\<close>: every operation
  of a state machine moves a guarded measure in one direction; it is interpreted on the runtime file.
\<close>

section \<open>The code\<close>

text \<open>PID 1's environment with this process's own non-empty variables on top.\<close>

definition effective_env :: "env \<Rightarrow> env \<Rightarrow> env" where
  "effective_env pid1 own = (\<lambda>n. case own n of None \<Rightarrow> pid1 n
     | Some v \<Rightarrow> if v \<noteq> [] then Some v else pid1 n)"

definition env_flag :: "env \<Rightarrow> string \<Rightarrow> bool \<Rightarrow> bool" where
  "env_flag e n dflt =
     (let v = py_lower (py_strip (env_get e n)) in
      if v = [] then dflt else List.member [''1'', ''true'', ''yes'', ''on''] v)"

record switches =
  sw_enabled :: bool
  sw_locked :: bool
  sw_source :: string

definition switches_from_env :: "env \<Rightarrow> switches" where
  "switches_from_env e = \<lparr>sw_enabled = env_flag e ''TERMINATE_ENABLED'' False,
     sw_locked = env_flag e ''TERMINATE_LOCKED'' False, sw_source = ''startup environment''\<rparr>"

text \<open>
  The runtime file as \<open>read_json\<close> returns it: nothing usable, or an object.
\<close>

type_synonym switch_file = "(string \<times> pyval) list option"

definition switch_doc :: "switches \<Rightarrow> (string \<times> pyval) list" where
  "switch_doc s = [(''enabled'', VBool (sw_enabled s)), (''locked'', VBool (sw_locked s)),
     (''source'', VStr (sw_source s))]"

definition init_switches :: "env \<Rightarrow> switch_file" where
  "init_switches e = Some (switch_doc (switches_from_env e))"

definition read_switches :: "env \<Rightarrow> switch_file \<Rightarrow> switches" where
  "read_switches e f = (case f of None \<Rightarrow> switches_from_env e
     | Some d \<Rightarrow>
         (case (map_of d ''enabled'', map_of d ''locked'') of
            (Some en, Some lo) \<Rightarrow> \<lparr>sw_enabled = truthy en, sw_locked = truthy lo,
              sw_source = (case map_of d ''source'' of None \<Rightarrow> ''runtime'' | Some v \<Rightarrow> py_str v)\<rparr>
          | _ \<Rightarrow> switches_from_env e))"

definition tightened :: "bool option \<Rightarrow> bool option \<Rightarrow> string \<Rightarrow> switches \<Rightarrow> switches" where
  "tightened enabled locked reason cur =
     \<lparr>sw_enabled = (sw_enabled cur \<and> (case enabled of None \<Rightarrow> True | Some b \<Rightarrow> b)),
      sw_locked = (sw_locked cur \<or> (case locked of None \<Rightarrow> False | Some b \<Rightarrow> b)),
      sw_source = ''tightened at runtime'' @ (if reason = [] then [] else '': '' @ reason)\<rparr>"

definition tighten :: "env \<Rightarrow> bool option \<Rightarrow> bool option \<Rightarrow> string \<Rightarrow> switch_file \<Rightarrow> switch_file" where
  "tighten e enabled locked reason f =
     Some (switch_doc (tightened enabled locked reason (read_switches e f)))"

datatype refusal = LockedInstance | DisabledControl

definition termination_allowed :: "env \<Rightarrow> switch_file \<Rightarrow> refusal + unit" where
  "termination_allowed e f =
     (if sw_locked (read_switches e f) then Inl LockedInstance
      else if \<not> sw_enabled (read_switches e f) then Inl DisabledControl
      else Inr ())"

section \<open>The contract\<close>

text \<open>
  A ratchet: a grant that no operation can give back once it is gone. The client needs nothing else of
  the operations.
\<close>

locale ratchet =
  fixes apply_op :: "'op \<Rightarrow> 's \<Rightarrow> 's" and granted :: "'s \<Rightarrow> bool"
  assumes op_never_grants: "granted (apply_op op s) \<Longrightarrow> granted s"
begin

lemma run_never_grants: "granted (fold apply_op ops s) \<Longrightarrow> granted s"
  by (induction ops arbitrary: s) (auto dest: op_never_grants)

lemma prefix_granted: "granted (fold apply_op (xs @ ys) s) \<Longrightarrow> granted (fold apply_op xs s)"
  by (simp add: run_never_grants)

lemma once_refused: "\<not> granted s \<Longrightarrow> \<not> granted (fold apply_op ops s)"
  using run_never_grants by blast

end

section \<open>The switches are a ratchet\<close>

lemma read_switch_doc [simp]: "read_switches e (Some (switch_doc s)) = s"
  by (simp add: read_switches_def switch_doc_def truthy_def py_str_def)

text \<open>The only mutator as an operation: the requests it is called with.\<close>

record tighten_request =
  tr_enabled :: "bool option"
  tr_locked :: "bool option"
  tr_reason :: string

definition run_tighten :: "env \<Rightarrow> tighten_request \<Rightarrow> switch_file \<Rightarrow> switch_file" where
  "run_tighten e q = tighten e (tr_enabled q) (tr_locked q) (tr_reason q)"

definition may_terminate :: "env \<Rightarrow> switch_file \<Rightarrow> bool" where
  "may_terminate e f = result_ok (termination_allowed e f)"

lemma may_terminate_iff:
  "may_terminate e f \<longleftrightarrow> sw_enabled (read_switches e f) \<and> \<not> sw_locked (read_switches e f)"
  by (simp add: may_terminate_def termination_allowed_def)

lemma read_tighten:
  "read_switches e (run_tighten e q f) = tightened (tr_enabled q) (tr_locked q) (tr_reason q) (read_switches e f)"
  by (simp add: run_tighten_def tighten_def)

interpretation enabled_ratchet: ratchet "run_tighten e" "\<lambda>f. sw_enabled (read_switches e f)" for e
  by unfold_locales (simp add: read_tighten tightened_def)

interpretation unlocked_ratchet: ratchet "run_tighten e" "\<lambda>f. \<not> sw_locked (read_switches e f)" for e
  by unfold_locales (simp add: read_tighten tightened_def)

interpretation terminate_ratchet: ratchet "run_tighten e" "may_terminate e" for e
  by unfold_locales (simp add: may_terminate_iff read_tighten tightened_def)

section \<open>Theorems\<close>

text \<open>C21: no sequence of calls of the only mutator loosens the switches, whatever the calls request and
  whatever the runtime file holds at first: the kill switch never turns back on, the lock never
  opens, and termination refused once stays refused.\<close>

theorem switches_only_tighten:
  "(sw_enabled (read_switches e (fold (run_tighten e) qs f)) \<longrightarrow> sw_enabled (read_switches e f)) \<and>
   (sw_locked (read_switches e f) \<longrightarrow> sw_locked (read_switches e (fold (run_tighten e) qs f))) \<and>
   (\<not> may_terminate e f \<longrightarrow> \<not> may_terminate e (fold (run_tighten e) qs f))"
  using enabled_ratchet.run_never_grants [of e qs f] unlocked_ratchet.run_never_grants [of e qs f]
    terminate_ratchet.once_refused [of e f qs] by blast

theorem switches_only_tighten_witness:
  "\<not> may_terminate (\<lambda>_. None) (fold (run_tighten (\<lambda>_. None))
     [\<lparr>tr_enabled = Some True, tr_locked = Some False, tr_reason = ''please''\<rparr>] (init_switches (\<lambda>_. None)))"
proof -
  have "\<not> may_terminate (\<lambda>_. None) (init_switches (\<lambda>_. None))"
    by (simp add: may_terminate_iff init_switches_def switches_from_env_def env_flag_def env_get_def
        py_strip_def py_rstrip_def py_lstrip_def py_lower_def)
  then show ?thesis using switches_only_tighten by blast
qed

text \<open>After any sequence of requests the switches are the startup environment's, with every request
  accumulated: enabled while no request disabled, locked once any request locked.\<close>

lemma switches_after_requests:
  "let s = read_switches e (fold (run_tighten e) qs (init_switches e)) in
   sw_enabled s = (env_flag e ''TERMINATE_ENABLED'' False \<and> (\<forall>q\<in>set qs. tr_enabled q \<noteq> Some False)) \<and>
   sw_locked s = (env_flag e ''TERMINATE_LOCKED'' False \<or> (\<exists>q\<in>set qs. tr_locked q = Some True))"
proof -
  have acc: "sw_enabled (read_switches e (fold (run_tighten e) qs f)) =
       (sw_enabled (read_switches e f) \<and> (\<forall>q\<in>set qs. tr_enabled q \<noteq> Some False)) \<and>
     sw_locked (read_switches e (fold (run_tighten e) qs f)) =
       (sw_locked (read_switches e f) \<or> (\<exists>q\<in>set qs. tr_locked q = Some True))" for f
  proof (induction qs arbitrary: f)
    case (Cons q qs)
    show ?case using Cons.IH [of "run_tighten e q f"]
      by (auto simp: read_tighten tightened_def split: option.splits)
  qed simp
  show ?thesis using acc [of "init_switches e"]
    by (simp add: Let_def init_switches_def switches_from_env_def)
qed

lemma switches_after_requests_instance:
  "sw_locked (read_switches (\<lambda>_. None) (fold (run_tighten (\<lambda>_. None))
     [\<lparr>tr_enabled = None, tr_locked = Some True, tr_reason = ''''\<rparr>] (init_switches (\<lambda>_. None))))"
  using switches_after_requests [of "\<lambda>_. None" "[\<lparr>tr_enabled = None, tr_locked = Some True, tr_reason = ''''\<rparr>]"]
  by (simp add: Let_def)

text \<open>A lock set at runtime does not survive the loss of the runtime file: reading falls back to the
  startup environment, which may allow termination. The code calls this fallback the restrictive
  direction.\<close>

lemma lost_file_loosens:
  "\<exists>e q. \<not> may_terminate e (run_tighten e q (init_switches e)) \<and> may_terminate e None"
proof (intro exI conjI)
  let ?e = "\<lambda>n. if n = ''TERMINATE_ENABLED'' then Some ''1'' else None"
  let ?q = "\<lparr>tr_enabled = None, tr_locked = Some True, tr_reason = ''''\<rparr>"
  have one: "py_lower (py_strip ''1'') = ''1''" "py_lower (py_strip []) = []" by code_simp+
  show "\<not> may_terminate ?e (run_tighten ?e ?q (init_switches ?e))"
    by (simp add: may_terminate_iff read_tighten tightened_def)
  show "may_terminate ?e None"
    by (simp add: may_terminate_iff read_switches_def switches_from_env_def env_flag_def env_get_def one)
qed

end
