(* ===== verification/Fairness.thy ===== *)
theory Fairness
  imports Prelude Complex_Main
begin

text \<open>
  \<open>PrefillComputeShareController\<close> of \<^verbatim>\<open>vllm/v1/core/sched/compute_fairness.py\<close> (the patched scheduler):
  contended execution time is divided between decode and prefill by weighted virtual runtime. Times
  range over a linearly ordered field, i.e. the rounding of the floats is not modelled; the share is
  strictly between 0 and 1, as its knob guarantees.
\<close>

section \<open>The controller\<close>

datatype service = Decode | Prefill

record 'a controller =
  prefill_share :: 'a
  decode_vr :: 'a
  prefill_vr :: 'a
  contention :: bool
  last_decode :: "'a option"
  last_prefill :: "'a option"
  decode_res :: "'a list"
  prefill_res :: "'a list"

definition new_controller :: "'a :: linordered_field \<Rightarrow> 'a controller" where
  "new_controller s = \<lparr>prefill_share = s, decode_vr = 0, prefill_vr = 0, contention = False,
     last_decode = None, last_prefill = None, decode_res = [], prefill_res = []\<rparr>"

definition has_pending :: "'a controller \<Rightarrow> bool" where
  "has_pending c = (decode_res c \<noteq> [] \<or> prefill_res c \<noteq> [])"

definition reset :: "'a :: linordered_field controller \<Rightarrow> 'a controller" where
  "reset c = c\<lparr>decode_vr := 0, prefill_vr := 0, contention := False\<rparr>"

definition unmeasured_decode :: "'a controller \<Rightarrow> bool" where
  "unmeasured_decode c = (last_decode c = None \<and> decode_res c \<noteq> [])"

definition unmeasured_prefill :: "'a controller \<Rightarrow> bool" where
  "unmeasured_prefill c = (last_prefill c = None \<and> prefill_res c \<noteq> [])"

text \<open>The choice once both classes are runnable.\<close>

definition contended_choice :: "'a :: linordered_field controller \<Rightarrow> service" where
  "contended_choice c =
     (if unmeasured_decode c \<noteq> unmeasured_prefill c
      then (if unmeasured_decode c then Prefill else Decode)
      else if unmeasured_decode c \<and> length (decode_res c) < length (prefill_res c) then Decode
      else if unmeasured_decode c \<and> length (prefill_res c) < length (decode_res c) then Prefill
      else if prefill_vr c < decode_vr c then Prefill else Decode)"

definition select :: "bool \<Rightarrow> bool \<Rightarrow> 'a :: linordered_field controller \<Rightarrow> service option \<times> 'a controller" where
  "select decode_runnable prefill_runnable c =
     (if \<not> decode_runnable \<or> \<not> prefill_runnable
      then let c' = (if has_pending c then c else reset c) in
           (if decode_runnable then Some Decode else if prefill_runnable then Some Prefill else None, c')
      else let c' = (if contention c then c else c\<lparr>decode_vr := 0, prefill_vr := 0, contention := True\<rparr>) in
           (Some (contended_choice c'), c'))"

definition prefill_charge :: "'a :: linordered_field controller \<Rightarrow> 'a \<Rightarrow> 'a" where
  "prefill_charge c t = t / prefill_share c"

definition decode_charge :: "'a :: linordered_field controller \<Rightarrow> 'a \<Rightarrow> 'a" where
  "decode_charge c t = t / (1 - prefill_share c)"

definition dispatch :: "service \<Rightarrow> bool \<Rightarrow> 'a :: linordered_field controller \<Rightarrow> 'a controller" where
  "dispatch k contended c =
     (if \<not> contended then c
      else case k of
        Prefill \<Rightarrow>
          (let r = (case last_prefill c of None \<Rightarrow> 0 | Some t \<Rightarrow> prefill_charge c t)
           in c\<lparr>prefill_vr := prefill_vr c + r, prefill_res := prefill_res c @ [r]\<rparr>)
      | Decode \<Rightarrow>
          (let r = (case last_decode c of None \<Rightarrow> 0 | Some t \<Rightarrow> decode_charge c t)
           in c\<lparr>decode_vr := decode_vr c + r, decode_res := decode_res c @ [r]\<rparr>))"

text \<open>\<open>popleft\<close> with 0 for an empty queue.\<close>

definition pop_res :: "'a :: zero list \<Rightarrow> 'a \<times> 'a list" where
  "pop_res q = (case q of [] \<Rightarrow> (0, []) | r # rs \<Rightarrow> (r, rs))"

definition record_prefill :: "'a :: linordered_field \<Rightarrow> 'a controller \<Rightarrow> 'a controller" where
  "record_prefill t c =
     (let (r, q) = pop_res (prefill_res c); c0 = c\<lparr>prefill_res := q\<rparr> in
      if t \<le> 0 then c0\<lparr>prefill_vr := prefill_vr c0 - r\<rparr>
      else let charge = prefill_charge c0 t;
               c1 = c0\<lparr>prefill_vr := prefill_vr c0 + (charge - r), last_prefill := Some t\<rparr>
           in if charge < prefill_vr c1 - decode_vr c1
              then c1\<lparr>decode_vr := prefill_vr c1 - charge\<rparr> else c1)"

definition record_decode :: "'a :: linordered_field \<Rightarrow> 'a controller \<Rightarrow> 'a controller" where
  "record_decode t c =
     (let (r, q) = pop_res (decode_res c); c0 = c\<lparr>decode_res := q\<rparr> in
      if t \<le> 0 then c0\<lparr>decode_vr := decode_vr c0 - r\<rparr>
      else let charge = decode_charge c0 t;
               c1 = c0\<lparr>decode_vr := decode_vr c0 + (charge - r), last_decode := Some t\<rparr>
           in if charge < decode_vr c1 - prefill_vr c1
              then c1\<lparr>prefill_vr := decode_vr c1 - charge\<rparr> else c1)"

definition record_quantum ::
    "service \<Rightarrow> 'a \<Rightarrow> bool \<Rightarrow> 'a :: linordered_field controller \<Rightarrow> 'a controller" where
  "record_quantum k t contended c =
     (if \<not> contended then c else case k of Prefill \<Rightarrow> record_prefill t c | Decode \<Rightarrow> record_decode t c)"

section \<open>Elementary facts\<close>

lemmas controller_defs =
  select_def dispatch_def record_quantum_def record_prefill_def record_decode_def contended_choice_def
  unmeasured_decode_def unmeasured_prefill_def has_pending_def reset_def pop_res_def Let_def

lemma share_kept [simp]:
  "prefill_share (snd (select d p c)) = prefill_share c"
  "prefill_share (dispatch k b c) = prefill_share c"
  "prefill_share (record_quantum k t b c) = prefill_share c"
  by (auto simp: controller_defs split: service.splits list.splits option.splits)

text \<open>The events of a run, in the order the scheduler issues them.\<close>

datatype 'a event = Select bool bool | Dispatch service bool | Record service 'a bool

fun apply_event :: "'a :: linordered_field event \<Rightarrow> 'a controller \<Rightarrow> 'a controller" where
  "apply_event (Select d p) c = snd (select d p c)"
| "apply_event (Dispatch k b) c = dispatch k b c"
| "apply_event (Record k t b) c = record_quantum k t b c"

text \<open>In-flight quanta of a class: contended dispatches not yet recorded, never below zero.\<close>

fun in_flight :: "service \<Rightarrow> 'a event list \<Rightarrow> nat \<Rightarrow> nat" where
  "in_flight k [] n = n"
| "in_flight k (Dispatch k' b # es) n = in_flight k es (if k' = k \<and> b then Suc n else n)"
| "in_flight k (Record k' t b # es) n = in_flight k es (if k' = k \<and> b then n - 1 else n)"
| "in_flight k (Select d p # es) n = in_flight k es n"

definition res_of :: "service \<Rightarrow> 'a controller \<Rightarrow> 'a list" where
  "res_of k c = (case k of Decode \<Rightarrow> decode_res c | Prefill \<Rightarrow> prefill_res c)"

lemma res_of_event:
  "length (res_of k (apply_event e c)) = in_flight k [e] (length (res_of k c))"
  by (cases e) (auto simp: res_of_def controller_defs split: service.splits list.splits)

lemma in_flight_Cons: "in_flight k (e # es) n = in_flight k es (in_flight k [e] n)"
  by (cases e) auto

section \<open>Theorems\<close>

text \<open>The reservation queue of a class always holds exactly one entry per quantum of the class that
  was dispatched under contention and not yet recorded.\<close>

lemma reservations_match_in_flight:
  "length (res_of k (fold apply_event es (new_controller s))) = in_flight k es 0"
proof -
  have "length (res_of k (fold apply_event es c)) = in_flight k es (length (res_of k c))" for c
  proof (induction es arbitrary: c)
    case (Cons e es)
    show ?case using Cons.IH [of "apply_event e c"] res_of_event [of k e c] in_flight_Cons [of k e es]
      by simp
  qed simp
  then show ?thesis by (simp add: new_controller_def res_of_def split: service.splits)
qed

text \<open>Selection is work conserving: it picks a class exactly when one is runnable, and then a runnable
  one; and it never starts a second quantum of a class without a measurement while the other class
  can run and has no unpriced quantum itself.\<close>

lemma select_work_conserving:
  "(fst (select d p c) = None \<longleftrightarrow> \<not> d \<and> \<not> p) \<and>
   (fst (select d p c) = Some Decode \<longrightarrow> d) \<and> (fst (select d p c) = Some Prefill \<longrightarrow> p) \<and>
   (d \<and> p \<and> unmeasured_decode c \<and> \<not> unmeasured_prefill c \<longrightarrow> fst (select d p c) = Some Prefill) \<and>
   (d \<and> p \<and> unmeasured_prefill c \<and> \<not> unmeasured_decode c \<longrightarrow> fst (select d p c) = Some Decode)"
  by (auto simp: controller_defs)

lemma select_work_conserving_instance:
  "fst (select True True ((new_controller (3 / 5 :: rat))\<lparr>decode_res := [0]\<rparr>)) = Some Prefill"
  using select_work_conserving [of True True "(new_controller (3 / 5 :: rat))\<lparr>decode_res := [0]\<rparr>"]
  by (simp add: unmeasured_decode_def unmeasured_prefill_def new_controller_def)

text \<open>After a positive quantum is recorded, the class it was charged to is ahead of the other by at
  most that quantum's charge: no class accumulates more credit than one quantum.\<close>

lemma record_bounds_credit:
  assumes "0 < t"
  shows "prefill_vr (record_quantum Prefill t True c) - decode_vr (record_quantum Prefill t True c)
           \<le> prefill_charge c t \<and>
         decode_vr (record_quantum Decode t True c) - prefill_vr (record_quantum Decode t True c)
           \<le> decode_charge c t"
  using assms
  by (auto simp: controller_defs prefill_charge_def decode_charge_def split: list.splits)

lemma record_bounds_credit_instance:
  "prefill_vr (record_quantum Prefill (2 :: rat) True (new_controller (1 / 2))) -
     decode_vr (record_quantum Prefill 2 True (new_controller (1 / 2))) \<le> 4"
  using record_bounds_credit [of "2 :: rat" "new_controller (1 / 2)"]
  by (simp add: prefill_charge_def new_controller_def)

section \<open>The share over a run\<close>

text \<open>
  A serial executor under constant contention: it selects, dispatches and records one quantum at a
  time. \<open>quanta\<close> gives the time the next quantum takes for either class; the totals of execution
  time are kept beside the controller.
\<close>

record 'a run =
  ctrl :: "'a controller"
  decode_total :: 'a
  prefill_total :: 'a

definition serial_round :: "'a \<times> 'a \<Rightarrow> 'a :: linordered_field run \<Rightarrow> 'a run" where
  "serial_round quanta r =
     (case select True True (ctrl r) of
        (None, c) \<Rightarrow> r\<lparr>ctrl := c\<rparr>
      | (Some Decode, c) \<Rightarrow>
          \<lparr>ctrl = record_quantum Decode (fst quanta) True (dispatch Decode True c),
           decode_total = decode_total r + fst quanta, prefill_total = prefill_total r\<rparr>
      | (Some Prefill, c) \<Rightarrow>
          \<lparr>ctrl = record_quantum Prefill (snd quanta) True (dispatch Prefill True c),
           decode_total = decode_total r, prefill_total = prefill_total r + snd quanta\<rparr>)"

definition new_run :: "'a :: linordered_field \<Rightarrow> 'a run" where
  "new_run s = \<lparr>ctrl = new_controller s, decode_total = 0, prefill_total = 0\<rparr>"

text \<open>No quantum is in flight, the virtual runtimes are the weighted totals, and they differ by at most
  the bound.\<close>

definition balanced :: "'a \<Rightarrow> 'a \<Rightarrow> 'a :: linordered_field run \<Rightarrow> bool" where
  "balanced s m r =
     (prefill_share (ctrl r) = s \<and> decode_res (ctrl r) = [] \<and> prefill_res (ctrl r) = [] \<and>
      decode_vr (ctrl r) = decode_total r / (1 - s) \<and> prefill_vr (ctrl r) = prefill_total r / s \<and>
      \<bar>prefill_vr (ctrl r) - decode_vr (ctrl r)\<bar> \<le> m \<and>
      (\<not> contention (ctrl r) \<longrightarrow> decode_total r = 0 \<and> prefill_total r = 0))"

lemma balanced_totals: "balanced s m r \<Longrightarrow> \<bar>prefill_total r / s - decode_total r / (1 - s)\<bar> \<le> m"
  unfolding balanced_def by metis

lemma select_balanced:
  assumes "balanced s m r"
  shows "select True True (ctrl r) =
    (Some (if prefill_vr (ctrl r) < decode_vr (ctrl r) then Prefill else Decode), (ctrl r)\<lparr>contention := True\<rparr>)"
  using assms by (auto simp: balanced_def controller_defs)

lemma quantum_prefill:
  assumes "prefill_res c = []" and "0 < t" and "prefill_vr c < decode_vr c" and "prefill_share c = s"
  shows "record_quantum Prefill t True (dispatch Prefill True c) =
    c\<lparr>prefill_vr := prefill_vr c + t / s, last_prefill := Some t\<rparr>"
  using assms
  by (cases "last_prefill c") (auto simp: controller_defs prefill_charge_def algebra_simps)

lemma quantum_decode:
  assumes "decode_res c = []" and "0 < t" and "decode_vr c \<le> prefill_vr c" and "prefill_share c = s"
  shows "record_quantum Decode t True (dispatch Decode True c) =
    c\<lparr>decode_vr := decode_vr c + t / (1 - s), last_decode := Some t\<rparr>"
  using assms
  by (cases "last_decode c") (auto simp: controller_defs decode_charge_def algebra_simps)

lemma serial_round_balanced:
  assumes b: "balanced s m r" and s: "0 < s" "s < 1"
    and t: "0 < fst quanta" "0 < snd quanta" "fst quanta / (1 - s) \<le> m" "snd quanta / s \<le> m"
  shows "balanced s m (serial_round quanta r)"
proof (cases "prefill_vr (ctrl r) < decode_vr (ctrl r)")
  case True
  have pos: "0 < snd quanta / s" using s t(2) by simp
  show ?thesis
    using b True t pos select_balanced [OF b]
      quantum_prefill [of "(ctrl r)\<lparr>contention := True\<rparr>" "snd quanta" s]
    by (auto simp: serial_round_def balanced_def add_divide_distrib abs_le_iff)
next
  case False
  have pos: "0 < fst quanta / (1 - s)" using s t(1) by simp
  show ?thesis
    using b False t pos select_balanced [OF b]
      quantum_decode [of "(ctrl r)\<lparr>contention := True\<rparr>" "fst quanta" s]
    by (auto simp: serial_round_def balanced_def add_divide_distrib abs_le_iff)
qed



end
