(* ===== verification/Signatures.thy ===== *)
theory Signatures
  imports PyText
begin

text \<open>
  The boot-failure signatures of \<^verbatim>\<open>scripts/glm_config.py\<close>: regular expressions searched for in a log.
  They use alternation, literals and \<open>.*\<close> only; a pattern is its alternatives, each a list of literals
  with a \<open>.*\<close> between neighbours, which does not cross a line.
\<close>

type_synonym pattern = "string list list"

definition NL :: char where "NL = CHR 0x0A"

text \<open>What is left of a text after a literal at its start.\<close>

fun rest_after :: "string \<Rightarrow> string \<Rightarrow> string option" where
  "rest_after [] s = Some s"
| "rest_after (c # l) [] = None"
| "rest_after (c # l) (d # s) = (if c = d then rest_after l s else None)"

text \<open>The literals one after another, each after a gap without a newline.\<close>

function gap_match :: "string list \<Rightarrow> string \<Rightarrow> bool" where
  "gap_match [] s = True"
| "gap_match (l # ls) s =
     ((case rest_after l s of None \<Rightarrow> False | Some r \<Rightarrow> gap_match ls r)
      \<or> (case s of [] \<Rightarrow> False | c # cs \<Rightarrow> c \<noteq> NL \<and> gap_match (l # ls) cs))"
  by pat_completeness auto

termination by (relation "measures [\<lambda>(ls, s). length ls, \<lambda>(ls, s). length s]") auto

definition match_here :: "string list \<Rightarrow> string \<Rightarrow> bool" where
  "match_here p s = (case p of [] \<Rightarrow> True
     | l # ls \<Rightarrow> (case rest_after l s of None \<Rightarrow> False | Some r \<Rightarrow> gap_match ls r))"

fun found :: "string list \<Rightarrow> string \<Rightarrow> bool" where
  "found p [] = match_here p []"
| "found p (c # cs) = (match_here p (c # cs) \<or> found p cs)"

text \<open>\<open>re.search(pattern, text)\<close>\<close>

definition re_search :: "pattern \<Rightarrow> string \<Rightarrow> bool" where
  "re_search alts s = list_ex (\<lambda>p. found p s) alts"

definition SIGNATURES :: "pattern list" where
  "SIGNATURES =
    [[[''larger than the available KV cache memory''], [''No available memory for the cache blocks'']],
     [[''eager parity path entered during CUDA graph capture'']],
     [[''CUDA out of memory''], [''torch.OutOfMemoryError'']],
     [[''are not supported for now''], [''Model architectures ['', ''] are not supported'']],
     [[''KeyError: '' @ [CHR 0x27] @ ''model.layers.78.'', ''w2_weight'' @ [CHR 0x27]], [''routed_experts.w2_weight'']],
     [[''quantization_config is only supported when'']],
     [[''Failed to apply prompt replacement for mm_items'']]]"

text \<open>The positions of the signatures that occur; the code returns their explanations.\<close>

definition match_signatures :: "string \<Rightarrow> nat list" where
  "match_signatures s = filter (\<lambda>i. re_search (SIGNATURES ! i) s) [0..<length SIGNATURES]"

section \<open>The reference: occurrences of words of a language\<close>

text \<open>The words an alternative describes.\<close>

inductive word :: "string list \<Rightarrow> string \<Rightarrow> bool" where
  last_literal: "word [l] l"
| more: "NL \<notin> set g \<Longrightarrow> word (k # ls) w \<Longrightarrow> word (l # k # ls) (l @ g @ w)"

inductive_cases word_oneE: "word [l] w"
inductive_cases word_moreE: "word (l # k # ls) w"
inductive_simps word_one [simp]: "word [l] w"

lemma rest_after_iff [simp]: "rest_after l s = Some r \<longleftrightarrow> s = l @ r"
  by (induction l s rule: rest_after.induct) auto

lemma rest_after_split: "(case rest_after l s of None \<Rightarrow> False | Some r \<Rightarrow> P r) \<longleftrightarrow> (\<exists>r. s = l @ r \<and> P r)"
  by (cases "rest_after l s") (auto simp del: rest_after_iff simp: rest_after_iff [symmetric])

declare gap_match.simps(2) [simp del]

text \<open>A word at the start, after a gap, or anywhere.\<close>

definition starts :: "string list \<Rightarrow> string \<Rightarrow> bool" where
  "starts p s = (\<exists>w v. s = w @ v \<and> word p w)"

definition gapped :: "string list \<Rightarrow> string \<Rightarrow> bool" where
  "gapped p s = (p = [] \<or> (\<exists>g t. s = g @ t \<and> NL \<notin> set g \<and> starts p t))"

definition occurs :: "string list \<Rightarrow> string \<Rightarrow> bool" where
  "occurs p s = (\<exists>u t. s = u @ t \<and> starts p t)"

lemma gapped_Nil [simp]: "gapped [] s"
  by (simp add: gapped_def)

lemma word_Cons: "word (l # ls) w \<longleftrightarrow> (if ls = [] then w = l else \<exists>g w'. w = l @ g @ w' \<and> NL \<notin> set g \<and> word ls w')"
proof (cases ls)
  case (Cons k ks)
  then show ?thesis by (auto elim!: word_moreE intro!: word.more)
qed simp

lemma starts_Cons: "starts (l # ls) s \<longleftrightarrow> (\<exists>r. s = l @ r \<and> gapped ls r)"
proof (cases "ls = []")
  case False
  have "starts (l # ls) s \<longleftrightarrow> (\<exists>g w v. s = l @ g @ w @ v \<and> NL \<notin> set g \<and> word ls w)"
    using False by (simp add: starts_def word_Cons) (metis append_assoc)
  also have "\<dots> \<longleftrightarrow> (\<exists>r. s = l @ r \<and> gapped ls r)"
    using False by (simp add: gapped_def starts_def) metis
  finally show ?thesis .
qed (simp add: starts_def word_Cons)

lemma gapped_Cons: "gapped (l # ls) s \<longleftrightarrow>
    starts (l # ls) s \<or> (\<exists>c cs. s = c # cs \<and> c \<noteq> NL \<and> gapped (l # ls) cs)" (is "?L \<longleftrightarrow> ?A \<or> ?B")
proof
  assume ?L
  then obtain g t where *: "s = g @ t" "NL \<notin> set g" "starts (l # ls) t" by (auto simp: gapped_def)
  show "?A \<or> ?B"
  proof (cases g)
    case Nil
    with * show ?thesis by simp
  next
    case (Cons c g')
    with * have "s = c # (g' @ t) \<and> c \<noteq> NL \<and> gapped (l # ls) (g' @ t)" by (auto simp: gapped_def)
    then show ?thesis by blast
  qed
next
  assume "?A \<or> ?B"
  then show ?L
  proof
    assume ?A
    then show ?L unfolding gapped_def by (metis append_Nil empty_iff list.set(1))
  next
    assume ?B
    then obtain c g t where "s = (c # g) @ t \<and> NL \<notin> set (c # g) \<and> starts (l # ls) t"
      by (fastforce simp: gapped_def)
    then show ?L unfolding gapped_def by blast
  qed
qed

lemma gap_match_gapped: "gap_match p s \<longleftrightarrow> gapped p s"
proof (induction p s rule: gap_match.induct)
  case (2 l ls s)
  have *: "gap_match ls r = gapped ls r" if "s = l @ r" for r
    using that by (intro 2(1)) simp
  have "gap_match (l # ls) s \<longleftrightarrow> starts (l # ls) s \<or> (\<exists>c cs. s = c # cs \<and> c \<noteq> NL \<and> gapped (l # ls) cs)"
    using * 2(2) by (subst gap_match.simps, cases s) (auto simp: rest_after_split starts_Cons)
  then show ?case by (simp only: gapped_Cons [of l ls s])
qed simp

lemma match_here_starts: "match_here (l # ls) s \<longleftrightarrow> starts (l # ls) s"
  by (simp only: match_here_def list.case rest_after_split gap_match_gapped starts_Cons)

lemma found_occurs: "found (l # ls) s \<longleftrightarrow> occurs (l # ls) s"
proof (induction s)
  case (Cons c s)
  have "occurs (l # ls) (c # s) \<longleftrightarrow> starts (l # ls) (c # s) \<or> occurs (l # ls) s"
    by (simp add: occurs_def Cons_eq_append_conv) blast
  with Cons show ?case by (simp add: match_here_starts)
qed (simp add: occurs_def match_here_starts)

lemma found_iff: "p \<noteq> [] \<Longrightarrow> found p s \<longleftrightarrow> (\<exists>u w v. s = u @ w @ v \<and> word p w)"
  by (cases p) (auto simp only: found_occurs occurs_def starts_def simp_thms)

text \<open>The signature search is the mathematical occurrence of the signature: a position is reported
  exactly when some part of the log is a word of one of the signature's alternatives, its literals in
  order with gaps that stay on one line.\<close>

lemma match_signatures_occurs:
  "i \<in> set (match_signatures s) \<longleftrightarrow>
     i < length SIGNATURES \<and> (\<exists>p\<in>set (SIGNATURES ! i). \<exists>u w v. s = u @ w @ v \<and> word p w)"
proof -
  have "\<forall>a\<in>set SIGNATURES. \<forall>p\<in>set a. p \<noteq> []" by (simp add: SIGNATURES_def)
  then have ne: "p \<noteq> []" if "i < length SIGNATURES" "p \<in> set (SIGNATURES ! i)" for p
    using that nth_mem by blast
  have "i \<in> set (match_signatures s) \<longleftrightarrow> i < length SIGNATURES \<and> (\<exists>p\<in>set (SIGNATURES ! i). found p s)"
    by (auto simp: match_signatures_def re_search_def list_ex_iff)
  then show ?thesis using found_iff [OF ne] by meson
qed

end
