(* ===== verification/ConfigCli.thy ===== *)
theory ConfigCli
  imports Minimize Validate Switches ResolveFacts Signatures "HOL-Library.Char_ord" "HOL-Library.List_Lexorder"
begin

text \<open>
  The shell-facing commands of \<^verbatim>\<open>scripts/config_cli.py\<close> that read and write the runtime files: the
  frozen attempt of a boot, the known-good record, rollback and the apply state. Every command runs
  under the state lock, so it is one atomic function from the files to an exit code and the files. A
  Python exception that nothing catches ends the process with exit code 1.
\<close>

section \<open>Equality and differences of JSON values\<close>

text \<open>Python compares booleans, integers and floats by their number.\<close>

fun num_of :: "pyval \<Rightarrow> pyfloat option" where
  "num_of (VBool b) = Some (Fin (if b then 1 else 0))"
| "num_of (VInt i) = Some (Fin (of_int i))"
| "num_of (VFlt f) = Some f"
| "num_of v = None"

definition py_eq :: "pyval \<Rightarrow> pyval \<Rightarrow> bool" where
  "py_eq a b = (case num_of a of
     Some x \<Rightarrow> (case num_of b of Some y \<Rightarrow> flt_eq x y | None \<Rightarrow> False)
   | None \<Rightarrow> a = b)"

text \<open>\<open>old.get(key)\<close>: a missing key reads as \<open>None\<close>.\<close>

definition get_or_none :: "dict \<Rightarrow> key \<Rightarrow> pyval" where
  "get_or_none d k = (case map_of d k of None \<Rightarrow> VNone | Some v \<Rightarrow> v)"

definition diff :: "dict \<Rightarrow> dict \<Rightarrow> (key \<times> pyval \<times> pyval) list" where
  "diff old new = map (\<lambda>kb. (kkey kb, get_or_none old (kkey kb), get_or_none new (kkey kb)))
     (filter (\<lambda>kb. \<not> py_eq (get_or_none old (kkey kb)) (get_or_none new (kkey kb))) KNOBS)"

section \<open>The files\<close>

text \<open>The effective configuration as the document that is written.\<close>

definition eff_dict :: "cfg \<Rightarrow> dict" where
  "eff_dict c = List.map_filter (\<lambda>kb. map_option (Pair (kkey kb)) (c (kkey kb))) KNOBS"

type_synonym sources = "key \<Rightarrow> source option"

text \<open>The raw state file: its parsed content and the metadata written beside the values.\<close>

record raw_state =
  raw_doc :: state_file
  raw_meta :: string

record 'h attempt =
  a_token :: string
  a_identity :: "'h option"
  a_effective :: dict
  a_sources :: sources
  a_values :: dict

record known_good =
  g_ts :: string
  g_values :: dict
  g_effective :: "dict option"
  g_sources :: sources
  g_verify :: string

record failure =
  x_values :: dict
  x_effective :: dict
  x_log :: string
  x_diff :: "(key \<times> pyval \<times> pyval) list"
  x_reason :: string
  x_signatures :: "nat list"
  x_had_good :: bool

record apply_doc =
  mode :: string
  since :: "string option"
  failed_ts :: "string option"
  detail :: string
  restored :: "string option"
  baseline_ts :: "string option"

text \<open>
  The runtime files. An attempt or known-good file that is missing or malformed reads as \<open>None\<close>; the
  failure directories are kept under their time stamps.
\<close>

record 'h runtime =
  p_state :: "raw_state option"
  p_attempt :: "'h attempt option"
  p_known_good :: "known_good option"
  p_failures :: "(string \<times> failure) list"
  p_apply :: apply_doc
  p_restart :: "string option"
  p_last_good_log :: "string option"
  p_verify_last :: string

text \<open>
  What a command reads besides the files: the environment of its shell and of PID 1, the startup
  snapshot, and the digest of the state file's bytes (SHA-256 in the code).
\<close>

record 'h host =
  shell :: env
  pid1 :: env
  startup :: env_doc
  digest :: "raw_state \<Rightarrow> 'h"

definition proc :: "('h, 'z) host_scheme \<Rightarrow> env" where
  "proc h = effective_env (pid1 h) (shell h)"

definition state_doc :: "('h, 'z) runtime_scheme \<Rightarrow> state_file" where
  "state_doc s = (case p_state s of None \<Rightarrow> Absent | Some r \<Rightarrow> raw_doc r)"

definition state_values :: "('h, 'z) runtime_scheme \<Rightarrow> dict" where
  "state_values s = (case load_state_file (state_doc s) of Inr v \<Rightarrow> v | Inl _ \<Rightarrow> [])"

definition state_identity :: "('h, 'y) host_scheme \<Rightarrow> ('h, 'z) runtime_scheme \<Rightarrow> 'h option" where
  "state_identity h s = map_option (digest h) (p_state s)"

definition resolved_now :: "('h, 'y) host_scheme \<Rightarrow> ('h, 'z) runtime_scheme \<Rightarrow> resolve_error + resolved" where
  "resolved_now h s = resolve_boot (proc h) (state_doc s) (startup h)"

definition set_apply_state ::
    "string \<Rightarrow> string option \<Rightarrow> string option \<Rightarrow> string \<Rightarrow> string option \<Rightarrow> 'h runtime \<Rightarrow> 'h runtime" where
  "set_apply_state m t f d r s =
     s\<lparr>p_apply := \<lparr>mode = m, since = t, failed_ts = f, detail = d, restored = r, baseline_ts = None\<rparr>\<rparr>"

section \<open>Attempts\<close>

text \<open>\<open>env --begin-attempt\<close> freezes the configuration of a boot under a fresh token.\<close>

definition begin_attempt :: "'h host \<Rightarrow> string \<Rightarrow> 'h runtime \<Rightarrow> nat \<times> 'h runtime" where
  "begin_attempt h token s =
     (case resolved_now h s of
        Inl _ \<Rightarrow> (1, s)
      | Inr r \<Rightarrow> (0, s\<lparr>p_attempt := Some \<lparr>a_token = token, a_identity = state_identity h s,
                   a_effective = eff_dict (eff r), a_sources = src r, a_values = state_values s\<rparr>\<rparr>))"

datatype 'h boot = Manual | Superseded | Current "'h attempt"

definition current_attempt :: "'h host \<Rightarrow> 'h runtime \<Rightarrow> 'h boot" where
  "current_attempt h s =
     (case shell h ''GLM_CONFIG_ATTEMPT'' of
        None \<Rightarrow> Manual
      | Some token \<Rightarrow>
          (case p_attempt s of
             None \<Rightarrow> Superseded
           | Some a \<Rightarrow> if token = [] \<or> a_token a \<noteq> token \<or> a_identity a \<noteq> state_identity h s
                       then Superseded else Current a))"

text \<open>The configuration a command acts on: the frozen one of its attempt, or the current one.\<close>

definition subject_of :: "'h host \<Rightarrow> 'h runtime \<Rightarrow> 'h boot \<Rightarrow> resolve_error + dict \<times> sources \<times> dict" where
  "subject_of h s b =
     (case b of
        Current a \<Rightarrow> Inr (a_effective a, a_sources a, a_values a)
      | _ \<Rightarrow> (case resolved_now h s of
                Inl e \<Rightarrow> Inl e | Inr r \<Rightarrow> Inr (eff_dict (eff r), src r, state_values s)))"

section \<open>Validation\<close>

definition startup_gpus :: "env_doc \<Rightarrow> int option" where
  "startup_gpus d = py_int (case map_of (layer d) GPU_COUNT of None \<Rightarrow> [] | Some v \<Rightarrow> py_str v)"

definition host_gpus :: "('h, 'z) host_scheme \<Rightarrow> int option" where
  "host_gpus h =
     (case py_int (env_get (shell h) ''GLM_GPU_COUNT'') of Some n \<Rightarrow> Some n
      | None \<Rightarrow> (case py_int (env_get (proc h) ''GLM_GPU_COUNT'') of Some n \<Rightarrow> Some n
                 | None \<Rightarrow> startup_gpus (startup h)))"

definition cli_context :: "'h host \<Rightarrow> 'h runtime \<Rightarrow> check_context" where
  "cli_context h s = \<lparr>gpu_count = host_gpus h, vision_available = None, state_keys = map fst (state_values s)\<rparr>"

definition cmd_validate :: "'h host \<Rightarrow> 'h runtime \<Rightarrow> nat" where
  "cmd_validate h s =
     (let b = current_attempt h s in
      if b = Superseded then 3
      else (case subject_of h s b of
              Inl _ \<Rightarrow> 1
            | Inr (effective, _, vs) \<Rightarrow>
                if errors (validate (map_of effective) ((cli_context h s)\<lparr>state_keys := map fst vs\<rparr>)) = []
                then 0 else 2))"

section \<open>The log tail\<close>

text \<open>
  \<open>_tail\<close>: at most \<open>nbytes\<close> of the end of the file, without the partial first line, then the last
  \<open>n\<close> lines. (\<open>splitlines\<close> is modelled for the newline.)
\<close>

definition drop_line :: "string \<Rightarrow> string" where
  "drop_line s = drop 1 (dropWhile (\<lambda>c. c \<noteq> CHR 0x0A) s)"

definition log_tail :: "nat \<Rightarrow> nat \<Rightarrow> string \<Rightarrow> string" where
  "log_tail n nbytes s =
     (let d = (if nbytes < length s then drop_line (drop (length s - nbytes) s) else s);
          ls = split_lines d
      in join_with [CHR 0x0A] (drop (length ls - n) ls))"

definition TAIL_LINES :: nat where "TAIL_LINES = 4000"
definition TAIL_BYTES :: nat where "TAIL_BYTES = 512 * 1024"

section \<open>Known good\<close>

definition cmd_mark_good :: "'h host \<Rightarrow> string \<Rightarrow> string option \<Rightarrow> 'h runtime \<Rightarrow> nat \<times> 'h runtime" where
  "cmd_mark_good h ts txt s =
     (let b = current_attempt h s in
      if b = Superseded then (3, s)
      else (case subject_of h s b of
              Inl _ \<Rightarrow> (1, s)
            | Inr (effective, srcs, vs) \<Rightarrow>
                (0, set_apply_state ''steady'' (Some ts) None ''verified'' None
                      (s\<lparr>p_known_good := Some \<lparr>g_ts = ts, g_values = vs, g_effective = Some effective,
                          g_sources = srcs, g_verify = p_verify_last s\<rparr>,
                         p_last_good_log := (case txt of None \<Rightarrow> p_last_good_log s
                           | Some l \<Rightarrow> Some (log_tail TAIL_LINES TAIL_BYTES l))\<rparr>))))"

definition cmd_mark_unverified :: "'h host \<Rightarrow> string \<Rightarrow> 'h runtime \<Rightarrow> nat \<times> 'h runtime" where
  "cmd_mark_unverified h reason s =
     (if current_attempt h s = Superseded then (3, s)
      else (0, set_apply_state ''degraded'' None None
                 (if reason = [] then ''verification failed'' else reason) None s))"

datatype replay_refusal = NoEffective | NotReplayable "key list" | InvalidHere "string list"

definition target_family :: "dict \<Rightarrow> string" where
  "target_family target = (case map_of target MODEL_FAMILY of
     None \<Rightarrow> ''glm52'' | Some v \<Rightarrow> if truthy v then py_str v else ''glm52'')"

definition comparable :: "string \<Rightarrow> key \<Rightarrow> bool" where
  "comparable fam k = (k = MODEL_FAMILY \<or> k = MODEL_VARIANT
     \<or> (case knob_by_key k of None \<Rightarrow> False | Some kb \<Rightarrow> applies_to kb fam))"

definition contract :: "(key \<Rightarrow> bool) \<Rightarrow> dict \<Rightarrow> dict" where
  "contract P d = filter (\<lambda>p. P (fst p)) d"

definition replay_context :: "'h host \<Rightarrow> dict \<Rightarrow> check_context" where
  "replay_context h replay =
     \<lparr>gpu_count = (case startup_gpus (startup h) of Some n \<Rightarrow> Some n | None \<Rightarrow> host_gpus h),
      vision_available = None, state_keys = map fst replay\<rparr>"

text \<open>
  \<open>_known_good_replay\<close>: the state values that reproduce the stored configuration here, or why there
  are none; the outer sum is an exception of \<open>minimize\<close> or \<open>resolve\<close>.
\<close>

definition known_good_replay :: "'h host \<Rightarrow> known_good \<Rightarrow> minimize_error + replay_refusal + dict" where
  "known_good_replay h good =
     (case g_effective good of
        None \<Rightarrow> Inr (Inl NoEffective)
      | Some target \<Rightarrow>
          result_bind (minimize (proc h) (startup h) target) (\<lambda>m.
          result_bind (base_result (resolve (proc h) (fst m) (startup h))) (\<lambda>back.
          let replay = fst m;
              restored_dict = eff_dict (eff back);
              wanted = contract (comparable (target_family target)) target;
              differences = diff wanted (contract (\<lambda>k. map_of wanted k \<noteq> None) restored_dict);
              errs = errors (validate (map_of restored_dict) (replay_context h replay))
          in if differences \<noteq> [] then Inr (Inl (NotReplayable (map fst differences)))
             else if errs \<noteq> [] then Inr (Inl (InvalidHere (map f_id errs)))
             else Inr (Inr replay))))"

section \<open>Rollback\<close>

definition KEEP_FAILURES :: nat where "KEEP_FAILURES = 10"

definition store_failure :: "string \<Rightarrow> failure \<Rightarrow> (string \<times> failure) list \<Rightarrow> (string \<times> failure) list" where
  "store_failure ts x fs = (ts, x) # filter (\<lambda>p. fst p \<noteq> ts) fs"

text \<open>\<open>_prune_failures\<close>: only the last names in sorted order stay.\<close>

definition kept_names :: "string list \<Rightarrow> string list" where
  "kept_names ns = (let ds = sort ns in drop (length ds - KEEP_FAILURES) ds)"

definition prune_failures :: "(string \<times> failure) list \<Rightarrow> (string \<times> failure) list" where
  "prune_failures fs = filter (\<lambda>p. List.member (kept_names (map fst fs)) (fst p)) fs"

definition fail_rollback :: "string \<Rightarrow> string \<Rightarrow> 'h runtime \<Rightarrow> nat \<times> 'h runtime" where
  "fail_rollback ts reason s =
     (3, (set_apply_state ''failed'' (Some ts) (Some ts) reason (Some []) s)
           \<lparr>p_failures := prune_failures (p_failures s)\<rparr>)"

definition restart_into ::
    "string \<Rightarrow> string \<Rightarrow> string option \<Rightarrow> raw_state option \<Rightarrow> 'h runtime \<Rightarrow> nat \<times> 'h runtime" where
  "restart_into ts reason what st s =
     (0, (set_apply_state ''rolled-back'' (Some ts) (Some ts) reason what (s\<lparr>p_state := st\<rparr>))
           \<lparr>p_restart := Some ''rollback'', p_failures := prune_failures (p_failures s)\<rparr>)"

text \<open>The two clock readings of a rollback: the directory stamp and the ISO time in the state file.\<close>

record clock =
  stamp :: string
  iso :: string

definition rollback_locked ::
    "'h host \<Rightarrow> clock \<Rightarrow> string \<Rightarrow> string option \<Rightarrow> 'h boot \<Rightarrow> 'h runtime \<Rightarrow> nat \<times> 'h runtime" where
  "rollback_locked h now reason txt b s =
     (case subject_of h s b of
        Inl _ \<Rightarrow> (1, s)
      | Inr (effective, _, failed_values) \<Rightarrow>
          let good = p_known_good s; ts = stamp now;
              tail = (case txt of None \<Rightarrow> [] | Some l \<Rightarrow> log_tail TAIL_LINES TAIL_BYTES l);
              old = (case good of None \<Rightarrow> []
                     | Some g \<Rightarrow> (case g_effective g of None \<Rightarrow> [] | Some d \<Rightarrow> d));
              s1 = s\<lparr>p_failures := store_failure ts
                      \<lparr>x_values = failed_values, x_effective = effective,
                       x_log = tail, x_diff = diff old effective, x_reason = reason,
                       x_signatures = match_signatures tail, x_had_good = (good \<noteq> None)\<rparr>
                      (p_failures s)\<rparr>
          in (case good of
                None \<Rightarrow>
                  if failed_values \<noteq> []
                  then restart_into ts reason (Some ''built-in defaults + template env'') None s1
                  else fail_rollback ts reason s1
              | Some g \<Rightarrow>
                  (case known_good_replay h g of
                     Inl _ \<Rightarrow> (1, s1)
                   | Inr (Inl _) \<Rightarrow> fail_rollback ts reason s1
                   | Inr (Inr replay) \<Rightarrow>
                       if diff effective old = [] then fail_rollback ts reason s1
                       else restart_into ts reason (Some (g_ts g))
                              (Some \<lparr>raw_doc = Wrapped replay, raw_meta = iso now\<rparr>) s1)))"

definition cmd_rollback ::
    "'h host \<Rightarrow> clock \<Rightarrow> string \<Rightarrow> string option \<Rightarrow> 'h runtime \<Rightarrow> nat \<times> 'h runtime" where
  "cmd_rollback h now reason txt s =
     (let b = current_attempt h s in
      if b = Superseded then (3, s) else rollback_locked h now reason txt b s)"

definition cmd_should_rollback :: "'h host \<Rightarrow> 'h runtime \<Rightarrow> nat" where
  "cmd_should_rollback h s =
     (let b = current_attempt h s in
      if b = Superseded then 3
      else (case subject_of h s b of
              Inl _ \<Rightarrow> 1
            | Inr (effective, _, vs) \<Rightarrow>
                (case p_known_good s of
                   None \<Rightarrow> if vs \<noteq> [] then 0 else 1
                 | Some g \<Rightarrow>
                     (case known_good_replay h g of
                        Inr (Inr _) \<Rightarrow>
                          if diff effective (case g_effective g of None \<Rightarrow> [] | Some d \<Rightarrow> d) \<noteq> [] then 0 else 1
                      | _ \<Rightarrow> 1))))"

section \<open>The remaining commands\<close>

definition cmd_request_restart :: "'h runtime \<Rightarrow> nat \<times> 'h runtime" where
  "cmd_request_restart s = (0, s\<lparr>p_restart := Some ''cli''\<rparr>)"

definition cmd_clear_restart :: "'h runtime \<Rightarrow> nat \<times> 'h runtime" where
  "cmd_clear_restart s = (0, s\<lparr>p_restart := None\<rparr>)"

text \<open>
  The newest failure directory with neither an analysis nor an incident marker; both are files other
  programs write, given here as the names that have one.
\<close>

definition cmd_pending_analysis :: "string list \<Rightarrow> string list \<Rightarrow> 'h runtime \<Rightarrow> string option" where
  "cmd_pending_analysis analysed queued s =
     find (\<lambda>d. \<not> List.member analysed d \<and> \<not> List.member queued d) (rev (sort (map fst (p_failures s))))"

end
