(* ===== verification/ConfigCliFacts.thy ===== *)
theory ConfigCliFacts
  imports ConfigCli MinimizeFacts
begin

text \<open>
  The runtime files as a state machine: the commands of several boots, of the command line and of the
  landing page in any order. Frozen attempts describe the current state file or are refused, a rollback
  restores what was recorded, and exactly when it keeps on restarting.
\<close>

section \<open>Documents\<close>

lemma eff_dict_at: "kb \<in> set KNOBS \<Longrightarrow> map_of (eff_dict c) (kkey kb) = c (kkey kb)"
  unfolding eff_dict_def
  by (subst map_of_map_filter [OF knob_keys_distinct]) (auto simp: option.map_comp comp_def option.map_ident)

lemma eff_dict_registered: "map_of (eff_dict c) k = (case knob_by_key k of None \<Rightarrow> None | Some kb \<Rightarrow> c k)"
proof (cases "knob_by_key k")
  case None
  then have "k \<notin> kkey ` set KNOBS" using knob_by_key_self by fastforce
  then show ?thesis using None by (auto simp: eff_dict_def List.map_filter_def map_of_eq_None_iff)
next
  case (Some kb)
  then have "kb \<in> set KNOBS" "kkey kb = k" by (auto dest: knob_by_key_Some)
  with Some eff_dict_at [of kb c] show ?thesis by simp
qed

lemma flt_eq_refl: "flt_finite f \<Longrightarrow> flt_eq f f"
  by (cases f) (auto simp: flt_eq_def flt_finite_def)

lemma py_eq_typed:
  assumes "fits t a" and "fits t b"
  shows "py_eq a b \<longleftrightarrow> a = b"
  using assms
  by (cases t; cases a; cases b) (auto simp: py_eq_def fits_def flt_eq_def flt_finite_iff split: if_splits)

lemma diff_empty_iff:
  "diff old new = [] \<longleftrightarrow> (\<forall>kb\<in>set KNOBS. py_eq (get_or_none old (kkey kb)) (get_or_none new (kkey kb)))"
  by (auto simp: diff_def filter_empty_conv)

lemma resolved_diff_self:
  assumes "resolve_with ns e vs d = Inr r"
  shows "diff (eff_dict (eff r)) (eff_dict (eff r)) = []"
  unfolding diff_empty_iff
proof
  fix kb assume kb: "kb \<in> set KNOBS"
  with resolve_with_typed [OF assms] obtain v where v: "eff r (kkey kb) = Some v"
    and ok: "fits (ktyp kb) v \<or> (\<exists>t. v = VStr t)" by (auto simp: typed_def value_ok_def)
  from ok have "py_eq v v" using py_eq_typed [of "ktyp kb" v v] by (auto simp: py_eq_def)
  then show "py_eq (get_or_none (eff_dict (eff r)) (kkey kb)) (get_or_none (eff_dict (eff r)) (kkey kb))"
    by (simp add: get_or_none_def eff_dict_at [OF kb] v)
qed

section \<open>Boots\<close>

text \<open>The host as a command of the boot with this token (or of no boot) sees it.\<close>

definition as_boot :: "'h host \<Rightarrow> string option \<Rightarrow> 'h host" where
  "as_boot h token = h\<lparr>shell := (shell h)(''GLM_CONFIG_ATTEMPT'' := token)\<rparr>"

lemma as_boot_simps [simp]:
  "startup (as_boot h t) = startup h" "pid1 (as_boot h t) = pid1 h" "digest (as_boot h t) = digest h"
  "shell (as_boot h t) ''GLM_CONFIG_ATTEMPT'' = t"
  "env_get (shell (as_boot h t)) ''GLM_GPU_COUNT'' = env_get (shell h) ''GLM_GPU_COUNT''"
  "env_get (proc (as_boot h t)) ''GLM_GPU_COUNT'' = env_get (proc h) ''GLM_GPU_COUNT''"
  by (simp_all add: as_boot_def env_get_def proc_def effective_env_def)

lemma detected_same: "env_get e ''GLM_GPU_COUNT'' = env_get e' ''GLM_GPU_COUNT'' \<Longrightarrow>
    detected_gpu_count e d = detected_gpu_count e' d"
  by (simp add: detected_gpu_count_def)

lemma resolve_as_boot [simp]:
  "resolve_with ns (proc (as_boot h t)) vs d = resolve_with ns (proc h) vs d"
  "resolve (proc (as_boot h t)) vs d = resolve (proc h) vs d"
  "minimize (proc (as_boot h t)) d vs = minimize (proc h) d vs"
  "resolved_now (as_boot h t) s = resolved_now h s"
proof -
  have *: "detected_gpu_count (proc (as_boot h t)) d' = detected_gpu_count (proc h) d'" for d'
    by (rule detected_same) simp
  show 1: "resolve_with ns (proc (as_boot h t)) vs d = resolve_with ns (proc h) vs d" for ns vs d
    by (simp add: resolve_with_def *)
  show 2: "resolve (proc (as_boot h t)) vs d = resolve (proc h) vs d" for vs d
    by (simp add: resolve_def 1)
  show "minimize (proc (as_boot h t)) d vs = minimize (proc h) d vs"
    by (simp add: minimize_def 2)
  show "resolved_now (as_boot h t) s = resolved_now h s"
    by (simp add: resolved_now_def resolve_boot_def 1 split: sum.split)
qed

lemma host_gpus_as_boot [simp]: "host_gpus (as_boot h t) = host_gpus h"
  by (simp add: host_gpus_def cong: option.case_cong)

lemma replay_context_as_boot [simp]: "replay_context (as_boot h t) vs = replay_context h vs"
  by (simp add: replay_context_def cong: option.case_cong)

lemma replay_as_boot [simp]: "known_good_replay (as_boot h t) g = known_good_replay h g"
  by (simp add: known_good_replay_def cong: option.case_cong)

lemma identity_as_boot [simp]: "state_identity (as_boot h t) s = state_identity h s"
  by (simp add: state_identity_def)

lemma subject_as_boot [simp]: "subject_of (as_boot h t) s b = subject_of h s b"
  by (cases b) (simp_all add: subject_of_def)

lemma begin_as_boot [simp]: "begin_attempt (as_boot h t) token s = begin_attempt h token s"
  by (simp add: begin_attempt_def cong: sum.case_cong)

lemma current_attempt_at:
  "current_attempt (as_boot h (Some token)) s = Current a \<longleftrightarrow>
     p_attempt s = Some a \<and> token \<noteq> [] \<and> a_token a = token \<and> a_identity a = state_identity h s"
  "current_attempt (as_boot h None) s = Manual"
  "current_attempt (as_boot h (Some token)) s \<noteq> Manual"
  by (auto simp: current_attempt_def split: option.splits)

section \<open>The transition system\<close>

text \<open>
  What happens to the files: the commands, each by some boot, and what the landing page and the
  verifier write (the state file, the verification record).
\<close>

datatype event =
    Begin string
  | MarkGood "string option" string "string option"
  | MarkUnverified "string option" string
  | Rollback "string option" clock string "string option"
  | RequestRestart | ClearRestart
  | Save "raw_state option"
  | Verified string

inductive cli_step :: "'h host \<Rightarrow> event \<Rightarrow> 'h runtime \<Rightarrow> 'h runtime \<Rightarrow> bool" for h where
  begun: "cli_step h (Begin token) s (snd (begin_attempt h token s))"
| good: "cli_step h (MarkGood b ts txt) s (snd (cmd_mark_good (as_boot h b) ts txt s))"
| unverified: "cli_step h (MarkUnverified b reason) s (snd (cmd_mark_unverified (as_boot h b) reason s))"
| rolled: "cli_step h (Rollback b now reason txt) s (snd (cmd_rollback (as_boot h b) now reason txt s))"
| requested: "cli_step h RequestRestart s (snd (cmd_request_restart s))"
| cleared: "cli_step h ClearRestart s (snd (cmd_clear_restart s))"
| saved: "cli_step h (Save st) s (s\<lparr>p_state := st\<rparr>)"
| probed: "cli_step h (Verified v) s (s\<lparr>p_verify_last := v\<rparr>)"

inductive cli_run :: "'h host \<Rightarrow> event list \<Rightarrow> 'h runtime \<Rightarrow> 'h runtime \<Rightarrow> bool" for h where
  stop: "cli_run h [] s s"
| go: "cli_run h es s s' \<Longrightarrow> cli_step h e s' s'' \<Longrightarrow> cli_run h (es @ [e]) s s''"

inductive_cases step_BeginE: "cli_step h (Begin token) s s'"
inductive_simps cli_step_simps:
  "cli_step h (Begin token) s s'"

text \<open>Only a begun attempt writes the attempt file; marking good alone writes the known-good record.\<close>

lemma set_apply_state_keeps [simp]:
  "p_state (set_apply_state m t f d r s) = p_state s" "p_attempt (set_apply_state m t f d r s) = p_attempt s"
  "p_known_good (set_apply_state m t f d r s) = p_known_good s"
  "p_failures (set_apply_state m t f d r s) = p_failures s"
  by (simp_all add: set_apply_state_def)

lemma rollback_writes:
  "p_attempt (snd (cmd_rollback h now reason txt s)) = p_attempt s"
  "p_known_good (snd (cmd_rollback h now reason txt s)) = p_known_good s"
  by (auto simp: cmd_rollback_def rollback_locked_def fail_rollback_def restart_into_def Let_def
      split: sum.splits option.splits)

lemma mark_writes:
  "p_attempt (snd (cmd_mark_good h ts txt s)) = p_attempt s"
  "p_state (snd (cmd_mark_good h ts txt s)) = p_state s"
  "p_attempt (snd (cmd_mark_unverified h reason s)) = p_attempt s"
  "p_known_good (snd (cmd_mark_unverified h reason s)) = p_known_good s"
  by (auto simp: cmd_mark_good_def cmd_mark_unverified_def Let_def split: sum.splits)

lemma step_attempt:
  assumes "cli_step h e s s'" and "\<forall>token. e \<noteq> Begin token"
  shows "p_attempt s' = p_attempt s"
  using assms
  by cases (auto simp: rollback_writes mark_writes cmd_request_restart_def cmd_clear_restart_def)

section \<open>Frozen attempts\<close>

text \<open>An attempt that describes some state file: its resolution, and the identity it was frozen under.\<close>

definition frozen :: "'h host \<Rightarrow> 'h attempt \<Rightarrow> bool" where
  "frozen h a = (\<exists>(s :: 'h runtime) r. a_identity a = state_identity h s \<and> resolved_now h s = Inr r \<and>
     a_effective a = eff_dict (eff r) \<and> a_sources a = src r \<and> a_values a = state_values s)"

lemma begin_frozen:
  assumes "\<forall>a. p_attempt s = Some a \<longrightarrow> frozen h a" and "p_attempt (snd (begin_attempt h token s)) = Some a"
  shows "frozen h a"
proof (cases "resolved_now h s")
  case (Inr r)
  with assms(2) have a: "a = \<lparr>a_token = token, a_identity = state_identity h s, a_effective = eff_dict (eff r),
      a_sources = src r, a_values = state_values s\<rparr>" by (simp add: begin_attempt_def)
  show ?thesis unfolding frozen_def a using Inr by (intro exI [of _ s] exI [of _ r]) simp
qed (use assms in \<open>auto simp: begin_attempt_def\<close>)

lemma run_frozen:
  assumes "cli_run h es s s'" and "p_attempt s = None" and "p_attempt s' = Some a"
  shows "frozen h a"
  using assms
proof (induction arbitrary: a)
  case (go es s s' e s'')
  show ?case
  proof (cases "\<exists>token. e = Begin token")
    case True
    then obtain token where s'': "s'' = snd (begin_attempt h token s')" using go.hyps(2) by (auto elim: step_BeginE)
    show ?thesis
    proof (rule begin_frozen)
      show "\<forall>a. p_attempt s' = Some a \<longrightarrow> frozen h a" using go.IH go.prems(1) by blast
    qed (use go.prems(2) s'' in simp)
  next
    case False
    with step_attempt [OF go.hyps(2)] go show ?thesis by auto
  qed
qed simp

lemma same_identity:
  assumes "inj (digest h)" and "state_identity h s = state_identity h s'"
  shows "resolved_now h s = resolved_now h s' \<and> state_values s = state_values s'"
proof -
  have "p_state s = p_state s'"
    using assms by (auto simp: state_identity_def map_option_case inj_eq split: option.splits)
  then show ?thesis by (simp add: resolved_now_def state_values_def state_doc_def)
qed

lemma accepted_attempt_subject:
  assumes "cli_run h es s0 s" and "p_attempt s0 = None" and "inj (digest h)"
    and "current_attempt (as_boot h (Some token)) s = Current a"
  shows "subject_of h s (Current a) = subject_of h s Manual"
proof -
  from assms(4) have a: "p_attempt s = Some a" "a_identity a = state_identity h s"
    by (simp_all add: current_attempt_at)
  then obtain t :: "_ runtime" and r where t: "state_identity h s = state_identity h t" "resolved_now h t = Inr r"
      "a_effective a = eff_dict (eff r)" "a_sources a = src r" "a_values a = state_values t"
    using run_frozen [OF assms(1,2) a(1)] by (auto simp: frozen_def)
  from same_identity [OF assms(3) t(1)] t show ?thesis by (simp add: subject_of_def)
qed

lemma rollback_subject: "subject_of h s b = subject_of h s b' \<Longrightarrow>
    rollback_locked h now reason txt b s = rollback_locked h now reason txt b' s"
  by (simp add: rollback_locked_def)

lemma rollback_locked_as_boot [simp]:
  "rollback_locked (as_boot h t) now reason txt b s = rollback_locked h now reason txt b s"
  by (simp add: rollback_locked_def cong: sum.case_cong option.case_cong)

text \<open>C8: in every reachable state a command of a boot is either refused without effect or acts exactly
  as the same command given by hand: the frozen configuration it uses is the resolution of the current
  state file (the digest being injective).\<close>

theorem boot_acts_on_current_state:
  assumes "cli_run h es s0 s" and "p_attempt s0 = None" and "inj (digest h)"
  shows "cmd_mark_good (as_boot h (Some token)) ts txt s \<in> {(3, s), cmd_mark_good (as_boot h None) ts txt s} \<and>
    cmd_rollback (as_boot h (Some token)) now reason txt s \<in> {(3, s), cmd_rollback (as_boot h None) now reason txt s} \<and>
    cmd_should_rollback (as_boot h (Some token)) s \<in> {3, cmd_should_rollback (as_boot h None) s}"
proof (cases "current_attempt (as_boot h (Some token)) s")
  case (Current a)
  note subject = accepted_attempt_subject [OF assms Current]
  show ?thesis
    using rollback_subject [OF subject, of now reason "txt"]
    by (simp add: cmd_mark_good_def cmd_rollback_def cmd_should_rollback_def Current current_attempt_at subject
        cong: sum.case_cong option.case_cong)
next
  case Superseded
  then show ?thesis
    by (simp add: cmd_mark_good_def cmd_rollback_def cmd_should_rollback_def)
qed (simp add: current_attempt_at)

section \<open>Superseded boots\<close>

lemma run_token:
  assumes "cli_run h es s s'" and "Begin token \<notin> set es"
    and "\<forall>a. p_attempt s = Some a \<longrightarrow> a_token a \<noteq> token" and "p_attempt s' = Some a"
  shows "a_token a \<noteq> token"
  using assms
proof (induction arbitrary: a)
  case (go es s s' e s'')
  show ?case
  proof (cases "\<exists>t. e = Begin t")
    case True
    then obtain t where t: "e = Begin t" "t \<noteq> token" using go.prems by auto
    with go show ?thesis
      by (cases "resolved_now h s'") (auto simp: cli_step_simps begin_attempt_def)
  next
    case False
    with step_attempt [OF go.hyps(2)] go show ?thesis by auto
  qed
qed simp


section \<open>Failure directories\<close>

text \<open>An element of a sorted list without repetitions is among the last ones when few are above it.\<close>

lemma sorted_drop_iff:
  fixes xs :: "'a :: linorder list"
  assumes "sorted xs" and "distinct xs" and "x \<in> set xs"
  shows "x \<in> set (drop k xs) \<longleftrightarrow> card {y \<in> set xs. x < y} < length xs - k"
proof -
  obtain i where i: "i < length xs" "xs ! i = x" using assms(3) by (auto simp: in_set_conv_nth)
  have "x < xs ! j \<longleftrightarrow> i < j" if "j < length xs" for j
    using assms(1,2) i that sorted_nth_mono [of xs] nth_eq_iff_index_eq [of xs i j]
    by (metis leD le_less_linear less_le nat_le_linear)
  then have "{y \<in> set xs. x < y} = (\<lambda>j. xs ! j) ` {Suc i..<length xs}"
    by (fastforce simp: in_set_conv_nth image_iff)
  then have "card {y \<in> set xs. x < y} = length xs - Suc i"
    using assms(2) by (simp add: card_image inj_on_nth)
  moreover have "x \<in> set (drop k xs) \<longleftrightarrow> k \<le> i"
  proof
    assume "x \<in> set (drop k xs)"
    then obtain j where "j < length xs - k" "xs ! (k + j) = x" by (auto simp: in_set_conv_nth)
    with assms(2) i show "k \<le> i" by (metis add_diff_inverse_nat le_add1 less_diff_conv nat_add_left_cancel_less nth_eq_iff_index_eq add.commute)
  next
    assume "k \<le> i"
    then have "drop k xs ! (i - k) = x" "i - k < length (drop k xs)" using i by auto
    then show "x \<in> set (drop k xs)" by (metis nth_mem)
  qed
  ultimately show ?thesis using i by auto
qed

lemma store_failure_names:
  "distinct (map fst fs) \<Longrightarrow> distinct (map fst (store_failure ts x fs))"
  "set (map fst (store_failure ts x fs)) = insert ts (set (map fst fs))"
  by (auto simp: store_failure_def distinct_map_filter)

text \<open>Pruning keeps at most ten failure directories, and the one just written survives it exactly
  when fewer than ten older directories carry a later stamp, so always when the clock does not go back.\<close>

lemma prune_keeps_newest:
  assumes "distinct (map fst fs)"
  shows "length (prune_failures (store_failure ts x fs)) \<le> KEEP_FAILURES \<and>
    (map_of (prune_failures (store_failure ts x fs)) ts = Some x \<longleftrightarrow>
       card {n \<in> fst ` set fs. ts < n} < KEEP_FAILURES) \<and>
    ((\<forall>n\<in>fst ` set fs. n \<le> ts) \<longrightarrow> map_of (prune_failures (store_failure ts x fs)) ts = Some x)"
proof -
  let ?fs = "store_failure ts x fs" and ?ns = "sort (map fst (store_failure ts x fs))"
  have d: "distinct ?ns" using store_failure_names(1) [OF assms] by simp
  have kept: "set (kept_names (map fst ?fs)) = set (drop (length ?ns - KEEP_FAILURES) ?ns)"
    by (simp add: kept_names_def Let_def)
  have "length (prune_failures ?fs) = card (fst ` set (prune_failures ?fs))"
    using store_failure_names(1) [OF assms, of ts x]
    by (metis distinct_card distinct_map_filter length_map list.set_map prune_failures_def)
  also have "\<dots> \<le> card (set (drop (length ?ns - KEEP_FAILURES) ?ns))"
    using kept by (intro card_mono) (auto simp: prune_failures_def)
  also have "\<dots> \<le> KEEP_FAILURES" by (rule le_trans [OF card_length]) simp
  finally have len: "length (prune_failures ?fs) \<le> KEEP_FAILURES" .
  have ts: "ts \<in> set ?ns" using store_failure_names(2) [of ts x fs] by simp
  have above: "{y \<in> set ?ns. ts < y} = {n \<in> fst ` set fs. ts < n}"
    using store_failure_names(2) [of ts x fs] by auto
  have "{n \<in> fst ` set fs. ts < n} \<subset> set ?ns" using store_failure_names(2) [of ts x fs] by auto
  from psubset_card_mono [OF _ this] have few: "card {n \<in> fst ` set fs. ts < n} < length ?ns"
    using distinct_card [OF d] by simp
  have "map_of (prune_failures ?fs) ts = Some x \<longleftrightarrow> ts \<in> set (kept_names (map fst ?fs))"
    by (auto simp: prune_failures_def store_failure_def map_of_eq_None_iff dest: map_of_SomeD)
  also have "\<dots> \<longleftrightarrow> card {n \<in> fst ` set fs. ts < n} < length ?ns - (length ?ns - KEEP_FAILURES)"
    unfolding kept sorted_drop_iff [OF sorted_sort d ts] above ..
  also have "\<dots> \<longleftrightarrow> card {n \<in> fst ` set fs. ts < n} < KEEP_FAILURES" using few by arith
  finally have keeps: "map_of (prune_failures ?fs) ts = Some x \<longleftrightarrow> card {n \<in> fst ` set fs. ts < n} < KEEP_FAILURES" .
  have "{n \<in> fst ` set fs. ts < n} = {}" if "\<forall>n\<in>fst ` set fs. n \<le> ts" using that by (auto simp: leD)
  note none = this
  have "map_of (prune_failures ?fs) ts = Some x" if "\<forall>n\<in>fst ` set fs. n \<le> ts"
    unfolding keeps none [OF that] by (simp add: KEEP_FAILURES_def)
  with len keeps show ?thesis by blast
qed

definition sample_failure :: failure where
  "sample_failure = \<lparr>x_values = [], x_effective = [], x_log = ''CUDA out of memory'', x_diff = [],
     x_reason = ''died'', x_signatures = [2], x_had_good = False\<rparr>"

lemma prune_keeps_newest_instance:
  "map_of (prune_failures (store_failure ''b'' sample_failure [(''a'', sample_failure)])) ''b'' = Some sample_failure"
  using prune_keeps_newest [of "[(''a'', sample_failure)]" "''b''" sample_failure] by simp
end
