(* ===== verification/Rollback.thy ===== *)
theory Rollback
  imports ConfigCliFacts
begin

text \<open>
  What a rollback achieves: the next boot resolves to what was recorded, on every knob the recorded
  family has; and when the supervisor, which restarts after every accepted rollback, comes to rest.
\<close>

section \<open>The replayed state file\<close>

lemma minimize_keys:
  assumes "minimize e d values = Inr (out, dropped)"
  shows "fst ` set out \<subseteq> kkey ` set KNOBS"
proof -
  from assms obtain fam where fam: "resolve_family values (layer d) = Inr fam"
    by (cases "resolve_family values (layer d)") (auto simp: minimize_def base_result_def)
  obtain heads bad vb where
    out: "out = heads @ List.map_filter (written fam bad vb values) KNOBS"
    and heads: "fst ` set heads \<subseteq> {MODEL_FAMILY, MODEL_VARIANT}"
  proof (rule minimizeE [OF assms fam])
    fix base unfiled var_base bd sel heads
    assume "heads = (if Some (VStr fam) \<noteq> eff unfiled MODEL_FAMILY then [(MODEL_FAMILY, VStr fam)] else [])
             @ (if Some sel \<noteq> eff base MODEL_VARIANT then [(MODEL_VARIANT, sel)] else [])"
    then have "fst ` set heads \<subseteq> {MODEL_FAMILY, MODEL_VARIANT}" by auto
    moreover assume "out = heads @ List.map_filter (written fam (invalid_env_keys (layer d)) (eff var_base) values) KNOBS"
    ultimately show thesis by (rule that [rotated])
  qed
  have "{MODEL_FAMILY, MODEL_VARIANT} \<subseteq> kkey ` set KNOBS"
  proof -
    obtain kf kv where "kf \<in> set KNOBS" "kkey kf = MODEL_FAMILY" "kv \<in> set KNOBS" "kkey kv = MODEL_VARIANT"
      by (metis family_knob variant_knob)
    then show ?thesis by (metis empty_subsetI imageI insert_subset)
  qed
  moreover have "fst ` set (List.map_filter (written fam bad vb values) KNOBS) \<subseteq> kkey ` set KNOBS"
    using written_key by (fastforce simp: List.map_filter_def)
  ultimately show ?thesis using heads by (auto simp: out)
qed

lemma forbidden_unregistered: "k \<in> set FORBIDDEN_STATE_KEYS \<Longrightarrow> k \<notin> kkey ` set KNOBS"
proof -
  have "list_all (\<lambda>kb. kkey kb \<notin> set FORBIDDEN_STATE_KEYS) KNOBS"
    by (simp add: knob_tables FORBIDDEN_STATE_KEYS_def)
  then show "k \<in> set FORBIDDEN_STATE_KEYS \<Longrightarrow> ?thesis" by (auto simp: list_all_iff)
qed

lemma minimized_file_loads:
  assumes "minimize e d values = Inr (out, dropped)"
  shows "load_state_file (Wrapped out) = Inr out"
proof -
  have "map_of out k = None" if "k \<in> set FORBIDDEN_STATE_KEYS" for k
    using minimize_keys [OF assms] forbidden_unregistered [OF that] by (auto simp: map_of_eq_None_iff)
  then have "find (\<lambda>k. map_of out k \<noteq> None) FORBIDDEN_STATE_KEYS = None"
    by (auto simp: find_None_iff)
  then show ?thesis by (simp add: load_state_file_def check_forbidden_def)
qed

section \<open>The replay\<close>

lemma map_of_contract: "map_of (contract P d) k = (if P k then map_of d k else None)"
  by (induction d) (auto simp: contract_def)

lemma base_result_Inr [simp]: "base_result x = Inr v \<longleftrightarrow> x = Inr v"
  by (cases x) (simp_all add: base_result_def)

lemma py_eq_sym: "py_eq a b \<longleftrightarrow> py_eq b a"
  by (auto simp: py_eq_def flt_eq_def split: option.splits pyfloat.splits)

text \<open>What an accepted replay has established about the state values it returns.\<close>

lemma replayE:
  assumes "known_good_replay h g = Inr (Inr replay)"
  obtains target r where "g_effective g = Some target"
    and "resolve (proc h) replay (startup h) = Inr r" and "load_state_file (Wrapped replay) = Inr replay"
    and "\<And>kb. kb \<in> set KNOBS \<Longrightarrow> comparable (target_family target) (kkey kb) \<Longrightarrow>
           map_of target (kkey kb) \<noteq> None \<Longrightarrow>
           py_eq (get_or_none target (kkey kb)) (get_or_none (eff_dict (eff r)) (kkey kb))"
    and "errors (validate (map_of (eff_dict (eff r))) (replay_context h replay)) = []"
proof -
  from assms obtain target where t: "g_effective g = Some target"
    by (auto simp: known_good_replay_def split: option.splits)
  let ?wanted = "contract (comparable (target_family target)) target"
  from assms t obtain dropped r where m: "minimize (proc h) (startup h) target = Inr (replay, dropped)"
    and r: "resolve (proc h) replay (startup h) = Inr r"
    and d: "diff ?wanted (contract (\<lambda>k. map_of ?wanted k \<noteq> None) (eff_dict (eff r))) = []"
    and v: "errors (validate (map_of (eff_dict (eff r))) (replay_context h replay)) = []"
    by (auto simp: known_good_replay_def Let_def result_bind_Inr_iff split: if_splits)
  show thesis
  proof (rule that [OF t r minimized_file_loads [OF m] _ v])
    fix kb assume kb: "kb \<in> set KNOBS" "comparable (target_family target) (kkey kb)" "map_of target (kkey kb) \<noteq> None"
    with d show "py_eq (get_or_none target (kkey kb)) (get_or_none (eff_dict (eff r)) (kkey kb))"
      by (auto simp: diff_empty_iff get_or_none_def map_of_contract dest!: bspec)
  qed
qed

text \<open>An accepted rollback with a record leaves the replayed file.\<close>

lemma rollback_accepted:
  assumes "cmd_rollback h now reason txt s = (0, s')" and "p_known_good s = Some g"
  obtains replay where "known_good_replay h g = Inr (Inr replay)"
    and "p_state s' = Some \<lparr>raw_doc = Wrapped replay, raw_meta = iso now\<rparr>" and "p_known_good s' = Some g"
  using assms that
  by (auto simp: cmd_rollback_def rollback_locked_def fail_rollback_def restart_into_def Let_def
      split: if_splits sum.splits option.splits)

lemma resolved_replay:
  assumes "p_state s = Some raw" and "raw_doc raw = Wrapped replay" and "load_state_file (Wrapped replay) = Inr replay"
  shows "resolved_now h s = resolve (proc h) replay (startup h)" and "state_values s = replay"
  using assms by (simp_all add: resolved_now_def resolve_boot_def resolve_def state_values_def state_doc_def)

text \<open>C7: a rollback that reports success restores the recorded configuration: the state file it leaves
  resolves, the resolution agrees with the record on every knob of the recorded family, and it has no
  validation errors on this host.\<close>

theorem rollback_restores:
  assumes "cmd_rollback (as_boot h b) now reason txt s = (0, s')"
    and "p_known_good s = Some g" and "g_effective g = Some target"
  shows "\<exists>r. resolved_now h s' = Inr r \<and>
    (\<forall>kb\<in>set KNOBS. comparable (target_family target) (kkey kb) \<and> map_of target (kkey kb) \<noteq> None \<longrightarrow>
       py_eq (get_or_none target (kkey kb)) (get_or_none (eff_dict (eff r)) (kkey kb))) \<and>
    errors (validate (map_of (eff_dict (eff r))) (replay_context h (state_values s'))) = []"
proof -
  obtain replay where replay: "known_good_replay h g = Inr (Inr replay)"
    and st: "p_state s' = Some \<lparr>raw_doc = Wrapped replay, raw_meta = iso now\<rparr>"
    using rollback_accepted [OF assms(1,2)] by (metis replay_as_boot)
  from replay obtain r where "resolve (proc h) replay (startup h) = Inr r"
      "load_state_file (Wrapped replay) = Inr replay"
      "\<And>kb. kb \<in> set KNOBS \<Longrightarrow> comparable (target_family target) (kkey kb) \<Longrightarrow> map_of target (kkey kb) \<noteq> None \<Longrightarrow>
           py_eq (get_or_none target (kkey kb)) (get_or_none (eff_dict (eff r)) (kkey kb))"
      "errors (validate (map_of (eff_dict (eff r))) (replay_context h replay)) = []"
    by (rule replayE) (use assms(3) in auto)
  moreover from this(2) have "resolved_now h s' = resolve (proc h) replay (startup h)" "state_values s' = replay"
    using resolved_replay(1) [OF st, of replay h] resolved_replay(2) [OF st, of replay] by simp_all
  ultimately show ?thesis by auto
qed

section \<open>Restarting\<close>

text \<open>
  One round of the supervisor: a boot begins its attempt, fails, and is rolled back; exit code 0 makes
  the supervisor start the next boot without charging its restart budget.
\<close>

record boot_run =
  b_token :: string
  b_clock :: clock
  b_reason :: string
  b_log :: "string option"

definition failed_boot :: "'h host \<Rightarrow> boot_run \<Rightarrow> 'h runtime \<Rightarrow> nat \<times> 'h runtime" where
  "failed_boot h b s = cmd_rollback (as_boot h (Some (b_token b))) (b_clock b) (b_reason b) (b_log b)
     (snd (begin_attempt h (b_token b) s))"

fun keeps_restarting :: "'h host \<Rightarrow> boot_run list \<Rightarrow> 'h runtime \<Rightarrow> bool" where
  "keeps_restarting h [] s = True"
| "keeps_restarting h (b # bs) s =
     (fst (failed_boot h b s) = 0 \<and> keeps_restarting h bs (snd (failed_boot h b s)))"

text \<open>The files after a rollback: the record, and the state file that replays it.\<close>

definition replayed :: "'h host \<Rightarrow> known_good \<Rightarrow> dict \<Rightarrow> 'h runtime \<Rightarrow> bool" where
  "replayed h g replay s = (known_good_replay h g = Inr (Inr replay) \<and> p_known_good s = Some g \<and>
     (\<exists>raw. p_state s = Some raw \<and> raw_doc raw = Wrapped replay))"

lemma failed_boot_replayed:
  assumes "replayed h g replay s" and "g_effective g = Some target" and "b_token b \<noteq> []"
    and "resolved_now h s = Inr r"
  shows "if diff (eff_dict (eff r)) target = [] then fst (failed_boot h b s) = 3
    else fst (failed_boot h b s) = 0 \<and> replayed h g replay (snd (failed_boot h b s))"
proof -
  let ?a = "\<lparr>a_token = b_token b, a_identity = state_identity h s, a_effective = eff_dict (eff r),
      a_sources = src r, a_values = state_values s\<rparr>"
  have begun: "snd (begin_attempt h (b_token b) s) = s\<lparr>p_attempt := Some ?a\<rparr>"
    using assms(4) by (simp add: begin_attempt_def)
  have "current_attempt (as_boot h (Some (b_token b))) (s\<lparr>p_attempt := Some ?a\<rparr>) = Current ?a"
    using assms(3) by (simp add: current_attempt_at state_identity_def)
  then show ?thesis
    using assms(1,2)
    by (auto simp: failed_boot_def begun cmd_rollback_def rollback_locked_def subject_of_def Let_def replayed_def
        fail_rollback_def restart_into_def)
qed

lemma replayed_resolves:
  assumes "replayed h g replay s"
  obtains r where "resolved_now h s = Inr r" and "resolve (proc h) replay (startup h) = Inr r"
proof -
  from assms obtain raw where *: "known_good_replay h g = Inr (Inr replay)" "p_state s = Some raw"
      "raw_doc raw = Wrapped replay" by (auto simp: replayed_def)
  from *(1) obtain r where "resolve (proc h) replay (startup h) = Inr r" "load_state_file (Wrapped replay) = Inr replay"
    by (rule replayE)
  with resolved_replay [OF *(2,3)] that show thesis by metis
qed

lemma restarts_forever:
  assumes "replayed h g replay s" and "g_effective g = Some target"
    and "resolve (proc h) replay (startup h) = Inr r" and "diff (eff_dict (eff r)) target \<noteq> []"
    and "\<forall>b\<in>set bs. b_token b \<noteq> []"
  shows "keeps_restarting h bs s"
  using assms(1,5)
proof (induction bs arbitrary: s)
  case (Cons b bs)
  obtain r' where "resolved_now h s = Inr r'" "r' = r"
    using replayed_resolves [OF Cons.prems(1)] assms(3) by fastforce
  with failed_boot_replayed [OF Cons.prems(1) assms(2)] Cons.prems(2) assms(4)
  have "fst (failed_boot h b s) = 0 \<and> replayed h g replay (snd (failed_boot h b s))" by auto
  with Cons show ?case by simp
qed simp

text \<open>C28: after a successful rollback to a complete record the supervisor restarts without end, however
  often the boots fail, exactly when the record differs from the restored configuration on some knob
  that its family does not have; such a knob is ignored by the replay but counts as a difference.\<close>

theorem rollback_rests_iff:
  assumes "cmd_rollback (as_boot h b0) now reason txt s = (0, s')"
    and "p_known_good s = Some g" and "g_effective g = Some target"
    and "\<forall>kb\<in>set KNOBS. map_of target (kkey kb) \<noteq> None" and "resolved_now h s' = Inr r"
  shows "(\<forall>bs. (\<forall>b\<in>set bs. b_token b \<noteq> []) \<longrightarrow> keeps_restarting h bs s') \<longleftrightarrow>
    (\<exists>kb\<in>set KNOBS. \<not> comparable (target_family target) (kkey kb) \<and>
       \<not> py_eq (get_or_none (eff_dict (eff r)) (kkey kb)) (get_or_none target (kkey kb)))"
    (is "?forever \<longleftrightarrow> ?outside")
proof -
  obtain replay where "known_good_replay (as_boot h b0) g = Inr (Inr replay)"
      "p_state s' = Some \<lparr>raw_doc = Wrapped replay, raw_meta = iso now\<rparr>" "p_known_good s' = Some g"
    by (rule rollback_accepted [OF assms(1,2)])
  then have rep: "replayed h g replay s'" and replay: "known_good_replay h g = Inr (Inr replay)"
    by (simp_all add: replayed_def)
  have r: "resolve (proc h) replay (startup h) = Inr r"
    using replayed_resolves [OF rep] assms(5) by fastforce
  have "py_eq (get_or_none target (kkey kb)) (get_or_none (eff_dict (eff r)) (kkey kb))"
    if "kb \<in> set KNOBS" "comparable (target_family target) (kkey kb)" for kb
    using replayE [OF replay] assms(3,4) r that by (metis Inr_inject option.inject)
  then have differs: "diff (eff_dict (eff r)) target \<noteq> [] \<longleftrightarrow> ?outside"
    by (auto simp: diff_empty_iff py_eq_sym)
  show ?thesis
  proof
    assume ?forever
    then have "keeps_restarting h [\<lparr>b_token = ''t'', b_clock = now, b_reason = [], b_log = None\<rparr>] s'"
      by (elim allE [of _ "[\<lparr>b_token = ''t'', b_clock = now, b_reason = [], b_log = None\<rparr>]"]) simp
    with failed_boot_replayed [OF rep assms(3) _ assms(5), of "\<lparr>b_token = ''t'', b_clock = now, b_reason = [], b_log = None\<rparr>"]
    show ?outside by (auto simp: differs [symmetric] split: if_splits)
  next
    assume ?outside
    then show ?forever using restarts_forever [OF rep assms(3) r] differs by blast
  qed
qed

end
