(* ===== verification/RollbackLoop.thy ===== *)
theory RollbackLoop
  imports Rollback
begin

text \<open>
  A rollback that never comes to rest, computed: the record was made when the template still set
  \<open>MODEL_ID\<close>, a knob the GLM family does not have; the template has dropped it since.
\<close>

abbreviation selected_name :: string where "selected_name \<equiv> ''exl3-tr3-3.25bpw''"

definition recorded :: "knob \<Rightarrow> pyval" where
  "recorded kb = (if kkey kb = MODEL_ID then VStr ''org/model''
     else profile_value selected_name variant_exl3_tr3_3_25bpw kb)"

definition record_table :: dict where
  "record_table = map (\<lambda>kb. (kkey kb, recorded kb)) KNOBS"

definition old_record :: known_good where
  "old_record = \<lparr>g_ts = ''20260901T000000Z'', g_values = [], g_effective = Some record_table,
     g_sources = (\<lambda>_. None), g_verify = []\<rparr>"

definition bare_host :: "raw_state host" where
  "bare_host = \<lparr>shell = (\<lambda>_. None), pid1 = (\<lambda>_. None), startup = bare_env, digest = (\<lambda>r. r)\<rparr>"

definition failing :: "raw_state runtime" where
  "failing = \<lparr>p_state = None, p_attempt = None, p_known_good = Some old_record, p_failures = [],
     p_apply = \<lparr>mode = ''steady'', since = None, failed_ts = None, detail = [], restored = None, baseline_ts = None\<rparr>,
     p_restart = None, p_last_good_log = None, p_verify_last = []\<rparr>"

lemma bare_proc: "proc bare_host = (\<lambda>_. None)"
  by (simp add: proc_def bare_host_def effective_env_def fun_eq_iff)

lemma variant_known: "map_of VARIANTS selected_name = Some variant_exl3_tr3_3_25bpw"
  by (simp add: registry_simps)

lemma map_of_knob_table: "kb \<in> set KNOBS \<Longrightarrow> map_of (map (\<lambda>kb. (kkey kb, f kb)) KNOBS) (kkey kb) = Some (f kb)"
  using knob_keys_distinct by (auto simp: map_of_eq_Some_iff distinct_map comp_def intro: rev_image_eqI)

lemma map_of_knob_table_None: "k \<notin> kkey ` set KNOBS \<Longrightarrow> map_of (map (\<lambda>kb. (kkey kb, f kb)) KNOBS) k = None"
  by (force simp: map_of_eq_None_iff)

lemma table_is: "table_3_25bpw = map (\<lambda>kb. (kkey kb, profile_value selected_name variant_exl3_tr3_3_25bpw kb)) KNOBS"
  by (rule trans [OF profile_3_25bpw [symmetric] profile_table_def])

lemma table_at: "kb \<in> set KNOBS \<Longrightarrow>
    map_of table_3_25bpw (kkey kb) = Some (profile_value selected_name variant_exl3_tr3_3_25bpw kb)"
  by (subst table_is) (erule map_of_knob_table)

lemma table_keys: "map_of table_3_25bpw k \<noteq> None \<Longrightarrow> k \<in> kkey ` set KNOBS"
  by (subst (asm) table_is, rule ccontr) (simp only: map_of_knob_table_None simp_thms)

text \<open>A resolution in which only the selectors are chosen.\<close>

lemma selected_in_force:
  assumes "selects selected_name st"
  obtains r where "resolve_with [] (\<lambda>_. None) st bare_env = Inr r"
    and "\<And>kb. kb \<in> set KNOBS \<Longrightarrow> eff r (kkey kb) = Some (profile_value selected_name variant_exl3_tr3_3_25bpw kb)"
    and "\<And>k. map_of table_3_25bpw k \<noteq> None \<Longrightarrow> eff r k = map_of table_3_25bpw k"
proof -
  have "map_of table_3_25bpw MTP_DRAFT = Some (VStr ''native'')" by (simp add: table_3_25bpw_def)
  moreover have "v_default_draft variant_exl3_tr3_3_25bpw = Some ''native''" by (simp add: registry_simps)
  ultimately obtain r where r: "resolve_with [] (\<lambda>_. None) st bare_env = Inr r"
    and e: "\<And>k. map_of table_3_25bpw k \<noteq> None \<Longrightarrow> eff r k = map_of table_3_25bpw k"
    using profile_in_force [OF variant_known profile_3_25bpw _ _ assms] by blast
  show thesis
    by (rule that [OF r _ e]) (simp_all add: e table_at)
qed

text \<open>Every recorded value is legal.\<close>

lemma dcp_recorded: "kb \<in> set KNOBS \<Longrightarrow> kkey kb = DCP \<Longrightarrow>
    profile_value selected_name variant_exl3_tr3_3_25bpw kb = VStr ''4''"
proof -
  assume kb: "kb \<in> set KNOBS" "kkey kb = DCP"
  moreover have "map_of table_3_25bpw DCP = Some (VStr ''4'')" by (simp add: table_3_25bpw_def)
  ultimately show ?thesis using table_at [OF kb(1)] by simp
qed

lemma selects_states: "selects n [(MODEL_VARIANT, VStr n)]"
    "selects n [(MODEL_FAMILY, VStr ''glm52''), (MODEL_VARIANT, VStr n)]"
  by (simp_all add: selects_def)

lemma profile_value_fits:
  assumes kb: "kb \<in> set KNOBS"
  shows "fits (ktyp kb) (profile_value selected_name variant_exl3_tr3_3_25bpw kb)"
proof (cases "kkey kb = DCP")
  case True
  have "ktyp kb = TChoice [''1'', ''2'', ''4'', ''8'']" using True knob_type [OF kb] ktype_of_DCP by simp
  then show ?thesis
    by (simp add: dcp_recorded [OF kb True] coerce_simps value_eval)
next
  case False
  obtain r where r: "resolve_with [] (\<lambda>_. None) [(MODEL_VARIANT, VStr selected_name)] bare_env = Inr r"
    and e: "\<And>kb. kb \<in> set KNOBS \<Longrightarrow> eff r (kkey kb) = Some (profile_value selected_name variant_exl3_tr3_3_25bpw kb)"
    by (rule selected_in_force [OF selects_states(1)]) blast
  with resolve_value_fits [OF r kb] e [OF kb] False show ?thesis by auto
qed

lemma recorded_fits:
  assumes "kb \<in> set KNOBS"
  shows "fits (ktyp kb) (recorded kb)"
proof (cases "kkey kb = MODEL_ID")
  case True
  with knob_type [OF assms] have "ktyp kb = TStr" by (simp add: registry_simps)
  with True show ?thesis by (simp add: recorded_def coerce_simps value_eval)
qed (simp add: recorded_def profile_value_fits assms)

lemma model_id_inapplicable: "kb \<in> set KNOBS \<Longrightarrow> kkey kb = MODEL_ID \<Longrightarrow> \<not> applies_to kb ''glm52''"
proof -
  have "list_all (\<lambda>kb. kkey kb = MODEL_ID \<longrightarrow> \<not> applies_to kb ''glm52'') KNOBS"
    by (simp add: knob_tables applies_to_def)
  then show "kb \<in> set KNOBS \<Longrightarrow> kkey kb = MODEL_ID \<Longrightarrow> ?thesis" by (simp add: list_all_iff)
qed


section \<open>Minimizing the record\<close>

lemma record_at: "kb \<in> set KNOBS \<Longrightarrow> map_of record_table (kkey kb) = Some (recorded kb)"
  by (simp add: record_table_def map_of_knob_table)

lemma record_selectors:
  "map_of record_table MODEL_FAMILY = Some (VStr ''glm52'')"
  "map_of record_table MODEL_VARIANT = Some (VStr selected_name)"
proof -
  obtain kf kv where k: "kf \<in> set KNOBS" "kkey kf = MODEL_FAMILY" "kv \<in> set KNOBS" "kkey kv = MODEL_VARIANT"
    by (metis family_knob variant_knob)
  have "map_of table_3_25bpw MODEL_FAMILY = Some (VStr ''glm52'')" by (simp add: table_3_25bpw_def)
  then have "profile_value selected_name variant_exl3_tr3_3_25bpw kf = VStr ''glm52''"
    using table_at [OF k(1)] k(2) by simp
  then show "map_of record_table MODEL_FAMILY = Some (VStr ''glm52'')"
    using record_at [OF k(1)] k(2) by (simp add: recorded_def)
  show "map_of record_table MODEL_VARIANT = Some (VStr selected_name)"
    using record_at [OF k(3)] k(4) by (simp add: recorded_def profile_value_def)
qed

lemma variant_name_fits: "fits (TChoice (map fst VARIANTS)) (VStr selected_name)"
  by (simp add: coerce_simps variant_names value_eval)

lemma record_family: "resolve_family record_table (layer bare_env) = Inr ''glm52''"
proof -
  have "safe_selectors record_table"
    using glm_fits variant_name_fits by (simp add: safe_selectors_def record_selectors)
  from safe_selectors_pass [OF this bare_family] show ?thesis
    using family_step_fits [OF glm_fits record_selectors(1)] by simp
qed

lemma record_step:
  assumes "kb \<in> set KNOBS" and "eff vb (kkey kb) = Some (profile_value selected_name variant_exl3_tr3_3_25bpw kb)"
  shows "\<exists>ks. minimize_knob ''glm52'' [] (eff vb) record_table kb acc = Inr (fst acc, ks)"
proof -
  have "coerce kb (recorded kb) = Inr (recorded kb)" by (rule coerce_fixes [OF recorded_fits [OF assms(1)]])
  moreover have "recorded kb = profile_value selected_name variant_exl3_tr3_3_25bpw kb" if "applies_to kb ''glm52''"
    using model_id_inapplicable [OF assms(1)] that by (auto simp: recorded_def)
  ultimately show ?thesis
    using assms(2) by (auto simp: minimize_knob_def record_at [OF assms(1)] intro: exI [of _ "snd acc"])
qed

lemma record_loop:
  assumes "\<And>kb. kb \<in> set KNOBS \<Longrightarrow> eff vb (kkey kb) = Some (profile_value selected_name variant_exl3_tr3_3_25bpw kb)"
    and "set ks \<subseteq> set KNOBS"
  shows "\<exists>dr. fold_result (minimize_knob ''glm52'' [] (eff vb) record_table) ks acc = Inr (fst acc, dr)"
  using assms(2)
proof (induction ks arbitrary: acc)
  case (Cons kb ks)
  then obtain dr where "minimize_knob ''glm52'' [] (eff vb) record_table kb acc = Inr (fst acc, dr)"
    using record_step [OF _ assms(1)] by (metis insert_subset list.simps(15))
  with Cons.IH [of "(fst acc, dr)"] Cons.prems show ?case by simp
qed (auto intro: exI [of _ "snd acc"])

lemma bare_invalid: "invalid_env_keys (layer bare_env) = []"
  by (simp add: invalid_env_keys_def bare_env_def filter_empty_conv)

lemma default_variant:
  assumes "resolve_with [] (\<lambda>_. None) st bare_env = Inr r" and "resolve_family st (layer bare_env) = Inr ''glm52''"
    and "map_of st MODEL_VARIANT = None"
  shows "eff r MODEL_VARIANT = Some (VStr ''exl3-tr3'')"
proof -
  obtain kv where kv: "kv \<in> set KNOBS" "kkey kv = MODEL_VARIANT" by (rule variant_knob)
  have "below_file ''glm52'' None (layer bare_env) None kv = Some (VStr ''exl3-tr3'')"
    by (simp add: below_file_def precedence_def offer_def kv(2) bare_env_def variant_offer_def
        hardware_offer_def family_offer_def glm_defaults family_glm52_defaults_def)
  with resolve_variant_at [OF assms(1,2) kv] show ?thesis by (simp add: offer_def kv(2) assms(3))
qed

lemma record_minimizes:
  "\<exists>dr. minimize (\<lambda>_. None) bare_env record_table = Inr ([(MODEL_VARIANT, VStr selected_name)], dr)"
proof -
  let ?fam = "[(MODEL_FAMILY, VStr ''glm52'')]"
  have safe: "safe_selectors ?fam" "safe_selectors []"
    using glm_fits by (simp_all add: safe_selectors_def)
  have fam: "resolve_family ?fam (layer bare_env) = Inr ''glm52''"
    using safe_selectors_pass [OF safe(1) bare_family] family_step_fits [OF glm_fits, of ?fam] by simp
  obtain base where base: "resolve_with [] (\<lambda>_. None) ?fam bare_env = Inr base"
    using selector_state_resolves [OF safe(1)] by auto
  obtain unfiled where unf: "resolve_with [] (\<lambda>_. None) [] bare_env = Inr unfiled"
    using selector_state_resolves [OF safe(2)] by auto
  obtain vb where vb: "resolve_with [] (\<lambda>_. None) (?fam @ [(MODEL_VARIANT, VStr selected_name)]) bare_env = Inr vb"
    and at: "\<And>kb. kb \<in> set KNOBS \<Longrightarrow> eff vb (kkey kb) = Some (profile_value selected_name variant_exl3_tr3_3_25bpw kb)"
    using selected_in_force [OF selects_states(2)] by (metis append_Cons append_Nil)
  obtain kv where kv: "knob_by_key MODEL_VARIANT = Some kv" "ktyp kv = TChoice (map fst VARIANTS)" by (rule variant_knob)
  have sel: "selected_of record_table w = VStr selected_name" for w
    using coerce_fixes [of kv "VStr selected_name"] variant_name_fits
    by (simp add: selected_of_def record_selectors kv)
  have "eff unfiled MODEL_FAMILY = Some (VStr ''glm52'')"
    by (rule resolve_reports_family [OF unf bare_family])
  moreover have "eff base MODEL_VARIANT = Some (VStr ''exl3-tr3'')"
    by (rule default_variant [OF base fam]) simp
  ultimately show ?thesis
    using record_loop [of vb KNOBS "([(MODEL_VARIANT, VStr selected_name)], [])"] at vb
    by (simp add: minimize_def record_family bare_baseline bare_invalid resolve_def base unf sel base_result_def)
qed

section \<open>The replay is accepted\<close>

lemma py_eq_refl: "fits t v \<Longrightarrow> py_eq v v"
  using py_eq_typed by blast

lemma comparable_knob: "kb \<in> set KNOBS \<Longrightarrow> comparable fam (kkey kb) \<longleftrightarrow>
    kkey kb = MODEL_FAMILY \<or> kkey kb = MODEL_VARIANT \<or> applies_to kb fam"
  by (simp add: comparable_def knob_by_key_self)

lemma comparable_unchanged: "kb \<in> set KNOBS \<Longrightarrow> comparable ''glm52'' (kkey kb) \<Longrightarrow>
    recorded kb = profile_value selected_name variant_exl3_tr3_3_25bpw kb"
  using model_id_inapplicable by (auto simp: recorded_def comparable_knob)

lemma record_replays:
  "known_good_replay bare_host old_record = Inr (Inr [(MODEL_VARIANT, VStr selected_name)])"
proof -
  let ?st = "[(MODEL_VARIANT, VStr selected_name)]"
  obtain dr where m: "minimize (\<lambda>_. None) bare_env record_table = Inr (?st, dr)"
    using record_minimizes by blast
  obtain r where r: "resolve_with [] (\<lambda>_. None) ?st bare_env = Inr r"
    and e: "\<And>kb. kb \<in> set KNOBS \<Longrightarrow> eff r (kkey kb) = Some (profile_value selected_name variant_exl3_tr3_3_25bpw kb)"
    and t: "\<And>k. map_of table_3_25bpw k \<noteq> None \<Longrightarrow> eff r k = map_of table_3_25bpw k"
    by (rule selected_in_force [OF selects_states(1)]) blast
  have fam: "target_family record_table = ''glm52''"
    by (simp add: target_family_def record_selectors truthy_def py_str_def)
  let ?wanted = "contract (comparable ''glm52'') record_table"
  have "diff ?wanted (contract (\<lambda>k. map_of ?wanted k \<noteq> None) (eff_dict (eff r))) = []"
    unfolding diff_empty_iff
  proof
    fix kb assume kb: "kb \<in> set KNOBS"
    show "py_eq (get_or_none ?wanted (kkey kb))
        (get_or_none (contract (\<lambda>k. map_of ?wanted k \<noteq> None) (eff_dict (eff r))) (kkey kb))"
    proof (cases "comparable ''glm52'' (kkey kb)")
      case True
      with py_eq_refl [OF recorded_fits [OF kb]] show ?thesis
        by (simp add: get_or_none_def map_of_contract record_at [OF kb] eff_dict_at [OF kb] e [OF kb]
            comparable_unchanged [OF kb True])
    qed (simp add: get_or_none_def map_of_contract py_eq_def)
  qed
  moreover have "errors (validate (map_of (eff_dict (eff r))) (replay_context bare_host ?st)) = []"
  proof (rule table_3_25bpw_clean)
    fix k assume k: "map_of table_3_25bpw k \<noteq> None"
    then have "k \<in> kkey ` set KNOBS" by (rule table_keys)
    with t [OF k] show "map_of (eff_dict (eff r)) k = map_of table_3_25bpw k" by (auto simp: eff_dict_at)
  qed (simp_all add: replay_context_def startup_gpus_def host_gpus_def bare_host_def bare_env_def proc_def
      effective_env_def env_get_def, code_simp)
  ultimately show ?thesis
    using m r by (simp add: known_good_replay_def old_record_def bare_proc resolve_def base_result_def fam
        bare_host_def [THEN arg_cong [where f = startup], simplified])
qed

section \<open>The rollback and what follows it\<close>

definition some_clock :: clock where
  "some_clock = \<lparr>stamp = ''20260908T000000Z'', iso = ''2026-09-08T00:00:00Z''\<rparr>"

lemma failing_rolls_back:
  obtains s where "cmd_rollback (as_boot bare_host None) some_clock ''died'' None failing = (0, s)"
proof -
  obtain r where r: "resolve_with [] (\<lambda>_. None) [] bare_env = Inr r" using bare_resolves by blast
  have v: "eff r MODEL_VARIANT = Some (VStr ''exl3-tr3'')"
    by (rule default_variant [OF r bare_family]) simp
  have now: "resolved_now bare_host failing = Inr r"
    by (simp add: resolved_now_def resolve_boot_def state_doc_def failing_def load_state_file_def bare_proc r)
      (simp add: bare_host_def r)
  obtain kv where kv: "kv \<in> set KNOBS" "kkey kv = MODEL_VARIANT" by (rule variant_knob)
  have "\<not> py_eq (get_or_none (eff_dict (eff r)) MODEL_VARIANT) (get_or_none record_table MODEL_VARIANT)"
    using eff_dict_at [OF kv(1), of "eff r"]
    by (simp add: get_or_none_def kv(2) v record_selectors py_eq_def)
  then have "diff (eff_dict (eff r)) record_table \<noteq> []"
    unfolding diff_empty_iff using kv by metis
  moreover have "p_known_good failing = Some old_record" "g_effective old_record = Some record_table"
    by (simp_all add: failing_def old_record_def)
  ultimately have "fst (cmd_rollback (as_boot bare_host None) some_clock ''died'' None failing) = 0"
    by (simp add: cmd_rollback_def current_attempt_at rollback_locked_def subject_of_def now record_replays Let_def
        restart_into_def)
  then show thesis using that by (metis prod.collapse)
qed

lemma failing_record: "p_known_good failing = Some old_record" "g_effective old_record = Some record_table"
  by (simp_all add: failing_def old_record_def)

theorem rollback_restores_witness:
  "\<exists>s' r. cmd_rollback (as_boot bare_host None) some_clock ''died'' None failing = (0, s') \<and>
     resolved_now bare_host s' = Inr r \<and>
     errors (validate (map_of (eff_dict (eff (r :: resolved)))) (replay_context bare_host (state_values s'))) = []"
proof -
  obtain s' where s': "cmd_rollback (as_boot bare_host None) some_clock ''died'' None failing = (0, s')"
    by (rule failing_rolls_back)
  from rollback_restores [OF s' failing_record] s' show ?thesis by blast
qed

text \<open>However often the boots fail, each is rolled back into the configuration that just failed.\<close>

theorem rollback_rests_iff_witness:
  "\<exists>s'. cmd_rollback (as_boot bare_host None) some_clock ''died'' None failing = (0, s') \<and>
     (\<forall>bs. (\<forall>b\<in>set bs. b_token b \<noteq> []) \<longrightarrow> keeps_restarting bare_host bs s')"
proof -
  obtain s' where s': "cmd_rollback (as_boot bare_host None) some_clock ''died'' None failing = (0, s')"
    by (rule failing_rolls_back)
  obtain replay where "known_good_replay (as_boot bare_host None) old_record = Inr (Inr replay)"
      and st: "p_state s' = Some \<lparr>raw_doc = Wrapped replay, raw_meta = iso some_clock\<rparr>"
    by (rule rollback_accepted [OF s' failing_record(1)])
  then have "replay = [(MODEL_VARIANT, VStr selected_name)]" by (simp add: record_replays)
  moreover have "load_state_file (Wrapped [(MODEL_VARIANT, VStr selected_name)]) = Inr [(MODEL_VARIANT, VStr selected_name)]"
    using record_minimizes minimized_file_loads by blast
  ultimately have now: "resolved_now bare_host s' = resolve (\<lambda>_. None) [(MODEL_VARIANT, VStr selected_name)] bare_env"
    using resolved_replay(1) [OF st, of replay bare_host] by (simp add: bare_proc) (simp add: bare_host_def)
  obtain r where r: "resolve_with [] (\<lambda>_. None) [(MODEL_VARIANT, VStr selected_name)] bare_env = Inr r"
    and t: "\<And>k. map_of table_3_25bpw k \<noteq> None \<Longrightarrow> eff r k = map_of table_3_25bpw k"
    by (rule selected_in_force [OF selects_states(1)]) blast
  have all: "\<forall>kb\<in>set KNOBS. map_of record_table (kkey kb) \<noteq> None" by (simp add: record_at)
  obtain km where km: "km \<in> set KNOBS" "kkey km = MODEL_ID" using registered [of MODEL_ID] by (auto simp: registry_simps)
  have "eff r MODEL_ID = Some (VStr [])" using t [of MODEL_ID] by (simp add: table_3_25bpw_def)
  then have "\<not> py_eq (get_or_none (eff_dict (eff r)) (kkey km)) (get_or_none record_table (kkey km))"
    using eff_dict_at [OF km(1), of "eff r"] record_at [OF km(1)]
    by (simp add: get_or_none_def km(2) recorded_def py_eq_def)
  moreover have "target_family record_table = ''glm52''"
    by (simp add: target_family_def record_selectors truthy_def py_str_def)
  then have "\<not> comparable (target_family record_table) (kkey km)"
    unfolding comparable_knob [OF km(1)] using model_id_inapplicable [OF km] km(2) by simp
  ultimately have "\<exists>kb\<in>set KNOBS. \<not> comparable (target_family record_table) (kkey kb) \<and>
       \<not> py_eq (get_or_none (eff_dict (eff r)) (kkey kb)) (get_or_none record_table (kkey kb))"
    using km(1) by blast
  with rollback_rests_iff [OF s' failing_record all, of r] now r s' show ?thesis by (simp add: resolve_def)
qed

text \<open>Commands of a boot in force, and of one that a later boot has replaced.\<close>

theorem boot_acts_on_current_state_witness:
  "cmd_should_rollback (as_boot bare_host (Some ''one'')) (snd (begin_attempt bare_host ''one'' failing))
     \<in> {3, cmd_should_rollback (as_boot bare_host None) (snd (begin_attempt bare_host ''one'' failing))}"
proof -
  have "cli_run bare_host ([] @ [Begin ''one'']) failing (snd (begin_attempt bare_host ''one'' failing))"
    by (rule cli_run.go [OF cli_run.stop cli_step.begun])
  moreover have "p_attempt failing = None" "inj (digest bare_host)"
    by (simp_all add: failing_def bare_host_def inj_def)
  ultimately show ?thesis
    using boot_acts_on_current_state [of bare_host "[] @ [Begin ''one'']" failing _ "''one''"] by blast
qed


end
