(* ===== verification/Serve.thy ===== *)
theory Serve
  imports Validate ResolveFacts
begin

text \<open>
  What the serve path consumes: \<open>family_serve_args\<close> and \<open>derive\<close> of \<^verbatim>\<open>scripts/glm_config.py\<close>. The flags
  are a list of words, as in the code; a placeholder whose knob is missing is Python's \<open>KeyError\<close>, here
  \<open>None\<close>. No variant of the registry sets \<open>enforce_eager\<close>, so its tests are false throughout.
\<close>

section \<open>Compact JSON\<close>

datatype json = JStr string | JNum int | JTrue | JArr "json list" | JObj "(string \<times> json) list"

definition quote_char :: "char \<Rightarrow> string" where
  "quote_char c = (if c = CHR 0x22 \<or> c = CHR 0x5C then [CHR 0x5C, c] else [c])"

definition json_string :: "string \<Rightarrow> string" where
  "json_string s = [CHR 0x22] @ concat (map quote_char s) @ [CHR 0x22]"

text \<open>\<open>json.dumps(v, separators=(",", ":"))\<close> of printable ASCII.\<close>

fun dumps :: "json \<Rightarrow> string" where
  "dumps (JStr s) = json_string s"
| "dumps (JNum n) = show_int n"
| "dumps JTrue = ''true''"
| "dumps (JArr vs) = ''['' @ join_with '','' (map dumps vs) @ '']''"
| "dumps (JObj ms) = ''{'' @ join_with '','' (map (\<lambda>(k, v). json_string k @ '':'' @ dumps v) ms) @ ''}''"

text \<open>Loading a compact object, adding a member at its end and dumping it again.\<close>

definition add_member :: "string \<Rightarrow> json \<Rightarrow> string \<Rightarrow> string" where
  "add_member k v obj =
     (if obj = ''{}'' then ''{'' @ json_string k @ '':'' @ dumps v @ ''}''
      else butlast obj @ '','' @ json_string k @ '':'' @ dumps v @ ''}'')"

section \<open>Templates\<close>

definition subst_text :: "cfg \<Rightarrow> key \<Rightarrow> string option" where
  "subst_text c k = (case knob_by_key k of None \<Rightarrow> None
     | Some kb \<Rightarrow> (case c k of None \<Rightarrow> None | Some v \<Rightarrow> Some (to_text kb v)))"

fun render :: "cfg \<Rightarrow> piece list \<Rightarrow> string option" where
  "render c [] = Some []"
| "render c (Lit s # ps) = map_option (\<lambda>t. s @ t) (render c ps)"
| "render c (Sub k # ps) =
     (case subst_text c k of None \<Rightarrow> None | Some s \<Rightarrow> map_option (\<lambda>t. s @ t) (render c ps))"

fun render_all :: "cfg \<Rightarrow> piece list list \<Rightarrow> string list option" where
  "render_all c [] = Some []"
| "render_all c (p # ps) =
     (case render c p of None \<Rightarrow> None | Some s \<Rightarrow> map_option ((#) s) (render_all c ps))"

section \<open>The flags\<close>

definition fairness_args :: "cfg \<Rightarrow> string list option" where
  "fairness_args c =
     (if cfg_str c MODEL_FAMILY = ''glm52''
         \<and> py_str (cfg_get c PREFILL_FAIRNESS_ENGINE (VStr ''off'')) = ''compute_share''
      then map_option (\<lambda>s. [''--fairness-engine'', ''compute_share'', ''--prefill-compute-share'', s])
             (subst_text c PREFILL_COMPUTE_SHARE)
      else Some [])"

text \<open>The rope clamp edits the argument after \<^verbatim>\<open>--hf-overrides\<close>, if both exist.\<close>

fun edit_after :: "string \<Rightarrow> (string \<Rightarrow> string) \<Rightarrow> string list \<Rightarrow> string list" where
  "edit_after flag f (x # y # xs) = (if x = flag then x # f y # xs else x # edit_after flag f (y # xs))"
| "edit_after flag f xs = xs"

definition clamp_rope :: "cfg \<Rightarrow> string list \<Rightarrow> string list" where
  "clamp_rope c args =
     (if cfg_str c MODEL_FAMILY = ''glm52'' \<and> truthy (cfg_get c CLAMP_ROPE_TABLES (VBool True))
      then (case c MAX_MODEL_LEN of
              None \<Rightarrow> args
            | Some v \<Rightarrow> edit_after ''--hf-overrides''
                          (add_member ''max_position_embeddings'' (JNum (as_int (Some v)))) args)
      else args)"

definition mxfp8_overlay :: json where
  "mxfp8_overlay = JObj [
     (''linear'', JObj [(''weight'', JStr ''mxfp8'')]),
     (''ignore'', JArr [JStr (''re:.*'' @ [CHR 0x5C] @ ''.q_a_proj$''), JStr ''re:.*kv_a_proj_with_mqa'', JStr ''lm_head''])]"

definition exl3_b6_overlay :: json where
  "exl3_b6_overlay = JObj [
     (''linear'', JObj [(''weight'', JStr ''mxfp8'')]),
     (''shared_experts'', JObj [(''weight'', JStr ''mxfp8'')]),
     (''ignore'', JArr [JStr (''re:.*'' @ [CHR 0x5C] @ ''.fused_qkv_a_proj$''),
        JStr (''re:.*'' @ [CHR 0x5C] @ ''.q_a_proj$''), JStr ''re:.*kv_a_proj_with_mqa'',
        JStr (''re:.*'' @ [CHR 0x5C] @ ''.mlp'' @ [CHR 0x5C] @ ''.gate$''),
        JStr ''model.layers.78.eh_proj'', JStr ''lm_head''])]"

definition online_quant :: "cfg \<Rightarrow> string" where
  "online_quant c = py_str (cfg_get c ONLINE_QUANT (VStr ''none''))"

definition online_args :: "cfg \<Rightarrow> string list" where
  "online_args c =
     (if cfg_str c MODEL_FAMILY = ''glm52'' \<and> online_quant c \<noteq> ''none''
      then [''--quantization-config'',
            dumps (if online_quant c = ''mxfp8'' then mxfp8_overlay else exl3_b6_overlay)]
      else [])"

text \<open>The variant's own flags; a selector outside the registry has none.\<close>

definition serve_variant :: "cfg \<Rightarrow> variant option" where
  "serve_variant c = map_of VARIANTS (cfg_str c MODEL_VARIANT)"

definition variant_head :: "cfg \<Rightarrow> string list" where
  "variant_head c = (case serve_variant c of None \<Rightarrow> []
     | Some v \<Rightarrow> if v_quantization v = [] then [] else [''--quantization'', v_quantization v])"

definition variant_tail :: "cfg \<Rightarrow> string list" where
  "variant_tail c = (case serve_variant c of None \<Rightarrow> []
     | Some v \<Rightarrow> (case v_quant_config v of None \<Rightarrow> []
                  | Some q \<Rightarrow> if q = [] then [] else [''--quantization-config'', q]))"

definition custom_head :: "cfg \<Rightarrow> string list" where
  "custom_head c = (if cfg_str c MODEL_FAMILY = ''custom'' \<and> cfg_set c QUANTIZATION
     then [''--quantization'', cfg_str c QUANTIZATION] else [])"

definition custom_tail :: "cfg \<Rightarrow> string list" where
  "custom_tail c =
     (if cfg_str c MODEL_FAMILY = ''custom''
      then (if cfg_set c REASONING_PARSER then [''--reasoning-parser'', cfg_str c REASONING_PARSER] else [])
         @ (if cfg_set c TOOL_CALL_PARSER
            then [''--enable-auto-tool-choice'', ''--tool-call-parser'', cfg_str c TOOL_CALL_PARSER] else [])
      else [])"

definition mode_args :: "cfg \<Rightarrow> string list" where
  "mode_args c =
     (if 0 < cfg_int c KV_CACHE_MEMORY_BYTES
      then [''--kv-cache-memory-bytes'', py_str (cfg_get c KV_CACHE_MEMORY_BYTES (VInt 0))] else [])
   @ (if cfg_str c MODEL_FAMILY \<in> {''qwen36'', ''custom''} \<and> \<not> cfg_set c MULTIMODAL
      then [''--language-model-only''] else [])
   @ (if cfg_str c MODEL_FAMILY = ''qwen36'' \<and> 0 < cfg_int c MTP_TOKENS then [''--enforce-eager''] else [])"

definition compilation_args :: "cfg \<Rightarrow> string list option" where
  "compilation_args c = (case f_compilation (family_of (cfg_str c MODEL_FAMILY)) of
     None \<Rightarrow> Some []
   | Some p \<Rightarrow> map_option (\<lambda>s. [''--compilation-config'', s]) (render c p))"

definition family_serve_args :: "cfg \<Rightarrow> string list option" where
  "family_serve_args c =
     (case render_all c (f_serve_args (family_of (cfg_str c MODEL_FAMILY))) of
        None \<Rightarrow> None
      | Some base \<Rightarrow>
          (case fairness_args c of
             None \<Rightarrow> None
           | Some fair \<Rightarrow>
               map_option
                 (\<lambda>comp. custom_head c @ variant_head c
                    @ clamp_rope c
                        (base @ (if cfg_set c TRUST_REMOTE_CODE then [''--trust-remote-code''] else []) @ fair)
                    @ variant_tail c @ online_args c @ mode_args c @ custom_tail c @ comp)
                 (compilation_args c)))"

section \<open>The derived environment\<close>

text \<open>\<open>re.sub(r"[^A-Za-z0-9._-]", "-", model_id).strip("-")\<close>\<close>

definition dir_char :: "char \<Rightarrow> bool" where
  "dir_char c = (let n = (of_char c :: nat) in
     48 \<le> n \<and> n \<le> 57 \<or> 65 \<le> n \<and> n \<le> 90 \<or> 97 \<le> n \<and> n \<le> 122 \<or> c = CHR ''.'' \<or> c = CHR ''_'' \<or> c = CHR ''-'')"

definition strip_dashes :: "string \<Rightarrow> string" where
  "strip_dashes s = rev (dropWhile (\<lambda>c. c = CHR ''-'') (rev (dropWhile (\<lambda>c. c = CHR ''-'') s)))"

definition custom_dirname :: "string \<Rightarrow> string" where
  "custom_dirname model_id =
     (let d = strip_dashes (map (\<lambda>c. if dir_char c then c else CHR ''-'') model_id)
      in if d = [] then ''custom'' else d)"

record derived =
  o_model_repo :: string
  o_model_revision :: string
  o_model_dirname :: string
  o_quantization :: string
  o_native_mtp :: string
  o_graft_ok :: "bool option"
  o_env_block :: string
  o_spec_method :: string
  o_serve_args :: "string list"
  o_runtime_env :: "(string \<times> string) list"
  o_mtp78_mode :: string
  o_draft_model :: string
  o_draft_quantization :: string
  o_vision :: bool

definition derive_draft :: "cfg \<Rightarrow> draft" where
  "derive_draft c = (case map_of DRAFTS (cfg_str c MTP_DRAFT) of Some d \<Rightarrow> d
     | None \<Rightarrow> (case map_of DRAFTS ''tr3-graft'' of Some d \<Rightarrow> d | None \<Rightarrow> \<lparr>d_mtp78_mode = [], d_quantization = []\<rparr>))"

definition or_else :: "string \<Rightarrow> string \<Rightarrow> string" where
  "or_else s t = (if s = [] then t else s)"

definition EXL3_ENCODER_SOURCE :: string where
  "EXL3_ENCODER_SOURCE = ''/opt/exllamav3-python/exllamav3''"

definition profile_runtime_env :: "cfg \<Rightarrow> (string \<times> string) list" where
  "profile_runtime_env c =
     (let base = v_runtime_env (cfg_variant c) in
      if cfg_family c = ''glm52'' \<and> cfg_str c ONLINE_QUANT = ''exl3-b6''
      then dict_update base [
         (''VLLM_EXL3_ONLINE_TRELLIS_BITS'', ''6''),
         (''VLLM_EXL3_ENCODER_SOURCE'', EXL3_ENCODER_SOURCE),
         (''VLLM_EXL3_ONLINE_CACHE_DIR'', or_else (cfg_str c VLLM_EXL3_ONLINE_CACHE_DIR) ''/cache/exl3-online''),
         (''VLLM_EXL3_ONLINE_CACHE_MODE'', or_else (cfg_str c VLLM_EXL3_ONLINE_CACHE_MODE) ''readwrite''),
         (''VLLM_B12X_ABSORB_BMM'', ''0'')]
      else if cfg_family c = ''glm52'' \<and> cfg_str c ONLINE_QUANT = ''mxfp8''
      then dict_update base [(''VLLM_B12X_ABSORB_BMM'', ''1'')]
      else base)"

text \<open>
  The draft fields, in the order the code overwrites them; \<open>model_parent\<close> is the directory that holds
  the model directory of the process environment.
\<close>

definition derive_mtp78 :: "cfg \<Rightarrow> string" where
  "derive_mtp78 c = (if cfg_int c MTP_TOKENS = 0 \<or> cfg_set c DRAFT_MODEL then ''off'' else d_mtp78_mode (derive_draft c))"

definition derive_draft_model :: "string \<Rightarrow> cfg \<Rightarrow> string" where
  "derive_draft_model model_parent c =
     (if cfg_str c MTP_DRAFT = ''nvfp4'' \<and> \<not> cfg_set c DRAFT_MODEL
      then model_parent @ ''/GLM-5.2-NVFP4-mtp'' else cfg_str c DRAFT_MODEL)"

definition derive_draft_quant :: "cfg \<Rightarrow> string" where
  "derive_draft_quant c =
     (if \<not> cfg_set c DRAFT_QUANTIZATION \<and> d_quantization (derive_draft c) \<noteq> []
      then d_quantization (derive_draft c) else cfg_str c DRAFT_QUANTIZATION)"

definition derive :: "string \<Rightarrow> cfg \<Rightarrow> derived option" where
  "derive model_parent c =
     map_option (\<lambda>args.
       let fam_name = cfg_family c; v = cfg_variant c; custom = (fam_name = ''custom''); glm = (fam_name = ''glm52'') in
       \<lparr>o_model_repo = (if custom then py_str (cfg_get c MODEL_ID (VStr [])) else v_repo v),
        o_model_revision = (if custom then [] else v_revision v),
        o_model_dirname = (if custom then ''models/'' @ custom_dirname (py_str (cfg_get c MODEL_ID (VStr [])))
                           else v_dirname v),
        o_quantization = (if custom then cfg_str c QUANTIZATION else v_quantization v),
        o_native_mtp = (if custom then [] else v_native_mtp v),
        o_graft_ok = (if custom then None else Some (v_graft_ok v)),
        o_env_block = f_env_block (family_of fam_name), o_spec_method = f_spec_method (family_of fam_name),
        o_serve_args = args, o_runtime_env = profile_runtime_env c,
        o_mtp78_mode = (if glm then derive_mtp78 c else ''off''),
        o_draft_model = (if glm then derive_draft_model model_parent c else []),
        o_draft_quantization = (if glm then derive_draft_quant c else []),
        o_vision = (glm \<and> cfg_set c VISION)\<rparr>)
     (family_serve_args c)"

end
