(* ===== verification/ServeTheorems.thy ===== *)
theory ServeTheorems
  imports Serve Profiles ValidateTheorems
begin

text \<open>What reaches the engine's command line.\<close>

section \<open>Editing a JSON argument as text\<close>

lemma join_with_snoc: "xs \<noteq> [] \<Longrightarrow> join_with sep (xs @ [x]) = join_with sep xs @ sep @ x"
  by (induction sep xs rule: join_with.induct) auto

text \<open>Editing the override argument as text is loading the object, adding the member at its end and
  dumping it again.\<close>

lemma add_member_dumps:
  "add_member k v (dumps (JObj ms)) = dumps (JObj (ms @ [(k, v)]))"
proof (cases "ms = []")
  case False
  have "dumps (JObj ms) \<noteq> ''{}''"
    using False by (cases ms rule: list.exhaust; cases "tl ms") (auto simp: json_string_def)
  then show ?thesis using False by (simp add: add_member_def butlast_append join_with_snoc)
qed (simp add: add_member_def)

section \<open>Texts that cannot be a flag\<close>

text \<open>Neither numbers nor rendered objects can be mistaken for one of the quantization flags.\<close>

lemma ipow_nonneg: "0 \<le> b \<Longrightarrow> 0 \<le> ipow b n"
proof (induction b n rule: ipow.induct)
  case (1 b n)
  show ?case by (subst ipow.simps) (simp add: Let_def 1)
qed

lemma round_nonneg: "0 \<le> x \<Longrightarrow> 0 \<le> round_half_even x"
  by (auto simp: round_half_even_def Let_def)

lemma sig_digits_nonneg: "0 \<le> q \<Longrightarrow> 0 \<le> fst (sig_digits n q)"
  by (auto simp: sig_digits_def Let_def pow_int_def ipow_nonneg intro!: round_nonneg)

definition plain :: "string \<Rightarrow> bool" where
  "plain s = (CHR ''q'' \<notin> set s)"

lemma plain_simps [simp]:
  "plain []" "plain (c # s) \<longleftrightarrow> c \<noteq> CHR ''q'' \<and> plain s" "plain (s @ t) \<longleftrightarrow> plain s \<and> plain t"
  "plain (replicate n CHR ''0'')" "plain s \<Longrightarrow> plain (take k s)" "plain s \<Longrightarrow> plain (drop k s)"
  by (auto simp: plain_def dest: in_set_takeD in_set_dropD)

lemma plain_digits: "list_all is_digit s \<Longrightarrow> plain s"
  by (auto simp: plain_def list_all_iff is_digit_def)

lemma plain_show_pos [simp]: "0 \<le> n \<Longrightarrow> plain (show_pos n)"
  by (intro plain_digits show_pos_digits)

lemma plain_show_int: "plain (show_int i)"
  by (simp add: show_int_def)

lemma plain_strip_zeros [simp]: "plain s \<Longrightarrow> plain (strip_zeros s)"
  by (auto simp: plain_def strip_zeros_def dest: set_dropWhileD)

lemma plain_layout: "plain ds \<Longrightarrow> plain (positional ds e)" "plain ds \<Longrightarrow> plain (scientific ds e)"
  by (auto simp: positional_def scientific_def exponent_text_def Let_def split: list.splits)

lemma plain_float_g: "plain (float_g f)"
proof (cases f)
  case (Fin q)
  obtain m e where me: "sig_digits 6 \<bar>q\<bar> = (m, e)" by fastforce
  with sig_digits_nonneg [of "\<bar>q\<bar>" 6] have "0 \<le> m" by simp
  then show ?thesis by (simp add: float_g_def Fin me Let_def plain_layout)
qed (simp_all add: float_g_def)

definition quant_flags :: "string set" where
  "quant_flags = {''--quantization'', ''--quantization-config''}"

lemma not_flag:
  "plain s \<Longrightarrow> s \<notin> quant_flags" "s \<noteq> [] \<Longrightarrow> hd s \<noteq> CHR ''-'' \<Longrightarrow> s \<notin> quant_flags"
  "s \<noteq> [] \<Longrightarrow> last s = CHR ''}'' \<Longrightarrow> s \<notin> quant_flags"
  by (auto simp: quant_flags_def)

lemma add_member_last: "add_member k v s \<noteq> [] \<and> last (add_member k v s) = CHR ''}''"
  by (simp add: add_member_def)

section \<open>Counting the quantization flags\<close>

definition flag_count :: "string \<Rightarrow> string list \<Rightarrow> nat" where
  "flag_count w xs = length (filter (\<lambda>x. x = w) xs)"

lemma flag_count_simps [simp]:
  "flag_count w [] = 0" "flag_count w (x # xs) = (if x = w then Suc (flag_count w xs) else flag_count w xs)"
  "flag_count w (xs @ ys) = flag_count w xs + flag_count w ys"
  by (simp_all add: flag_count_def)

lemma flag_count_edit: "(\<And>y. f y \<noteq> w) \<Longrightarrow> flag_count w (edit_after flag f xs) \<le> flag_count w xs"
  by (induction flag f xs rule: edit_after.induct) auto

lemma flag_count_clamp: "w \<in> quant_flags \<Longrightarrow> flag_count w (clamp_rope c xs) \<le> flag_count w xs"
  using not_flag(3) add_member_last
  by (auto simp: clamp_rope_def split: option.splits intro!: flag_count_edit)

text \<open>Every placeholder of a template names a registered knob, so a resolved configuration renders.\<close>

definition piece_ok :: "piece \<Rightarrow> bool" where
  "piece_ok p = (case p of Lit _ \<Rightarrow> True | Sub k \<Rightarrow> ktype_of k \<noteq> None)"

lemma templates_ok: "list_all (\<lambda>(_, f). list_all (list_all piece_ok) (f_serve_args f) \<and>
    (case f_compilation f of None \<Rightarrow> True | Some p \<Rightarrow> list_all piece_ok p)) FAMILIES"
  by (simp add: FAMILIES_def family_glm52_def family_qwen36_def family_custom_def piece_ok_def registry_simps)

lemma resolved_text:
  assumes "resolve_with ns e sv d = Inr r" and "ktype_of k = Some t"
  obtains v kb where "knob_by_key k = Some kb" "ktyp kb = t" "eff r k = Some v"
    "subst_text (eff r) k = Some (to_text kb v)" "fits t v \<or> k = DCP \<and> src r DCP = Some SNA"
proof -
  obtain kb where kb: "kb \<in> set KNOBS" "kkey kb = k" "ktyp kb = t" using registered [OF assms(2)] by blast
  with resolve_value_fits [OF assms(1) kb(1)] knob_by_key_self [OF kb(1)] that show thesis
    by (auto simp: subst_text_def)
qed

lemma render_resolved:
  assumes "resolve_with ns e sv d = Inr r" and "list_all piece_ok ps"
  shows "\<exists>s. render (eff r) ps = Some s"
  using assms(2)
proof (induction ps)
  case (Cons p ps)
  then show ?case
    by (cases p) (auto simp: piece_ok_def elim: resolved_text [OF assms(1)])
qed simp

lemma render_all_resolved:
  assumes "resolve_with ns e sv d = Inr r" and "list_all (list_all piece_ok) pss"
  shows "\<exists>ss. render_all (eff r) pss = Some ss"
  using assms(2)
proof (induction pss)
  case (Cons ps pss)
  with render_resolved [OF assms(1), of ps] show ?case by auto
qed simp

text \<open>The texts of the placeholders of the GLM template.\<close>

lemma dcp_in_force:
  assumes res: "resolve_with ns e sv d = Inr r" and fam: "eff r MODEL_FAMILY = Some (VStr ''glm52'')"
  shows "src r DCP \<noteq> Some SNA"
proof -
  obtain f where f: "resolve_family sv (layer d) = Inr f"
    using res by (cases "resolve_family sv (layer d)") (auto simp: resolve_with_def)
  with resolve_reports_family [OF res f] fam have glm: "f = ''glm52''" by simp
  obtain kb where kb: "kb \<in> set KNOBS" "kkey kb = DCP" using registered [OF ktype_of_DCP] by blast
  have "list_all (\<lambda>kb. kkey kb = DCP \<longrightarrow> applies_to kb ''glm52'') KNOBS"
    by (simp add: knob_tables applies_to_def)
  with kb have app: "applies_to kb f" by (simp add: list_all_iff glm)
  obtain s v where p: "precedence f (detected_gpu_count e d) (layer d) sv (selected_variant (eff r)) kb = Some (s, v)"
    by (cases "precedence f (detected_gpu_count e d) (layer d) sv (selected_variant (eff r)) kb")
      (auto simp: precedence_def first_offer_override split: option.splits)
  then have "s \<noteq> SNA"
    by (auto simp: precedence_def first_offer_override override_def split: option.splits)
  with resolve_dcp_source [OF res f kb app p] show ?thesis by simp
qed

lemma typed_text:
  assumes "resolve_with ns e sv d = Inr r" and "eff r MODEL_FAMILY = Some (VStr ''glm52'')"
    and "ktype_of k = Some t" and "\<And>kb v. ktyp kb = t \<Longrightarrow> fits t v \<Longrightarrow> to_text kb v \<notin> quant_flags"
  obtains w where "subst_text (eff r) k = Some w" and "w \<notin> quant_flags"
  by (rule resolved_text [OF assms(1,3)]) (use dcp_in_force [OF assms(1,2)] assms(4) that in blast)

lemma glm_words:
  assumes res: "resolve_with ns e sv d = Inr r" and fam: "eff r MODEL_FAMILY = Some (VStr ''glm52'')"
    and "render_all (eff r) (f_serve_args family_glm52) = Some ws"
  shows "\<forall>w\<in>quant_flags. flag_count w ws = 0"
proof -
  obtain w1 where w1: "subst_text (eff r) DCP = Some w1" "w1 \<notin> quant_flags"
    by (rule typed_text [OF res fam ktype_of_DCP]) (auto simp: to_text_def fits_def py_str_def quant_flags_def)
  obtain w2 where w2: "subst_text (eff r) DCP_KV_CACHE_INTERLEAVE_SIZE = Some w2" "w2 \<notin> quant_flags"
    by (rule typed_text [OF res fam, of DCP_KV_CACHE_INTERLEAVE_SIZE])
      (auto simp: registry_simps to_text_def fits_def py_str_def quant_flags_def)
  obtain w3 where w3: "subst_text (eff r) LOAD_FORMAT = Some w3" "w3 \<notin> quant_flags"
    by (rule typed_text [OF res fam, of LOAD_FORMAT])
      (auto simp: registry_simps to_text_def fits_def py_str_def quant_flags_def)
  obtain w4 where w4: "subst_text (eff r) PREFILL_SCHEDULE_INTERVAL = Some w4" "w4 \<notin> quant_flags"
    by (rule typed_text [OF res fam, of PREFILL_SCHEDULE_INTERVAL])
      (auto simp: registry_simps to_text_def fits_def py_str_def intro!: not_flag(1) plain_show_int)
  show ?thesis
    using assms(3) w1 w2 w3 w4
    by (auto simp: family_glm52_def quant_flags_def split: option.splits)
qed

lemma variant_flags:
  "list_all (\<lambda>(_, v). v_quantization v \<notin> quant_flags \<and>
     (case v_quant_config v of None \<Rightarrow> True | Some q \<Rightarrow> v_quantization v \<noteq> ''exl3'' \<and> q \<notin> quant_flags)) VARIANTS"
  by (simp add: VARIANTS_def variant_defs quant_flags_def)

lemma mode_flags: "w \<in> quant_flags \<Longrightarrow> flag_count w (mode_args c) = 0"
proof -
  have other: "w \<in> quant_flags \<Longrightarrow> ''--kv-cache-memory-bytes'' \<noteq> w \<and> ''--language-model-only'' \<noteq> w \<and> ''--enforce-eager'' \<noteq> w"
    by (auto simp: quant_flags_def)
  have "py_str (cfg_get c KV_CACHE_MEMORY_BYTES (VInt 0)) \<notin> quant_flags" if "0 < cfg_int c KV_CACHE_MEMORY_BYTES"
    using that plain_show_int
    by (intro not_flag(1)) (auto simp: cfg_int_def cfg_get_def py_str_def split: option.splits pyval.splits if_splits)
  with other show "w \<in> quant_flags \<Longrightarrow> ?thesis"
    by (simp add: mode_args_def) metis
qed

lemma overlay_text: "dumps mxfp8_overlay \<notin> quant_flags" "dumps exl3_b6_overlay \<notin> quant_flags"
  by (rule not_flag(2); simp add: mxfp8_overlay_def exl3_b6_overlay_def)+

text \<open>A resolved configuration always renders.\<close>

lemma serve_args_parts:
  assumes "resolve_with ns e sv d = Inr r"
  obtains base fair comp where "render_all (eff r) (f_serve_args (family_of (cfg_str (eff r) MODEL_FAMILY))) = Some base"
    and "fairness_args (eff r) = Some fair" and "\<forall>w\<in>quant_flags. flag_count w fair = 0"
    and "compilation_args (eff r) = Some comp"
proof -
  let ?c = "eff r" and ?f = "family_of (cfg_str (eff r) MODEL_FAMILY)"
  obtain m where "(m, ?f) \<in> set FAMILIES" using family_of_in by blast
  with templates_ok have ok: "list_all (list_all piece_ok) (f_serve_args ?f)"
      "case f_compilation ?f of None \<Rightarrow> True | Some p \<Rightarrow> list_all piece_ok p"
    by (auto simp: list_all_iff)
  obtain base where base: "render_all ?c (f_serve_args ?f) = Some base"
    using render_all_resolved [OF assms ok(1)] by blast
  obtain share where share: "subst_text ?c PREFILL_COMPUTE_SHARE = Some share" "share \<notin> quant_flags"
    by (rule resolved_text [OF assms, of PREFILL_COMPUTE_SHARE])
      (use not_flag(1) [OF plain_float_g] in \<open>auto simp: registry_simps to_text_def fits_def\<close>)
  have "\<exists>fair. fairness_args ?c = Some fair \<and> (\<forall>w\<in>quant_flags. flag_count w fair = 0)"
    using share by (simp add: fairness_args_def quant_flags_def)
  moreover obtain comp where comp: "compilation_args ?c = Some comp"
    using ok(2) render_resolved [OF assms] by (fastforce simp: compilation_args_def split: option.splits)
  ultimately show thesis using base that by blast
qed

lemma serve_args_exist:
  assumes "resolve_with ns e sv d = Inr r"
  shows "\<exists>args. family_serve_args (eff r) = Some args"
proof -
  obtain base fair comp where "render_all (eff r) (f_serve_args (family_of (cfg_str (eff r) MODEL_FAMILY))) = Some base"
    "fairness_args (eff r) = Some fair" "compilation_args (eff r) = Some comp"
    by (rule serve_args_parts [OF assms])
  then show ?thesis by (simp add: family_serve_args_def)
qed

text \<open>C30: a resolved configuration always renders to serve flags, and a GLM configuration without
  errors passes the engine at most one \<^verbatim>\<open>--quantization\<close> and at most one \<^verbatim>\<open>--quantization-config\<close>:
  an online overlay never competes with a variant's own.\<close>

theorem serve_args_unambiguous:
  assumes "resolve_with ns e sv d = Inr r"
  shows "\<exists>args. family_serve_args (eff r) = Some args \<and>
    (is_glm (eff r) \<and> errors (validate (eff r) ctx) = [] \<longrightarrow>
       flag_count ''--quantization'' args \<le> 1 \<and> flag_count ''--quantization-config'' args \<le> 1)"
proof -
  let ?c = "eff r" and ?f = "family_of (cfg_str (eff r) MODEL_FAMILY)"
  obtain base fair comp where base: "render_all ?c (f_serve_args ?f) = Some base"
    and fair: "fairness_args ?c = Some fair" "\<forall>w\<in>quant_flags. flag_count w fair = 0"
    and comp: "compilation_args ?c = Some comp"
    by (rule serve_args_parts [OF assms])
  let ?args = "custom_head ?c @ variant_head ?c
      @ clamp_rope ?c (base @ (if cfg_set ?c TRUST_REMOTE_CODE then [''--trust-remote-code''] else []) @ fair)
      @ variant_tail ?c @ online_args ?c @ mode_args ?c @ custom_tail ?c @ comp"
  have args: "family_serve_args ?c = Some ?args"
    by (simp add: family_serve_args_def base fair(1) comp)
  have "flag_count ''--quantization'' ?args \<le> 1 \<and> flag_count ''--quantization-config'' ?args \<le> 1"
    if glm: "is_glm ?c" and clean: "errors (validate ?c ctx) = []"
  proof -
    have fam: "?c MODEL_FAMILY = Some (VStr ''glm52'')"
    proof -
      obtain kf where "kf \<in> set KNOBS" "kkey kf = MODEL_FAMILY" "ktyp kf = TChoice (map fst FAMILIES)"
        using registered [of MODEL_FAMILY] by (auto simp: registry_simps)
      with resolve_value_fits [OF assms, of kf] glm show ?thesis
        by (auto simp: is_glm_def cfg_family_def cfg_get_def fits_def py_str_def)
    qed
    then have f: "cfg_str ?c MODEL_FAMILY = ''glm52''" "?f = family_glm52"
      by (simp_all add: cfg_str_def family_of_def FAMILIES_def)
    have zero: "w \<in> quant_flags \<Longrightarrow> flag_count w (clamp_rope ?c
        (base @ (if cfg_set ?c TRUST_REMOTE_CODE then [''--trust-remote-code''] else []) @ fair)) = 0" for w
      using glm_words [OF assms fam, of base] base f(2) fair(2)
        flag_count_clamp [of w ?c "base @ (if cfg_set ?c TRUST_REMOTE_CODE then [''--trust-remote-code''] else []) @ fair"]
      by (auto simp: quant_flags_def split: if_splits)
    have "w \<in> quant_flags \<Longrightarrow> flag_count w comp = 0" for w
      using comp f by (auto simp: compilation_args_def family_glm52_def quant_flags_def split: option.splits)
    moreover have none: "custom_head ?c = []" "custom_tail ?c = []"
      using f(1) by (simp_all add: custom_head_def custom_tail_def)
    moreover have "flag_count ''--quantization-config'' (variant_head ?c) = 0 \<and>
        flag_count ''--quantization'' (variant_head ?c) \<le> 1 \<and> flag_count ''--quantization'' (variant_tail ?c) = 0 \<and>
        flag_count ''--quantization-config'' (variant_tail ?c) \<le> 1 \<and> (variant_tail ?c \<noteq> [] \<longrightarrow> \<not> is_exl3 ?c)"
    proof (cases "serve_variant ?c")
      case (Some v)
      then have "(cfg_str ?c MODEL_VARIANT, v) \<in> set VARIANTS" "cfg_variant ?c = v"
        by (auto simp: serve_variant_def cfg_variant_def dest: map_of_SomeD)
      with variant_flags Some show ?thesis
        by (fastforce simp: list_all_iff variant_head_def variant_tail_def is_exl3_def quant_flags_def split: option.splits)
    qed (simp add: variant_head_def variant_tail_def)
    moreover have "online_args ?c \<noteq> [] \<Longrightarrow> is_exl3 ?c"
      using no_errors_groups(2) [OF clean] glm
      by (auto simp: online_args_def online_quant_def rules_family_def errors_def err_if_def warn_if_def Let_def
          py_str_def split: if_splits)
    moreover have "flag_count ''--quantization'' (online_args ?c) = 0 \<and>
        flag_count ''--quantization-config'' (online_args ?c) \<le> 1"
      using overlay_text by (auto simp: online_args_def quant_flags_def)
    ultimately show ?thesis
      using zero mode_flags by (cases "online_args ?c = []"; cases "variant_tail ?c = []") (auto simp: quant_flags_def)
  qed
  with args show ?thesis by blast
qed

theorem serve_args_unambiguous_witness:
  "\<exists>r args. resolve_with [] (\<lambda>_. None) (profile_state ''exl3-tr3-3.25bpw'') bare_env = Inr r \<and>
     family_serve_args (eff r) = Some args \<and>
     flag_count ''--quantization'' args \<le> 1 \<and> flag_count ''--quantization-config'' args \<le> 1"
proof -
  obtain r where r: "resolve_with [] (\<lambda>_. None) (profile_state ''exl3-tr3-3.25bpw'') bare_env = Inr r"
    and "errors (validate (eff r) (rule_context 4)) = []" "is_glm (eff r)"
    by (rule profile_3_25bpw_in_force)
  with serve_args_unambiguous [OF r, of "rule_context 4"] show ?thesis by auto
qed

section \<open>Capture sizes that are not JSON\<close>

text \<open>An integer literal of JSON has no leading zero.\<close>

definition json_int :: "string \<Rightarrow> bool" where
  "json_int s = (s = ''0'' \<or> s \<noteq> [] \<and> hd s \<noteq> CHR ''0'' \<and> list_all is_digit s)"

text \<open>A capture list with a leading zero is accepted and read as numbers by the validation, but the
  compilation flag embeds its text verbatim, where it is not a list of JSON numbers.\<close>

lemma capture_text_not_json:
  "\<exists>kb\<in>set KNOBS. kkey kb = CUDAGRAPH_CAPTURE_SIZES \<and> coerce kb (VStr ''04,8'') = Inr (VStr ''04,8'') \<and>
     size_list ''04,8'' = [4, 8] \<and>
     render [CUDAGRAPH_CAPTURE_SIZES \<mapsto> VStr ''04,8''] [Lit ''['', Sub CUDAGRAPH_CAPTURE_SIZES, Lit '']''] = Some ''[04,8]'' \<and>
     \<not> list_all json_int (split_on CHR '','' ''04,8'')"
proof -
  obtain kb where kb: "kb \<in> set KNOBS" "kkey kb = CUDAGRAPH_CAPTURE_SIZES" "ktyp kb = TCsv"
    using registered [of CUDAGRAPH_CAPTURE_SIZES] by (auto simp: registry_simps)
  have "coerce kb (VStr ''04,8'') = Inr (VStr ''04,8'')"
    by (rule coerce_fixes) (simp add: kb(3) coerce_simps value_eval)
  moreover have "size_list ''04,8'' = [4, 8]" by code_simp
  moreover have "render [CUDAGRAPH_CAPTURE_SIZES \<mapsto> VStr ''04,8''] [Lit ''['', Sub CUDAGRAPH_CAPTURE_SIZES, Lit '']''] = Some ''[04,8]''"
    using knob_by_key_self [OF kb(1)] kb(2,3) by (simp add: subst_text_def to_text_def py_str_def)
  moreover have "\<not> list_all json_int (split_on CHR '','' ''04,8'')" by code_simp
  ultimately show ?thesis using kb by blast
qed

end
