(* ===== verification/GpuDetect.thy ===== *)
theory GpuDetect
  imports Layers "HOL-Library.List_Lexorder" "HOL-Library.Char_ord"
begin

text \<open>
  \<^verbatim>\<open>scripts/gpu_detect.py\<close>: which GPUs the container can use, as pure functions over the text that
  \<^verbatim>\<open>nvidia-smi\<close> prints and the two visibility variables, and the version checks of the driver.
  Running \<^verbatim>\<open>nvidia-smi\<close> is I/O: its output is an argument. Text is ASCII, where \<open>str.isdigit\<close> holds of
  the ten digits.
\<close>

section \<open>Versions\<close>

lemma dropWhile_less: "takeWhile P s \<noteq> [] \<Longrightarrow> length (dropWhile P s) - Suc 0 < length s"
  using length_dropWhile_le [of P s] by (cases s) auto

text \<open>The longest prefix of the form \<^verbatim>\<open>[0-9]+(\.[0-9]+)*\<close>; empty if there is none.\<close>

function dotted :: "string \<Rightarrow> string" where
  "dotted s = (let d = takeWhile is_digit s; r = dropWhile is_digit s in
     if d = [] then []
     else if r \<noteq> [] \<and> hd r = CHR ''.'' \<and> dotted (tl r) \<noteq> [] then d @ CHR ''.'' # dotted (tl r) else d)"
  by pat_completeness auto
termination
  by (relation "measure length") (auto simp: dropWhile_less simp del: takeWhile_eq_Nil_iff)

declare dotted.simps [simp del]

definition word_char :: "char \<Rightarrow> bool" where
  "word_char c = (let n = (of_char c :: nat) in
     48 \<le> n \<and> n \<le> 57 \<or> 65 \<le> n \<and> n \<le> 90 \<or> 97 \<le> n \<and> n \<le> 122 \<or> c = CHR ''_'')"

text \<open>What follows a literal, and what follows at least one white space.\<close>

definition after :: "string \<Rightarrow> string \<Rightarrow> string option" where
  "after lit s = (if starts_with lit s then Some (drop (length lit) s) else None)"

definition after_space :: "string \<Rightarrow> string option" where
  "after_space s = (if s \<noteq> [] \<and> is_space (hd s) then Some (py_lstrip s) else None)"

text \<open>The pattern at one position; no part of it can match in two ways that differ in the end.\<close>

definition cuda_header :: "string \<Rightarrow> string" where
  "cuda_header s =
     (case after ''CUDA'' s of None \<Rightarrow> [] | Some a \<Rightarrow>
       (case after_space a of None \<Rightarrow> [] | Some b \<Rightarrow>
         (case (case after ''UMD'' b of None \<Rightarrow> Some b | Some u \<Rightarrow> after_space u) of None \<Rightarrow> [] | Some c \<Rightarrow>
           (case after ''Version:'' c of None \<Rightarrow> [] | Some d \<Rightarrow> dotted (py_lstrip d)))))"

fun cuda_search :: "bool \<Rightarrow> string \<Rightarrow> string" where
  "cuda_search w [] = []"
| "cuda_search w (c # s) =
     (if \<not> w \<and> cuda_header (c # s) \<noteq> [] then cuda_header (c # s) else cuda_search (word_char c) s)"

definition parse_cuda_version :: "string \<Rightarrow> string" where
  "parse_cuda_version output = cuda_search False output"

fun ints_prefix :: "string list \<Rightarrow> int list" where
  "ints_prefix [] = []"
| "ints_prefix (p # ps) = (case py_int p of None \<Rightarrow> [] | Some i \<Rightarrow> i # ints_prefix ps)"

definition version_tuple :: "string \<Rightarrow> int list" where
  "version_tuple v = ints_prefix (split_on (CHR ''.'') (py_strip v))"

text \<open>Python's order of tuples, and the padding to a common width.\<close>

fun tuple_ge :: "int list \<Rightarrow> int list \<Rightarrow> bool" where
  "tuple_ge xs [] = True"
| "tuple_ge [] (y # ys) = False"
| "tuple_ge (x # xs) (y # ys) = (y < x \<or> x = y \<and> tuple_ge xs ys)"

definition padded :: "nat \<Rightarrow> int list \<Rightarrow> int list" where
  "padded n t = t @ replicate (n - length t) 0"

definition version_meets_minimum :: "string \<Rightarrow> string \<Rightarrow> bool" where
  "version_meets_minimum actual minimum =
     (let got = version_tuple actual; want = version_tuple minimum;
          width = max (length got) (length want)
      in got \<noteq> [] \<and> want \<noteq> [] \<and> tuple_ge (padded width got) (padded width want))"

definition driver_meets_minimum :: "string \<Rightarrow> string \<Rightarrow> bool" where
  "driver_meets_minimum actual minimum = version_meets_minimum actual minimum"

section \<open>The devices\<close>

record gpu =
  gpu_index :: int
  gpu_uuid :: string
  gpu_name :: string

text \<open>The text after the last occurrence of a literal and the text before it (\<open>rsplit\<close> once).\<close>

fun rsplit_once :: "string \<Rightarrow> string \<Rightarrow> (string \<times> string) option" where
  "rsplit_once lit [] = None"
| "rsplit_once lit (c # s) =
     (case rsplit_once lit s of
        Some (h, t) \<Rightarrow> Some (c # h, t)
      | None \<Rightarrow> map_option (Pair []) (after lit (c # s)))"

definition rstrip_char :: "char \<Rightarrow> string \<Rightarrow> string" where
  "rstrip_char c s = rev (dropWhile (\<lambda>x. x = c) (rev s))"

text \<open>
  One line of output: a device, a line to skip (\<open>Inr None\<close>), or the \<open>IndexError\<close> of a \<^verbatim>\<open>GPU\<close> line
  without a colon.
\<close>

definition list_line :: "string \<Rightarrow> unit + gpu option" where
  "list_line line =
     (let parts = split_on (CHR '':'') line; words = py_words (hd parts) in
      if length words < 2 then Inr None
      else (case py_int (words ! 1) of
              None \<Rightarrow> Inr None
            | Some idx \<Rightarrow>
                (if tl parts = [] then Inl ()
                 else let rest = join_with '':'' (tl parts);
                          (head, uuid) = (case rsplit_once ''UUID:'' rest of
                             None \<Rightarrow> (rest, [])
                           | Some (h, u) \<Rightarrow> (h, rstrip_char (CHR '')'') (py_strip u)))
                      in Inr (Some \<lparr>gpu_index = idx, gpu_uuid = uuid,
                                gpu_name = py_strip (rstrip_char (CHR ''('') (py_strip head))\<rparr>))))"

definition smi_line :: "string \<Rightarrow> unit + gpu option" where
  "smi_line raw =
     (let line = py_strip raw; parts = map py_strip (split_on (CHR '','') line) in
      if line = [] then Inr None
      else if 2 \<le> length parts \<and> parts ! 0 \<noteq> [] \<and> list_all is_digit (parts ! 0)
      then Inr (Some \<lparr>gpu_index = digits_val (parts ! 0), gpu_uuid = parts ! 1,
                  gpu_name = (if 2 < length parts then parts ! 2 else [])\<rparr>)
      else if starts_with ''GPU '' line then list_line line
      else Inr None)"

fun parse_lines :: "string list \<Rightarrow> unit + gpu list" where
  "parse_lines [] = Inr []"
| "parse_lines (l # ls) =
     result_bind (smi_line l) (\<lambda>d. result_bind (parse_lines ls) (\<lambda>ds.
       Inr (case d of None \<Rightarrow> ds | Some g \<Rightarrow> g # ds)))"

definition parse_smi :: "string \<Rightarrow> unit + gpu list" where
  "parse_smi output = parse_lines (split_lines output)"

section \<open>Visibility lists\<close>

definition by_index :: "gpu list \<Rightarrow> (string \<times> gpu) list" where
  "by_index ds = dict_update [] (map (\<lambda>d. (show_int (gpu_index d), d)) ds)"

definition by_uuid :: "gpu list \<Rightarrow> (string \<times> gpu) list" where
  "by_uuid ds = dict_update [] (map (\<lambda>d. (gpu_uuid d, d)) (filter (\<lambda>d. gpu_uuid d \<noteq> []) ds))"

text \<open>An entry: an index, a whole UUID, or a UUID prefix of more than eight characters.\<close>

definition lookup_gpu :: "gpu list \<Rightarrow> string \<Rightarrow> gpu option" where
  "lookup_gpu ds item =
     (case map_of (by_index ds) item of
        Some d \<Rightarrow> Some d
      | None \<Rightarrow> (case map_of (by_uuid ds) item of
           Some d \<Rightarrow> Some d
         | None \<Rightarrow> map_option snd
             (find (\<lambda>(u, d). starts_with item u \<and> 8 < length item) (by_uuid ds))))"

fun select_entries :: "gpu list \<Rightarrow> gpu list \<Rightarrow> string list \<Rightarrow> gpu list" where
  "select_entries ds out [] = out"
| "select_entries ds out (item # items) =
     (if item = [] then out
      else (case lookup_gpu ds item of
              None \<Rightarrow> out
            | Some d \<Rightarrow> if d \<in> set out then out else select_entries ds (out @ [d]) items))"

definition select_visible :: "gpu list \<Rightarrow> string \<Rightarrow> gpu list" where
  "select_visible ds spec = select_entries ds [] (map py_strip (split_on (CHR '','') spec))"

datatype gpu_note =
    VoidSentinel nat | RuntimeNone | AlreadyApplied nat | Narrowed nat
  | CudaNarrowed nat nat | CudaStops | CudaEmpty | NoDevices | ClaimMismatch int nat

definition requested :: "string \<Rightarrow> string list" where
  "requested spec = filter (\<lambda>x. x \<noteq> []) (map py_strip (split_on (CHR '','') spec))"

definition index_spec :: "string list \<Rightarrow> bool" where
  "index_spec req = list_all (\<lambda>x. x \<noteq> [] \<and> list_all is_digit x) req"

text \<open>The runtime's variable; \<open>None\<close> is the early return without devices.\<close>

definition runtime_visible :: "gpu list \<Rightarrow> string option \<Rightarrow> gpu list option \<times> gpu_note list" where
  "runtime_visible ds nvd =
     (case nvd of
        None \<Rightarrow> (Some ds, [])
      | Some v \<Rightarrow>
          (if py_strip v = ''void'' then (Some ds, [VoidSentinel (length ds)])
           else if py_strip v = [] \<or> py_strip v = ''all'' then (Some ds, [])
           else if py_strip v = ''none'' then (None, [RuntimeNone])
           else let req = requested v; narrowed = select_visible ds v in
             if index_spec req \<and> length narrowed < length req \<and> 0 < length ds \<and> length ds \<le> length req
             then (Some ds, [AlreadyApplied (length ds)])
             else (Some narrowed, [Narrowed (length narrowed)])))"

definition cuda_visible :: "gpu list \<Rightarrow> string option \<Rightarrow> gpu list \<times> gpu_note list" where
  "cuda_visible sel cvd =
     (case cvd of
        None \<Rightarrow> (sel, [])
      | Some v \<Rightarrow>
          (if py_strip v \<noteq> []
           then let out = select_visible sel v in
             (out, CudaNarrowed (length sel) (length out)
                   # (if length out < length (requested v) then [CudaStops] else []))
           else ([], [CudaEmpty])))"

definition visible :: "gpu list \<Rightarrow> env \<Rightarrow> gpu list \<times> gpu_note list" where
  "visible ds e =
     (case runtime_visible ds (e ''NVIDIA_VISIBLE_DEVICES'') of
        (None, notes) \<Rightarrow> ([], notes)
      | (Some sel, notes) \<Rightarrow>
          (let (out, more) = cuda_visible sel (e ''CUDA_VISIBLE_DEVICES'') in (out, notes @ more)))"

section \<open>Detection\<close>

record detection =
  d_count :: nat
  d_total_present :: nat
  d_devices :: "gpu list"
  d_name :: string
  d_notes :: "gpu_note list"
  d_provider_claims :: "int option"

definition claimed_gpus :: "env \<Rightarrow> int option" where
  "claimed_gpus e =
     (let claimed = (if env_get e ''RUNPOD_GPU_COUNT'' \<noteq> [] then env_get e ''RUNPOD_GPU_COUNT''
                     else env_get e ''GPU_COUNT'')
      in if claimed = [] then None else py_int claimed)"

definition gpu_names :: "gpu list \<Rightarrow> string list" where
  "gpu_names sel = sort (remdups (filter (\<lambda>n. n \<noteq> []) (map gpu_name sel)))"

definition detect :: "env \<Rightarrow> string \<Rightarrow> unit + detection" where
  "detect e raw =
     result_bind (parse_smi raw) (\<lambda>ds.
       let (sel, notes) = visible ds e in
       Inr \<lparr>d_count = length sel, d_total_present = length ds, d_devices = sel,
         d_name = join_with '', '' (gpu_names sel),
         d_notes = notes @ (if ds = [] then [NoDevices] else [])
           @ (case claimed_gpus e of None \<Rightarrow> []
              | Some n \<Rightarrow> if n \<noteq> int (length sel) then [ClaimMismatch n (length sel)] else []),
         d_provider_claims = claimed_gpus e\<rparr>)"

end
