(* ===== verification/GpuTheorems.thy ===== *)
theory GpuTheorems
  imports GpuDetect
begin

text \<open>
  What \<open>GpuDetect\<close> promises: the version check is the order of zero-extended sequences, a visibility list
  is enumerated the way CUDA does it, and both formats of \<^verbatim>\<open>nvidia-smi\<close> read back as the devices.
\<close>

section \<open>The order of versions\<close>

text \<open>A version is the sequence of its components, continued by zeros.\<close>

definition zero_ext :: "int list \<Rightarrow> nat \<Rightarrow> int" where
  "zero_ext t i = (if i < length t then t ! i else 0)"

definition seq_ge :: "(nat \<Rightarrow> int) \<Rightarrow> (nat \<Rightarrow> int) \<Rightarrow> bool" where
  "seq_ge f g \<longleftrightarrow> f = g \<or> (\<exists>i. (\<forall>j<i. f j = g j) \<and> g i < f i)"

lemma zero_ext_simps [simp]:
  "zero_ext [] = (\<lambda>_. 0)" "zero_ext (x # xs) 0 = x" "zero_ext (x # xs) (Suc i) = zero_ext xs i"
  by (auto simp: zero_ext_def)

lemma zero_ext_padded [simp]: "zero_ext (padded n t) = zero_ext t"
  by (auto simp: zero_ext_def padded_def nth_append fun_eq_iff)

lemma seq_split: "f = g \<longleftrightarrow> f 0 = g 0 \<and> (\<lambda>i. f (Suc i)) = (\<lambda>i. g (Suc i))"
  for f g :: "nat \<Rightarrow> int"
  by (auto simp: fun_eq_iff) (metis not0_implies_Suc)

lemma ex_nat_cases: "(\<exists>i. P i) \<longleftrightarrow> P 0 \<or> (\<exists>i. P (Suc i))"
  by (metis not0_implies_Suc)

lemma seq_ge_Suc:
  "seq_ge f g \<longleftrightarrow> g 0 < f 0 \<or> f 0 = g 0 \<and> seq_ge (\<lambda>i. f (Suc i)) (\<lambda>i. g (Suc i))"
proof -
  have "(\<exists>i. (\<forall>j<i. f j = g j) \<and> g i < f i) \<longleftrightarrow>
      g 0 < f 0 \<or> (\<exists>i. f 0 = g 0 \<and> (\<forall>j<i. f (Suc j) = g (Suc j)) \<and> g (Suc i) < f (Suc i))"
    by (subst ex_nat_cases) (auto simp: All_less_Suc2)
  then show ?thesis unfolding seq_ge_def by (subst seq_split) auto
qed

lemma tuple_ge_seq: "length xs = length ys \<Longrightarrow> tuple_ge xs ys \<longleftrightarrow> seq_ge (zero_ext xs) (zero_ext ys)"
proof (induction xs ys rule: list_induct2)
  case Nil
  then show ?case by (simp add: seq_ge_def)
next
  case (Cons x xs y ys)
  then show ?case by (subst seq_ge_Suc) simp
qed

text \<open>The admission check of driver and CUDA versions is the lexicographic order of the dotted versions
  continued by zeros, so 13.2 and 13.2.0 are the same version, and it fails closed when either side
  does not start with a number.\<close>

lemma version_order:
  "version_meets_minimum actual minimum \<longleftrightarrow>
     version_tuple actual \<noteq> [] \<and> version_tuple minimum \<noteq> [] \<and>
     seq_ge (zero_ext (version_tuple actual)) (zero_ext (version_tuple minimum))"
proof -
  let ?g = "version_tuple actual" and ?w = "version_tuple minimum"
  let ?n = "max (length ?g) (length ?w)"
  have "length (padded ?n ?g) = length (padded ?n ?w)" by (simp add: padded_def)
  then show ?thesis
    by (simp add: version_meets_minimum_def Let_def tuple_ge_seq)
qed

section \<open>The enumeration of a visibility list\<close>

definition entries :: "string \<Rightarrow> string list" where
  "entries spec = map py_strip (split_on (CHR '','') spec)"

text \<open>The entry at which the enumeration stops: empty, unknown or a repetition.\<close>

definition stops :: "gpu list \<Rightarrow> gpu list \<Rightarrow> string \<Rightarrow> bool" where
  "stops ds seen item \<longleftrightarrow>
     item = [] \<or> (case lookup_gpu ds item of None \<Rightarrow> True | Some d \<Rightarrow> d \<in> set seen)"

lemma dict_values: "snd ` set (dict_update d ps) \<subseteq> snd ` set d \<union> snd ` set ps"
proof (induction ps arbitrary: d)
  case (Cons p ps)
  obtain k v where p: "p = (k, v)" by (cases p)
  have "dict_update d (p # ps) = dict_update (AList.update k v d) ps"
    by (simp add: dict_update_def p)
  moreover have "snd ` set (AList.update k v d) \<subseteq> insert v (snd ` set d)"
    by (induction d) auto
  ultimately show ?case using Cons.IH [of "AList.update k v d"] p by simp blast
qed (simp add: dict_update_def)

lemma lookup_gpu_in:
  assumes "lookup_gpu ds item = Some d"
  shows "d \<in> set ds"
proof -
  have i: "snd ` set (by_index ds) \<subseteq> set ds"
    using dict_values [of "[]" "map (\<lambda>d. (show_int (gpu_index d), d)) ds"]
    by (auto simp: by_index_def image_image)
  have u: "snd ` set (by_uuid ds) \<subseteq> set ds"
    using dict_values [of "[]" "map (\<lambda>d. (gpu_uuid d, d)) (filter (\<lambda>d. gpu_uuid d \<noteq> []) ds)"]
    by (auto simp: by_uuid_def image_image)
  show ?thesis
    using assms i u
    by (auto simp: lookup_gpu_def split: option.splits dest!: map_of_SomeD find_Some_in_set)
qed

lemma select_entries_prefix:
  assumes "distinct out" and "set out \<subseteq> set ds"
  shows "\<exists>n\<le>length items. \<exists>more. select_entries ds out items = out @ more
    \<and> map Some more = map (lookup_gpu ds) (take n items) \<and> distinct (out @ more) \<and> set more \<subseteq> set ds
    \<and> (n < length items \<longrightarrow> stops ds (out @ more) (items ! n))"
  using assms
proof (induction items arbitrary: out)
  case (Cons item items)
  show ?case
  proof (cases "stops ds out item")
    case True
    then have "select_entries ds out (item # items) = out"
      by (auto simp: stops_def split: option.splits)
    with True Cons.prems show ?thesis by (intro exI [of _ 0]) (simp add: exI [of _ "[]"])
  next
    case False
    then obtain d where d: "item \<noteq> []" "lookup_gpu ds item = Some d" "d \<notin> set out"
      by (auto simp: stops_def split: option.splits)
    have "distinct (out @ [d])" "set (out @ [d]) \<subseteq> set ds"
      using Cons.prems d lookup_gpu_in by auto
    from Cons.IH [OF this] obtain n more where m: "n \<le> length items"
      "select_entries ds (out @ [d]) items = out @ d # more"
      "map Some more = map (lookup_gpu ds) (take n items)" "distinct (out @ d # more)" "set more \<subseteq> set ds"
      "n < length items \<longrightarrow> stops ds (out @ d # more) (items ! n)"
      by auto
    show ?thesis
      using m d lookup_gpu_in [OF d(2)]
      by (intro exI [of _ "Suc n"] conjI exI [of _ "d # more"]) auto
  qed
qed simp

lemma runtime_visible_subset:
  assumes "runtime_visible ds v = (Some sel, notes)"
  shows "set sel \<subseteq> set ds"
  using assms select_entries_prefix [of "[]" ds]
  by (auto simp: runtime_visible_def select_visible_def Let_def split: option.splits if_splits)

text \<open>With \<^verbatim>\<open>CUDA_VISIBLE_DEVICES\<close> set, the visible devices are the entries of the list up to, and
  without, the first that is empty, unknown among the devices the runtime left, or a repetition: each
  listed device once, in the order of the list, and all of them present.\<close>

lemma cuda_enumeration:
  assumes "e ''CUDA_VISIBLE_DEVICES'' = Some v" and "py_strip v \<noteq> []"
    and "runtime_visible ds (e ''NVIDIA_VISIBLE_DEVICES'') = (Some sel, notes)"
  shows "\<exists>n\<le>length (entries v).
    map Some (fst (visible ds e)) = map (lookup_gpu sel) (take n (entries v))
    \<and> (n < length (entries v) \<longrightarrow> stops sel (fst (visible ds e)) (entries v ! n))
    \<and> distinct (fst (visible ds e)) \<and> set (fst (visible ds e)) \<subseteq> set ds"
proof -
  have "fst (visible ds e) = select_entries sel [] (entries v)"
    using assms by (simp add: visible_def cuda_visible_def select_visible_def entries_def Let_def)
  with select_entries_prefix [of "[]" sel "entries v"] runtime_visible_subset [OF assms(3)]
  show ?thesis by fastforce
qed

definition four_gpus :: "gpu list" where
  "four_gpus = map (\<lambda>i. \<lparr>gpu_index = i, gpu_uuid = ''GPU-'' @ show_int i, gpu_name = ''RTX''\<rparr>) [0, 1, 2, 3]"

lemma cuda_enumeration_instance:
  "\<exists>n. map Some (fst (visible four_gpus [''CUDA_VISIBLE_DEVICES'' \<mapsto> ''0,5,1''])) =
     map (lookup_gpu four_gpus) (take n (entries ''0,5,1''))"
proof -
  have "py_strip ''0,5,1'' \<noteq> []" by code_simp
  then show ?thesis
    using cuda_enumeration [of "[''CUDA_VISIBLE_DEVICES'' \<mapsto> ''0,5,1'']" "''0,5,1''" four_gpus four_gpus "[]"]
    by (auto simp: runtime_visible_def)
qed

section \<open>Reading the device list\<close>

definition csv_line :: "gpu \<Rightarrow> string" where
  "csv_line g = show_int (gpu_index g) @ '', '' @ gpu_uuid g @ '', '' @ gpu_name g"

definition list_text :: "gpu \<Rightarrow> string" where
  "list_text g = ''GPU '' @ show_int (gpu_index g) @ '': '' @ gpu_name g @ '' (UUID: '' @ gpu_uuid g @ '')''"

definition unlines :: "string list \<Rightarrow> string" where
  "unlines ls = concat (map (\<lambda>l. l @ [CHR 0x0A]) ls)"

text \<open>A device as the driver reports it.\<close>

definition field_ok :: "string \<Rightarrow> bool" where
  "field_ok s \<longleftrightarrow> s \<noteq> [] \<and> stripped s \<and> CHR '','' \<notin> set s \<and> CHR 0x0A \<notin> set s \<and> CHR '':'' \<notin> set s"

definition reported :: "gpu \<Rightarrow> bool" where
  "reported g \<longleftrightarrow> 0 \<le> gpu_index g \<and> field_ok (gpu_uuid g) \<and> field_ok (gpu_name g)
     \<and> last (gpu_uuid g) \<noteq> CHR '')'' \<and> last (gpu_name g) \<noteq> CHR ''(''"

lemma split_on_none: "d \<notin> set s \<Longrightarrow> split_on d s = [s]"
  by (induction s) auto

lemma split_on_append: "d \<notin> set s \<Longrightarrow> split_on d (s @ d # t) = s # split_on d t"
  by (induction s) auto

lemma split_lines_unlines: "list_all (\<lambda>l. CHR 0x0A \<notin> set l) ls \<Longrightarrow> split_lines (unlines ls) = ls"
proof -
  assume "list_all (\<lambda>l. CHR 0x0A \<notin> set l) ls"
  then have "split_on (CHR 0x0A) (unlines ls) = ls @ [[]]"
    by (induction ls) (simp_all add: unlines_def split_on_append)
  then show ?thesis by (simp add: split_lines_def)
qed

lemma parse_lines_map:
  "list_all (\<lambda>d. smi_line (f d) = Inr (Some d)) ds \<Longrightarrow> parse_lines (map f ds) = Inr ds"
  by (induction ds) simp_all

lemma digits_clean:
  assumes "0 \<le> i"
  shows "c \<in> set (show_int i) \<Longrightarrow> is_digit c" and "digits_val (show_int i) = i"
  using assms show_pos_digits [of i] by (auto simp: show_int_def list_all_iff)

lemma not_digits [simp]: "\<not> is_digit CHR '':''" "\<not> is_digit CHR 0x0A" "\<not> is_digit CHR '' ''"
  "is_space CHR '' ''" "\<not> is_space CHR ''('' " "\<not> is_space CHR '')''" "\<not> is_space CHR ''G''" "\<not> is_space CHR '':''"
  by (simp_all add: is_digit_def is_space_def)

lemma strip_space [simp]: "py_strip (CHR '' '' # s) = py_strip s"
  by (simp add: py_strip_def py_lstrip_def)

lemma strip_trailing:
  assumes "stripped s" and "s \<noteq> []"
  shows "py_strip (s @ '' '') = s"
proof -
  have "dropWhile is_space (s @ '' '') = s @ '' ''" and "dropWhile is_space (rev s) = rev s"
    using assms by (simp_all add: stripped_def dropWhile_eq_self_iff hd_rev)
  then show ?thesis by (simp add: py_strip_def py_rstrip_def py_lstrip_def)
qed

lemma show_int_clean [simp]:
  assumes "0 \<le> i"
  shows "CHR '','' \<notin> set (show_int i)" "CHR '':'' \<notin> set (show_int i)" "CHR 0x0A \<notin> set (show_int i)"
  using assms digits_clean(1) [of i] by (auto dest: digit_neq) (metis not_digits(1,2))+

lemma hd_show_int: "0 \<le> i \<Longrightarrow> \<not> is_space (hd (show_int i))"
  using digits_clean(1) [of i] digit_not_space by simp

lemma smi_csv_line:
  assumes "reported g"
  shows "smi_line (csv_line g) = Inr (Some g)"
proof -
  from assms have i: "0 \<le> gpu_index g" and f: "field_ok (gpu_uuid g)" "field_ok (gpu_name g)"
    by (simp_all add: reported_def)
  have "stripped (csv_line g)"
    using f i by (auto simp: csv_line_def stripped_def field_ok_def hd_show_int)
  then have strip: "py_strip (csv_line g) = csv_line g" by simp
  have "split_on (CHR '','') (csv_line g) =
      [show_int (gpu_index g), CHR '' '' # gpu_uuid g, CHR '' '' # gpu_name g]"
    using f i by (simp add: csv_line_def split_on_append split_on_none field_ok_def)
  then have parts: "map py_strip (split_on (CHR '','') (csv_line g)) =
      [show_int (gpu_index g), gpu_uuid g, gpu_name g]"
    using f by (simp add: stripped_show_int field_ok_def)
  have "list_all is_digit (show_int (gpu_index g))" "csv_line g \<noteq> []"
    using digits_clean(1) [OF i] by (simp_all add: list_all_iff csv_line_def)
  with parts strip show ?thesis by (simp add: smi_line_def digits_clean(2) [OF i] Let_def)
qed

lemma rsplit_none: "CHR '':'' \<notin> set s \<Longrightarrow> rsplit_once ''UUID:'' s = None"
proof (induction s)
  case (Cons c s)
  have "starts_with ''UUID:'' (c # s) \<Longrightarrow> CHR '':'' \<in> set (c # s)"
    unfolding starts_with_def by (metis in_set_takeD list.set_intros set_append append_Cons UnI2 in_set_conv_decomp)
  with Cons show ?case by (auto simp: after_def)
qed simp

lemma rsplit_append:
  "rsplit_once lit t = Some (h, u) \<Longrightarrow> rsplit_once lit (s @ t) = Some (s @ h, u)"
  by (induction s) simp_all

lemma rsplit_uuid: "CHR '':'' \<notin> set u \<Longrightarrow> rsplit_once ''UUID:'' (s @ ''UUID:'' @ u) = Some (s, u)"
  using rsplit_append [of "''UUID:''" "''UUID:'' @ u" "[]" u s]
  by (simp add: rsplit_none after_def starts_with_def)

lemma words_gpu:
  assumes "0 \<le> i"
  shows "py_words (''GPU '' @ show_int i) = [''GPU'', show_int i]"
proof -
  have ns: "c \<in> set (show_int i) \<Longrightarrow> \<not> is_space c" for c
    using digits_clean(1) [OF assms] digit_not_space by blast
  have take: "takeWhile (\<lambda>c. \<not> is_space c) (show_int i) = show_int i"
    "dropWhile (\<lambda>c. \<not> is_space c) (show_int i) = []"
    using ns by (auto simp: takeWhile_eq_all_conv)
  have strip: "py_lstrip (show_int i) = show_int i"
    using hd_show_int [OF assms] by (simp add: py_lstrip_def dropWhile_eq_self_iff)
  have two: "py_words (CHR '' '' # show_int i) = [show_int i]"
    using strip take py_words.simps [of "[]"]
    by (subst py_words.simps) (simp add: py_lstrip_def Let_def del: dropWhile_eq_Nil_conv takeWhile_eq_all_conv)
  show ?thesis
    by (subst py_words.simps) (simp add: py_lstrip_def Let_def is_space_def two [simplified])
qed

lemma smi_list_text:
  assumes "reported g"
  shows "smi_line (list_text g) = Inr (Some g)"
proof -
  from assms have i: "0 \<le> gpu_index g" and f: "field_ok (gpu_uuid g)" "field_ok (gpu_name g)"
    and l: "last (gpu_uuid g) \<noteq> CHR '')''" "last (gpu_name g) \<noteq> CHR ''(''"
    by (simp_all add: reported_def)
  have strip: "py_strip (list_text g) = list_text g"
    by (rule strip_stripped) (simp add: list_text_def stripped_def)
  have comma: "split_on (CHR '','') (list_text g) = [list_text g]"
    using f i by (intro split_on_none) (auto simp: list_text_def field_ok_def)
  have "split_on (CHR '':'') (list_text g) = [''GPU '' @ show_int (gpu_index g),
      CHR '' '' # gpu_name g @ '' (UUID'', CHR '' '' # gpu_uuid g @ '')'']"
    using f i split_on_append [of "CHR '':''" "''GPU '' @ show_int (gpu_index g)"]
      split_on_append [of "CHR '':''" "CHR '' '' # gpu_name g @ '' (UUID''"]
    by (simp add: list_text_def field_ok_def split_on_none)
  moreover have "rsplit_once ''UUID:'' (CHR '' '' # gpu_name g @ '' (UUID'' @ '':'' @ CHR '' '' # gpu_uuid g @ '')'') =
      Some (CHR '' '' # gpu_name g @ '' ('', CHR '' '' # gpu_uuid g @ '')'')"
    using rsplit_uuid [of "CHR '' '' # gpu_uuid g @ '')''" "CHR '' '' # gpu_name g @ '' (''"] f
    by (simp add: field_ok_def)
  moreover have "py_strip (gpu_uuid g @ '')'') = gpu_uuid g @ '')''" "py_strip (gpu_name g @ '' ('') = gpu_name g @ '' (''"
    using f by (auto intro!: strip_stripped simp: stripped_def field_ok_def)
  moreover have "rstrip_char (CHR '')'') (gpu_uuid g @ '')'') = gpu_uuid g"
    using l f by (cases "gpu_uuid g" rule: rev_cases) (auto simp: rstrip_char_def field_ok_def)
  moreover have "py_strip (rstrip_char (CHR ''('') (gpu_name g @ '' ('')) = gpu_name g"
    using f by (simp add: rstrip_char_def field_ok_def strip_trailing)
  ultimately have "list_line (list_text g) = Inr (Some g)"
    using words_gpu [OF i] by (simp add: list_line_def Let_def)
  moreover have "\<not> (2 \<le> length (map py_strip (split_on (CHR '','') (list_text g))))" by (simp add: comma)
  ultimately show ?thesis
    using strip by (simp add: smi_line_def Let_def starts_with_def list_text_def)
qed

lemma printed_lines:
  assumes "reported g"
  shows "CHR 0x0A \<notin> set (csv_line g)" "CHR 0x0A \<notin> set (list_text g)"
  using assms by (auto simp: reported_def field_ok_def csv_line_def list_text_def)

text \<open>C33: what \<^verbatim>\<open>nvidia-smi\<close> prints reads back as the devices it printed, in the query format and in the
  \<^verbatim>\<open>-L\<close> format.\<close>

theorem parse_smi_roundtrip:
  assumes "list_all reported ds"
  shows "parse_smi (unlines (map csv_line ds)) = Inr ds \<and> parse_smi (unlines (map list_text ds)) = Inr ds"
  using assms
  by (auto simp: parse_smi_def split_lines_unlines list_all_iff printed_lines
      intro!: parse_lines_map smi_csv_line smi_list_text)

theorem parse_smi_roundtrip_witness:
  "parse_smi (unlines (map csv_line four_gpus)) = Inr four_gpus"
proof -
  have "list_all reported four_gpus" by code_simp
  then show ?thesis using parse_smi_roundtrip [of four_gpus] by blast
qed

end
