(* ===== verification/Fleet.thy ===== *)
theory Fleet
  imports PyFloat "HOL-Library.List_Lexorder" "HOL-Library.Char_ord" "HOL-Library.Product_Lexorder"
begin

text \<open>
  \<^verbatim>\<open>scripts/fleet_manager.py\<close>: the control loop over the replica slots of a fleet. The cloud, the
  replicas' HTTP endpoints and the router are not part of the program: they are the functions of a
  record \<open>world\<close> over an abstract state: \<open>tunnel\<close> is the address \<^verbatim>\<open>ensure_tunnel\<close> settles on, \<open>rewire\<close>
  writes the router's configuration and restarts it. Every step reads the clock once. An exception ends the cycle:
  an operation returns whether it raised, and the state it left behind.
\<close>

section \<open>Data\<close>

text \<open>A row of \<^verbatim>\<open>jl list\<close>, and a replica: its row with what the probes found.\<close>

record row =
  name :: string
  mid :: int
  status :: string
  is_spot :: bool
  runtime :: string

record replica = row +
  api_url :: string
  public_ip :: "string option"
  healthy :: bool
  waiting :: "rat option"
  running :: "rat option"

definition new_replica :: "row \<Rightarrow> replica" where
  "new_replica r = row.extend r
     (replica.fields [] None False None None)"

datatype kind = Spot | OnDemand | OnDemandVm

text \<open>The commands that change the cloud: create a slot, destroy a machine, resume one (as spot or not).\<close>

datatype cmd = Create kind string | Destroy int | Resume int bool

record 'p world =
  listing :: "'p \<Rightarrow> row list option"
  run_jl :: "cmd \<Rightarrow> 'p \<Rightarrow> bool \<times> 'p"
  details :: "'p \<Rightarrow> int \<Rightarrow> (string option \<times> string list) option"
  fetch :: "'p \<Rightarrow> string \<Rightarrow> nat \<times> string"
  gauges :: "string \<Rightarrow> rat option \<times> rat option"
  tunnel :: "'p \<Rightarrow> replica \<Rightarrow> string"
  rewire :: "string list \<Rightarrow> 'p \<Rightarrow> bool \<times> 'p"
  config_exists :: "'p \<Rightarrow> bool"

record settings =
  fleet_key :: string
  min_replicas :: nat
  max_replicas :: nat
  on_demand_min :: nat
  on_demand_vm :: bool
  boot_timeout :: rat
  unhealthy_grace :: rat
  cooldown :: rat
  scale_up_waiting :: rat
  capacity :: rat
  scale_down_concurrency :: rat
  scale_down_idle :: rat
  scale_down_drain :: rat

text \<open>The values of the optional settings.\<close>

definition default_settings :: "string \<Rightarrow> nat \<Rightarrow> nat \<Rightarrow> settings" where
  "default_settings k lo hi = \<lparr>fleet_key = k, min_replicas = lo, max_replicas = hi, on_demand_min = 0, on_demand_vm = False,
     boot_timeout = 2400, unhealthy_grace = 300, cooldown = 300, scale_up_waiting = 2, capacity = 12,
     scale_down_concurrency = 4, scale_down_idle = 900, scale_down_drain = 120\<rparr>"

text \<open>The manager's memory, the state of the world, and the history of commands issued.\<close>

record 'p fleet =
  outside :: 'p
  last_scale :: rat
  wired :: "string set"
  unhealthy_since :: "(string \<times> rat) list"
  idle_since :: "rat option"
  retiring :: "(string \<times> rat) list"
  first_seen :: "(int \<times> rat) list"
  issued :: "cmd list"

definition new_fleet :: "'p \<Rightarrow> 'p fleet" where
  "new_fleet p = \<lparr>outside = p, last_scale = 0, wired = {}, unhealthy_since = [], idle_since = None,
     retiring = [], first_seen = [], issued = []\<rparr>"

section \<open>Sequencing\<close>

type_synonym 'p result = "bool \<times> 'p fleet"

definition then_do :: "'p result \<Rightarrow> ('p fleet \<Rightarrow> 'p result) \<Rightarrow> 'p result" where
  "then_do r f = (if fst r then r else f (snd r))"

lemma then_do_simps [simp]:
  "then_do (False, s) f = f s" "then_do (True, s) f = (True, s)"
  by (simp_all add: then_do_def)

text \<open>A \<^verbatim>\<open>jl\<close> command; it raises when the command fails.\<close>

definition issue :: "'p world \<Rightarrow> cmd \<Rightarrow> 'p fleet \<Rightarrow> 'p result" where
  "issue w c s = (let (ok, p) = run_jl w c (outside s) in
     (\<not> ok, s\<lparr>outside := p, issued := issued s @ [c]\<rparr>))"

definition set_default :: "'k \<Rightarrow> 'v \<Rightarrow> ('k \<times> 'v) list \<Rightarrow> ('k \<times> 'v) list" where
  "set_default k v d = (if map_of d k = None then d @ [(k, v)] else d)"

definition pop_key :: "'k \<Rightarrow> ('k \<times> 'v) list \<Rightarrow> ('k \<times> 'v) list" where
  "pop_key k d = filter (\<lambda>p. fst p \<noteq> k) d"

section \<open>Slots\<close>

definition slot_prefix :: string where "slot_prefix = ''glm53-serve-''"

definition slot_name :: "nat \<Rightarrow> string" where
  "slot_name n = slot_prefix @ show_int (int n)"

text \<open>\<^verbatim>\<open>^glm53-serve-\d+$\<close>; the dollar also matches before a final newline.\<close>

definition numeric_slot :: "string \<Rightarrow> bool" where
  "numeric_slot nm \<longleftrightarrow> starts_with slot_prefix nm \<and>
     (let d = drop (length slot_prefix) nm;
          e = (if d \<noteq> [] \<and> last d = CHR 0x0A then butlast d else d)
      in e \<noteq> [] \<and> list_all is_digit e)"

definition slots :: "'p world \<Rightarrow> 'p \<Rightarrow> row list option" where
  "slots w p = map_option (filter (\<lambda>r. numeric_slot (name r))) (listing w p)"

definition alive :: "('z) row_scheme \<Rightarrow> bool" where
  "alive r \<longleftrightarrow> List.member [''Running'', ''Pending'', ''Provisioning''] (status r)"

text \<open>The age in seconds from text such as \<^verbatim>\<open>2 hours 13 minutes\<close>: every number before a unit counts.\<close>

definition unit_at :: "string \<Rightarrow> (int \<times> nat) option" where
  "unit_at s =
     (if starts_with ''day'' s then Some (86400, 3)
      else if starts_with ''hour'' s then Some (3600, 4)
      else if starts_with ''minute'' s then Some (60, 6)
      else if starts_with ''second'' s then Some (1, 6) else None)"

lemma rest_shorter:
  assumes "takeWhile is_digit (c # s) \<noteq> []"
  shows "length (drop n (py_lstrip (dropWhile is_digit (c # s)))) < length (c # s)"
proof -
  have "is_digit c" using assms by (auto split: if_splits)
  then have "length (dropWhile is_digit (c # s)) \<le> length s" by (simp add: length_dropWhile_le)
  moreover have "length (py_lstrip t) \<le> length t" for t by (simp add: py_lstrip_def length_dropWhile_le)
  ultimately show ?thesis by (metis (no_types, lifting) diff_le_self le_imp_less_Suc le_trans length_Cons length_drop)
qed

function runtime_seconds :: "string \<Rightarrow> int" where
  "runtime_seconds [] = 0"
| "runtime_seconds (c # s) =
     (let ds = takeWhile is_digit (c # s); rest = py_lstrip (dropWhile is_digit (c # s)) in
      if ds = [] then runtime_seconds s
      else (case unit_at rest of
              None \<Rightarrow> runtime_seconds s
            | Some (secs, n) \<Rightarrow> digits_val ds * secs + runtime_seconds (drop n rest)))"
  by pat_completeness auto

termination
  by (relation "measure length") (use rest_shorter in force)+

definition age_of :: "rat \<Rightarrow> 'z row_scheme \<Rightarrow> 'p fleet \<Rightarrow> rat \<times> 'p fleet" where
  "age_of now r s =
     (let total = runtime_seconds (py_strip (runtime r)) in
      if total \<noteq> 0 then (of_int total, s)
      else let seen = set_default (mid r) now (first_seen s) in
        (now - the (map_of seen (mid r)), s\<lparr>first_seen := seen\<rparr>))"

section \<open>Creating a slot\<close>

text \<open>Whether some living slot is still booting; the search stops at the first.\<close>

fun some_booting :: "settings \<Rightarrow> rat \<Rightarrow> row list \<Rightarrow> 'p fleet \<Rightarrow> bool \<times> 'p fleet" where
  "some_booting cfg now [] s = (False, s)"
| "some_booting cfg now (r # rs) s =
     (if alive r
      then let (age, t) = age_of now r s in
        if age < boot_timeout cfg then (True, t) else some_booting cfg now rs t
      else some_booting cfg now rs s)"

lemma slot_name_inj: "inj slot_name"
  by (rule injI) (metis append_eq_append_conv of_nat_eq_iff option.inject py_int_show_int slot_name_def)

text \<open>The loop that counts up to a free name. It ends because a name is used only finitely often.\<close>

function free_slot :: "string list \<Rightarrow> nat \<Rightarrow> nat" where
  "free_slot used n = (if slot_name n \<in> set used then free_slot used (Suc n) else n)"
  by pat_completeness auto
termination
proof (relation "measure (\<lambda>(used, n). card {m. n \<le> m \<and> slot_name m \<in> set used})", goal_cases)
  case (2 used n)
  then have u: "slot_name n \<in> set used" .
  let ?M = "\<lambda>n. {m. n \<le> m \<and> slot_name m \<in> set used}"
  have "finite (slot_name -` set used)" by (rule finite_vimageI) (simp_all add: slot_name_inj)
  then have "finite (?M n)" by (rule rev_finite_subset) auto
  moreover have "n \<in> ?M n" "n \<notin> ?M (Suc n)" "?M (Suc n) \<subseteq> ?M n" using u by auto
  then have "?M (Suc n) \<subset> ?M n" by blast
  ultimately show ?case by (simp add: psubset_card_mono)
qed simp

declare free_slot.simps [simp del]

definition slot_kind :: "settings \<Rightarrow> row list \<Rightarrow> kind" where
  "slot_kind cfg current =
     (if length (filter (\<lambda>r. alive r \<and> \<not> is_spot r) current) < on_demand_min cfg
      then (if on_demand_vm cfg then OnDemandVm else OnDemand) else Spot)"

definition create_slot :: "'p world \<Rightarrow> settings \<Rightarrow> rat \<Rightarrow> 'p fleet \<Rightarrow> 'p result" where
  "create_slot w cfg now s =
     (case slots w (outside s) of
        None \<Rightarrow> (True, s)
      | Some current \<Rightarrow>
          (if max_replicas cfg \<le> length current then (False, s)
           else case some_booting cfg now current s of
                  (True, t) \<Rightarrow> (False, t)
                | (False, t) \<Rightarrow>
                    then_do (issue w (Create (slot_kind cfg current)
                                        (slot_name (free_slot (map name current) 0))) t)
                      (\<lambda>u. (False, u\<lparr>last_scale := now\<rparr>))))"

definition ensure_min :: "'p world \<Rightarrow> settings \<Rightarrow> rat \<Rightarrow> replica list \<Rightarrow> 'p fleet \<Rightarrow> 'p result" where
  "ensure_min w cfg now rs s =
     (if length (filter alive rs) < min_replicas cfg then create_slot w cfg now s else (False, s))"

section \<open>Replacing dead slots\<close>

text \<open>The local port of a replica's tunnel, from the digits that end its name.\<close>

definition tunnel_port :: "string \<Rightarrow> int" where
  "tunnel_port nm =
     (let e = (if nm \<noteq> [] \<and> last nm = CHR 0x0A then butlast nm else nm);
          d = rev (takeWhile is_digit (rev e))
      in if d = [] then 18000 else 18000 + digits_val d)"

lemma tunnel_port_slot: "tunnel_port (slot_name n) = 18000 + int n"
proof -
  let ?d = "show_int (int n)"
  have d: "list_all is_digit (rev ?d)" using show_pos_digits [of "int n"] by (simp add: show_int_def list_all_iff)
  have "takeWhile is_digit (rev ?d @ rev slot_prefix) = rev ?d @ takeWhile is_digit (rev slot_prefix)"
    using d by (intro takeWhile_append2) (auto simp: list_all_iff)
  also have "takeWhile is_digit (rev slot_prefix) = []" by code_simp
  finally have "takeWhile is_digit (rev (slot_name n)) = rev ?d" by (simp add: slot_name_def)
  moreover have "last (slot_name n) = last ?d" by (simp add: slot_name_def)
  moreover have "is_digit (last ?d)" using d by (auto simp: list_all_iff)
  then have "last ?d \<noteq> CHR 0x0A" by (auto simp: is_digit_def)
  moreover have "digits_val ?d = int n" by (simp add: show_int_def)
  ultimately show ?thesis by (simp add: tunnel_port_def Let_def)
qed

definition destroy :: "'p world \<Rightarrow> replica \<Rightarrow> 'p fleet \<Rightarrow> 'p result" where
  "destroy w r s = issue w (Destroy (mid r)) s"

definition replace_slot :: "'p world \<Rightarrow> settings \<Rightarrow> rat \<Rightarrow> replica \<Rightarrow> 'p fleet \<Rightarrow> 'p result" where
  "replace_slot w cfg now r s =
     then_do (if status r = ''Running'' then destroy w r s else (False, s)) (\<lambda>t.
     then_do (create_slot w cfg now t) (\<lambda>u.
       (False, u\<lparr>unhealthy_since := pop_key (name r) (unhealthy_since u)\<rparr>)))"

fun reap :: "'p world \<Rightarrow> settings \<Rightarrow> rat \<Rightarrow> replica list \<Rightarrow> 'p fleet \<Rightarrow> 'p result" where
  "reap w cfg now [] s = (False, s)"
| "reap w cfg now (r # rs) s =
     (if healthy r then reap w cfg now rs (s\<lparr>unhealthy_since := pop_key (name r) (unhealthy_since s)\<rparr>)
      else let (age, t) = age_of now r s in
        if status r = ''Paused'' then (False, snd (issue w (Resume (mid r) (is_spot r)) t))
        else if alive r \<and> age < boot_timeout cfg then reap w cfg now rs t
        else let since = set_default (name r) now (unhealthy_since t);
                 u = t\<lparr>unhealthy_since := since\<rparr>;
                 first = the (map_of since (name r)) in
          if status r \<noteq> ''Running'' \<or> unhealthy_grace cfg < now - first
          then replace_slot w cfg now r u
          else reap w cfg now rs u)"

section \<open>Wiring the router\<close>

text \<open>The router that reads its configuration from a file and is restarted.\<close>

definition routable :: "'p fleet \<Rightarrow> replica list \<Rightarrow> replica list" where
  "routable s rs =
     sort_key name (filter (\<lambda>r. healthy r \<and> map_of (retiring s) (name r) = None) rs)"

text \<open>The lines of the configuration file, from the address chosen for each replica.\<close>

definition deployment :: "string \<Rightarrow> string \<Rightarrow> string list" where
  "deployment k base =
     [''  - model_name: GLM-5.3'', ''    litellm_params:'', ''      model: openai/GLM-5.3'',
      ''      api_base: '' @ base @ ''/v1'', ''      api_key: '' @ k]"

definition router_config :: "string \<Rightarrow> string list \<Rightarrow> string list" where
  "router_config k bases = [''model_list:''] @ concat (map (deployment k) bases) @
     [''router_settings:'', ''  routing_strategy: simple-shuffle'', ''  model_group_affinity_config:'',
      ''    GLM-5.3:'', ''      - deployment_affinity'', ''      - session_affinity'',
      ''  deployment_affinity_ttl_seconds: 3600'', ''general_settings:'',
      ''  master_key: os.environ/LITELLM_MASTER_KEY'', ''litellm_settings:'', ''  drop_params: true'']"

definition wire_litellm :: "'p world \<Rightarrow> settings \<Rightarrow> replica list \<Rightarrow> 'p fleet \<Rightarrow> 'p fleet" where
  "wire_litellm w cfg rs s =
     (let rs' = routable s rs; ids = set (map name rs') in
      if rs' = [] \<or> ids = wired s \<and> config_exists w (outside s) then s
      else let (ok, p) = rewire w (router_config (fleet_key cfg) (map (tunnel w (outside s)) rs')) (outside s) in
        s\<lparr>outside := p, wired := (if ok then ids else wired s)\<rparr>)"

section \<open>Scaling\<close>

fun finish_loop :: "'p world \<Rightarrow> settings \<Rightarrow> rat \<Rightarrow> replica list \<Rightarrow> (string \<times> rat) list \<Rightarrow> 'p fleet \<Rightarrow> 'p result" where
  "finish_loop w cfg now rs [] s = (False, s)"
| "finish_loop w cfg now rs ((nm, started) # es) s =
     (if now - started < scale_down_drain cfg then finish_loop w cfg now rs es s
      else then_do (case find (\<lambda>r. name r = nm) rs of None \<Rightarrow> (False, s) | Some r \<Rightarrow> destroy w r s)
             (\<lambda>t. finish_loop w cfg now rs es
                (t\<lparr>retiring := pop_key nm (retiring t), last_scale := now\<rparr>)))"

definition finish_retirements :: "'p world \<Rightarrow> settings \<Rightarrow> rat \<Rightarrow> replica list \<Rightarrow> 'p fleet \<Rightarrow> 'p result" where
  "finish_retirements w cfg now rs s = finish_loop w cfg now rs (retiring s) s"

definition or_zero :: "rat option \<Rightarrow> rat" where
  "or_zero v = (case v of None \<Rightarrow> 0 | Some x \<Rightarrow> x)"

definition load_of :: "replica \<Rightarrow> rat" where
  "load_of r = or_zero (running r) + or_zero (waiting r)"

definition victim :: "replica list \<Rightarrow> replica" where
  "victim rs = arg_min_list (\<lambda>r. (if is_spot r then 0 else 1 :: nat, load_of r)) rs"

definition retire :: "'p world \<Rightarrow> settings \<Rightarrow> rat \<Rightarrow> replica list \<Rightarrow> replica \<Rightarrow> 'p fleet \<Rightarrow> 'p fleet" where
  "retire w cfg now rs v s =
     (wire_litellm w cfg (filter (\<lambda>r. name r \<noteq> name v) rs)
        (s\<lparr>retiring := pop_key (name v) (retiring s) @ [(name v, now)]\<rparr>))\<lparr>idle_since := None\<rparr>"

definition scale_down :: "'p world \<Rightarrow> settings \<Rightarrow> rat \<Rightarrow> replica list \<Rightarrow> 'p fleet \<Rightarrow> 'p fleet" where
  "scale_down w cfg now rs s =
     (if sum_list (map load_of (filter healthy rs)) < scale_down_concurrency cfg
      then let since = (case idle_since s of None \<Rightarrow> now | Some t \<Rightarrow> if t = 0 then now else t);
               t = s\<lparr>idle_since := Some since\<rparr>;
               cands = filter (\<lambda>r. healthy r \<and> map_of (retiring t) (name r) = None) rs in
        if scale_down_idle cfg \<le> now - since \<and> min_replicas cfg < length rs \<and> cands \<noteq> []
        then retire w cfg now rs (victim cands) t
        else t
      else s\<lparr>idle_since := None\<rparr>)"

definition autoscale :: "'p world \<Rightarrow> settings \<Rightarrow> rat \<Rightarrow> replica list \<Rightarrow> 'p fleet \<Rightarrow> 'p result" where
  "autoscale w cfg now rs s =
     then_do (finish_retirements w cfg now rs s) (\<lambda>t.
       let up = filter healthy rs;
           queued = sum_list (map (\<lambda>r. or_zero (waiting r)) up);
           busy = sum_list (map (\<lambda>r. or_zero (running r)) up) in
       if up = [] \<or> now - last_scale t < cooldown cfg then (False, t)
       else if scale_up_waiting cfg < queued \<or> capacity cfg * of_nat (length up) \<le> busy
       then (if length rs < max_replicas cfg then create_slot w cfg now t else (False, t))
       else (False, scale_down w cfg now rs t))"

section \<open>One cycle\<close>

definition serves_metrics :: "'p world \<Rightarrow> 'p \<Rightarrow> string \<Rightarrow> bool" where
  "serves_metrics w p base =
     (let (code, body) = fetch w p (base @ ''/metrics'') in
      code = 200 \<and> (\<exists>i\<in>set [0..<Suc (length body)]. starts_with ''vllm:'' (drop i body)))"

text \<open>\<open>probe\<close>: the first endpoint that serves vLLM's metrics, else the public address; \<open>None\<close> is the
  failure of \<^verbatim>\<open>jl get\<close>.\<close>

definition probe :: "'p world \<Rightarrow> 'p \<Rightarrow> replica \<Rightarrow> replica option" where
  "probe w p r = map_option (\<lambda>(ip, endpoints).
     let direct = (case ip of None \<Rightarrow> [] | Some a \<Rightarrow> if a = [] then [] else [''http://'' @ a @ '':8000'']) in
     (case find (serves_metrics w p) (endpoints @ direct) of
        Some base \<Rightarrow> r\<lparr>public_ip := ip, api_url := base, healthy := True\<rparr>
      | None \<Rightarrow> r\<lparr>public_ip := ip, healthy := False\<rparr>)) (details w p (mid r))"

definition scrape :: "'p world \<Rightarrow> 'p \<Rightarrow> replica \<Rightarrow> replica" where
  "scrape w p r =
     (let (code, body) = fetch w p (api_url r @ ''/metrics''); (wa, ru) = gauges w body in
      if healthy r \<and> code = 200
      then r\<lparr>waiting := (case wa of None \<Rightarrow> waiting r | Some x \<Rightarrow> Some x),
             running := (case ru of None \<Rightarrow> running r | Some x \<Rightarrow> Some x)\<rparr>
      else r)"

fun observe :: "(replica \<Rightarrow> replica option) \<Rightarrow> row list \<Rightarrow> replica list option" where
  "observe look [] = Some []"
| "observe look (r # rs) =
     (let n = new_replica r in
      case (if status n = ''Running'' then look n else Some n) of
        None \<Rightarrow> None
      | Some x \<Rightarrow> map_option ((#) x) (observe look rs))"

definition observed :: "'p world \<Rightarrow> bool \<Rightarrow> 'p fleet \<Rightarrow> replica list option" where
  "observed w scraping s =
     (case slots w (outside s) of None \<Rightarrow> None
      | Some rows \<Rightarrow> observe (\<lambda>r. map_option (\<lambda>x. if scraping then scrape w (outside s) x else x)
                              (probe w (outside s) r)) rows)"

definition cycle :: "'p world \<Rightarrow> settings \<Rightarrow> rat \<Rightarrow> 'p fleet \<Rightarrow> 'p result" where
  "cycle w cfg now s =
     (case observed w True s of
        None \<Rightarrow> (True, s)
      | Some rs \<Rightarrow>
          then_do (ensure_min w cfg now rs s) (\<lambda>t.
          then_do (reap w cfg now rs t) (\<lambda>u.
          then_do (autoscale w cfg now rs u) (\<lambda>v.
            (case observed w False v of
               None \<Rightarrow> (True, v)
             | Some rs' \<Rightarrow> (False, wire_litellm w cfg rs' v))))))"

end
