(* ===== verification/FleetTheorems.thy ===== *)
theory FleetTheorems
  imports Fleet
begin

text \<open>
  What the control loop of \<open>Fleet\<close> guarantees: when a slot is created and under which name, when a machine
  may be destroyed, how many replicas retire at a time, and where the scale-down goes wrong. The shared
  argument is a locale: a relation between the states before and after that survives sequencing.
\<close>

section \<open>Effects of a sequence\<close>

locale effect =
  fixes R :: "'p fleet \<Rightarrow> 'p fleet \<Rightarrow> bool"
  assumes refl: "R s s" and trans: "R s t \<Longrightarrow> R t u \<Longrightarrow> R s u"
begin

lemma seq:
  assumes "R s (snd r)" and "\<And>t. snd r = t \<Longrightarrow> R t (snd (f t))"
  shows "R s (snd (then_do r f))"
  using assms trans by (cases r; cases "fst r") auto

lemma seq3:
  assumes "R s (snd r)" and "\<And>t. R t (snd (f t))" and "\<And>t. R t (snd (g t))"
  shows "R s (snd (then_do r (\<lambda>t. then_do (f t) g)))"
  by (rule seq [OF assms(1)]) (rule seq [OF assms(2)], rule assms(3))

end

text \<open>The age of a replica as the state stands; noting when it was first seen does not change it.\<close>

definition age :: "rat \<Rightarrow> 'p fleet \<Rightarrow> 'z row_scheme \<Rightarrow> rat" where
  "age now s r =
     (let total = runtime_seconds (py_strip (runtime r)) in
      if total \<noteq> 0 then of_int total
      else (case map_of (first_seen s) (mid r) of None \<Rightarrow> 0 | Some t \<Rightarrow> now - t))"

definition same_ages :: "rat \<Rightarrow> 'p fleet \<Rightarrow> 'p fleet \<Rightarrow> bool" where
  "same_ages now s t \<longleftrightarrow> (\<forall>m. (case map_of (first_seen t) m of None \<Rightarrow> 0 | Some x \<Rightarrow> now - x)
     = (case map_of (first_seen s) m of None \<Rightarrow> 0 | Some x \<Rightarrow> now - x))"

text \<open>The scaling memory is untouched.\<close>

definition same_scaling :: "'p fleet \<Rightarrow> 'p fleet \<Rightarrow> bool" where
  "same_scaling s t \<longleftrightarrow> retiring t = retiring s \<and> idle_since t = idle_since s"

text \<open>The history grows by commands of one sort.\<close>

definition grows :: "(cmd \<Rightarrow> bool) \<Rightarrow> 'p fleet \<Rightarrow> 'p fleet \<Rightarrow> bool" where
  "grows P s t \<longleftrightarrow> (\<exists>cs. issued t = issued s @ cs \<and> list_all P cs)"

interpretation same_ages: effect "same_ages now" for now
  by unfold_locales (simp_all add: same_ages_def)

interpretation same_scaling: effect same_scaling
  by unfold_locales (simp_all add: same_scaling_def)

interpretation grows: effect "grows P" for P
  by unfold_locales (auto simp: grows_def)

named_theorems fleet_effects

lemma same_ages_age: "same_ages now s t \<Longrightarrow> age now t r = age now s r"
  by (simp only: same_ages_def age_def)

lemma set_default_map: "map_of (set_default k v d) = (if map_of d k = None then (map_of d)(k \<mapsto> v) else map_of d)"
  by (auto simp: set_default_def fun_eq_iff map_add_def split: option.splits)

lemma pop_key_map: "map_of (pop_key k d) = (map_of d)(k := None)"
  by (induction d) (auto simp: pop_key_def fun_eq_iff)

lemma age_of_effect:
  assumes "age_of now r s = (a, t)"
  shows "a = age now s r" and "same_ages now s t" and "same_scaling s t" and "issued t = issued s"
    and "unhealthy_since t = unhealthy_since s" and "outside t = outside s" and "wired t = wired s"
  using assms
  by (auto simp: age_of_def age_def same_ages_def same_scaling_def set_default_map Let_def
      split: if_splits option.splits)

lemma issue_effect [fleet_effects]:
  "same_ages now s (snd (issue w c s))" "same_scaling s (snd (issue w c s))"
  "unhealthy_since (snd (issue w c s)) = unhealthy_since s" "issued (snd (issue w c s)) = issued s @ [c]"
  by (simp_all add: issue_def same_ages_def same_scaling_def split: prod.splits)

section \<open>Creating slots\<close>

lemma some_booting_effect:
  assumes "some_booting cfg now rs s = (b, t)"
  shows "b \<longleftrightarrow> (\<exists>r\<in>set rs. alive r \<and> age now s r < boot_timeout cfg)"
    and "same_ages now s t" "same_scaling s t" "issued t = issued s" "unhealthy_since t = unhealthy_since s"
      "outside t = outside s"
proof -
  have "(b \<longleftrightarrow> (\<exists>r\<in>set rs. alive r \<and> age now s r < boot_timeout cfg)) \<and> same_ages now s t
    \<and> same_scaling s t \<and> issued t = issued s \<and> unhealthy_since t = unhealthy_since s \<and> outside t = outside s"
    using assms
  proof (induction rs arbitrary: s)
    case Nil
    then show ?case by (simp add: same_ages.refl same_scaling.refl)
  next
    case (Cons r rs)
    show ?case
    proof (cases "alive r")
      case True
      obtain a u where u: "age_of now r s = (a, u)" by (cases "age_of now r s")
      note e = age_of_effect [OF u]
      show ?thesis
      proof (cases "a < boot_timeout cfg")
        case True
        with \<open>alive r\<close> u e Cons.prems show ?thesis by auto
      next
        case False
        with \<open>alive r\<close> u Cons.prems have "some_booting cfg now rs u = (b, t)" by simp
        moreover have "age now u x = age now s x" for x :: row by (rule same_ages_age [OF e(2)])
        ultimately show ?thesis
          using Cons.IH [of u] e False \<open>alive r\<close>
          by (auto intro: same_ages.trans same_scaling.trans)
      qed
    next
      case False
      with Cons show ?thesis by auto
    qed
  qed
  then show "b \<longleftrightarrow> (\<exists>r\<in>set rs. alive r \<and> age now s r < boot_timeout cfg)"
    and "same_ages now s t" "same_scaling s t" "issued t = issued s" "unhealthy_since t = unhealthy_since s"
      "outside t = outside s" by auto
qed

lemma free_slot_least:
  "n \<le> free_slot used n \<and> slot_name (free_slot used n) \<notin> set used
   \<and> (\<forall>m. n \<le> m \<and> m < free_slot used n \<longrightarrow> slot_name m \<in> set used)"
proof (induction used n rule: free_slot.induct)
  case (1 used n)
  show ?case
  proof (cases "slot_name n \<in> set used")
    case True
    then have "free_slot used n = free_slot used (Suc n)" by (subst free_slot.simps) simp
    with 1 True show ?thesis by (metis Suc_leD Suc_leI le_neq_implies_less)
  next
    case False
    then have "free_slot used n = n" by (subst free_slot.simps) simp
    with False show ?thesis by auto
  qed
qed

text \<open>A slot is created exactly when the fleet has fewer slots than the maximum and no living slot is
  younger than the boot timeout; then one command goes out, for the smallest number whose name is free,
  on demand exactly while the backbone is short, and otherwise none.\<close>

lemma create_slot_issues:
  assumes "slots w (outside s) = Some current"
  shows "issued (snd (create_slot w cfg now s)) = issued s @
    (if length current < max_replicas cfg \<and> (\<forall>r\<in>set current. alive r \<longrightarrow> boot_timeout cfg \<le> age now s r)
     then [Create (slot_kind cfg current) (slot_name (LEAST n. slot_name n \<notin> name ` set current))] else [])"
proof -
  obtain b t where t: "some_booting cfg now current s = (b, t)" by (cases "some_booting cfg now current s")
  note e = some_booting_effect [OF t]
  have all: "(\<forall>r\<in>set current. alive r \<longrightarrow> boot_timeout cfg \<le> age now s r) \<longleftrightarrow> \<not> b"
    using e(1) by (auto simp: not_less)
  have "free_slot (map name current) 0 = (LEAST n. slot_name n \<notin> name ` set current)"
    using free_slot_least [of 0 "map name current"]
    by (intro Least_equality [symmetric]) (auto simp: not_less [symmetric])
  moreover have "issued (snd (then_do (issue w c t) (\<lambda>u. (False, u\<lparr>last_scale := now\<rparr>)))) = issued s @ [c]" for c
    using issue_effect(4) [of w c t] e(4) by (simp add: then_do_def)
  ultimately show ?thesis
    using assms t e(4) all by (cases b) (simp_all add: create_slot_def not_less)
qed

text \<open>The fleet of the witnesses: a serving on-demand replica, and a paused spot slot that cannot resume.\<close>

definition serving_row :: row where
  "serving_row = \<lparr>name = ''glm53-serve-0'', mid = 1, status = ''Running'', is_spot = False, runtime = ''2 hours''\<rparr>"

definition paused_row :: row where
  "paused_row = \<lparr>name = ''glm53-serve-1'', mid = 2, status = ''Paused'', is_spot = True, runtime = ''2 hours''\<rparr>"

text \<open>The state of this world is whether the first machine is gone.\<close>

definition small_world :: "bool world" where
  "small_world = \<lparr>listing = \<lambda>gone. Some (if gone then [paused_row] else [serving_row, paused_row]),
     run_jl = \<lambda>c gone. ((case c of Resume _ _ \<Rightarrow> False | _ \<Rightarrow> True), gone \<or> c = Destroy 1),
     details = \<lambda>_ _. Some (None, [''https://a'']), fetch = \<lambda>_ _. (200, ''vllm:''),
     gauges = \<lambda>_. (Some 0, Some 0), tunnel = \<lambda>_. api_url, rewire = \<lambda>_ p. (True, p), config_exists = \<lambda>_. True\<rparr>"

lemma small_world_simps [simp]:
  "run_jl small_world c p = ((case c of Resume _ _ \<Rightarrow> False | _ \<Rightarrow> True), p \<or> c = Destroy 1)"
  "details small_world p m = Some (None, [''https://a''])" "fetch small_world p u = (200, ''vllm:'')"
  "gauges small_world b = (Some 0, Some 0)" "rewire small_world rs p = (True, p)" "config_exists small_world p"
  by (simp_all add: small_world_def)

lemma small_slots [simp]: "slots small_world gone = Some (if gone then [paused_row] else [serving_row, paused_row])"
proof -
  have "numeric_slot (name serving_row)" "numeric_slot (name paused_row)" by code_simp+
  then show ?thesis by (simp add: slots_def small_world_def)
qed

definition seen_replicas :: "bool \<Rightarrow> bool \<Rightarrow> replica list" where
  "seen_replicas gone scraping = (if gone then [] else
     [(new_replica serving_row)\<lparr>api_url := ''https://a'', healthy := True,
        waiting := (if scraping then Some 0 else None), running := (if scraping then Some 0 else None)\<rparr>])
     @ [new_replica paused_row]"

lemma small_observed: "observed small_world scraping s = Some (seen_replicas (outside s) scraping)"
proof -
  have m: "serves_metrics small_world p ''https://a''" for p
    by (simp add: serves_metrics_def starts_with_def bexI [of _ 0])
  show ?thesis
    by (cases scraping) (simp_all add: observed_def probe_def m scrape_def seen_replicas_def Let_def
        new_replica_def serving_row_def paused_row_def row.defs replica.defs)
qed

lemma create_slot_issues_instance:
  "issued (snd (create_slot small_world (default_settings ''key'' 1 3) 0 (new_fleet False))) =
     [Create Spot (slot_name (LEAST n. slot_name n \<notin> name ` set [serving_row, paused_row]))]"
proof -
  have "age 0 (new_fleet False) serving_row = 7200" by code_simp
  moreover have "\<not> alive paused_row" by code_simp
  moreover have "slot_kind (default_settings ''key'' 1 3) [serving_row, paused_row] = Spot" by code_simp
  ultimately show ?thesis
    using create_slot_issues [of small_world "new_fleet False" "[serving_row, paused_row]" "default_settings ''key'' 1 3" 0]
    by (simp add: default_settings_def new_fleet_def)
qed

section \<open>Destroying machines\<close>

lemmas no_effect = same_ages.refl same_scaling.refl grows.refl

fun not_destroy :: "cmd \<Rightarrow> bool" where
  "not_destroy (Destroy m) = False"
| "not_destroy c = True"

lemma create_slot_effect:
  shows "same_ages now s (snd (create_slot w cfg now s))" "same_scaling s (snd (create_slot w cfg now s))"
    "unhealthy_since (snd (create_slot w cfg now s)) = unhealthy_since s"
    "grows not_destroy s (snd (create_slot w cfg now s))"
proof -
  have "same_ages now s (snd (create_slot w cfg now s)) \<and> same_scaling s (snd (create_slot w cfg now s))
    \<and> unhealthy_since (snd (create_slot w cfg now s)) = unhealthy_since s
    \<and> grows not_destroy s (snd (create_slot w cfg now s))"
  proof (cases "slots w (outside s)")
    case None
    then show ?thesis by (simp add: create_slot_def same_ages.refl same_scaling.refl grows.refl)
  next
    case (Some current)
    obtain b t where t: "some_booting cfg now current s = (b, t)" by (cases "some_booting cfg now current s")
    note e = some_booting_effect [OF t]
    let ?f = "\<lambda>u :: 'a fleet. (False, u\<lparr>last_scale := now\<rparr>)"
    have "same_ages now s (snd (then_do (issue w c t) ?f))" for c
      by (rule same_ages.trans [OF e(2)], rule same_ages.seq [OF issue_effect(1)]) (simp add: same_ages_def)
    moreover have "same_scaling s (snd (then_do (issue w c t) ?f))" for c
      by (rule same_scaling.trans [OF e(3)], rule same_scaling.seq [OF issue_effect(2)]) (simp add: same_scaling_def)
    moreover have "unhealthy_since (snd (then_do (issue w c t) ?f)) = unhealthy_since s" for c
      by (simp add: then_do_def issue_effect(3) e(5))
    moreover have "grows not_destroy s (snd (then_do (issue w (Create k n) t) ?f))" for k n
      by (simp add: then_do_def issue_effect(4) e(4) grows_def)
    moreover have "grows not_destroy s t" by (simp add: grows_def e(4))
    ultimately show ?thesis
      using Some t e(2-) by (cases b) (simp_all add: create_slot_def no_effect)
  qed
  then show "same_ages now s (snd (create_slot w cfg now s))" "same_scaling s (snd (create_slot w cfg now s))"
    "unhealthy_since (snd (create_slot w cfg now s)) = unhealthy_since s"
    "grows not_destroy s (snd (create_slot w cfg now s))" by blast+
qed

lemma ensure_min_effect:
  shows "same_ages now s (snd (ensure_min w cfg now rs s))" "same_scaling s (snd (ensure_min w cfg now rs s))"
    "unhealthy_since (snd (ensure_min w cfg now rs s)) = unhealthy_since s"
    "grows not_destroy s (snd (ensure_min w cfg now rs s))"
  by (simp_all add: ensure_min_def create_slot_effect no_effect)

lemma grows_weaken: "grows P s t \<Longrightarrow> (\<And>c. P c \<Longrightarrow> Q c) \<Longrightarrow> grows Q s t"
  by (auto simp: grows_def list_all_iff)

text \<open>A running machine past its boot timeout that has not answered for longer than the grace period.\<close>

definition hung :: "settings \<Rightarrow> rat \<Rightarrow> 'p fleet \<Rightarrow> replica \<Rightarrow> bool" where
  "hung cfg now s r \<longleftrightarrow> \<not> healthy r \<and> status r = ''Running'' \<and> boot_timeout cfg \<le> age now s r
     \<and> (\<exists>t. map_of (unhealthy_since s) (name r) = Some t \<and> unhealthy_grace cfg < now - t)"

text \<open>A replica whose drain window has passed.\<close>

definition drained :: "settings \<Rightarrow> rat \<Rightarrow> 'p fleet \<Rightarrow> replica \<Rightarrow> bool" where
  "drained cfg now s r \<longleftrightarrow> (\<exists>t. (name r, t) \<in> set (retiring s) \<and> scale_down_drain cfg \<le> now - t)"

definition destroys_only :: "(replica \<Rightarrow> bool) \<Rightarrow> replica list \<Rightarrow> cmd \<Rightarrow> bool" where
  "destroys_only P rs c \<longleftrightarrow> (\<forall>m. c = Destroy m \<longrightarrow> (\<exists>r\<in>set rs. mid r = m \<and> P r))"

lemma not_destroy_only: "not_destroy c \<Longrightarrow> destroys_only P rs c"
  by (auto simp: destroys_only_def)

lemma destroys_only_mono:
  "destroys_only P rs c \<Longrightarrow> set rs \<subseteq> set rs' \<Longrightarrow> (\<And>r. P r \<Longrightarrow> Q r) \<Longrightarrow> destroys_only Q rs' c"
  unfolding destroys_only_def by blast

lemma grows_issue: "P c \<Longrightarrow> grows P s (snd (issue w c s))"
  by (simp add: grows_def issue_effect)

lemma replace_slot_effect:
  assumes "status r = ''Running'' \<Longrightarrow> P r"
  shows "grows (destroys_only P (r # rs)) s (snd (replace_slot w cfg now r s))"
    and "same_ages now s (snd (replace_slot w cfg now r s))"
    and "same_scaling s (snd (replace_slot w cfg now r s))"
proof -
  let ?u = "\<lambda>u. (False, u\<lparr>unhealthy_since := pop_key (name r) (unhealthy_since u)\<rparr>)"
  have keep: "grows Q u (snd (?u u))" "same_ages now u (snd (?u u))" "same_scaling u (snd (?u u))" for Q and u :: "'a fleet"
    by (simp_all add: grows_def same_ages_def same_scaling_def)
  have c: "grows (destroys_only P (r # rs)) t (snd (create_slot w cfg now t))" for t
    by (rule grows_weaken [OF create_slot_effect(4)]) (rule not_destroy_only)
  have d: "grows (destroys_only P (r # rs)) s
      (snd (if status r = ''Running'' then destroy w r s else (False, s)))"
    using assms by (auto simp: destroy_def destroys_only_def no_effect intro!: grows_issue)
  show "grows (destroys_only P (r # rs)) s (snd (replace_slot w cfg now r s))"
    unfolding replace_slot_def by (rule grows.seq3 [OF d c keep(1)])
  show "same_ages now s (snd (replace_slot w cfg now r s))"
    unfolding replace_slot_def
    by (rule same_ages.seq3 [OF _ create_slot_effect(1) keep(2)]) (simp add: destroy_def issue_effect no_effect)
  show "same_scaling s (snd (replace_slot w cfg now r s))"
    unfolding replace_slot_def
    by (rule same_scaling.seq3 [OF _ create_slot_effect(2) keep(3)]) (simp add: destroy_def issue_effect no_effect)
qed

lemma reap_effect:
  assumes "same_ages now s0 s" and "0 \<le> unhealthy_grace cfg"
    and "\<And>nm t. map_of (unhealthy_since s) nm = Some t \<Longrightarrow> map_of (unhealthy_since s0) nm = Some t \<or> t = now"
  shows "grows (destroys_only (hung cfg now s0) rs) s (snd (reap w cfg now rs s))
    \<and> same_ages now s (snd (reap w cfg now rs s)) \<and> same_scaling s (snd (reap w cfg now rs s))"
  using assms(1,3)
proof (induction rs arbitrary: s)
  case Nil
  then show ?case by (simp add: no_effect)
next
  case (Cons r rs)
  let ?D = "destroys_only (hung cfg now s0)"
  have more: "grows (?D rs) u v \<Longrightarrow> grows (?D (r # rs)) u v" for u v :: "'a fleet"
    by (erule grows_weaken) (auto simp: destroys_only_def)
  show ?case
  proof (cases "healthy r")
    case True
    let ?u = "s\<lparr>unhealthy_since := pop_key (name r) (unhealthy_since s)\<rparr>"
    have tu: "grows (?D (r # rs)) s ?u" "same_ages now s ?u" "same_scaling s ?u"
      by (simp_all add: grows_def same_ages_def same_scaling_def)
    have s0u: "same_ages now s0 ?u" by (rule same_ages.trans [OF Cons.prems(1) tu(2)])
    have since: "map_of (unhealthy_since ?u) nm = Some x \<Longrightarrow> map_of (unhealthy_since s0) nm = Some x \<or> x = now" for nm x
      using Cons.prems(2) by (auto simp: pop_key_map split: if_splits)
    have step: "reap w cfg now (r # rs) s = reap w cfg now rs ?u" using True by simp
    show ?thesis
      unfolding step using Cons.IH [OF s0u since] grows.trans [OF tu(1) more] same_ages.trans [OF tu(2)]
        same_scaling.trans [OF tu(3)] by blast
  next
    case False
    obtain a t where t: "age_of now r s = (a, t)" by (cases "age_of now r s")
    note e = age_of_effect [OF t]
    have a: "a = age now s0 r" using e(1) same_ages_age [OF Cons.prems(1)] by simp
    have st: "grows (?D (r # rs)) s t" by (simp add: grows_def e)
    have s0t: "same_ages now s0 t" by (rule same_ages.trans [OF Cons.prems(1) e(2)])
    consider (paused) "status r = ''Paused''" | (young) "status r \<noteq> ''Paused''" "alive r \<and> a < boot_timeout cfg"
      | (old) "status r \<noteq> ''Paused''" "\<not> (alive r \<and> a < boot_timeout cfg)" by blast
    then show ?thesis
    proof cases
      case paused
      have "grows (?D (r # rs)) t (snd (issue w (Resume (mid r) (is_spot r)) t))"
        by (rule grows_issue) (simp add: destroys_only_def)
      with paused False t show ?thesis
        using grows.trans [OF st] same_ages.trans [OF e(2) issue_effect(1)] same_scaling.trans [OF e(3) issue_effect(2)]
        by simp
    next
      case young
      with Cons.IH [OF s0t] Cons.prems(2) e False t show ?thesis
        using grows.trans [OF st more] same_ages.trans [OF e(2)] same_scaling.trans [OF e(3)] by simp
    next
      case old
      define u where "u = t\<lparr>unhealthy_since := set_default (name r) now (unhealthy_since t)\<rparr>"
      define first where "first = the (map_of (set_default (name r) now (unhealthy_since t)) (name r))"
      have tu: "grows (?D (r # rs)) s u" "same_ages now s u" "same_scaling s u"
        using st e by (simp_all add: u_def grows_def same_ages_def same_scaling_def)
      have s0u: "same_ages now s0 u" by (rule same_ages.trans [OF Cons.prems(1) tu(2)])
      have since: "map_of (unhealthy_since u) nm = Some x \<Longrightarrow> map_of (unhealthy_since s0) nm = Some x \<or> x = now" for nm x
        using Cons.prems(2) by (auto simp: u_def e set_default_map split: if_splits)
      have step: "reap w cfg now (r # rs) s = (if status r \<noteq> ''Running'' \<or> unhealthy_grace cfg < now - first
          then replace_slot w cfg now r u else reap w cfg now rs u)"
        using False old t by (auto simp: u_def first_def Let_def)
      show ?thesis
      proof (cases "status r \<noteq> ''Running'' \<or> unhealthy_grace cfg < now - first")
        case True
        have "map_of (unhealthy_since u) (name r) = Some first"
          by (auto simp: u_def first_def set_default_map split: option.splits)
        with since have f: "map_of (unhealthy_since s0) (name r) = Some first \<or> first = now" by blast
        have hr: "hung cfg now s0 r" if "status r = ''Running''"
          using that f True False old(2) a assms(2) by (auto simp: hung_def alive_def)
        have R: "grows (?D (r # rs)) u (snd (replace_slot w cfg now r u))"
          "same_ages now u (snd (replace_slot w cfg now r u))" "same_scaling u (snd (replace_slot w cfg now r u))"
          by (rule replace_slot_effect, erule hr)+
        show ?thesis
          unfolding step using True grows.trans [OF tu(1) R(1)] same_ages.trans [OF tu(2) R(2)]
            same_scaling.trans [OF tu(3) R(3)] by simp
      next
        case False
        with Cons.IH [OF s0u since] show ?thesis
          unfolding step using grows.trans [OF tu(1) more] same_ages.trans [OF tu(2)] same_scaling.trans [OF tu(3)]
          by simp
      qed
    qed
  qed
qed

lemma finish_loop_effect:
  shows "grows (\<lambda>c. \<exists>r t. c = Destroy (mid r) \<and> r \<in> set rs \<and> (name r, t) \<in> set es \<and> scale_down_drain cfg \<le> now - t)
      s (snd (finish_loop w cfg now rs es s))"
proof (induction es arbitrary: s)
  case Nil
  then show ?case by (simp add: no_effect)
next
  case (Cons e es)
  obtain nm started where e: "e = (nm, started)" by (cases e)
  let ?P = "\<lambda>es c. \<exists>r t. c = Destroy (mid r) \<and> r \<in> set rs \<and> (name r, t) \<in> set es \<and> scale_down_drain cfg \<le> now - t"
  have more: "grows (?P (e # es)) u (snd (finish_loop w cfg now rs es u))" for u
    by (rule grows_weaken [OF Cons.IH]) auto
  show ?case
  proof (cases "now - started < scale_down_drain cfg")
    case True
    then show ?thesis using more by (simp add: e)
  next
    case False
    let ?d = "case find (\<lambda>r. name r = nm) rs of None \<Rightarrow> (False, s) | Some r \<Rightarrow> destroy w r s"
    let ?pop = "\<lambda>t. t\<lparr>retiring := pop_key nm (retiring t), last_scale := now\<rparr>"
    have "grows (?P (e # es)) s (snd ?d)"
      using False
      by (auto simp: e destroy_def no_effect not_less dest!: find_Some_in_set split: option.splits intro!: grows_issue)
    moreover have "grows (?P (e # es)) t (snd (finish_loop w cfg now rs es (?pop t)))" for t
      by (rule grows.trans [OF _ more]) (simp add: grows_def)
    ultimately show ?thesis
      using False by (simp add: e grows.seq)
  qed
qed

lemma wire_effect [simp]:
  "issued (wire_litellm w cfg rs s) = issued s" "retiring (wire_litellm w cfg rs s) = retiring s"
  "idle_since (wire_litellm w cfg rs s) = idle_since s"
  by (simp_all add: wire_litellm_def Let_def split: prod.splits)

lemma autoscale_effect:
  "grows (destroys_only (drained cfg now s) rs) s (snd (autoscale w cfg now rs s))"
  unfolding autoscale_def
proof (rule grows.seq, goal_cases)
  case 1
  show ?case unfolding finish_retirements_def
    by (rule grows_weaken [OF finish_loop_effect]) (auto simp: destroys_only_def drained_def)
next
  case (2 t)
  have "grows (destroys_only (drained cfg now s) rs) t (snd (create_slot w cfg now t))"
    by (rule grows_weaken [OF create_slot_effect(4)]) (rule not_destroy_only)
  moreover have "issued (scale_down w cfg now rs t) = issued t"
    by (simp add: scale_down_def retire_def Let_def)
  then have "grows P t (scale_down w cfg now rs t)" for P by (simp add: grows_def)
  ultimately show ?case by (simp add: Let_def no_effect)
qed

text \<open>C20: a cycle destroys a machine only for a replica it has just observed whose drain window has passed, or
  that runs past its boot timeout and has not answered for longer than the grace period. In particular
  a replica that serves is never destroyed without having been drained.\<close>

theorem destroys_drained_or_hung:
  assumes "observed w True s = Some rs" and "0 \<le> unhealthy_grace cfg"
  shows "\<exists>cs. issued (snd (cycle w cfg now s)) = issued s @ cs \<and>
    (\<forall>m. Destroy m \<in> set cs \<longrightarrow> (\<exists>r\<in>set rs. mid r = m \<and> (drained cfg now s r \<or> hung cfg now s r)))"
proof -
  let ?P = "\<lambda>r. drained cfg now s r \<or> hung cfg now s r"
  let ?D = "destroys_only ?P rs"
  let ?t = "snd (ensure_min w cfg now rs s)" and ?m = "ensure_min w cfg now rs s"
  note m = ensure_min_effect [where now = now and s = s and w = w and cfg = cfg and rs = rs]
  let ?u = "snd (reap w cfg now rs ?t)"
  have R: "grows (destroys_only (hung cfg now s) rs) ?t ?u \<and> same_ages now ?t ?u \<and> same_scaling ?t ?u"
    by (rule reap_effect) (simp_all add: m assms)
  have u: "retiring ?u = retiring s" using R m(2) by (simp add: same_scaling_def)
  have "grows (destroys_only (drained cfg now ?u) rs) ?u (snd (autoscale w cfg now rs ?u))" by (rule autoscale_effect)
  then have A: "grows ?D ?u (snd (autoscale w cfg now rs ?u))"
    by (rule grows_weaken) (erule destroys_only_mono; simp add: drained_def u)
  have g: "grows ?D s ?t" by (rule grows_weaken [OF m(4)]) (rule not_destroy_only)
  have "grows ?D ?t ?u" using R by (auto elim!: grows_weaken destroys_only_mono)
  moreover have "grows ?D v (snd (case observed w False v of None \<Rightarrow> (True, v) | Some rs' \<Rightarrow> (False, wire_litellm w cfg rs' v)))"
    for v by (simp add: grows_def split: option.splits)
  ultimately have "grows ?D s (snd (cycle w cfg now s))"
    unfolding cycle_def assms(1) option.case
    using A g by (intro grows.seq) auto
  then show ?thesis by (auto simp: grows_def list_all_iff destroys_only_def)
qed

theorem destroys_drained_or_hung_witness:
  "\<forall>m. Destroy m \<notin> set (issued (snd (cycle small_world (default_settings ''key'' 1 3) 1000 (new_fleet False))))"
proof -
  have "\<not> drained (default_settings ''key'' 1 3) 1000 (new_fleet False) r" "\<not> hung (default_settings ''key'' 1 3) 1000 (new_fleet False) r" for r
    by (simp_all add: drained_def hung_def new_fleet_def)
  moreover have "0 \<le> unhealthy_grace (default_settings ''key'' 1 3)" "issued (new_fleet False) = []"
    by (simp_all add: default_settings_def new_fleet_def)
  ultimately show ?thesis
    using destroys_drained_or_hung [OF small_observed, where cfg = "default_settings ''key'' 1 3" and s = "new_fleet False" and now = 1000] by auto
qed

section \<open>Runs\<close>

text \<open>Cycles at times that do not go back, between which the world may change in any way.\<close>

inductive fleet_run :: "'p world \<Rightarrow> settings \<Rightarrow> rat \<Rightarrow> 'p fleet \<Rightarrow> bool" for w cfg where
  fresh: "fleet_run w cfg 0 (new_fleet p)"
| outside: "fleet_run w cfg now s \<Longrightarrow> fleet_run w cfg now (s\<lparr>outside := p\<rparr>)"
| tick: "fleet_run w cfg now s \<Longrightarrow> now \<le> now' \<Longrightarrow> fleet_run w cfg now' (snd (cycle w cfg now' s))"

text \<open>At most one replica retires, and the idle window of the next starts after it.\<close>

definition single_retirement :: "rat \<Rightarrow> (string \<times> rat) list \<Rightarrow> rat option \<Rightarrow> bool" where
  "single_retirement now ret idle \<longleftrightarrow>
     ret = [] \<or> (\<exists>nm t. ret = [(nm, t)] \<and> t \<le> now \<and> (\<forall>i. idle = Some i \<longrightarrow> t \<le> i))"

abbreviation settled :: "rat \<Rightarrow> 'p fleet \<Rightarrow> bool" where
  "settled now s \<equiv> single_retirement now (retiring s) (idle_since s)"

lemma settled_same: "same_scaling s t \<Longrightarrow> settled now s \<Longrightarrow> settled now t"
  by (simp add: same_scaling_def)

lemma settled_later: "settled now s \<Longrightarrow> now \<le> now' \<Longrightarrow> settled now' s"
  by (auto simp: single_retirement_def)

lemma destroy_scaling: "retiring (snd (destroy w r s)) = retiring s" "idle_since (snd (destroy w r s)) = idle_since s"
  using issue_effect(2) [of s w "Destroy (mid r)"] by (simp_all add: destroy_def same_scaling_def)

text \<open>A finished retirement is forgotten unless the destruction failed, and then the cycle has ended.\<close>

lemma finish_settled:
  assumes "settled now s" and "finish_retirements w cfg now rs s = (b, t)"
  shows "settled now t" and "\<not> b \<Longrightarrow> \<forall>(nm, started)\<in>set (retiring t). now - started < scale_down_drain cfg"
proof -
  have "settled now t \<and> (\<not> b \<longrightarrow> (\<forall>(nm, started)\<in>set (retiring t). now - started < scale_down_drain cfg))"
  proof (cases "retiring s")
    case Nil
    with assms show ?thesis by (auto simp: finish_retirements_def)
  next
    case (Cons e es)
    then obtain nm started where r: "retiring s = [(nm, started)]"
      using assms(1) by (auto simp: single_retirement_def)
    show ?thesis
    proof (cases "now - started < scale_down_drain cfg")
      case True
      with assms r show ?thesis by (auto simp: finish_retirements_def)
    next
      case False
      define d where "d = (case find (\<lambda>r. name r = nm) rs of None \<Rightarrow> (False, s) | Some r \<Rightarrow> destroy w r s)"
      have same: "retiring (snd d) = retiring s" "idle_since (snd d) = idle_since s"
        by (auto simp: d_def destroy_scaling split: option.splits)
      have "(b, t) = then_do d (\<lambda>t. (False, t\<lparr>retiring := pop_key nm (retiring t), last_scale := now\<rparr>))"
        using assms(2) r False by (simp add: finish_retirements_def d_def)
      with same r assms(1) show ?thesis
        by (cases d; cases "fst d") (auto simp: pop_key_def single_retirement_def)
    qed
  qed
  then show "settled now t" and "\<not> b \<Longrightarrow> \<forall>(nm, started)\<in>set (retiring t). now - started < scale_down_drain cfg"
    by blast+
qed

lemma scale_down_settled:
  assumes "settled now s" and "scale_down_drain cfg \<le> scale_down_idle cfg"
    and "\<forall>(nm, started)\<in>set (retiring s). now - started < scale_down_drain cfg"
  shows "settled now (scale_down w cfg now rs s)"
proof (cases "retiring s = []")
  case True
  then show ?thesis by (simp add: scale_down_def retire_def single_retirement_def pop_key_def Let_def)
next
  case False
  then obtain nm started where r: "retiring s = [(nm, started)]" "started \<le> now"
    "\<forall>i. idle_since s = Some i \<longrightarrow> started \<le> i"
    using assms(1) by (auto simp: single_retirement_def)
  define since where "since = (case idle_since s of None \<Rightarrow> now | Some t \<Rightarrow> if t = 0 then now else t)"
  have "started \<le> since" using r by (auto simp: since_def split: option.splits)
  moreover from this have "\<not> scale_down_idle cfg \<le> now - since" using assms(2,3) r(1) by auto
  ultimately show ?thesis
    using r by (simp add: scale_down_def since_def [symmetric] single_retirement_def Let_def)
qed

lemma autoscale_settled:
  assumes "settled now s" and "scale_down_drain cfg \<le> scale_down_idle cfg"
  shows "settled now (snd (autoscale w cfg now rs s))"
proof -
  obtain b t where f: "finish_retirements w cfg now rs s = (b, t)" by (cases "finish_retirements w cfg now rs s")
  note F = finish_settled [OF assms(1) f]
  show ?thesis
  proof (cases b)
    case True
    with f F show ?thesis by (simp add: autoscale_def)
  next
    case False
    have "settled now (snd (create_slot w cfg now t))"
      using settled_same [OF create_slot_effect(2) F(1)] .
    with f F(1) False scale_down_settled [OF F(1) assms(2) F(2) [OF False]] show ?thesis
      by (simp add: autoscale_def Let_def)
  qed
qed

lemma cycle_settled:
  assumes "settled now s" and "scale_down_drain cfg \<le> scale_down_idle cfg" and "0 \<le> unhealthy_grace cfg"
  shows "settled now (snd (cycle w cfg now s))"
proof (cases "observed w True s")
  case None
  with assms show ?thesis by (simp add: cycle_def)
next
  case (Some rs)
  let ?m = "ensure_min w cfg now rs s"
  let ?r = "reap w cfg now rs (snd ?m)"
  have m: "settled now (snd ?m)" using settled_same [OF ensure_min_effect(2) assms(1)] .
  have "same_scaling (snd ?m) (snd ?r)"
    using reap_effect [OF same_ages.refl assms(3)] by blast
  then have r: "settled now (snd ?r)" using m by (rule settled_same)
  have "settled now (snd (autoscale w cfg now rs (snd ?r)))" by (rule autoscale_settled [OF r assms(2)])
  with m r show ?thesis by (auto simp: cycle_def Some then_do_def split: option.splits)
qed


section \<open>The last serving replica\<close>

text \<open>The small fleet: cycles at 1000, 1900 and 2020 seconds.\<close>

definition after_cycles :: "rat list \<Rightarrow> bool fleet" where
  "after_cycles ts = fold (\<lambda>now s. snd (cycle small_world (default_settings ''key'' 1 3) now s)) ts (new_fleet False)"

lemma after_cycles_run:
  "sorted (ts @ [t]) \<Longrightarrow> 0 \<le> hd (ts @ [t]) \<Longrightarrow> fleet_run small_world (default_settings ''key'' 1 3) t (after_cycles (ts @ [t]))"
proof (induction ts arbitrary: t rule: rev_induct)
  case Nil
  then show ?case using tick [OF fresh, where now' = t] by (simp add: after_cycles_def)
next
  case (snoc x ts)
  then have "fleet_run small_world (default_settings ''key'' 1 3) x (after_cycles (ts @ [x]))"
    by (intro snoc.IH) (auto simp: sorted_append hd_append split: if_splits)
  moreover have "x \<le> t" using snoc.prems by (auto simp: sorted_append)
  ultimately show ?case
    using tick by (fastforce simp: after_cycles_def)
qed


lemma after_1900:
  "retiring (after_cycles [1000, 1900]) = [(''glm53-serve-0'', 1900)]" "\<not> outside (after_cycles [1000, 1900])"
  by code_simp+

lemma after_2020:
  "outside (after_cycles [1000, 1900, 2020])" "wired (after_cycles [1000, 1900, 2020]) = {''glm53-serve-0''}"
  "issued (after_cycles [1000, 1900, 2020]) = [Resume 2 True, Resume 2 True, Resume 2 True, Destroy 1]"
  by code_simp+

text \<open>The scale-down counts the listed slots, not the ones that serve. A fleet with a minimum of one replica
  whose only serving replica is idle, beside a paused slot that cannot resume, retires and destroys
  the serving one; no replica is left that serves, none has been created, and the router still
  routes to the destroyed one.\<close>

lemma last_replica_destroyed:
  "\<exists>(w :: bool world) cfg s rs. min_replicas cfg = 1 \<and> fleet_run w cfg 1900 s \<and>
     observed w True s = Some rs \<and> map name (filter healthy rs) = [''glm53-serve-0''] \<and>
     (let t = snd (cycle w cfg 2020 s) in
      observed w False t \<noteq> None \<and> filter healthy (the (observed w False t)) = [] \<and>
      wired t = {''glm53-serve-0''} \<and> (\<forall>k n. Create k n \<notin> set (issued t)))"
proof (intro exI conjI)
  let ?cfg = "default_settings ''key'' 1 3"
  show "min_replicas ?cfg = 1" by (simp add: default_settings_def)
  show "fleet_run small_world ?cfg 1900 (after_cycles [1000, 1900])"
    using after_cycles_run [of "[1000]" 1900] by simp
  show "observed small_world True (after_cycles [1000, 1900]) = Some (seen_replicas False True)"
    by (simp add: small_observed after_1900)
  show "map name (filter healthy (seen_replicas False True)) = [''glm53-serve-0'']" by code_simp
  have t: "snd (cycle small_world ?cfg 2020 (after_cycles [1000, 1900])) = after_cycles [1000, 1900, 2020]"
    by (simp add: after_cycles_def)
  have "filter healthy (seen_replicas True False) = []" by code_simp
  then show "let t = snd (cycle small_world ?cfg 2020 (after_cycles [1000, 1900])) in
      observed small_world False t \<noteq> None \<and> filter healthy (the (observed small_world False t)) = [] \<and>
      wired t = {''glm53-serve-0''} \<and> (\<forall>k n. Create k n \<notin> set (issued t))"
    unfolding t Let_def by (simp add: small_observed after_2020)
qed

end
