(* ===== verification/EnvScript.thy ===== *)
theory EnvScript
  imports ConfigCli Serve
begin

text \<open>
  \<^verbatim>\<open>config_cli.py env\<close>: the resolved configuration and the derived environment as shell text, which the
  entrypoint sources. Quoting is Python's \<open>shlex.quote\<close>; the reader below follows the quoting rules of a
  POSIX shell for the words that it emits, and gives up on everything else.
\<close>

section \<open>Printing\<close>

definition alnum :: "char \<Rightarrow> bool" where
  "alnum c = (let n = (of_char c :: nat) in
     48 \<le> n \<and> n \<le> 57 \<or> 65 \<le> n \<and> n \<le> 90 \<or> 97 \<le> n \<and> n \<le> 122)"

definition shlex_safe :: "char \<Rightarrow> bool" where
  "shlex_safe c = (alnum c \<or> List.member ''_@%+=:,./-'' c)"

definition shlex_quote :: "string \<Rightarrow> string" where
  "shlex_quote s =
     (if s = [] then [CHR 0x27, CHR 0x27]
      else if list_all shlex_safe s then s
      else CHR 0x27 # concat (map (\<lambda>c. if c = CHR 0x27 then [CHR 0x27, CHR 0x22, CHR 0x27, CHR 0x22, CHR 0x27] else [c]) s)
             @ [CHR 0x27])"

datatype item = Var string string | Arr string "string list"

fun print_item :: "item \<Rightarrow> string" where
  "print_item (Var n v) = ''export '' @ n @ ''='' @ shlex_quote v"
| "print_item (Arr n vs) = n @ ''=('' @ join_with '' '' (map shlex_quote vs) @ '')''"

fun source_text :: "source \<Rightarrow> string" where
  "source_text SDefault = ''default''"
| "source_text SFamily = ''family''"
| "source_text SDetected = ''detected''"
| "source_text SVariant = ''variant''"
| "source_text SEnv = ''env''"
| "source_text SFile = ''file''"
| "source_text SNA = ''n/a''"
| "source_text SDerived = ''derived''"

text \<open>\<open>json.dumps(sources)\<close>, with Python's default separators.\<close>

definition sources_json :: "sources \<Rightarrow> string" where
  "sources_json srcs = ''{'' @ join_with '', ''
     (List.map_filter (\<lambda>kb. map_option (\<lambda>s. json_string (key_name (kkey kb)) @ '': '' @ json_string (source_text s))
        (srcs (kkey kb))) KNOBS) @ ''}''"

text \<open>The lines for the knobs; a missing knob is Python's \<open>KeyError\<close>.\<close>

definition knob_items :: "cfg \<Rightarrow> item list option" where
  "knob_items c = those (map (\<lambda>kb. map_option (\<lambda>v. Var (key_name (kkey kb)) (to_text kb v)) (c (kkey kb))) KNOBS)"

definition derived_items :: "derived \<Rightarrow> item list" where
  "derived_items d =
     [Var ''MODEL_REPO'' (o_model_repo d), Var ''MODEL_REVISION'' (o_model_revision d),
      Var ''MODEL_DIRNAME'' (o_model_dirname d), Var ''MTP78_MODE'' (o_mtp78_mode d),
      Var ''DRAFT_MODEL'' (o_draft_model d), Var ''DRAFT_QUANTIZATION'' (o_draft_quantization d),
      Var ''FAMILY_ENV_BLOCK'' (o_env_block d), Var ''SPEC_METHOD'' (o_spec_method d),
      Var ''NATIVE_MTP_FORMAT'' (o_native_mtp d),
      Var ''MTP_GRAFT_COMPATIBLE'' (case o_graft_ok d of None \<Rightarrow> [] | Some b \<Rightarrow> if b then ''1'' else ''0''),
      Arr ''FAMILY_SERVE_ARGS'' (o_serve_args d),
      Arr ''PROFILE_RUNTIME_ENV'' (map (\<lambda>(k, v). k @ ''='' @ v) (o_runtime_env d))]"

definition env_items :: "string \<Rightarrow> cfg \<Rightarrow> sources \<Rightarrow> string option \<Rightarrow> item list option" where
  "env_items model_parent c srcs token =
     (case derive model_parent c of None \<Rightarrow> None
      | Some d \<Rightarrow> map_option (\<lambda>ks. ks @ derived_items d @ [Var ''GLM_CONFIG_SOURCES'' (sources_json srcs)]
            @ (case token of None \<Rightarrow> [] | Some t \<Rightarrow> [Var ''GLM_CONFIG_ATTEMPT'' t])) (knob_items c))"

text \<open>
  The command: what it prints, and the attempt it leaves. \<open>token\<close> is the fresh token of
  \<^verbatim>\<open>--begin-attempt\<close>.
\<close>

definition cmd_env ::
    "string \<Rightarrow> 'h host \<Rightarrow> string option \<Rightarrow> 'h runtime \<Rightarrow> string list option \<times> 'h runtime" where
  "cmd_env model_parent h token s =
     (case resolved_now h s of
        Inl _ \<Rightarrow> (None, s)
      | Inr r \<Rightarrow>
          (case derive model_parent (eff r) of
             None \<Rightarrow> (None, s)
           | Some _ \<Rightarrow>
               (map_option (map print_item) (env_items model_parent (eff r) (src r) token),
                case token of None \<Rightarrow> s | Some t \<Rightarrow> snd (begin_attempt h t s))))"

section \<open>The shell\<close>

datatype sh_mode = Bare | Single | Double

text \<open>A character that means itself outside quotes.\<close>

definition sh_plain :: "char \<Rightarrow> bool" where
  "sh_plain c \<longleftrightarrow> 33 \<le> (of_char c :: nat) \<and>
     \<not> List.member (''|&;<>()$*?[]#~!{}^'' @ [CHR 0x60, CHR 0x5C, CHR 0x22, CHR 0x27]) c"

definition word_so_far :: "string option \<Rightarrow> string" where
  "word_so_far w = (case w of None \<Rightarrow> [] | Some x \<Rightarrow> x)"

fun sh_read :: "sh_mode \<Rightarrow> string option \<Rightarrow> string \<Rightarrow> string list option" where
  "sh_read Bare w [] = Some (case w of None \<Rightarrow> [] | Some x \<Rightarrow> [x])"
| "sh_read Bare w (c # s) =
     (if c = CHR '' '' then
        (case w of None \<Rightarrow> sh_read Bare None s | Some x \<Rightarrow> map_option ((#) x) (sh_read Bare None s))
      else if c = CHR 0x27 then sh_read Single (Some (word_so_far w)) s
      else if c = CHR 0x22 then sh_read Double (Some (word_so_far w)) s
      else if sh_plain c then sh_read Bare (Some (word_so_far w @ [c])) s
      else None)"
| "sh_read Single w [] = None"
| "sh_read Single w (c # s) =
     (if c = CHR 0x27 then sh_read Bare w s else sh_read Single (Some (word_so_far w @ [c])) s)"
| "sh_read Double w [] = None"
| "sh_read Double w (c # s) =
     (if c = CHR 0x22 then sh_read Bare w s
      else if List.member [CHR ''$'', CHR 0x60, CHR 0x5C] c then None
      else sh_read Double (Some (word_so_far w @ [c])) s)"

definition sh_words :: "string \<Rightarrow> string list option" where
  "sh_words s = sh_read Bare None s"

record shell_env =
  vars :: "string \<Rightarrow> string option"
  arrays :: "string \<Rightarrow> string list option"

definition upto_eq :: "string \<Rightarrow> string \<times> string" where
  "upto_eq s = (takeWhile (\<lambda>c. c \<noteq> CHR ''='') s, tl (dropWhile (\<lambda>c. c \<noteq> CHR ''='') s))"

text \<open>One line: an exported assignment, or an array assignment.\<close>

definition run_line :: "string \<Rightarrow> shell_env \<Rightarrow> shell_env option" where
  "run_line l e =
     (if starts_with ''export '' l
      then (case sh_words l of
              Some [_, a] \<Rightarrow> (let (n, v) = upto_eq a in Some (e\<lparr>vars := (vars e)(n \<mapsto> v)\<rparr>))
            | _ \<Rightarrow> None)
      else (let (n, r) = upto_eq l in
            if r \<noteq> [] \<and> hd r = CHR ''('' \<and> last r = CHR '')''
            then map_option (\<lambda>ws. e\<lparr>arrays := (arrays e)(n \<mapsto> ws)\<rparr>) (sh_words (butlast (tl r)))
            else None))"

fun run_script :: "string list \<Rightarrow> shell_env \<Rightarrow> shell_env option" where
  "run_script [] e = Some e"
| "run_script (l # ls) e = (case run_line l e of None \<Rightarrow> None | Some f \<Rightarrow> run_script ls f)"

end
