(* ===== verification/KnobNames.thy ===== *)
theory KnobNames
  imports RegistryFacts
begin

text \<open>
  The names of the registered knobs as texts: they are distinct, so a name identifies its knob wherever
  knobs are looked up by name (the assignments of a script, the fields of a form).
\<close>

text \<open>The names of the knobs, in the order of the registry.\<close>

definition knob_names :: "string list" where
  "knob_names = [
     ''MODEL_FAMILY'', ''TENSOR_PARALLEL_SIZE'', ''MODEL_VARIANT'', ''MODEL_ID'',
     ''REASONING_EFFORT_DEFAULT'', ''PREFILL_SCHEDULE_INTERVAL'', ''PREFILL_FAIRNESS_ENGINE'',
     ''PREFILL_COMPUTE_SHARE'', ''TRUST_REMOTE_CODE'', ''QUANTIZATION'', ''REASONING_PARSER'',
     ''TOOL_CALL_PARSER'', ''MULTIMODAL'', ''MM_MAX_PIXELS'', ''MAX_MODEL_LEN'', ''CLAMP_ROPE_TABLES'',
     ''GPU_BLOCKS_OVERRIDE'', ''KV_CACHE_DTYPE'', ''KV_SCALE_MODE'', ''ONLINE_QUANT'',
     ''VLLM_EXL3_ONLINE_CACHE_DIR'', ''VLLM_EXL3_ONLINE_CACHE_MODE'', ''MTP_DRAFT'', ''MTP_TOKENS'',
     ''MTP_DRAFT_SAMPLE_METHOD'', ''MTP_REJECTION_SAMPLE_METHOD'', ''DRAFT_MODEL'',
     ''DRAFT_QUANTIZATION'', ''DCP'', ''MAX_NUM_SEQS'', ''MAX_NUM_BATCHED_TOKENS'',
     ''VLLM_EXL3_PREFILL_CAPACITY'', ''DCP_PREFILL_WORKSPACE_MIB'', ''DCP_CKV_PREFETCH_DEPTH'',
     ''DCP_CKV_GATHER_MAX_TOKENS'', ''DCP_KV_CACHE_INTERLEAVE_SIZE'',
     ''DCP_QUERY_SPLIT_MIN_CONTEXT_TOKENS'', ''B12X_PCIE_DMA'', ''F8_DMA'', ''PCIE_CALIBRATION'',
     ''PCIE_DMA_MIN_BYTES'', ''MAX_CUDAGRAPH_CAPTURE_SIZE'', ''CUDAGRAPH_CAPTURE_SIZES'',
     ''VLLM_EXL3_TRELLIS_MAX_M'', ''GPU_MEMORY_UTILIZATION'', ''KV_CACHE_MEMORY_BYTES'', ''LOAD_FORMAT'',
     ''MODEL_OUTPUT_LIMIT'', ''OFFLOAD_FRACTION'', ''PREFIX_CACHE_BACKEND'', ''LMCACHE_L1_MAX_GB'',
     ''PREFIX_CACHE_DISK_GB'', ''PREFIX_CACHE_DISK_FRACTION'', ''VISION'', ''VISION_CHUNKS'',
     ''SERVED_MODEL_NAME'']"

lemma knob_names_eq: "map (\<lambda>kb. key_name (kkey kb)) KNOBS = knob_names"
  by (simp add: knob_tables knob_names_def)

lemma knob_names_distinct: "distinct knob_names"
  by (simp add: knob_names_def)

lemma distinct_names: "distinct (map (\<lambda>kb. key_name (kkey kb)) KNOBS)"
  by (simp add: knob_names_eq knob_names_distinct)

end
