(* ===== verification/EnvTheorems.thy ===== *)
theory EnvTheorems
  imports EnvScript ServeTheorems RollbackLoop KnobNames
begin

text \<open>
  The text that \<open>env\<close> prints reads back: quoting is undone by the shell's quoting rules, every line is the
  assignment it was printed for, and the whole script defines the variables of the resolved
  configuration and the arrays of the derived environment.
\<close>

section \<open>Words\<close>

lemma word_so_far_simps [simp]: "word_so_far None = []" "word_so_far (Some x) = x"
  by (simp_all add: word_so_far_def)

lemma shlex_safe_plain:
  assumes "shlex_safe c"
  shows "sh_plain c" "c \<noteq> CHR '' ''" "c \<noteq> CHR 0x27" "c \<noteq> CHR 0x22"
proof -
  let ?specials = "''|&;<>()$*?[]#~!{}^'' @ [CHR 0x60, CHR 0x5C, CHR 0x22, CHR 0x27, CHR '' '']"
  have "list_all (\<lambda>x. \<not> shlex_safe x) ?specials" by code_simp
  then have "c \<notin> set ?specials" using assms by (auto simp only: list_all_iff)
  moreover have "33 \<le> (of_char c :: nat)"
    using assms by (auto simp: shlex_safe_def alnum_def Let_def)
  ultimately show "sh_plain c" "c \<noteq> CHR '' ''" "c \<noteq> CHR 0x27" "c \<noteq> CHR 0x22"
    by (simp_all add: sh_plain_def)
qed

lemma read_safe:
  "list_all shlex_safe s \<Longrightarrow> s \<noteq> [] \<Longrightarrow> sh_read Bare w (s @ rest) = sh_read Bare (Some (word_so_far w @ s)) rest"
proof (induction s arbitrary: w)
  case (Cons c s)
  then show ?case using shlex_safe_plain [of c] by (cases "s = []") auto
qed simp

definition escaped :: "char \<Rightarrow> string" where
  "escaped c = (if c = CHR 0x27 then [CHR 0x27, CHR 0x22, CHR 0x27, CHR 0x22, CHR 0x27] else [c])"

lemma read_escaped:
  "sh_read Single (Some x) (concat (map escaped s) @ CHR 0x27 # rest) = sh_read Bare (Some (x @ s)) rest"
  by (induction s arbitrary: x) (auto simp: escaped_def)

lemma read_quote: "sh_read Bare w (shlex_quote s @ rest) = sh_read Bare (Some (word_so_far w @ s)) rest"
proof -
  have e: "(\<lambda>c. if c = CHR 0x27 then [CHR 0x27, CHR 0x22, CHR 0x27, CHR 0x22, CHR 0x27] else [c]) = escaped"
    by (simp add: escaped_def fun_eq_iff)
  consider "s = []" | "s \<noteq> []" "list_all shlex_safe s" | "s \<noteq> []" "\<not> list_all shlex_safe s" by blast
  then show ?thesis
  proof cases
    case 3
    then show ?thesis by (simp add: shlex_quote_def e read_escaped)
  qed (simp_all add: shlex_quote_def read_safe)
qed

lemma read_words: "sh_words (join_with '' '' (map shlex_quote ws)) = Some ws"
proof (induction "'' ''" "map shlex_quote ws" arbitrary: ws rule: join_with.induct)
  case 1
  then show ?case by (simp add: sh_words_def)
next
  case (2 p)
  then obtain x where "ws = [x]" by auto
  then show ?case using read_quote [of None x "[]"] by (simp add: sh_words_def)
next
  case (3 p q ps)
  then obtain x ys where ws: "ws = x # ys" "map shlex_quote ys = q # ps" by auto
  have "sh_words (join_with '' '' (map shlex_quote ys)) = Some ys" using 3(1) [of ys] ws(2) by simp
  then show ?case
    using read_quote [of None x "CHR '' '' # join_with '' '' (map shlex_quote ys)"] ws
    by (simp add: sh_words_def)
qed

section \<open>Lines\<close>

definition name_ok :: "string \<Rightarrow> bool" where
  "name_ok n \<longleftrightarrow> n \<noteq> [] \<and> list_all (\<lambda>c. alnum c \<or> c = CHR ''_'') n"

lemma name_chars:
  assumes "name_ok n"
  shows "list_all shlex_safe (n @ ''='')" "CHR ''='' \<notin> set n" "CHR '' '' \<notin> set n"
  using assms by (auto simp: name_ok_def shlex_safe_def list_all_iff alnum_def Let_def)

lemma upto_eq_append: "CHR ''='' \<notin> set n \<Longrightarrow> upto_eq (n @ CHR ''='' # v) = (n, v)"
  by (induction n) (auto simp: upto_eq_def)

fun item_name :: "item \<Rightarrow> string" where
  "item_name (Var n v) = n"
| "item_name (Arr n vs) = n"

fun assign :: "item \<Rightarrow> shell_env \<Rightarrow> shell_env" where
  "assign (Var n v) e = e\<lparr>vars := (vars e)(n \<mapsto> v)\<rparr>"
| "assign (Arr n vs) e = e\<lparr>arrays := (arrays e)(n \<mapsto> vs)\<rparr>"

lemma not_export:
  assumes "name_ok n"
  shows "\<not> starts_with ''export '' (n @ CHR ''='' # s)"
proof
  assume "starts_with ''export '' (n @ CHR ''='' # s)"
  then obtain t where t: "n @ CHR ''='' # s = ''export '' @ t"
    unfolding starts_with_def by (metis append_take_drop_id)
  have "takeWhile (\<lambda>c. c \<noteq> CHR ''='') (n @ CHR ''='' # s) = n"
    using name_chars(2) [OF assms] by (subst takeWhile_append2) auto
  moreover have "CHR '' '' \<in> set (takeWhile (\<lambda>c. c \<noteq> CHR ''='') (''export '' @ t))" by simp
  ultimately show False using t name_chars(3) [OF assms] by metis
qed

lemma run_printed: "name_ok (item_name i) \<Longrightarrow> run_line (print_item i) e = Some (assign i e)"
proof (cases i)
  case (Var n v)
  assume ok: "name_ok (item_name i)"
  then have n: "list_all shlex_safe (n @ ''='')" "CHR ''='' \<notin> set n" using Var name_chars by simp_all
  have "list_all shlex_safe ''export''" by code_simp
  then have "sh_read Bare None (''export'' @ CHR '' '' # t) = map_option ((#) ''export'') (sh_read Bare None t)" for t
    by (subst read_safe) simp_all
  moreover have "sh_read Bare None ((n @ ''='') @ shlex_quote v) = Some [(n @ ''='') @ v]"
    using n(1) read_quote [of "Some (n @ ''='')" v "[]"] by (subst read_safe) simp_all
  ultimately have "sh_words (''export '' @ n @ ''='' @ shlex_quote v) = Some [''export'', n @ ''='' @ v]"
    by (simp add: sh_words_def)
  with Var n(2) show ?thesis by (simp add: run_line_def starts_with_def upto_eq_append)
next
  case (Arr n vs)
  assume ok: "name_ok (item_name i)"
  let ?w = "join_with '' '' (map shlex_quote vs)"
  have "upto_eq (print_item i) = (n, CHR ''('' # ?w @ '')'')"
    using upto_eq_append name_chars(2) ok Arr by simp
  moreover have "\<not> starts_with ''export '' (print_item i)" using not_export [of n] ok Arr by simp
  ultimately show ?thesis by (simp add: run_line_def Arr read_words)
qed

lemma run_items:
  "list_all (\<lambda>i. name_ok (item_name i)) its \<Longrightarrow> run_script (map print_item its) e = Some (fold assign its e)"
  by (induction its arbitrary: e) (simp_all add: run_printed)

section \<open>The script\<close>

lemma fold_vars: "n \<notin> item_name ` set its \<Longrightarrow> vars (fold assign its e) n = vars e n"
proof (induction its arbitrary: e)
  case (Cons i its)
  then show ?case by (cases i) auto
qed simp

lemma fold_arrays: "n \<notin> item_name ` set its \<Longrightarrow> arrays (fold assign its e) n = arrays e n"
proof (induction its arbitrary: e)
  case (Cons i its)
  then show ?case by (cases i) auto
qed simp

text \<open>The last assignment of a name counts.\<close>

lemma fold_last:
  assumes "its = xs @ i # ys" and "item_name i \<notin> item_name ` set ys"
  shows "(case i of Var n v \<Rightarrow> vars (fold assign its e) n = Some v | Arr n vs \<Rightarrow> arrays (fold assign its e) n = Some vs)"
  using assms fold_vars [of "item_name i" ys "assign i (fold assign xs e)"]
    fold_arrays [of "item_name i" ys "assign i (fold assign xs e)"]
  by (cases i) simp_all

lemma name_alphabet: "list_all alnum ''ABCDEFGHIJKLMNOPQRSTUVWXYZ0123456789''"
  by code_simp

lemmas alnum_table = name_alphabet [unfolded list.pred_inject]

lemma knob_names_ok: "list_all name_ok knob_names"
  by (simp add: knob_names_def name_ok_def alnum_table)

text \<open>The names that are assigned after the knobs.\<close>

definition late_names :: "string list" where
  "late_names = [''MODEL_REPO'', ''MODEL_REVISION'', ''MODEL_DIRNAME'', ''MTP78_MODE'', ''DRAFT_MODEL'',
     ''DRAFT_QUANTIZATION'', ''FAMILY_ENV_BLOCK'', ''SPEC_METHOD'', ''NATIVE_MTP_FORMAT'', ''MTP_GRAFT_COMPATIBLE'',
     ''FAMILY_SERVE_ARGS'', ''PROFILE_RUNTIME_ENV'', ''GLM_CONFIG_SOURCES'', ''GLM_CONFIG_ATTEMPT'']"

lemma late_names_ok: "list_all name_ok late_names"
  by (simp add: late_names_def name_ok_def alnum_table)

lemma those_map: "(\<And>x. x \<in> set xs \<Longrightarrow> f x = Some (g x)) \<Longrightarrow> those (map f xs) = Some (map g xs)"
  by (induction xs) simp_all

fun holds :: "shell_env \<Rightarrow> item \<Rightarrow> bool" where
  "holds e (Var n v) = (vars e n = Some v)"
| "holds e (Arr n vs) = (arrays e n = Some vs)"

lemma holds_last:
  assumes "distinct (map item_name ys)" and "i \<in> set ys"
  shows "holds (fold assign (xs @ ys) e) i"
proof -
  obtain us vs where y: "ys = us @ i # vs" using assms(2) by (auto simp: in_set_conv_decomp)
  with assms(1) have "item_name i \<notin> item_name ` set vs" by auto
  with fold_last [of "xs @ ys" "xs @ us" i vs e] y show ?thesis by (cases i) simp_all
qed

lemma holds_earlier: "item_name i \<notin> item_name ` set ys \<Longrightarrow> holds (fold assign ys e) i = holds e i"
  by (cases i) (simp_all add: fold_vars fold_arrays)

definition late_items :: "derived \<Rightarrow> sources \<Rightarrow> string option \<Rightarrow> item list" where
  "late_items d srcs token = derived_items d @ [Var ''GLM_CONFIG_SOURCES'' (sources_json srcs)]
     @ (case token of None \<Rightarrow> [] | Some t \<Rightarrow> [Var ''GLM_CONFIG_ATTEMPT'' t])"

lemma late_items_names:
  "set (map item_name (late_items d srcs token)) \<subseteq> set late_names" "distinct (map item_name (late_items d srcs token))"
  by (auto simp: late_items_def derived_items_def late_names_def split: option.splits)

text \<open>What a configuration prints, with the text of every knob.\<close>

definition knob_item :: "cfg \<Rightarrow> knob \<Rightarrow> item" where
  "knob_item c kb = Var (key_name (kkey kb)) (to_text kb (the (c (kkey kb))))"

lemma knob_items_resolved:
  assumes "resolve_with ns e sv d = Inr r"
  shows "knob_items (eff r) = Some (map (knob_item (eff r)) KNOBS)"
  unfolding knob_items_def
  by (rule those_map) (use resolve_value_fits [OF assms] in \<open>force simp: knob_item_def\<close>)

lemma knob_item_names: "map item_name (map (knob_item c) KNOBS) = knob_names"
  by (simp add: knob_item_def comp_def knob_names_eq)

text \<open>C29: for every configuration that resolves, \<^verbatim>\<open>env\<close> prints a script, and sourcing it in a shell, whatever its
  values contain, defines exactly what was resolved: every derived variable and array, the token of the
  attempt, and the text of every knob that no derived variable replaces.\<close>

theorem env_script_reads_back:
  assumes "resolved_now h s = Inr r"
  shows "\<exists>d ls e. derive model_parent (eff r) = Some d \<and> fst (cmd_env model_parent h token s) = Some ls \<and>
    run_script ls e0 = Some e \<and> (\<forall>i\<in>set (derived_items d). holds e i) \<and>
    (\<forall>t. token = Some t \<longrightarrow> vars e ''GLM_CONFIG_ATTEMPT'' = Some t) \<and>
    (\<forall>kb\<in>set KNOBS. key_name (kkey kb) \<notin> set late_names \<longrightarrow>
       vars e (key_name (kkey kb)) = map_option (to_text kb) (eff r (kkey kb)))"
proof -
  let ?c = "eff r"
  obtain ns sv where res: "resolve_with ns (proc h) sv (startup h) = Inr r"
    using assms by (auto simp: resolved_now_def resolve_boot_def split: sum.splits)
  obtain args where "family_serve_args ?c = Some args" using serve_args_exist [OF res] by blast
  then obtain d where d: "derive model_parent ?c = Some d" by (simp add: derive_def)
  let ?ks = "map (knob_item ?c) KNOBS" and ?late = "late_items d (src r) token"
  have ls: "fst (cmd_env model_parent h token s) = Some (map print_item (?ks @ ?late))"
    by (simp add: cmd_env_def assms d env_items_def knob_items_resolved [OF res] late_items_def)
  have "\<forall>x\<in>set (map item_name ?ks) \<union> set (map item_name ?late). name_ok x"
    using knob_names_ok late_names_ok late_items_names(1) [of d "src r" token]
    by (simp only: knob_item_names list_all_iff) blast
  then have run: "run_script (map print_item (?ks @ ?late)) e0 = Some (fold assign (?ks @ ?late) e0)"
    by (intro run_items) (auto simp: list_all_iff)
  have late: "holds (fold assign (?ks @ ?late) e0) i" if "i \<in> set ?late" for i
    using that by (rule holds_last [OF late_items_names(2)])
  have knob: "holds (fold assign (?ks @ ?late) e0) (knob_item ?c kb)"
    if "kb \<in> set KNOBS" "key_name (kkey kb) \<notin> set late_names" for kb
  proof -
    have "item_name (knob_item ?c kb) \<notin> item_name ` set ?late"
      using that(2) late_items_names(1) [of d "src r" token] by (auto simp: knob_item_def)
    then have "holds (fold assign (?ks @ ?late) e0) (knob_item ?c kb) = holds (fold assign ?ks e0) (knob_item ?c kb)"
      by (simp add: holds_earlier del: map_map)
    moreover have "distinct (map item_name ?ks)" using knob_names_distinct by (simp only: knob_item_names)
    ultimately show ?thesis using holds_last [of ?ks "knob_item ?c kb" "[]" e0] that(1) by simp
  qed
  have shown: "vars e (key_name (kkey kb)) = map_option (to_text kb) (?c (kkey kb))"
    if "kb \<in> set KNOBS" "holds e (knob_item ?c kb)" for kb e
    using that resolve_value_fits [OF res that(1)] by (auto simp: knob_item_def)
  show ?thesis
  proof (intro exI conjI)
    show "\<forall>i\<in>set (derived_items d). holds (fold assign (?ks @ ?late) e0) i"
      using late by (simp add: late_items_def)
    show "\<forall>t. token = Some t \<longrightarrow> vars (fold assign (?ks @ ?late) e0) ''GLM_CONFIG_ATTEMPT'' = Some t"
      using late [of "Var ''GLM_CONFIG_ATTEMPT'' t" for t] by (simp add: late_items_def)
    show "\<forall>kb\<in>set KNOBS. key_name (kkey kb) \<notin> set late_names \<longrightarrow>
        vars (fold assign (?ks @ ?late) e0) (key_name (kkey kb)) = map_option (to_text kb) (?c (kkey kb))"
      using knob shown by blast
  qed (rule d ls run)+
qed

theorem env_script_reads_back_witness:
  "\<exists>ls e. fst (cmd_env ''/workspace'' bare_host (Some ''one'') failing) = Some ls \<and>
     run_script ls \<lparr>vars = Map.empty, arrays = Map.empty\<rparr> = Some e \<and> vars e ''GLM_CONFIG_ATTEMPT'' = Some ''one''"
proof -
  obtain r where "resolve_with [] (\<lambda>_. None) [] bare_env = Inr r" using bare_resolves by blast
  then have "resolved_now bare_host failing = Inr r"
    by (simp add: resolved_now_def resolve_boot_def state_doc_def failing_def load_state_file_def bare_proc)
      (simp add: bare_host_def)
  from env_script_reads_back [OF this, of "''/workspace''" "Some ''one''" "\<lparr>vars = Map.empty, arrays = Map.empty\<rparr>"]
  show ?thesis by blast
qed

end
