(* ===== verification/Landing.thy ===== *)
theory Landing
  imports ConfigCli
begin

text \<open>
  The configuration requests of \<^verbatim>\<open>landing.py\<close>: reading a form or an imported document, and
  \<open>apply_values\<close>, the transaction that validates a candidate, persists it and asks for a restart. It
  runs under the same lock as the commands of \<open>ConfigCli\<close>, so it too is one step on the runtime files.
  An exception of the configuration code is caught by the request handler, which reports an internal
  error. The revision of a configuration (SHA-256 of its canonical JSON) is a parameter.
\<close>

section \<open>The editor's form\<close>

text \<open>What an untouched field submits: the option marked as selected (a browser takes the first option
  when none is), or the displayed text. A knob the family does not have has no field.\<close>

definition field_value :: "knob \<Rightarrow> pyval \<Rightarrow> string" where
  "field_value kb v = (case ktyp kb of
       TBool \<Rightarrow> if truthy v then ''1'' else ''0''
     | TChoice cs \<Rightarrow> (case find (\<lambda>c. py_str v = c) cs of Some c \<Rightarrow> c | None \<Rightarrow> hd cs)
     | _ \<Rightarrow> to_text kb v)"

definition rendered_fields :: "(dict \<Rightarrow> string) \<Rightarrow> resolved \<Rightarrow> (string \<times> string) list" where
  "rendered_fields revision r =
     (''config_revision'', revision (eff_dict (eff r)))
     # map (\<lambda>kb. (key_name (kkey kb), field_value kb (case eff r (kkey kb) of None \<Rightarrow> VNone | Some v \<Rightarrow> v)))
         (filter (\<lambda>kb. kedit kb \<and> src r (kkey kb) \<noteq> Some SNA) KNOBS)"

section \<open>What is submitted\<close>

text \<open>The first value of each field, as \<open>parse_qs\<close> returns it: blank values are dropped.\<close>

type_synonym form = "string \<Rightarrow> string option"

definition read_form :: "(string \<times> string) list \<Rightarrow> form" where
  "read_form ps = map_of (filter (\<lambda>p. snd p \<noteq> []) ps)"

fun form_knobs :: "form \<Rightarrow> knob list \<Rightarrow> dict \<times> cfg_error list" where
  "form_knobs f [] = ([], [])"
| "form_knobs f (kb # kbs) =
     (let (vs, errs) = form_knobs f kbs in
      if \<not> kedit kb then (vs, errs)
      else (case f (key_name (kkey kb)) of
              None \<Rightarrow> (vs, errs)
            | Some raw \<Rightarrow> (case coerce kb (VStr raw) of
                 Inr v \<Rightarrow> ((kkey kb, v) # vs, errs)
               | Inl e \<Rightarrow> (vs, e # errs))))"

definition form_values :: "form \<Rightarrow> dict \<times> cfg_error list" where
  "form_values f = form_knobs f KNOBS"

text \<open>An imported document is a JSON object, whose keys are distinct.\<close>

fun coerce_imported :: "dict \<Rightarrow> dict \<times> cfg_error list" where
  "coerce_imported [] = ([], [])"
| "coerce_imported ((k, raw) # rest) =
     (let (vs, errs) = coerce_imported rest in
      case knob_by_key k of
        None \<Rightarrow> (vs, errs)
      | Some kb \<Rightarrow>
          (if \<not> kedit kb then (vs, errs)
           else (case coerce kb raw of Inr v \<Rightarrow> ((k, v) # vs, errs) | Inl e \<Rightarrow> (vs, e # errs))))"

definition identity_fields :: "key list" where
  "identity_fields = [MODEL_FAMILY, MODEL_VARIANT, MODEL_ID]"

definition unchanged :: "dict \<Rightarrow> key \<times> pyval \<Rightarrow> bool" where
  "unchanged current p = py_eq (snd p) (get_or_none current (fst p))"

definition switches_profile :: "dict \<Rightarrow> dict \<Rightarrow> bool" where
  "switches_profile values current =
     list_ex (\<lambda>k. case map_of values k of None \<Rightarrow> False | Some v \<Rightarrow> \<not> unchanged current (k, v))
       [MODEL_FAMILY, MODEL_VARIANT]"

definition profile_switch_form_values :: "dict \<Rightarrow> dict \<Rightarrow> dict" where
  "profile_switch_form_values values current =
     (if \<not> switches_profile values current then values
      else filter (\<lambda>p. List.member identity_fields (fst p) \<or> \<not> unchanged current p) values)"

section \<open>The transaction\<close>

datatype verdict =
    Forbidden | Raised | StaleForm | Invalid "finding list"
  | NoChange "finding list" "key list" | Applied "finding list" "key list"

text \<open>The page's view of the host: its own environment only.\<close>

definition page_context :: "'h host \<Rightarrow> bool \<Rightarrow> key list \<Rightarrow> check_context" where
  "page_context h vision ks =
     \<lparr>gpu_count = (case shell h ''GLM_GPU_COUNT'' of None \<Rightarrow> None | Some t \<Rightarrow> py_int t),
      vision_available = Some vision, state_keys = ks\<rparr>"

definition commit :: "string \<Rightarrow> bool \<Rightarrow> dict \<Rightarrow> 'h runtime \<Rightarrow> 'h runtime" where
  "commit now_iso reset minimal s =
     s\<lparr>p_state := (if reset then None else Some \<lparr>raw_doc = Wrapped minimal, raw_meta = now_iso\<rparr>),
       p_apply := \<lparr>mode = ''trial'', since = Some now_iso, failed_ts = None,
                   detail = ''restarting into a candidate configuration'', restored = None,
                   baseline_ts = map_option g_ts (p_known_good s)\<rparr>,
       p_restart := Some ''landing-page''\<rparr>"

definition apply_values ::
    "(dict \<Rightarrow> string) \<Rightarrow> 'h host \<Rightarrow> bool \<Rightarrow> string \<Rightarrow> bool \<Rightarrow> string option \<Rightarrow> bool \<Rightarrow> dict \<Rightarrow> 'h runtime
       \<Rightarrow> verdict \<times> 'h runtime" where
  "apply_values revision h vision now_iso form_submission form_revision reset values s =
     (case check_forbidden values of
        Inl _ \<Rightarrow> (Forbidden, s)
      | Inr _ \<Rightarrow>
     (case resolved_now h s of
        Inl _ \<Rightarrow> (Raised, s)
      | Inr cur \<Rightarrow>
     (let current = eff_dict (eff cur) in
      if (form_submission \<or> form_revision \<noteq> None)
         \<and> (case form_revision of None \<Rightarrow> [] | Some x \<Rightarrow> x) \<noteq> revision current
      then (StaleForm, s)
      else
     (case minimize (proc h) (startup h)
             (if form_submission then profile_switch_form_values values current else values) of
        Inl _ \<Rightarrow> (Raised, s)
      | Inr (minimal, dropped) \<Rightarrow>
     (case resolve (proc h) minimal (startup h) of
        Inl _ \<Rightarrow> (Raised, s)
      | Inr new \<Rightarrow>
     (let findings = validate (eff new) (page_context h vision (map fst minimal)) in
      if errors findings \<noteq> [] then (Invalid findings, s)
      else if \<not> reset \<and> diff current (eff_dict (eff new)) = [] then (NoChange findings dropped, s)
      else (Applied findings dropped, commit now_iso reset minimal s)))))))"

section \<open>The requests\<close>

text \<open>What a request carries; the document of an import is \<open>None\<close> when it is not an object.\<close>

datatype request =
    ApplyForm "(string \<times> string) list" | Import "dict option" "string option" | Reset "string option" | Restart

datatype response =
    Answer verdict | BadFields "cfg_error list" | BadDocument | RestartRequested

text \<open>The revision field of a form; a missing one is the empty text.\<close>

definition sent_revision :: "string option \<Rightarrow> string option" where
  "sent_revision r = Some (case r of None \<Rightarrow> [] | Some x \<Rightarrow> x)"

definition handle_post ::
    "(dict \<Rightarrow> string) \<Rightarrow> 'h host \<Rightarrow> bool \<Rightarrow> string \<Rightarrow> request \<Rightarrow> 'h runtime \<Rightarrow> response \<times> 'h runtime" where
  "handle_post revision h vision now_iso q s =
     (case q of
        ApplyForm ps \<Rightarrow>
          (let f = read_form ps; (values, errs) = form_values f in
           if errs \<noteq> [] then (BadFields errs, s)
           else (let (out, t) = apply_values revision h vision now_iso True
                   (sent_revision (f ''config_revision'')) False values s
                 in (Answer out, t)))
      | Import None _ \<Rightarrow> (BadDocument, s)
      | Import (Some doc) tag \<Rightarrow>
          (let (values, errs) = coerce_imported doc in
           if errs \<noteq> [] then (BadFields errs, s)
           else (let (out, t) = apply_values revision h vision now_iso False (sent_revision tag) False values s
                 in (Answer out, t)))
      | Reset tag \<Rightarrow>
          (let (out, t) = apply_values revision h vision now_iso False (sent_revision tag) True [] s in (Answer out, t))
      | Restart \<Rightarrow> (RestartRequested, s\<lparr>p_restart := Some ''manual''\<rparr>))"

end
