(* ===== verification/LandingTheorems.thy ===== *)
theory LandingTheorems
  imports Landing RollbackLoop KnobNames
begin

text \<open>
  The transaction of the landing page: what is written has been validated and is what the next boot
  resolves to, a form that was rendered from an older configuration is refused, and a switch of profile
  does not pin the displayed values of the old one.
\<close>

section \<open>Reading the form\<close>

lemma form_knobs_keys: "fst ` set (fst (form_knobs f ks)) \<subseteq> kkey ` set ks"
proof (induction ks)
  case (Cons kb ks)
  obtain vs es where "form_knobs f ks = (vs, es)" by fastforce
  with Cons show ?case by (auto split: option.splits sum.splits simp: subset_insertI2)
qed simp

lemma form_knobs_distinct: "distinct (map kkey ks) \<Longrightarrow> distinct (map fst (fst (form_knobs f ks)))"
proof (induction ks)
  case (Cons kb ks)
  obtain vs es where "form_knobs f ks = (vs, es)" by fastforce
  moreover have "kkey kb \<notin> fst ` set (fst (form_knobs f ks))"
    using form_knobs_keys [of f ks] Cons.prems by auto
  ultimately show ?case using Cons by (auto split: option.splits sum.splits)
qed simp

text \<open>What one field is read as.\<close>

definition field_read :: "form \<Rightarrow> knob \<Rightarrow> pyval option" where
  "field_read f kb = (if \<not> kedit kb then None else case f (key_name (kkey kb)) of None \<Rightarrow> None
     | Some raw \<Rightarrow> (case coerce kb (VStr raw) of Inr v \<Rightarrow> Some v | Inl _ \<Rightarrow> None))"

lemma form_knobs_at:
  assumes "distinct (map kkey ks)" and "kb \<in> set ks"
  shows "map_of (fst (form_knobs f ks)) (kkey kb) = field_read f kb"
  using assms
proof (induction ks)
  case (Cons k ks)
  obtain vs es where fk: "form_knobs f ks = (vs, es)" by fastforce
  have "map_of (fst (form_knobs f ks)) (kkey k) = None"
    using Cons.prems(1) form_knobs_keys [of f ks] by (auto simp: map_of_eq_None_iff)
  moreover have "kb \<noteq> k \<Longrightarrow> kkey kb \<noteq> kkey k" using Cons.prems by (auto simp: image_iff)
  ultimately show ?case using Cons fk
    by (cases "kb = k") (auto simp: field_read_def split: option.splits sum.splits)
qed simp

lemma form_values_at: "kb \<in> set KNOBS \<Longrightarrow> map_of (fst (form_values f)) (kkey kb) = field_read f kb"
  by (simp add: form_values_def form_knobs_at knob_keys_distinct)

lemma form_values_unique: "map_of (fst (form_values f)) k = Some w \<longleftrightarrow> (k, w) \<in> set (fst (form_values f))"
  using form_knobs_distinct [OF knob_keys_distinct] by (simp add: form_values_def)

lemma form_values_allowed: "check_forbidden (fst (form_values f)) = Inr ()"
proof -
  have "map_of (fst (form_values f)) k = None" if "k \<in> set FORBIDDEN_STATE_KEYS" for k
    using form_knobs_keys [of f KNOBS] forbidden_unregistered [OF that]
    by (auto simp: form_values_def map_of_eq_None_iff)
  then have "find (\<lambda>k. map_of (fst (form_values f)) k \<noteq> None) FORBIDDEN_STATE_KEYS = None"
    by (auto simp: find_None_iff)
  then show ?thesis by (simp add: check_forbidden_def)
qed

section \<open>Minimizing nothing\<close>

lemma fold_silent: "fold_result (minimize_knob fam bad vb []) ks acc = Inr acc"
  by (induction ks) (simp_all add: minimize_knob_def)

lemma minimize_nothing:
  assumes "minimize e d [] = Inr (out, dropped)"
  shows "out = []"
proof -
  obtain fam where fam: "resolve_family [] (layer d) = Inr fam"
    using assms by (cases "resolve_family [] (layer d)") (auto simp: minimize_def base_result_def)
  show ?thesis
  proof (rule minimizeE [OF assms fam])
    fix base unfiled var_base bd sel heads
    assume bd: "bd = d\<lparr>layer := baseline_env (layer d)\<rparr>"
      and base: "resolve_with [] e [(MODEL_FAMILY, VStr fam)] bd = Inr base"
      and unf: "resolve_with [] e [] bd = Inr unfiled"
      and sel: "sel = selected_of [] (case eff base MODEL_VARIANT of None \<Rightarrow> VNone | Some v \<Rightarrow> v)"
      and heads: "heads = (if Some (VStr fam) \<noteq> eff unfiled MODEL_FAMILY then [(MODEL_FAMILY, VStr fam)] else [])
             @ (if Some sel \<noteq> eff base MODEL_VARIANT then [(MODEL_VARIANT, sel)] else [])"
      and out: "out = heads @ List.map_filter (written fam (invalid_env_keys (layer d)) (eff var_base) []) KNOBS"
    have "resolve_family [] (layer bd) = Inr fam" by (simp add: bd resolve_family_baseline fam)
    then have "eff unfiled MODEL_FAMILY = Some (VStr fam)" by (rule resolve_reports_family [OF unf])
    moreover obtain kv where "kv \<in> set KNOBS" "kkey kv = MODEL_VARIANT" by (rule variant_knob)
    then have "eff base MODEL_VARIANT \<noteq> None" using resolve_value_fits [OF base, of kv] by auto
    then have "Some sel = eff base MODEL_VARIANT" by (auto simp: sel selected_of_def)
    moreover have "List.map_filter (written fam bad vb []) KNOBS = []" for bad vb
      by (simp add: List.map_filter_def filter_empty_conv written_def offer_def)
    ultimately show ?thesis using heads out by simp
  qed
qed

text \<open>Apart from the selectors, a minimized file only holds keys of the candidate.\<close>

lemma minimized_key_submitted:
  assumes "minimize e d vs = Inr (out, dropped)" and "k \<in> fst ` set out" and "k \<notin> {MODEL_FAMILY, MODEL_VARIANT}"
  shows "\<exists>v. map_of vs k = Some v"
proof -
  obtain fam where fam: "resolve_family vs (layer d) = Inr fam"
    using assms(1) by (cases "resolve_family vs (layer d)") (auto simp: minimize_def base_result_def)
  show ?thesis
  proof (rule minimizeE [OF assms(1) fam])
    fix base unfiled var_base bd sel heads
    assume heads: "heads = (if Some (VStr fam) \<noteq> eff unfiled MODEL_FAMILY then [(MODEL_FAMILY, VStr fam)] else [])
             @ (if Some sel \<noteq> eff base MODEL_VARIANT then [(MODEL_VARIANT, sel)] else [])"
      and out: "out = heads @ List.map_filter (written fam (invalid_env_keys (layer d)) (eff var_base) vs) KNOBS"
    have "k \<notin> fst ` set heads" using assms(3) by (auto simp: heads split: if_splits)
    with assms(2) obtain kb p where "written fam (invalid_env_keys (layer d)) (eff var_base) vs kb = Some p" "fst p = k"
      by (auto simp: out List.map_filter_def)
    then show ?thesis by (auto simp: written_def offer_def split: option.splits if_splits)
  qed
qed

section \<open>What an accepted request commits\<close>

lemma applied_cases:
  assumes "apply_values revision h vision now fs rv reset values s = (out, s')"
  obtains (kept) "s' = s" "\<forall>a b. out \<noteq> Applied a b"
  | (applied) cur minimal dropped new where "resolved_now h s = Inr cur"
      "\<not> ((fs \<or> rv \<noteq> None) \<and> (case rv of None \<Rightarrow> [] | Some x \<Rightarrow> x) \<noteq> revision (eff_dict (eff cur)))"
      "minimize (proc h) (startup h)
         (if fs then profile_switch_form_values values (eff_dict (eff cur)) else values) = Inr (minimal, dropped)"
      "resolve (proc h) minimal (startup h) = Inr new"
      "errors (validate (eff new) (page_context h vision (map fst minimal))) = []"
      "reset \<or> diff (eff_dict (eff cur)) (eff_dict (eff new)) \<noteq> []"
      "out = Applied (validate (eff new) (page_context h vision (map fst minimal))) dropped"
      "s' = commit now reset minimal s"
proof (cases "\<exists>a b. out = Applied a b")
  case False
  have "s' = s"
    using assms False by (auto simp: apply_values_def Let_def split: sum.splits if_splits)
  with False kept show thesis by blast
next
  case True
  with assms applied show thesis
    by (auto simp: apply_values_def Let_def split: sum.splits if_splits)
qed

lemma committed_resolves:
  assumes "resolve (proc h) minimal (startup h) = Inr new" and "load_state_file (Wrapped minimal) = Inr minimal"
    and "reset \<Longrightarrow> minimal = []"
  shows "resolved_now h (commit now reset minimal s) = Inr new" "state_values (commit now reset minimal s) = minimal"
  using assms
  by (auto simp: resolved_now_def resolve_boot_def resolve_def commit_def state_doc_def state_values_def load_state_file_def)


section \<open>Stale forms\<close>

text \<open>C22: of two forms rendered from the same configuration, the second is refused once the first has been
  applied, as long as the revisions of the two configurations differ: the page never overwrites a change
  it did not show.\<close>

theorem second_form_is_stale:
  assumes "handle_post revision h vision now q s = (Answer (Applied fs ks), s')" and "\<And>tag. q \<noteq> Reset tag"
    and "resolved_now h s = Inr cur" and "resolved_now h s' = Inr new"
    and "revision (eff_dict (eff cur)) = revision (eff_dict (eff new)) \<Longrightarrow> eff_dict (eff cur) = eff_dict (eff new)"
    and "read_form ps ''config_revision'' = Some (revision (eff_dict (eff cur)))"
    and "snd (form_values (read_form ps)) = []"
  shows "handle_post revision h vision now' (ApplyForm ps) s' = (Answer StaleForm, s')"
proof -
  obtain fs' rv vs where a: "apply_values revision h vision now fs' rv False vs s = (Applied fs ks, s')"
    using assms(1) by (auto simp: handle_post_def Let_def assms(2) split: request.splits option.splits prod.splits if_splits)
  obtain minimal dropped res where m: "minimize (proc h) (startup h)
      (if fs' then profile_switch_form_values vs (eff_dict (eff cur)) else vs) = Inr (minimal, dropped)"
    and r: "resolve (proc h) minimal (startup h) = Inr res"
    and d: "diff (eff_dict (eff cur)) (eff_dict (eff res)) \<noteq> []" and s': "s' = commit now False minimal s"
    using a by (cases rule: applied_cases) (use assms(3) in auto)
  have "resolved_now h s' = Inr res"
    unfolding s' by (rule committed_resolves(1) [OF r minimized_file_loads [OF m]]) simp
  with assms(4) have res: "res = new" by simp
  have "eff_dict (eff cur) \<noteq> eff_dict (eff new)"
  proof
    assume eq: "eff_dict (eff cur) = eff_dict (eff new)"
    obtain ns sv where "resolve_with ns (proc h) sv (startup h) = Inr new"
      using r by (auto simp: resolve_def res)
    with d eq resolved_diff_self show False by (metis res)
  qed
  then have "revision (eff_dict (eff cur)) \<noteq> revision (eff_dict (eff new))" using assms(5) by blast
  moreover obtain vs' where "form_values (read_form ps) = (vs', [])" using assms(7) by (metis prod.collapse)
  moreover from this have "check_forbidden vs' = Inr ()" using form_values_allowed [of "read_form ps"] by simp
  ultimately show ?thesis
    using assms(4,6) by (simp add: handle_post_def apply_values_def sent_revision_def Let_def)
qed

section \<open>Profile switches\<close>

text \<open>When a submitted form switches the profile, the only other values it writes are the ones the user
  changed: every other key of the file is one whose submitted value differs from the value in force, so
  nothing the page merely displayed outranks the new profile.\<close>

lemma profile_switch_unpins:
  assumes "handle_post revision h vision now (ApplyForm ps) s = (Answer (Applied fs ks), s')"
    and "resolved_now h s = Inr cur"
    and "switches_profile (fst (form_values (read_form ps))) (eff_dict (eff cur))"
  shows "\<forall>k\<in>fst ` set (state_values s'). k \<in> set identity_fields \<or>
    (\<exists>v. map_of (fst (form_values (read_form ps))) k = Some v \<and>
         \<not> py_eq v (get_or_none (eff_dict (eff cur)) k))"
proof
  fix k assume k: "k \<in> fst ` set (state_values s')"
  let ?vs = "fst (form_values (read_form ps))" and ?cur = "eff_dict (eff cur)"
  have "apply_values revision h vision now True (sent_revision (read_form ps ''config_revision'')) False ?vs s
      = (Applied fs ks, s')"
    using assms(1) by (auto simp: handle_post_def Let_def split: prod.splits if_splits)
  then obtain minimal dropped new where
    m: "minimize (proc h) (startup h) (profile_switch_form_values ?vs ?cur) = Inr (minimal, dropped)"
    and r: "resolve (proc h) minimal (startup h) = Inr new" and s': "s' = commit now False minimal s"
    by (cases rule: applied_cases) (use assms(2) in auto)
  have st: "state_values s' = minimal"
    unfolding s' by (rule committed_resolves(2) [OF r minimized_file_loads [OF m]]) simp
  show "k \<in> set identity_fields \<or> (\<exists>v. map_of ?vs k = Some v \<and> \<not> py_eq v (get_or_none ?cur k))"
  proof (cases "k \<in> {MODEL_FAMILY, MODEL_VARIANT}")
    case False
    then obtain v where "map_of (profile_switch_form_values ?vs ?cur) k = Some v"
      using minimized_key_submitted [OF m] k st by blast
    then have "(k, v) \<in> set (profile_switch_form_values ?vs ?cur)" by (rule map_of_SomeD)
    then have "(k, v) \<in> set ?vs" "k \<in> set identity_fields \<or> \<not> unchanged ?cur (k, v)"
      using assms(3) by (auto simp: profile_switch_form_values_def)
    then show ?thesis using form_values_unique by (auto simp: unchanged_def)
  qed (auto simp: identity_fields_def)
qed

section \<open>The untouched form\<close>

lemma map_of_fields:
  assumes "distinct (map n xs)" and "x \<in> set xs"
  shows "map_of (filter Q (map (\<lambda>x. (n x, g x)) (filter P xs))) (n x) =
    (if P x \<and> Q (n x, g x) then Some (g x) else None)"
  using assms
proof (induction xs)
  case (Cons y ys)
  have "map_of (filter Q (map (\<lambda>x. (n x, g x)) (filter P ys))) (n y) = None"
    using Cons.prems(1) by (auto simp: map_of_eq_None_iff)
  moreover have "x \<noteq> y \<Longrightarrow> n x \<noteq> n y" using Cons.prems by (auto simp: image_iff)
  ultimately show ?case using Cons by (cases "x = y") auto
qed simp

lemma field_value_text: "fits (ktyp kb) v \<Longrightarrow> field_value kb v = to_text kb v"
  by (cases "ktyp kb") (auto simp: field_value_def to_text_def fits_def py_str_def find_Some_iff find_None_iff
      split: option.splits)

lemma blank_text:
  assumes "fits (ktyp kb) v" and "\<And>lo hi a b. ktyp kb \<noteq> TFloat lo hi a b"
  shows "to_text kb v = [] \<longleftrightarrow> v = VStr []"
  using assms
  by (cases "ktyp kb") (auto simp: to_text_def fits_def py_str_def show_int_nonempty split: if_splits)

text \<open>C34: submitting the editor's form untouched reads every displayed value back exactly, with two
  exceptions: a float is read back from six digits, and a knob whose value is the empty text is not
  submitted at all, as if its field were not there.\<close>

theorem rendered_form_reads_back:
  assumes "resolve_with ns e sv d = Inr r" and "kb \<in> set KNOBS"
    and "\<forall>lo hi a b. ktyp kb \<noteq> TFloat lo hi a b"
  shows "map_of (fst (form_values (read_form (rendered_fields revision r)))) (kkey kb) =
    (if src r (kkey kb) = Some SNA \<or> eff r (kkey kb) = Some (VStr []) then None else eff r (kkey kb))"
proof -
  obtain v where v: "eff r (kkey kb) = Some v" "fits (ktyp kb) v \<or> kkey kb = DCP \<and> src r DCP = Some SNA"
    using resolve_value_fits [OF assms(1,2)] by blast
  have edit: "kedit kb" using knobs_editable assms(2) by (simp add: list_all_iff)
  have fresh: "key_name (kkey kb) \<noteq> ''config_revision''"
  proof -
    have "''config_revision'' \<notin> set knob_names" by (simp add: knob_names_def)
    then show ?thesis using assms(2) unfolding knob_names_eq [symmetric] by (metis (mono_tags, lifting) image_eqI image_set)
  qed
  have at: "read_form (rendered_fields revision r) (key_name (kkey kb)) =
      (if src r (kkey kb) \<noteq> Some SNA \<and> field_value kb v \<noteq> [] then Some (field_value kb v) else None)"
    using fresh edit v(1) unfolding read_form_def rendered_fields_def
    by (simp add: map_of_fields [OF distinct_names assms(2)])
  show ?thesis
  proof (cases "src r (kkey kb) = Some SNA")
    case False
    with v(2) have f: "fits (ktyp kb) v" by auto
    have "coerce kb (VStr (to_text kb v)) = Inr v" by (rule coerce_to_text [OF f]) (use assms(3) in auto)
    moreover have "to_text kb v = [] \<longleftrightarrow> v = VStr []" by (rule blank_text [OF f]) (use assms(3) in auto)
    ultimately show ?thesis
      using False v(1) edit by (simp add: form_values_at [OF assms(2)] field_read_def at field_value_text [OF f])
  qed (simp add: form_values_at [OF assms(2)] field_read_def at)
qed

section \<open>Instances\<close>

text \<open>The bare template, and a form that selects the 3.25 bpw profile.\<close>

definition pick :: "(string \<times> string) list" where
  "pick = [(''config_revision'', ''old''), (''MODEL_VARIANT'', selected_name)]"

definition by_variant :: "dict \<Rightarrow> string" where
  "by_variant d = (if map_of d MODEL_VARIANT = Some (VStr ''exl3-tr3'') then ''old'' else ''new'')"

abbreviation picked :: dict where "picked \<equiv> [(MODEL_VARIANT, VStr selected_name)]"

lemma form_knobs_silent:
  "(\<And>kb. kb \<in> set ks \<Longrightarrow> f (key_name (kkey kb)) = None) \<Longrightarrow> form_knobs f ks = ([], [])"
  by (induction ks) auto

lemma form_knobs_append: "form_knobs f (xs @ ys) =
    (fst (form_knobs f xs) @ fst (form_knobs f ys), snd (form_knobs f xs) @ snd (form_knobs f ys))"
  by (induction xs) (auto simp: Let_def split: prod.splits option.splits sum.splits)

lemma pick_form: "read_form pick n = (if n = ''config_revision'' then Some ''old''
    else if n = ''MODEL_VARIANT'' then Some selected_name else None)"
  by (simp add: pick_def read_form_def)

lemma pick_values: "form_values (read_form pick) = (picked, [])"
proof -
  obtain kv where kv: "kv \<in> set KNOBS" "kkey kv = MODEL_VARIANT" "ktyp kv = TChoice (map fst VARIANTS)"
    by (metis variant_knob)
  from kv(1) obtain xs ys where split: "KNOBS = xs @ kv # ys" by (meson split_list)
  have name: "key_name (kkey kb) \<noteq> ''config_revision''" if "kb \<in> set KNOBS" for kb
  proof -
    have "''config_revision'' \<notin> set knob_names" by (simp add: knob_names_def)
    then show ?thesis using that unfolding knob_names_eq [symmetric] by (metis (mono_tags, lifting) image_eqI image_set)
  qed
  have "key_name (kkey kb) \<noteq> ''MODEL_VARIANT''" if "kb \<in> set xs \<union> set ys" for kb
    using distinct_names that kv(2) unfolding split by (auto simp: image_iff)
  then have "form_knobs (read_form pick) xs = ([], [])" "form_knobs (read_form pick) ys = ([], [])"
    using name unfolding split by (auto intro!: form_knobs_silent simp: pick_form)
  moreover have "kedit kv" using knobs_editable kv(1) by (simp add: list_all_iff)
  moreover have "coerce kv (VStr selected_name) = Inr (VStr selected_name)"
    by (rule coerce_fixes) (simp add: kv(3) variant_name_fits)
  ultimately show ?thesis
    by (simp add: form_values_def split form_knobs_append pick_form kv(2))
qed

lemma picked_minimizes: "minimize (\<lambda>_. None) bare_env picked = Inr (picked, [])"
proof -
  let ?fam = "[(MODEL_FAMILY, VStr ''glm52'')]"
  have safe: "safe_selectors ?fam" "safe_selectors []" "safe_selectors picked"
    using glm_fits variant_name_fits by (simp_all add: safe_selectors_def)
  have famp: "resolve_family picked (layer bare_env) = Inr ''glm52''"
    using safe_selectors_pass [OF safe(3) bare_family] by (simp add: family_step_def bare_env_def)
  have fam: "resolve_family ?fam (layer bare_env) = Inr ''glm52''"
    using safe_selectors_pass [OF safe(1) bare_family] family_step_fits [OF glm_fits, of ?fam] by simp
  obtain base where base: "resolve_with [] (\<lambda>_. None) ?fam bare_env = Inr base"
    using selector_state_resolves [OF safe(1)] by auto
  obtain unfiled where unf: "resolve_with [] (\<lambda>_. None) [] bare_env = Inr unfiled"
    using selector_state_resolves [OF safe(2)] by auto
  obtain vb where vb: "resolve_with [] (\<lambda>_. None) (?fam @ picked) bare_env = Inr vb"
    using selected_in_force [OF selects_states(2)] by (metis append_Cons append_Nil)
  obtain kv where kv: "knob_by_key MODEL_VARIANT = Some kv" "ktyp kv = TChoice (map fst VARIANTS)" by (rule variant_knob)
  have sel: "selected_of picked w = VStr selected_name" for w
    using coerce_fixes [of kv "VStr selected_name"] variant_name_fits by (simp add: selected_of_def kv)
  have loop: "fold_result (minimize_knob ''glm52'' [] vs picked) ks acc = Inr acc" for vs ks acc
    by (induction ks) (simp_all add: minimize_knob_def)
  have "eff unfiled MODEL_FAMILY = Some (VStr ''glm52'')"
    by (rule resolve_reports_family [OF unf bare_family])
  moreover have "eff base MODEL_VARIANT = Some (VStr ''exl3-tr3'')"
    by (rule default_variant [OF base fam]) simp
  ultimately show ?thesis
    using vb by (simp add: minimize_def famp bare_baseline bare_invalid resolve_def base unf sel base_result_def loop)
qed

lemma pick_applies:
  obtains cur new fs where "resolved_now bare_host failing = Inr cur" "eff cur MODEL_VARIANT = Some (VStr ''exl3-tr3'')"
    and "handle_post by_variant bare_host vision now (ApplyForm pick) failing
           = (Answer (Applied fs []), commit now False picked failing)"
    and "resolved_now bare_host (commit now False picked failing) = Inr new"
    and "eff new MODEL_VARIANT = Some (VStr selected_name)"
proof -
  obtain r where r: "resolve_with [] (\<lambda>_. None) [] bare_env = Inr r" using bare_resolves by blast
  have v: "eff r MODEL_VARIANT = Some (VStr ''exl3-tr3'')"
    by (rule default_variant [OF r bare_family]) simp
  have now: "resolved_now bare_host failing = Inr r"
    by (simp add: resolved_now_def resolve_boot_def state_doc_def failing_def load_state_file_def bare_proc r)
      (simp add: bare_host_def r)
  obtain kv where kv: "kv \<in> set KNOBS" "kkey kv = MODEL_VARIANT" by (rule variant_knob)
  obtain n where n: "resolve_with [] (\<lambda>_. None) picked bare_env = Inr n"
    and t: "\<And>k. map_of table_3_25bpw k \<noteq> None \<Longrightarrow> eff n k = map_of table_3_25bpw k"
    by (rule selected_in_force [OF selects_states(1)]) blast
  have nv: "eff n MODEL_VARIANT = Some (VStr selected_name)" using t [of MODEL_VARIANT] by (simp add: table_3_25bpw_def)
  have "map_of (eff_dict (eff r)) MODEL_VARIANT = Some (VStr ''exl3-tr3'')"
       "map_of (eff_dict (eff n)) MODEL_VARIANT = Some (VStr selected_name)"
    using eff_dict_at [OF kv(1)] by (simp_all add: kv(2) v nv)
  then have rev: "by_variant (eff_dict (eff r)) = ''old''"
    and "\<not> py_eq (get_or_none (eff_dict (eff r)) MODEL_VARIANT) (get_or_none (eff_dict (eff n)) MODEL_VARIANT)"
    by (simp_all add: by_variant_def get_or_none_def py_eq_def)
  then have d: "diff (eff_dict (eff r)) (eff_dict (eff n)) \<noteq> []" unfolding diff_empty_iff using kv by metis
  have clean: "errors (validate (eff n) (page_context bare_host vision [MODEL_VARIANT])) = []"
    by (rule table_3_25bpw_clean [OF t]) (simp_all add: page_context_def bare_host_def)
  have kept: "profile_switch_form_values picked c = picked" for c
    by (simp add: profile_switch_form_values_def identity_fields_def)
  have "check_forbidden picked = Inr ()" by (simp add: check_forbidden_def FORBIDDEN_STATE_KEYS_def)
  then have "handle_post by_variant bare_host vision now (ApplyForm pick) failing
      = (Answer (Applied (validate (eff n) (page_context bare_host vision [MODEL_VARIANT])) []), commit now False picked failing)"
    using picked_minimizes n d clean rev now
    by (simp add: handle_post_def apply_values_def pick_values pick_form sent_revision_def Let_def kept bare_proc
        resolve_def bare_host_def [THEN arg_cong [where f = startup], simplified])
  moreover have "resolve (proc bare_host) picked (startup bare_host) = Inr n"
    using n by (simp add: resolve_def bare_proc) (simp add: bare_host_def)
  then have "resolved_now bare_host (commit now False picked failing) = Inr n"
    by (rule committed_resolves(1)) (use minimized_file_loads [OF picked_minimizes] in auto)
  ultimately show thesis using that now v nv by blast
qed


theorem second_form_is_stale_witness:
  "\<exists>fs s'. handle_post by_variant bare_host False ''2026'' (ApplyForm pick) failing = (Answer (Applied fs []), s') \<and>
     handle_post by_variant bare_host False ''2027'' (ApplyForm pick) s' = (Answer StaleForm, s')"
proof -
  obtain cur new fs where c: "resolved_now bare_host failing = Inr cur" "eff cur MODEL_VARIANT = Some (VStr ''exl3-tr3'')"
    and a: "handle_post by_variant bare_host False ''2026'' (ApplyForm pick) failing
           = (Answer (Applied fs []), commit ''2026'' False picked failing)"
    and n: "resolved_now bare_host (commit ''2026'' False picked failing) = Inr new"
    and nv: "eff new MODEL_VARIANT = Some (VStr selected_name)" by (rule pick_applies)
  obtain kv where kv: "kv \<in> set KNOBS" "kkey kv = MODEL_VARIANT" by (rule variant_knob)
  have "by_variant (eff_dict (eff cur)) = ''old''" "by_variant (eff_dict (eff new)) = ''new''"
    using eff_dict_at [OF kv(1)] by (simp_all add: kv(2) by_variant_def c(2) nv)
  then show ?thesis
    using a second_form_is_stale [OF a _ c(1) n, of pick "''2027''"] by (simp add: pick_form pick_values)
qed

lemma profile_switch_unpins_instance:
  "\<exists>fs s'. handle_post by_variant bare_host False ''2026'' (ApplyForm pick) failing = (Answer (Applied fs []), s') \<and>
     (\<forall>k\<in>fst ` set (state_values s'). k \<in> set identity_fields)"
proof -
  obtain cur fs where c: "resolved_now bare_host failing = Inr cur" "eff cur MODEL_VARIANT = Some (VStr ''exl3-tr3'')"
    and a: "handle_post by_variant bare_host False ''2026'' (ApplyForm pick) failing
           = (Answer (Applied fs []), commit ''2026'' False picked failing)" by (rule pick_applies)
  obtain kv where kv: "kv \<in> set KNOBS" "kkey kv = MODEL_VARIANT" by (rule variant_knob)
  have "switches_profile picked (eff_dict (eff cur))"
    using eff_dict_at [OF kv(1), of "eff cur"]
    by (simp add: switches_profile_def unchanged_def get_or_none_def kv(2) c(2) py_eq_def)
  from profile_switch_unpins [OF a c(1)] this a show ?thesis
    by (fastforce simp: pick_values identity_fields_def split: if_splits)
qed

theorem rendered_form_reads_back_witness:
  "\<exists>r. resolve_with [] (\<lambda>_. None) picked bare_env = Inr r \<and>
     map_of (fst (form_values (read_form (rendered_fields by_variant r)))) MODEL_VARIANT = Some (VStr selected_name)"
proof -
  obtain n where n: "resolve_with [] (\<lambda>_. None) picked bare_env = Inr n"
    and t: "\<And>k. map_of table_3_25bpw k \<noteq> None \<Longrightarrow> eff n k = map_of table_3_25bpw k"
    by (rule selected_in_force [OF selects_states(1)]) blast
  have nv: "eff n MODEL_VARIANT = Some (VStr selected_name)" using t [of MODEL_VARIANT] by (simp add: table_3_25bpw_def)
  obtain kv where kv: "kv \<in> set KNOBS" "kkey kv = MODEL_VARIANT" "ktyp kv = TChoice (map fst VARIANTS)"
    by (metis variant_knob)
  obtain fam where fam: "resolve_family picked (layer bare_env) = Inr fam"
    using n by (cases "resolve_family picked (layer bare_env)") (auto simp: resolve_with_def)
  have "list_all (\<lambda>kb. kkey kb = MODEL_VARIANT \<longrightarrow> applies_to kb fam) KNOBS"
    by (simp add: knob_tables applies_to_def)
  then have "applies_to kv fam" using kv by (simp add: list_all_iff)
  moreover obtain s v where "precedence fam (detected_gpu_count (\<lambda>_. None) bare_env) (layer bare_env) picked
        (selected_variant (eff n)) kv = Some (s, v)"
      and "src n MODEL_VARIANT = Some (if applies_to kv fam then s else SNA)"
    using resolve_precedence_all [OF n fam kv(1)] kv(2) by auto
  ultimately have "src n MODEL_VARIANT \<noteq> Some SNA"
    by (auto simp: precedence_def first_offer_override override_def split: option.splits)
  with rendered_form_reads_back [OF n kv(1), of by_variant] n nv show ?thesis by (simp add: kv(2,3))
qed

end
