(* ===== verification/Provider.thy ===== *)
theory Provider
  imports Switches Signatures Serve "HOL-Library.Char_ord" "HOL-Library.List_Lexorder"
begin

text \<open>
  \<^verbatim>\<open>scripts/provider.py\<close>: the transport that is the only way to a provider's API, and the adapters that
  identify the instance and destroy it. The services behind the transport and the \<open>runpodctl\<close> binary are
  parameters (\<open>net\<close>, \<open>runner\<close>) acting on a world of their own; what a reply's text parses to as JSON comes
  with the reply. The environments are those \<open>effective_env\<close> returned.
\<close>

section \<open>The transport\<close>

datatype payload = PNull | PBool bool | PInt int | PFlt pyfloat | PStr string | PArr "payload list"
  | PObj "(string \<times> payload) list"

record body =
  b_text :: string
  b_json :: "payload option"

text \<open>A status, or \<open>None\<close> and the error's text when there was no reply.\<close>

type_synonym reply = "int option \<times> body"

record http_request =
  rq_method :: string
  rq_url :: string
  rq_headers :: "(string \<times> string) list"
  rq_body :: string

datatype sent_result = DrySent | SentStatus int | SentError string

record sent_record =
  sr_method :: string
  sr_url :: string
  sr_headers :: "string list"
  sr_destructive :: bool
  sr_result :: sent_result

record transport =
  allow_destructive :: bool
  dry_run :: bool

record 'w link =
  world :: 'w
  sent :: "sent_record list"

text \<open>The service: an error's text, or a status and a body; it may change its world either way.\<close>

type_synonym 'w net = "http_request \<Rightarrow> 'w \<Rightarrow> (string + int \<times> body) \<times> 'w"

datatype fault = NotArmed | AssertFailed | NoAttribute

definition upper_char :: "char \<Rightarrow> char" where
  "upper_char c = (let n = (of_char c :: nat) in if 97 \<le> n \<and> n \<le> 122 then char_of (n - 32) else c)"

definition py_upper :: "string \<Rightarrow> string" where
  "py_upper s = map upper_char s"

definition DESTRUCTIVE_METHODS :: "string list" where
  "DESTRUCTIVE_METHODS = [''DELETE'', ''POST'', ''PUT'', ''PATCH'']"

text \<open>\<open>re.sub(r"(api_key|apiKey|token)=[^&]*", r"\1=REDACTED", url)\<close>\<close>

definition secret_names :: "string list" where
  "secret_names = [''api_key='', ''apiKey='', ''token='']"

definition upto_amp :: "string \<Rightarrow> string" where
  "upto_amp s = dropWhile (\<lambda>c. c \<noteq> CHR 0x26) s"

fun after_name :: "string list \<Rightarrow> string \<Rightarrow> (string \<times> string) option" where
  "after_name [] s = None"
| "after_name (n # ns) s = (case rest_after n s of Some r \<Rightarrow> Some (n, r) | None \<Rightarrow> after_name ns s)"

lemma rest_after_length: "rest_after n s = Some r \<Longrightarrow> length r = length s - length n \<and> length n \<le> length s"
  by (induction n s rule: rest_after.induct) (auto split: if_splits)

lemma after_name_length:
  "after_name ns s = Some (n, r) \<Longrightarrow> n \<in> set ns \<and> length r + length n = length s"
  by (induction ns) (auto dest: rest_after_length split: option.splits)

function redact :: "string \<Rightarrow> string" where
  "redact s = (case s of [] \<Rightarrow> []
     | c # cs \<Rightarrow> (case after_name secret_names s of
          None \<Rightarrow> c # redact cs
        | Some (n, r) \<Rightarrow> n @ ''REDACTED'' @ redact (upto_amp r)))"
  by pat_completeness auto

termination
proof (relation "measure length", goal_cases)
  case (3 s c cs x n r)
  have "n \<in> set secret_names" "length r + length n = length s"
    using after_name_length 3 by blast+
  then have "length r < length s" by (auto simp: secret_names_def)
  moreover have "length (upto_amp r) \<le> length r" by (simp add: upto_amp_def length_dropWhile_le)
  ultimately show ?case by simp
qed auto

declare redact.simps [simp del]

definition redacted_record :: "http_request \<Rightarrow> bool \<Rightarrow> sent_result \<Rightarrow> sent_record" where
  "redacted_record rq d out = \<lparr>sr_method = rq_method rq, sr_url = redact (rq_url rq),
     sr_headers = sort (map fst (rq_headers rq)), sr_destructive = d, sr_result = out\<rparr>"

text \<open>What a dry run answers with: \<open>json.dumps({"dry_run": True, **record})\<close>.\<close>

definition json_bool :: "bool \<Rightarrow> string" where
  "json_bool b = (if b then ''true'' else ''false'')"

definition dry_text :: "http_request \<Rightarrow> bool \<Rightarrow> string" where
  "dry_text rq d =
     ''{'' @ join_with '', ''
       [json_string ''dry_run'' @ '': true'',
        json_string ''method'' @ '': '' @ json_string (rq_method rq),
        json_string ''url'' @ '': '' @ json_string (redact (rq_url rq)),
        json_string ''headers'' @ '': ['' @ join_with '', '' (map json_string (sort (map fst (rq_headers rq)))) @ '']'',
        json_string ''destructive'' @ '': '' @ json_bool d] @ ''}''"

text \<open>The standard library refuses a status line whose number is outside 100 to 999; its error carries the
  line, of which the number is kept.\<close>

definition received :: "(string + int \<times> body) \<times> 'w \<Rightarrow> (string + int \<times> body) \<times> 'w" where
  "received r = (case r of (Inr (status, b), w) \<Rightarrow>
       (if 100 \<le> status \<and> status \<le> 999 then r else (Inl (show_int status), w)) | _ \<Rightarrow> r)"

definition http_call ::
    "'w net \<Rightarrow> transport \<Rightarrow> http_request \<Rightarrow> bool option \<Rightarrow> 'w link \<Rightarrow> (fault + reply) \<times> 'w link" where
  "http_call net t rq declared k =
     (let d = (case declared of Some b \<Rightarrow> b
                | None \<Rightarrow> List.member DESTRUCTIVE_METHODS (py_upper (rq_method rq))) in
      if d \<and> \<not> allow_destructive t then (Inl NotArmed, k)
      else if dry_run t
      then (Inr (Some 0, \<lparr>b_text = dry_text rq d, b_json = None\<rparr>),
            k\<lparr>sent := sent k @ [redacted_record rq d DrySent]\<rparr>)
      else (case received (net rq (world k)) of
          (Inr (status, b), w) \<Rightarrow>
            (Inr (Some status, b), \<lparr>world = w, sent = sent k @ [redacted_record rq d (SentStatus status)]\<rparr>)
        | (Inl e, w) \<Rightarrow>
            (Inr (None, \<lparr>b_text = e, b_json = None\<rparr>),
             \<lparr>world = w, sent = sent k @ [redacted_record rq d (SentError e)]\<rparr>)))"

section \<open>The adapters\<close>

datatype provider = VastAI | RunPod | JarvisLabs | UnknownProvider

fun supported :: "provider \<Rightarrow> bool" where
  "supported UnknownProvider = False"
| "supported _ = True"

text \<open>\<open>(env.get(a) or env.get(b) or "")\<close>: the first variable that is not empty.\<close>

fun first_set :: "env \<Rightarrow> string list \<Rightarrow> string" where
  "first_set e [] = []"
| "first_set e (n # ns) = (if env_get e n \<noteq> [] then env_get e n else first_set e ns)"

fun id_variable :: "provider \<Rightarrow> string list" where
  "id_variable VastAI = [''CONTAINER_ID'']"
| "id_variable RunPod = [''RUNPOD_POD_ID'']"
| "id_variable JarvisLabs = [''JARVISLABS_MACHINE_ID'']"
| "id_variable UnknownProvider = []"

fun key_variables :: "provider \<Rightarrow> string list" where
  "key_variables VastAI = [''VAST_API_KEY'', ''CONTAINER_API_KEY'']"
| "key_variables RunPod = [''RUNPOD_TERMINATE_API_KEY'', ''RUNPOD_API_KEY'']"
| "key_variables JarvisLabs = [''JARVISLABS_TERMINATE_API_KEY'', ''JARVISLABS_API_KEY'', ''JL_API_KEY'']"
| "key_variables UnknownProvider = []"

definition instance_id :: "provider \<Rightarrow> env \<Rightarrow> string" where
  "instance_id p e = py_strip (first_set e (id_variable p))"

definition api_key :: "provider \<Rightarrow> env \<Rightarrow> string" where
  "api_key p e = py_strip (first_set e (key_variables p))"

text \<open>The variable the key came from; the parenthetical remark of the text is left out.\<close>

definition key_source :: "provider \<Rightarrow> env \<Rightarrow> string" where
  "key_source p e = (case find (\<lambda>n. env_get e n \<noteq> []) (key_variables p) of None \<Rightarrow> [] | Some n \<Rightarrow> n)"

definition ascii_letter :: "char \<Rightarrow> bool" where
  "ascii_letter c = (let n = (of_char c :: nat) in 65 \<le> n \<and> n \<le> 90 \<or> 97 \<le> n \<and> n \<le> 122)"

definition ascii_digit :: "char \<Rightarrow> bool" where
  "ascii_digit c = (let n = (of_char c :: nat) in 48 \<le> n \<and> n \<le> 57)"

text \<open>\<open>[A-Za-z0-9][A-Za-z0-9_-]{0,127}\<close> for a pod, \<open>[0-9]+\<close> for a vast.ai or JarvisLabs instance.\<close>

definition pod_id :: "string \<Rightarrow> bool" where
  "pod_id s = (case s of [] \<Rightarrow> False
     | c # cs \<Rightarrow> (ascii_letter c \<or> ascii_digit c) \<and> length cs \<le> 127
         \<and> list_all (\<lambda>d. ascii_letter d \<or> ascii_digit d \<or> d = CHR ''_'' \<or> d = CHR ''-'') cs)"

fun valid_instance_id :: "provider \<Rightarrow> env \<Rightarrow> bool" where
  "valid_instance_id RunPod e = pod_id (instance_id RunPod e)"
| "valid_instance_id UnknownProvider e = True"
| "valid_instance_id p e = (instance_id p e \<noteq> [] \<and> list_all ascii_digit (instance_id p e))"

definition REGION_BASE_URLS :: "(string \<times> string) list" where
  "REGION_BASE_URLS =
     [(''IN1'', ''https://backendc.jarvislabs.net''),
      (''INDIA-CHENNAI-01'', ''https://backendc.jarvislabs.net''),
      (''IN2'', ''https://backendn.jarvislabs.net''),
      (''INDIA-NOIDA-01'', ''https://backendn.jarvislabs.net''),
      (''EU1'', ''https://backendeu.jarvislabs.net''),
      (''EUROPE-01'', ''https://backendeu.jarvislabs.net'')]"

definition base_url :: "env \<Rightarrow> string" where
  "base_url e = (case map_of REGION_BASE_URLS (py_upper (py_strip (env_get e ''JARVISLABS_REGION''))) of
     None \<Rightarrow> [] | Some u \<Rightarrow> u)"

datatype not_ready = NoProvider | NoId | BadId | NoKey | NoRegion

text \<open>\<open>None\<close>: ready.\<close>

definition ready :: "provider \<Rightarrow> env \<Rightarrow> not_ready option" where
  "ready p e =
     (if \<not> supported p then Some NoProvider
      else if instance_id p e = [] then Some NoId
      else if \<not> valid_instance_id p e then Some BadId
      else if api_key p e = [] then Some NoKey
      else if p = JarvisLabs \<and> base_url e = [] then Some NoRegion
      else None)"

section \<open>Explanations\<close>

datatype explanation =
    DryRun | Accepted | RefusedCredential int bool | UnknownInstance | RateLimited | NoReply string
  | Unexpected int string

definition explain :: "int option \<Rightarrow> string \<Rightarrow> provider \<Rightarrow> explanation" where
  "explain status txt p = (case status of
       None \<Rightarrow> NoReply (if txt = [] then ''network error'' else txt)
     | Some n \<Rightarrow> if n = 0 then DryRun
         else if n = 200 \<or> n = 204 then Accepted
         else if n = 401 \<or> n = 403 then RefusedCredential n (p = RunPod)
         else if n = 404 then UnknownInstance
         else if n = 429 then RateLimited
         else Unexpected n (take 200 txt))"

datatype detail =
    Reason not_ready | Explained explanation | VastSaidNo | GraphqlAccepted | PodDeleted "string list"
  | GraphqlSaidNo string | JarvisSaidNo

text \<open>The texts that tell the user that the instance may still be running or billing.\<close>

fun warns :: "detail \<Rightarrow> bool" where
  "warns (Explained x) = (x \<noteq> Accepted)"
| "warns VastSaidNo = True"
| "warns (GraphqlSaidNo _) = True"
| "warns JarvisSaidNo = True"
| "warns _ = False"

record call_attempt =
  at_method :: string
  at_url :: string
  at_status :: "int option"
  at_body :: string
  at_graphql_failed :: bool

record terminate_result =
  res_ok :: bool
  res_status :: "int option"
  res_detail :: detail
  res_attempts :: "call_attempt list"

definition not_started :: "not_ready \<Rightarrow> terminate_result" where
  "not_started why = \<lparr>res_ok = False, res_status = None, res_detail = Reason why, res_attempts = []\<rparr>"

definition bearer :: "string \<Rightarrow> string \<Rightarrow> (string \<times> string) list" where
  "bearer key other = [(''Authorization'', ''Bearer '' @ key), (other, ''application/json'')]"

definition attempted :: "string \<Rightarrow> string \<Rightarrow> reply \<Rightarrow> call_attempt" where
  "attempted meth url r = \<lparr>at_method = meth, at_url = redact url, at_status = fst r,
     at_body = take 400 (b_text (snd r)), at_graphql_failed = False\<rparr>"

section \<open>Destroying the instance\<close>

definition payload_truthy :: "payload \<Rightarrow> bool" where
  "payload_truthy v = (case v of PNull \<Rightarrow> False | PBool b \<Rightarrow> b | PInt i \<Rightarrow> i \<noteq> 0
     | PFlt f \<Rightarrow> f \<noteq> Fin 0 | PStr s \<Rightarrow> s \<noteq> [] | PArr vs \<Rightarrow> vs \<noteq> [] | PObj ms \<Rightarrow> ms \<noteq> [])"

text \<open>\<open>bool(json.loads(text).get("success", True))\<close>; a body that is no object counts as a yes.\<close>

definition vast_success :: "body \<Rightarrow> bool" where
  "vast_success b = (case b_json b of
       Some (PObj ms) \<Rightarrow> (case map_of ms ''success'' of None \<Rightarrow> True | Some v \<Rightarrow> payload_truthy v)
     | _ \<Rightarrow> True)"

definition vast_url :: "string \<Rightarrow> string" where
  "vast_url iid = ''https://console.vast.ai/api/v0/instances/'' @ iid @ ''/''"

definition vast_terminate ::
    "'w net \<Rightarrow> transport \<Rightarrow> env \<Rightarrow> 'w link \<Rightarrow> (fault + terminate_result) \<times> 'w link" where
  "vast_terminate net t e k =
     (let url = vast_url (instance_id VastAI e);
          (out, k) = http_call net t \<lparr>rq_method = ''DELETE'', rq_url = url,
             rq_headers = bearer (api_key VastAI e) ''Accept'', rq_body = []\<rparr> (Some True) k in
      case out of Inl x \<Rightarrow> (Inl x, k)
      | Inr (status, b) \<Rightarrow>
          (let ok = (if status = Some 200 then vast_success b else status = Some 0) in
           (Inr \<lparr>res_ok = ok, res_status = status,
               res_detail = (if status = Some 200 \<and> \<not> ok then VastSaidNo
                 else Explained (explain status (b_text b) VastAI)),
               res_attempts = [attempted ''DELETE'' url (status, b)]\<rparr>, k)))"

text \<open>The success shape of the GraphQL mutation: an object without \<open>errors\<close> whose \<open>data\<close> object has the
  key \<open>podTerminate\<close>.\<close>

definition graphql_accepted :: "body \<Rightarrow> bool" where
  "graphql_accepted b = (case b_json b of
       Some (PObj ms) \<Rightarrow> map_of ms ''errors'' = None
         \<and> (case map_of ms ''data'' of Some (PObj ds) \<Rightarrow> map_of ds ''podTerminate'' \<noteq> None | _ \<Rightarrow> False)
     | _ \<Rightarrow> False)"

definition GRAPHQL_URL :: string where
  "GRAPHQL_URL = ''https://api.runpod.io/graphql''"

text \<open>\<open>json.dumps({"query": q})\<close>\<close>

definition query_body :: "string \<Rightarrow> string" where
  "query_body q = ''{'' @ json_string ''query'' @ '': '' @ json_string q @ ''}''"

definition TERMINATE_MUTATION :: "string \<Rightarrow> string" where
  "TERMINATE_MUTATION iid = ''mutation { podTerminate(input: { podId: '' @ [CHR 0x22] @ iid @ [CHR 0x22] @ '' }) }''"

text \<open>\<open>runpodctl\<close> with the key in its environment: an exit code, or \<open>None\<close> when it could not run.\<close>

type_synonym 'w runner = "string list \<Rightarrow> string \<Rightarrow> 'w \<Rightarrow> (int option \<times> string) \<times> 'w"

fun cli_attempts ::
    "'w runner \<Rightarrow> string \<Rightarrow> string \<Rightarrow> string list list \<Rightarrow> call_attempt list \<Rightarrow> 'w link
       \<Rightarrow> (call_attempt list \<times> string list option) \<times> 'w link" where
  "cli_attempts run cli key [] as k = ((as, None), k)"
| "cli_attempts run cli key (args # rest) as k =
     (let ((rc, txt), w) = run (cli # args) key (world k);
          k = k\<lparr>world := w\<rparr>;
          as = as @ [attempted ''runpodctl'' (join_with '' '' (cli # args)) (rc, \<lparr>b_text = txt, b_json = None\<rparr>)] in
      if rc = Some 0 then ((as, Some args), k) else cli_attempts run cli key rest as k)"

text \<open>The text of a rung that gave up: a GraphQL reply of status 200 without success has its own.\<close>

definition runpod_failure :: "call_attempt list \<Rightarrow> terminate_result" where
  "runpod_failure as =
     (let l = last as in
      \<lparr>res_ok = False, res_status = at_status l,
       res_detail = (if at_graphql_failed l
         then GraphqlSaidNo (take 200 (if at_body l = [] then ''no body'' else at_body l))
         else Explained (explain (at_status l) (at_body l) RunPod)),
       res_attempts = as\<rparr>)"

definition runpod_accepted :: "int option \<Rightarrow> detail \<Rightarrow> call_attempt list \<Rightarrow> terminate_result" where
  "runpod_accepted status d as =
     \<lparr>res_ok = True, res_status = status, res_detail = d, res_attempts = as\<rparr>"

definition runpod_cli ::
    "'w runner \<Rightarrow> string option \<Rightarrow> string \<Rightarrow> string \<Rightarrow> call_attempt list \<Rightarrow> 'w link \<Rightarrow> terminate_result \<times> 'w link" where
  "runpod_cli run cli iid key as k =
     (case cli of None \<Rightarrow> (runpod_failure as, k)
      | Some c \<Rightarrow>
          (let ((as, hit), k) = cli_attempts run c key [[''pod'', ''delete'', iid], [''remove'', ''pod'', iid]] as k in
           case hit of None \<Rightarrow> (runpod_failure as, k)
           | Some args \<Rightarrow> (runpod_accepted (Some 0) (PodDeleted (take 2 args)) as, k)))"

definition runpod_graphql ::
    "'w net \<Rightarrow> 'w runner \<Rightarrow> string option \<Rightarrow> transport \<Rightarrow> string \<Rightarrow> string \<Rightarrow> call_attempt list \<Rightarrow> 'w link
       \<Rightarrow> (fault + terminate_result) \<times> 'w link" where
  "runpod_graphql net run cli t iid key as k =
     (let (out, k) = http_call net t \<lparr>rq_method = ''POST'', rq_url = GRAPHQL_URL,
             rq_headers = bearer key ''Content-Type'', rq_body = query_body (TERMINATE_MUTATION iid)\<rparr> (Some True) k in
      case out of Inl x \<Rightarrow> (Inl x, k)
      | Inr (status, b) \<Rightarrow>
          (let a = (attempted ''POST'' GRAPHQL_URL (status, b))\<lparr>at_url := redact GRAPHQL_URL @ '' (podTerminate)''\<rparr> in
           if status = Some 0
           then (Inr (runpod_accepted status (Explained (explain status (b_text b) RunPod)) (as @ [a])), k)
           else if status = Some 200 \<and> graphql_accepted b
           then (Inr (runpod_accepted status GraphqlAccepted (as @ [a])), k)
           else (let (r, k) = runpod_cli run cli iid key
                       (as @ [a\<lparr>at_graphql_failed := (status = Some 200)\<rparr>]) k
                 in (Inr r, k))))"

definition runpod_terminate ::
    "'w net \<Rightarrow> 'w runner \<Rightarrow> string option \<Rightarrow> transport \<Rightarrow> env \<Rightarrow> 'w link \<Rightarrow> (fault + terminate_result) \<times> 'w link" where
  "runpod_terminate net run cli t e k =
     (let iid = instance_id RunPod e; key = api_key RunPod e;
          url = ''https://rest.runpod.io/v1/pods/'' @ iid;
          (out, k) = http_call net t \<lparr>rq_method = ''DELETE'', rq_url = url,
             rq_headers = bearer key ''Accept'', rq_body = []\<rparr> (Some True) k in
      case out of Inl x \<Rightarrow> (Inl x, k)
      | Inr (status, b) \<Rightarrow>
          (let as = [attempted ''DELETE'' url (status, b)] in
           if status \<in> {Some 200, Some 204, Some 0}
           then (Inr (runpod_accepted status (Explained (explain status (b_text b) RunPod)) as), k)
           else runpod_graphql net run cli t iid key as k))"

text \<open>\<open>declared is False or str(declared).lower() == "false"\<close>\<close>

definition declares_false :: "payload \<Rightarrow> bool" where
  "declares_false v = (case v of PBool b \<Rightarrow> \<not> b | PStr s \<Rightarrow> py_lower s = ''false'' | _ \<Rightarrow> False)"

definition jarvis_refused :: "body \<Rightarrow> bool" where
  "jarvis_refused b = (b_text b \<noteq> [] \<and> (case b_json b of
       Some (PObj ms) \<Rightarrow> (case map_of ms ''success'' of None \<Rightarrow> False | Some v \<Rightarrow> declares_false v)
     | _ \<Rightarrow> False))"

definition jarvis_url :: "env \<Rightarrow> string" where
  "jarvis_url e = base_url e @ ''/templates/vm/destroy?machine_id='' @ instance_id JarvisLabs e"

definition jarvis_terminate ::
    "'w net \<Rightarrow> transport \<Rightarrow> env \<Rightarrow> 'w link \<Rightarrow> (fault + terminate_result) \<times> 'w link" where
  "jarvis_terminate net t e k =
     (let (out, k) = http_call net t \<lparr>rq_method = ''POST'', rq_url = jarvis_url e,
             rq_headers = bearer (api_key JarvisLabs e) ''Accept'', rq_body = []\<rparr> (Some True) k in
      case out of Inl x \<Rightarrow> (Inl x, k)
      | Inr (status, b) \<Rightarrow>
          (let ok = status \<in> {Some 200, Some 204, Some 0} \<and> \<not> (status \<noteq> Some 0 \<and> jarvis_refused b) in
           (Inr \<lparr>res_ok = ok, res_status = status,
               res_detail = (if ok then Explained (explain status (b_text b) JarvisLabs) else JarvisSaidNo),
               res_attempts = [attempted ''POST'' (jarvis_url e) (status, b)]\<rparr>, k)))"

definition terminate ::
    "'w net \<Rightarrow> 'w runner \<Rightarrow> string option \<Rightarrow> transport \<Rightarrow> provider \<Rightarrow> env \<Rightarrow> 'w link
       \<Rightarrow> (fault + terminate_result) \<times> 'w link" where
  "terminate net run cli t p e k =
     (case ready p e of Some why \<Rightarrow> (Inr (not_started why), k)
      | None \<Rightarrow> (case p of
            VastAI \<Rightarrow> vast_terminate net t e k
          | RunPod \<Rightarrow> runpod_terminate net run cli t e k
          | JarvisLabs \<Rightarrow> jarvis_terminate net t e k
          | UnknownProvider \<Rightarrow> (Inr (not_started NoProvider), k)))"

section \<open>Checking the credential\<close>

datatype credential = CredOk | CredRejected | CredUnknown

definition contains :: "string \<Rightarrow> string \<Rightarrow> bool" where
  "contains needle s = found [needle] s"

definition in_quotes :: "string \<Rightarrow> string" where
  "in_quotes s = [CHR 0x22] @ s @ [CHR 0x22]"

definition POD_PROBE_QUERY :: "string \<Rightarrow> string" where
  "POD_PROBE_QUERY iid = ''query { pod(input: {podId: '' @ in_quotes iid @ ''}) { id desiredStatus } }''"

definition ACCOUNT_PROBE_QUERY :: string where
  "ACCOUNT_PROBE_QUERY = ''query { myself { id } }''"

text \<open>\<open>(json.loads(text).get("data") or {}).get("pod") is None\<close>; a value without \<open>get\<close> raises.\<close>

definition no_pod :: "payload \<Rightarrow> fault + bool" where
  "no_pod v = (case v of
       PObj ms \<Rightarrow>
         (case map_of ms ''data'' of None \<Rightarrow> Inr True
          | Some dv \<Rightarrow> if \<not> payload_truthy dv then Inr True
              else (case dv of PObj ds \<Rightarrow> Inr (case map_of ds ''pod'' of None \<Rightarrow> True | Some pv \<Rightarrow> pv = PNull)
                    | _ \<Rightarrow> Inl NoAttribute))
     | _ \<Rightarrow> Inl NoAttribute)"

definition runpod_verdict :: "string \<Rightarrow> reply \<Rightarrow> fault + credential" where
  "runpod_verdict iid r =
     (let txt = b_text (snd r) in
      if fst r = Some 200 \<and> \<not> contains (in_quotes ''errors'') txt
      then (if iid = [] then Inr CredOk
            else (case b_json (snd r) of None \<Rightarrow> Inr CredOk
                  | Some v \<Rightarrow> (case no_pod v of Inl x \<Rightarrow> Inl x
                      | Inr missing \<Rightarrow> Inr (if missing then CredRejected else CredOk))))
      else if fst r \<in> {Some 401, Some 403} \<or> contains (in_quotes ''Unauthorized'') txt then Inr CredRejected
      else Inr CredUnknown)"

definition runpod_probe :: "'w net \<Rightarrow> transport \<Rightarrow> env \<Rightarrow> 'w link \<Rightarrow> (fault + credential) \<times> 'w link" where
  "runpod_probe net t e k =
     (let iid = instance_id RunPod e;
          query = (if iid \<noteq> [] then POD_PROBE_QUERY iid else ACCOUNT_PROBE_QUERY) in
      if api_key RunPod e = [] then (Inr CredRejected, k)
      else if iid \<noteq> [] \<and> \<not> valid_instance_id RunPod e then (Inr CredRejected, k)
      else if contains ''mutation'' query then (Inl AssertFailed, k)
      else (let (out, k) = http_call net t \<lparr>rq_method = ''POST'', rq_url = GRAPHQL_URL,
                  rq_headers = bearer (api_key RunPod e) ''Content-Type'', rq_body = query_body query\<rparr> (Some False) k in
            (case out of Inl x \<Rightarrow> (Inl x, k) | Inr r \<Rightarrow> (runpod_verdict iid r, k))))"

text \<open>\<open>str(instance.get("machine_id", ""))\<close>, for the values that can print an instance id.\<close>

definition machine_text :: "payload option \<Rightarrow> string option" where
  "machine_text v = (case v of None \<Rightarrow> Some [] | Some (PStr s) \<Rightarrow> Some s | Some (PInt i) \<Rightarrow> Some (show_int i) | _ \<Rightarrow> None)"

definition jarvis_verdict :: "string \<Rightarrow> reply \<Rightarrow> credential" where
  "jarvis_verdict iid r =
     (if fst r = Some 200
      then (case b_json (snd r) of
              Some (PObj ms) \<Rightarrow> (case map_of ms ''instance'' of
                  Some (PObj ds) \<Rightarrow> if machine_text (map_of ds ''machine_id'') = Some iid then CredOk else CredRejected
                | _ \<Rightarrow> CredRejected)
            | _ \<Rightarrow> CredRejected)
      else if fst r \<in> {Some 401, Some 403} \<or> fst r = Some 404 then CredRejected
      else CredUnknown)"

definition jarvis_probe :: "'w net \<Rightarrow> transport \<Rightarrow> env \<Rightarrow> 'w link \<Rightarrow> (fault + credential) \<times> 'w link" where
  "jarvis_probe net t e k =
     (let iid = instance_id JarvisLabs e in
      if api_key JarvisLabs e = [] then (Inr CredRejected, k)
      else if iid = [] \<or> \<not> valid_instance_id JarvisLabs e then (Inr CredRejected, k)
      else (let (out, k) = http_call net t \<lparr>rq_method = ''GET'',
                  rq_url = ''https://backendn.jarvislabs.net/users/fetch/'' @ iid,
                  rq_headers = bearer (api_key JarvisLabs e) ''Accept'', rq_body = []\<rparr> (Some False) k in
            (case out of Inl x \<Rightarrow> (Inl x, k) | Inr r \<Rightarrow> (Inr (jarvis_verdict iid r), k))))"

definition probe_credential ::
    "'w net \<Rightarrow> transport \<Rightarrow> provider \<Rightarrow> env \<Rightarrow> 'w link \<Rightarrow> (fault + credential) \<times> 'w link" where
  "probe_credential net t p e k =
     (case p of RunPod \<Rightarrow> runpod_probe net t e k | JarvisLabs \<Rightarrow> jarvis_probe net t e k
      | _ \<Rightarrow> (Inr CredUnknown, k))"

section \<open>Identification\<close>

definition provider_named :: "string \<Rightarrow> provider option" where
  "provider_named n = map_of [(''vastai'', VastAI), (''runpod'', RunPod), (''jarvislabs'', JarvisLabs),
     (''unknown'', UnknownProvider)] n"

text \<open>\<open>names\<close> are the variables of the environment, \<open>hostname\<close> is the machine's.\<close>

definition detect_provider :: "string list \<Rightarrow> string \<Rightarrow> env \<Rightarrow> provider" where
  "detect_provider names hostname e =
     (let override = py_lower (py_strip (env_get e ''TERMINATE_PROVIDER'')) in
      if override \<noteq> [] then (case provider_named override of None \<Rightarrow> UnknownProvider | Some p \<Rightarrow> p)
      else if env_get e ''JARVISLABS_MACHINE_ID'' \<noteq> [] then JarvisLabs
      else if starts_with ''jl-vm-'' hostname then JarvisLabs
      else if env_get e ''RUNPOD_POD_ID'' \<noteq> [] then RunPod
      else if env_get e ''CONTAINER_ID'' \<noteq> [] \<and> env_get e ''CONTAINER_API_KEY'' \<noteq> [] then VastAI
      else if list_ex (starts_with ''VAST_TCP_PORT_'') names then VastAI
      else UnknownProvider)"

end
