(* ===== verification/Terminate.thy ===== *)
theory Terminate
  imports Provider
begin

text \<open>
  \<^verbatim>\<open>scripts/terminate_worker.py\<close> and the two termination requests of \<^verbatim>\<open>landing.py\<close>: the worker stops the
  engine, erases the session if asked to, checks the switches again and makes the one destructive call.
  Waiting for the supervisor is a loop over clock readings, so a run is an option: \<open>None\<close> is a run that
  never returns. What the erase does to the disk is modelled elsewhere; here only how far it gets counts.
\<close>

section \<open>Progress\<close>

datatype phase =
    Starting | StoppingEngine | EngineStopped | PlanningErase | Erasing | Erased | ErasingRam | ErasedRam
  | ErasingVram | ErasedVram | EraseFailed | EraseSkipped | Terminating | Terminated | Failed

datatype refused_by = BySwitch | ByConfirmation | ByProvider | ByTransport

datatype worker_text =
    SwitchOff refusal | WrongConfirmation | NotReady not_ready | RefusedMidFlight refusal | SafetyRefusal
  | CallRaised fault | CallFailed detail | CallAccepted detail nat

record progress =
  pr_phase :: phase
  pr_steps :: "phase list"
  pr_finished :: bool
  pr_ok :: "bool option"
  pr_text :: "worker_text option"
  pr_refused :: "refused_by option"
  pr_dry :: bool

definition new_progress :: "bool \<Rightarrow> progress" where
  "new_progress dry = \<lparr>pr_phase = Starting, pr_steps = [], pr_finished = False, pr_ok = None, pr_text = None,
     pr_refused = None, pr_dry = dry\<rparr>"

text \<open>The worker's own state, the flag that asks the supervisor to stop the engine, and the services.\<close>

record 'w worker =
  wlink :: "'w link"
  stop_flag :: bool
  prog :: progress

definition step_to :: "phase \<Rightarrow> 'w worker \<Rightarrow> 'w worker" where
  "step_to ph w = w\<lparr>prog := (prog w)\<lparr>pr_phase := ph, pr_steps := pr_steps (prog w) @ [ph]\<rparr>\<rparr>"

definition finish_with :: "bool \<Rightarrow> worker_text \<Rightarrow> refused_by option \<Rightarrow> 'w worker \<Rightarrow> 'w worker" where
  "finish_with ok t by w = w\<lparr>prog := (prog w)\<lparr>pr_finished := True, pr_ok := Some ok, pr_text := Some t,
     pr_refused := by, pr_phase := (if ok then Terminated else Failed)\<rparr>\<rparr>"

section \<open>Stopping the engine\<close>

definition STOP_TIMEOUT_S :: rat where
  "STOP_TIMEOUT_S = 180"

text \<open>The loop of \<open>default_stopper\<close>: the \<open>n\<close>th reading of the clock against the deadline, then a look for the
  supervisor's confirmation.\<close>

partial_function (option) wait_stopped :: "(nat \<Rightarrow> rat) \<Rightarrow> (nat \<Rightarrow> bool) \<Rightarrow> rat \<Rightarrow> nat \<Rightarrow> (bool \<times> nat) option" where
  "wait_stopped clock confirmed deadline n =
     (if clock n < deadline
      then if confirmed n then Some (True, n) else wait_stopped clock confirmed deadline (Suc n)
      else Some (False, n))"

text \<open>What the worker meets: the clock, the supervisor, whether the flag can be written, and how the erase
  goes.\<close>

record erase_trace =
  plan_raises :: bool
  erase_raises :: bool
  failed_files :: nat
  ram_raises :: bool
  vram_raises :: bool

record site =
  clock :: "nat \<Rightarrow> rat"
  confirmed :: "nat \<Rightarrow> bool"
  flag_writable :: bool
  erasing :: erase_trace

record options =
  o_confirm :: string
  o_erase :: bool
  o_ram :: bool
  o_vram :: bool
  o_dry :: bool

datatype 'w ending = Crashed "'w worker" | Finished "'w worker"

section \<open>The erase\<close>

definition erase_memory :: "options \<Rightarrow> erase_trace \<Rightarrow> 'w worker \<Rightarrow> 'w worker" where
  "erase_memory opts tr w =
     (let w = (if o_ram opts then step_to ErasingRam w else w) in
      if o_ram opts \<and> ram_raises tr then step_to EraseFailed w
      else (let w = (if o_ram opts then step_to ErasedRam w else w);
                w = (if o_vram opts then step_to ErasingVram w else w) in
            if o_vram opts \<and> vram_raises tr then step_to EraseFailed w
            else if o_vram opts then step_to ErasedVram w else w))"

text \<open>The number of files that could not be erased; an exception anywhere only ends the erase.\<close>

definition erase_phase :: "options \<Rightarrow> erase_trace \<Rightarrow> 'w worker \<Rightarrow> nat \<times> 'w worker" where
  "erase_phase opts tr w =
     (if \<not> o_erase opts then (0, step_to EraseSkipped w)
      else (let w = step_to PlanningErase w in
            if plan_raises tr then (0, step_to EraseFailed w)
            else (let w = step_to Erasing w in
                  if erase_raises tr then (0, step_to EraseFailed w)
                  else (failed_files tr, erase_memory opts tr (step_to Erased w)))))"

section \<open>The run\<close>

definition expected_confirmation :: "provider \<Rightarrow> env \<Rightarrow> string" where
  "expected_confirmation p e = (if instance_id p e = [] then ''TERMINATE'' else instance_id p e)"

definition is_dry :: "env \<Rightarrow> options \<Rightarrow> bool" where
  "is_dry e opts \<longleftrightarrow> o_dry opts \<or> env_flag e ''TERMINATE_DRY_RUN'' False"

definition destroy_phase ::
    "'w net \<Rightarrow> 'w runner \<Rightarrow> string option \<Rightarrow> provider \<Rightarrow> env \<Rightarrow> bool \<Rightarrow> switch_file \<Rightarrow> nat \<Rightarrow> 'w worker \<Rightarrow> 'w worker" where
  "destroy_phase net run cli p e dry f failures w =
     (let w = step_to Terminating w; freed = w\<lparr>stop_flag := False\<rparr> in
      case termination_allowed e f of
        Inl why \<Rightarrow> finish_with False (RefusedMidFlight why) (Some BySwitch) freed
      | Inr _ \<Rightarrow>
          (case terminate net run cli \<lparr>allow_destructive = True, dry_run = dry\<rparr> p e (wlink w) of
             (Inl NotArmed, k) \<Rightarrow> finish_with False SafetyRefusal (Some ByTransport) (freed\<lparr>wlink := k\<rparr>)
           | (Inl x, k) \<Rightarrow> finish_with False (CallRaised x) None (freed\<lparr>wlink := k\<rparr>)
           | (Inr r, k) \<Rightarrow>
               if \<not> res_ok r then finish_with False (CallFailed (res_detail r)) None (freed\<lparr>wlink := k\<rparr>)
               else finish_with True (CallAccepted (res_detail r) failures) None (w\<lparr>wlink := k\<rparr>)))"

definition after_stop ::
    "'w net \<Rightarrow> 'w runner \<Rightarrow> string option \<Rightarrow> provider \<Rightarrow> env \<Rightarrow> switch_file \<Rightarrow> site \<Rightarrow> options \<Rightarrow> 'w worker \<Rightarrow> 'w worker" where
  "after_stop net run cli p e f s opts w =
     (let (failures, w) = erase_phase opts (erasing s) (step_to EngineStopped w)
      in destroy_phase net run cli p e (is_dry e opts) f failures w)"

text \<open>\<open>run\<close>: \<open>f\<close> is the switch file when the worker starts, \<open>f'\<close> the one it finds before the call.\<close>

definition run_worker ::
    "'w net \<Rightarrow> 'w runner \<Rightarrow> string option \<Rightarrow> provider \<Rightarrow> env \<Rightarrow> switch_file \<Rightarrow> switch_file \<Rightarrow> site \<Rightarrow> options
       \<Rightarrow> 'w worker \<Rightarrow> 'w ending option" where
  "run_worker net run cli p e f f' s opts w =
     (let w = w\<lparr>prog := new_progress (is_dry e opts)\<rparr> in
      case termination_allowed e f of
        Inl why \<Rightarrow> Some (Finished (finish_with False (SwitchOff why) (Some BySwitch) w))
      | Inr _ \<Rightarrow>
      if py_strip (o_confirm opts) \<noteq> expected_confirmation p e
      then Some (Finished (finish_with False WrongConfirmation (Some ByConfirmation) w))
      else (case ready p e of
        Some why \<Rightarrow> Some (Finished (finish_with False (NotReady why) (Some ByProvider) w))
      | None \<Rightarrow>
          (let w = step_to StoppingEngine w in
           if is_dry e opts then Some (Finished (after_stop net run cli p e f' s opts w))
           else if \<not> flag_writable s then Some (Crashed w)
           else (case wait_stopped (clock s) (confirmed s) (clock s 0 + STOP_TIMEOUT_S) 1 of
                   None \<Rightarrow> None
                 | Some _ \<Rightarrow> Some (Finished (after_stop net run cli p e f' s opts (w\<lparr>stop_flag := True\<rparr>)))))))"

section \<open>The landing page's part\<close>

text \<open>The runtime directory as the page sees it, and the workers it has launched that have not begun.\<close>

record page =
  pg_switches :: switch_file
  pg_progress :: "progress option"
  pg_launched :: "options list"

datatype start_answer =
    StartRefused refusal | NotUnderstood | StartNotReady not_ready | StartWrongText | AlreadyRunning | Started

definition field_of :: "(string \<Rightarrow> string option) \<Rightarrow> string \<Rightarrow> string" where
  "field_of f n = (case f n of None \<Rightarrow> [] | Some v \<Rightarrow> v)"

definition ticked :: "(string \<Rightarrow> string option) \<Rightarrow> string \<Rightarrow> bool" where
  "ticked f n \<longleftrightarrow> field_of f n = ''1''"

definition start_termination ::
    "env \<Rightarrow> provider \<Rightarrow> (string \<Rightarrow> string option) \<Rightarrow> page \<Rightarrow> start_answer \<times> page" where
  "start_termination e p f s =
     (case termination_allowed e (pg_switches s) of
        Inl why \<Rightarrow> (StartRefused why, s)
      | Inr _ \<Rightarrow>
      if \<not> ticked f ''understand'' then (NotUnderstood, s)
      else (case ready p e of
        Some why \<Rightarrow> (StartNotReady why, s)
      | None \<Rightarrow>
          (let typed = py_strip (field_of f ''confirm'') in
           if typed \<noteq> expected_confirmation p e then (StartWrongText, s)
           else if (case pg_progress s of None \<Rightarrow> False | Some d \<Rightarrow> \<not> pr_finished d) then (AlreadyRunning, s)
           else (Started, s\<lparr>pg_launched := pg_launched s @
                   [\<lparr>o_confirm = typed, o_erase = ticked f ''erase'',
                     o_ram = ticked f ''erase'' \<and> ticked f ''ram'',
                     o_vram = ticked f ''erase'' \<and> ticked f ''vram'', o_dry = False\<rparr>]\<rparr>))))"

text \<open>The lock request; every other action disables the control.\<close>

definition lock_request :: "(string \<Rightarrow> string option) \<Rightarrow> tighten_request" where
  "lock_request f =
     (if field_of f ''action'' = ''lock''
      then \<lparr>tr_enabled = None, tr_locked = Some True, tr_reason = ''locked from the landing page''\<rparr>
      else \<lparr>tr_enabled = Some False, tr_locked = None, tr_reason = ''disabled from the landing page''\<rparr>)"

definition post_lock :: "env \<Rightarrow> (string \<Rightarrow> string option) \<Rightarrow> page \<Rightarrow> page" where
  "post_lock e f s =
     (if \<not> ticked f ''understand'' then s
      else s\<lparr>pg_switches := run_tighten e (lock_request f) (pg_switches s)\<rparr>)"

text \<open>A launched worker begins by writing its progress.\<close>

definition worker_begins :: "env \<Rightarrow> page \<Rightarrow> page" where
  "worker_begins e s = (case pg_launched s of [] \<Rightarrow> s
     | opts # rest \<Rightarrow> s\<lparr>pg_launched := rest, pg_progress := Some (new_progress (is_dry e opts))\<rparr>)"

end
