(* ===== verification/ProviderTheorems.thy ===== *)
theory ProviderTheorems
  imports Provider
begin

text \<open>
  What the provider adapters promise: nothing destructive leaves an unarmed transport, a dry run contacts
  nobody, a success rests on an acknowledgement by the provider, and a failure never reads as an accepted
  termination, with one exception. The contract of one adapter is the locale \<open>adapter\<close>.
\<close>

section \<open>The transport\<close>

lemma http_call_unarmed:
  "\<not> allow_destructive t \<Longrightarrow> http_call net t rq (Some True) k = (Inl NotArmed, k)"
  by (simp add: http_call_def)

lemma http_call_dry:
  "allow_destructive t \<Longrightarrow> dry_run t \<Longrightarrow> http_call net t rq (Some True) k =
     (Inr (Some 0, \<lparr>b_text = dry_text rq True, b_json = None\<rparr>),
      k\<lparr>sent := sent k @ [redacted_record rq True DrySent]\<rparr>)"
  by (simp add: http_call_def)

section \<open>The contract of an adapter\<close>

text \<open>What the rest of the program relies on when it asks an adapter to destroy the instance. The relation
  \<open>acknowledged\<close> holds of the worlds around a call by which the provider accepts the termination.\<close>

locale adapter =
  fixes destroy_call :: "transport \<Rightarrow> 'w link \<Rightarrow> (fault + terminate_result) \<times> 'w link"
    and acknowledged :: "'w \<Rightarrow> 'w \<Rightarrow> bool"
  assumes unarmed_refused: "\<not> allow_destructive t \<Longrightarrow> destroy_call t k = (Inl NotArmed, k)"
    and dry_answers: "allow_destructive t \<Longrightarrow> dry_run t \<Longrightarrow>
       \<exists>r ds. destroy_call t k = (Inr r, k\<lparr>sent := sent k @ [ds]\<rparr>) \<and> sr_result ds = DrySent
         \<and> res_ok r \<and> res_detail r = Explained DryRun"
    and armed_answers: "allow_destructive t \<Longrightarrow> \<exists>r. fst (destroy_call t k) = Inr r"
    and success_acknowledged: "allow_destructive t \<Longrightarrow> \<not> dry_run t \<Longrightarrow>
       destroy_call t k = (Inr r, k') \<Longrightarrow> res_ok r \<Longrightarrow> \<exists>w. acknowledged w (world k')"
begin

lemma touches_only_armed_live:
  "world (snd (destroy_call t k)) \<noteq> world k \<Longrightarrow> allow_destructive t \<and> \<not> dry_run t"
  using unarmed_refused dry_answers [of t k] by fastforce

end

definition vast_ack :: "'w net \<Rightarrow> env \<Rightarrow> 'w \<Rightarrow> 'w \<Rightarrow> bool" where
  "vast_ack net e w w' = (\<exists>rq b. net rq w = (Inr (200, b), w') \<and> vast_success b \<and>
     rq_method rq = ''DELETE'' \<and> rq_url rq = vast_url (instance_id VastAI e))"

definition runpod_ack :: "'w net \<Rightarrow> 'w runner \<Rightarrow> env \<Rightarrow> 'w \<Rightarrow> 'w \<Rightarrow> bool" where
  "runpod_ack net run e w w' = (let iid = instance_id RunPod e in
     (\<exists>rq s b. net rq w = (Inr (s, b), w') \<and> (s = 200 \<or> s = 204) \<and>
        rq_method rq = ''DELETE'' \<and> rq_url rq = ''https://rest.runpod.io/v1/pods/'' @ iid) \<or>
     (\<exists>rq b. net rq w = (Inr (200, b), w') \<and> graphql_accepted b \<and>
        rq_url rq = GRAPHQL_URL \<and> rq_body rq = query_body (TERMINATE_MUTATION iid)) \<or>
     (\<exists>c args txt. run (c # args) (api_key RunPod e) w = ((Some 0, txt), w') \<and>
        args \<in> {[''pod'', ''delete'', iid], [''remove'', ''pod'', iid]}))"

definition jarvis_ack :: "'w net \<Rightarrow> env \<Rightarrow> 'w \<Rightarrow> 'w \<Rightarrow> bool" where
  "jarvis_ack net e w w' = (\<exists>rq s b. net rq w = (Inr (s, b), w') \<and> (s = 200 \<or> s = 204) \<and> \<not> jarvis_refused b \<and>
     rq_method rq = ''POST'' \<and> rq_url rq = jarvis_url e)"

lemmas call_defs = Let_def explain_def redacted_record_def http_call_unarmed http_call_dry

lemma one_record: "\<exists>ds. k\<lparr>sent := sent k @ [d]\<rparr> = k\<lparr>sent := sent k @ [ds]\<rparr> \<and> sr_result ds = sr_result d"
  by blast

lemma vast_adapter: "adapter (\<lambda>t. vast_terminate net t e) (vast_ack net e)"
proof (unfold_locales, goal_cases)
  case (2 t k)
  then show ?case using one_record by (fastforce simp: vast_terminate_def call_defs)
next
  case (3 t k)
  then show ?case by (simp add: vast_terminate_def http_call_def Let_def split: prod.splits sum.splits)
next
  case (4 t k r k')
  then show ?case
    by (fastforce simp: vast_terminate_def vast_ack_def received_def http_call_def Let_def
        split: prod.splits sum.splits if_splits)
qed (simp add: vast_terminate_def call_defs)

lemma jarvis_adapter: "adapter (\<lambda>t. jarvis_terminate net t e) (jarvis_ack net e)"
proof (unfold_locales, goal_cases)
  case (2 t k)
  then show ?case using one_record by (fastforce simp: jarvis_terminate_def call_defs)
next
  case (3 t k)
  then show ?case by (simp add: jarvis_terminate_def http_call_def Let_def split: prod.splits sum.splits)
next
  case (4 t k r k')
  then show ?case
    by (fastforce simp: jarvis_terminate_def jarvis_ack_def received_def http_call_def Let_def
        split: prod.splits sum.splits if_splits)
qed (simp add: jarvis_terminate_def call_defs)

lemma cli_hit:
  assumes "cli_attempts run cli key argss acc k = ((as', Some args), k')"
  shows "args \<in> set argss \<and> (\<exists>w txt. run (cli # args) key w = ((Some 0, txt), world k'))"
  using assms
proof (induction run cli key argss acc k rule: cli_attempts.induct)
  case (2 run cli key args' rest acc k)
  obtain rc out w where r: "run (cli # args') key (world k) = ((rc, out), w)" by (metis prod.collapse)
  show ?case
  proof (cases "rc = Some 0")
    case True
    with 2(2) r show ?thesis by fastforce
  next
    case False
    with 2 r show ?thesis by auto
  qed
qed simp

lemma failure_not_ok [simp]: "\<not> res_ok (runpod_failure acc)"
  by (simp add: runpod_failure_def Let_def)

lemma runpod_cli_ack:
  assumes "runpod_cli run cli iid key acc k = (r, k')" and "res_ok r"
  shows "\<exists>w c args out. run (c # args) key w = ((Some 0, out), world k') \<and>
    args \<in> {[''pod'', ''delete'', iid], [''remove'', ''pod'', iid]}"
proof -
  from assms obtain c where c: "cli = Some c" by (cases cli) (auto simp: runpod_cli_def)
  obtain acc' hit k1 where h:
    "cli_attempts run c key [[''pod'', ''delete'', iid], [''remove'', ''pod'', iid]] acc k = ((acc', hit), k1)"
    by (metis prod.collapse)
  with assms c obtain args where "hit = Some args" and k: "k1 = k'"
    by (cases hit) (auto simp: runpod_cli_def simp del: cli_attempts.simps)
  with cli_hit [OF h [unfolded \<open>hit = Some args\<close>]] show ?thesis by auto
qed

lemma runpod_graphql_ack:
  assumes "runpod_graphql net run cli t iid key acc k = (Inr r, k')" and "res_ok r" and "\<not> dry_run t"
  shows "(\<exists>rq w b. net rq w = (Inr (200, b), world k') \<and> graphql_accepted b \<and>
        rq_url rq = GRAPHQL_URL \<and> rq_body rq = query_body (TERMINATE_MUTATION iid)) \<or>
     (\<exists>w c args out. run (c # args) key w = ((Some 0, out), world k') \<and>
        args \<in> {[''pod'', ''delete'', iid], [''remove'', ''pod'', iid]})"
proof -
  let ?rq = "\<lparr>rq_method = ''POST'', rq_url = GRAPHQL_URL, rq_headers = bearer key ''Content-Type'',
     rq_body = query_body (TERMINATE_MUTATION iid)\<rparr>"
  obtain status b k1 where c: "http_call net t ?rq (Some True) k = (Inr (status, b), k1)"
    using assms(1) by (auto simp: runpod_graphql_def Let_def split: prod.splits sum.splits)
  have live: "status \<noteq> Some 0" "status = Some 200 \<Longrightarrow> net ?rq (world k) = (Inr (200, b), world k1)"
    using c assms(3) by (auto simp: http_call_def received_def Let_def split: prod.splits sum.splits if_splits)
  show ?thesis
  proof (cases "status = Some 200 \<and> graphql_accepted b")
    case True
    with c assms(1) live have "k1 = k'" by (simp add: runpod_graphql_def)
    with True live show ?thesis by fastforce
  next
    case False
    with c assms(1) live(1) have "\<exists>acc. runpod_cli run cli iid key acc k1 = (r, k')"
      by (auto simp: runpod_graphql_def Let_def split: prod.splits)
    with runpod_cli_ack assms(2) show ?thesis by blast
  qed
qed

lemma runpod_adapter: "adapter (\<lambda>t. runpod_terminate net run cli t e) (runpod_ack net run e)"
proof (unfold_locales, goal_cases)
  case (2 t k)
  then show ?case using one_record by (fastforce simp: runpod_terminate_def runpod_accepted_def call_defs)
next
  case (3 t k)
  then show ?case
    by (simp add: runpod_terminate_def runpod_graphql_def http_call_def Let_def split: prod.splits sum.splits)
next
  case (4 t k r k')
  let ?iid = "instance_id RunPod e" and ?key = "api_key RunPod e"
  let ?rq = "\<lparr>rq_method = ''DELETE'', rq_url = ''https://rest.runpod.io/v1/pods/'' @ ?iid,
     rq_headers = bearer ?key ''Accept'', rq_body = []\<rparr>"
  obtain status b k1 where c: "http_call net t ?rq (Some True) k = (Inr (status, b), k1)"
    using 4(3) by (auto simp: runpod_terminate_def Let_def split: prod.splits sum.splits)
  have live: "status \<noteq> Some 0" "\<And>n. status = Some n \<Longrightarrow> net ?rq (world k) = (Inr (n, b), world k1)"
    using c 4(2) by (auto simp: http_call_def received_def Let_def split: prod.splits sum.splits if_splits)
  show ?case
  proof (cases "status \<in> {Some 200, Some 204}")
    case True
    with c 4(3) have "k1 = k'" by (auto simp: runpod_terminate_def Let_def)
    with True live(2) show ?thesis unfolding runpod_ack_def Let_def by fastforce
  next
    case False
    with c 4(3) live(1) obtain acc where "runpod_graphql net run cli t ?iid ?key acc k1 = (Inr r, k')"
      by (auto simp: runpod_terminate_def Let_def)
    from runpod_graphql_ack [OF this 4(4,2)] show ?thesis
      unfolding runpod_ack_def Let_def by (elim disjE exE) blast+
  qed
qed (simp add: runpod_terminate_def call_defs)

interpretation vast: adapter "\<lambda>t. vast_terminate net t e" "vast_ack net e" for net :: "'w net" and e
  by (rule vast_adapter)

interpretation jarvis: adapter "\<lambda>t. jarvis_terminate net t e" "jarvis_ack net e" for net :: "'w net" and e
  by (rule jarvis_adapter)

interpretation runpod: adapter "\<lambda>t. runpod_terminate net run cli t e" "runpod_ack net run e"
  for net :: "'w net" and run cli e
  by (rule runpod_adapter)

section \<open>Destroying through the detected provider\<close>

definition provider_ack :: "'w net \<Rightarrow> 'w runner \<Rightarrow> provider \<Rightarrow> env \<Rightarrow> 'w \<Rightarrow> 'w \<Rightarrow> bool" where
  "provider_ack net run p e w w' = (case p of VastAI \<Rightarrow> vast_ack net e w w'
     | RunPod \<Rightarrow> runpod_ack net run e w w' | JarvisLabs \<Rightarrow> jarvis_ack net e w w' | UnknownProvider \<Rightarrow> False)"

text \<open>A ready provider is an adapter; one that is not does nothing.\<close>

lemma ready_adapter:
  assumes "ready p e = None"
  shows "adapter (\<lambda>t. terminate net run cli t p e) (provider_ack net run p e)"
proof -
  have "(\<lambda>t. terminate net run cli t p e) = (case p of VastAI \<Rightarrow> (\<lambda>t. vast_terminate net t e)
      | RunPod \<Rightarrow> (\<lambda>t. runpod_terminate net run cli t e) | JarvisLabs \<Rightarrow> (\<lambda>t. jarvis_terminate net t e)
      | UnknownProvider \<Rightarrow> (\<lambda>t k. (Inr (not_started NoProvider), k)))"
    using assms by (intro ext) (simp add: terminate_def split: provider.split)
  moreover have "provider_ack net run p e = (case p of VastAI \<Rightarrow> vast_ack net e | RunPod \<Rightarrow> runpod_ack net run e
      | JarvisLabs \<Rightarrow> jarvis_ack net e | UnknownProvider \<Rightarrow> (\<lambda>_ _. False))"
    by (intro ext) (simp add: provider_ack_def split: provider.split)
  moreover have "p \<noteq> UnknownProvider" using assms by (auto simp: ready_def)
  ultimately show ?thesis
    by (cases p) (simp_all add: vast.adapter_axioms runpod.adapter_axioms jarvis.adapter_axioms)
qed

lemma not_ready_nothing: "ready p e = Some why \<Longrightarrow> terminate net run cli t p e k = (Inr (not_started why), k)"
  by (simp add: terminate_def)



section \<open>Failures\<close>

lemma explain_accepted: "explain status txt p = Accepted \<Longrightarrow> status = Some 200 \<or> status = Some 204"
  by (auto simp: explain_def split: option.splits if_splits)

lemma explain_warns: "status \<noteq> Some 200 \<Longrightarrow> status \<noteq> Some 204 \<Longrightarrow> warns (Explained (explain status txt p))"
  using explain_accepted by auto

lemma failure_warns:
  assumes "at_status (last acc) \<notin> {Some 200, Some 204} \<or> at_graphql_failed (last acc)"
  shows "warns (res_detail (runpod_failure acc))"
  using assms explain_warns by (auto simp: runpod_failure_def Let_def)

lemma runpod_cli_warns:
  assumes "runpod_cli run cli iid key acc k = (r, k')" and "\<not> res_ok r"
    and "cli = None \<Longrightarrow> at_status (last acc) \<notin> {Some 200, Some 204} \<or> at_graphql_failed (last acc)"
  shows "warns (res_detail r) \<or> cli \<noteq> None \<and> res_status r \<in> {Some 200, Some 204}"
proof (cases cli)
  case None
  with assms failure_warns show ?thesis by (auto simp: runpod_cli_def)
next
  case (Some c)
  obtain acc' hit k1 where h:
    "cli_attempts run c key [[''pod'', ''delete'', iid], [''remove'', ''pod'', iid]] acc k = ((acc', hit), k1)"
    by (metis prod.collapse)
  with assms(1,2) Some have "r = runpod_failure acc'"
    by (cases hit) (auto simp: runpod_cli_def runpod_accepted_def simp del: cli_attempts.simps)
  moreover have "res_status (runpod_failure acc') = at_status (last acc')" by (simp add: runpod_failure_def Let_def)
  ultimately show ?thesis using Some failure_warns [of acc'] by auto
qed


section \<open>Credential checks\<close>

definition only_reads :: "'w link \<Rightarrow> (fault + 'a) \<times> 'w link \<Rightarrow> bool" where
  "only_reads k out = (fst out \<noteq> Inl NotArmed \<and>
     (\<exists>new. sent (snd out) = sent k @ new \<and> (\<forall>ds\<in>set new. \<not> sr_destructive ds)))"

lemma http_call_reads:
  obtains r k' where "http_call net t rq (Some False) k = (Inr r, k')"
    and "\<exists>new. sent k' = sent k @ new \<and> (\<forall>ds\<in>set new. \<not> sr_destructive ds)"
proof -
  obtain out w where out: "received (net rq (world k)) = (out, w)" by fastforce
  have "\<exists>r k'. http_call net t rq (Some False) k = (Inr r, k') \<and> (\<exists>ds. sent k' = sent k @ [ds] \<and> \<not> sr_destructive ds)"
    by (cases "dry_run t"; cases out) (auto simp: http_call_def redacted_record_def out split: prod.splits)
  then obtain r k' ds where "http_call net t rq (Some False) k = (Inr r, k')" "sent k' = sent k @ [ds]"
    and "\<not> sr_destructive ds" by blast
  then show thesis by (intro that [of r k']) auto
qed

lemma runpod_probe_reads: "only_reads k (runpod_probe net t e k)"
proof -
  have verdict: "runpod_verdict iid r \<noteq> Inl NotArmed" for iid r
    by (auto simp: runpod_verdict_def no_pod_def Let_def split: option.splits payload.splits if_splits)
  let ?q = "if instance_id RunPod e \<noteq> [] then POD_PROBE_QUERY (instance_id RunPod e) else ACCOUNT_PROBE_QUERY"
  obtain r k' where h: "http_call net t \<lparr>rq_method = ''POST'', rq_url = GRAPHQL_URL,
      rq_headers = bearer (api_key RunPod e) ''Content-Type'', rq_body = query_body ?q\<rparr> (Some False) k = (Inr r, k')"
    and "\<exists>new. sent k' = sent k @ new \<and> (\<forall>ds\<in>set new. \<not> sr_destructive ds)" by (rule http_call_reads)
  then show ?thesis by (auto simp: runpod_probe_def Let_def only_reads_def verdict)
qed

lemma jarvis_probe_reads: "only_reads k (jarvis_probe net t e k)"
proof -
  obtain r k' where h: "http_call net t \<lparr>rq_method = ''GET'',
      rq_url = ''https://backendn.jarvislabs.net/users/fetch/'' @ instance_id JarvisLabs e,
      rq_headers = bearer (api_key JarvisLabs e) ''Accept'', rq_body = []\<rparr> (Some False) k = (Inr r, k')"
    and "\<exists>new. sent k' = sent k @ new \<and> (\<forall>ds\<in>set new. \<not> sr_destructive ds)" by (rule http_call_reads)
  then show ?thesis by (auto simp: jarvis_probe_def Let_def only_reads_def)
qed

text \<open>Checking the credential needs no armed transport: it never meets the transport's refusal, and every
  request it sends is declared, and recorded, as non-destructive.\<close>

lemma probe_not_destructive:
  "fst (probe_credential net t p e k) \<noteq> Inl NotArmed \<and>
   (\<exists>new. sent (snd (probe_credential net t p e k)) = sent k @ new \<and> (\<forall>ds\<in>set new. \<not> sr_destructive ds))"
  using runpod_probe_reads [of k net t e] jarvis_probe_reads [of k net t e]
  by (cases p) (simp_all add: probe_credential_def only_reads_def)

section \<open>Secrets\<close>

text \<open>A name that is searched for ends in its only equality sign.\<close>

lemma name_sign: "n \<in> set secret_names \<Longrightarrow> n \<noteq> [] \<and> last n = CHR 0x3D \<and> CHR 0x3D \<notin> set (butlast n)"
  by (auto simp: secret_names_def)

lemma name_no_amp: "n \<in> set secret_names \<Longrightarrow> CHR 0x26 \<notin> set n"
  by (auto simp: secret_names_def)

lemma name_no_suffix:
  assumes "n \<in> set secret_names" and "m \<in> set secret_names" and n: "n = u @ m"
  shows "u = []"
proof -
  have "drop (length n - length m) n = m" by (simp add: n)
  then have "n = m" using assms(1,2) by (auto simp: secret_names_def)
  then show ?thesis by (simp add: n)
qed

lemma redact_rest_iff: "rest_after n s = Some r \<longleftrightarrow> s = n @ r"
  by (induction n s rule: rest_after.induct) auto

lemma rest_after_self [simp]: "rest_after n (n @ r) = Some r"
  by (simp add: redact_rest_iff)

text \<open>So a match that starts before a name ends before it.\<close>

lemma match_before_name:
  assumes "n \<in> set secret_names" and "m \<in> set secret_names" and "u \<noteq> []" and "u @ m @ z = n @ r"
  obtains r' where "u = n @ r'" and "r = r' @ m @ z"
proof -
  obtain v where v: "u = n @ v \<and> v @ m @ z = r \<or> u @ v = n \<and> m @ z = v @ r"
    using assms(4) by (auto simp: append_eq_append_conv2 [of u "m @ z" n r])
  show thesis
  proof (cases "u @ v = n \<and> v \<noteq> []")
    case False
    with v show thesis by (cases "v = []") (auto intro: that)
  next
    case True
    have "v = m"
    proof -
      have last: "last v = CHR 0x3D" "CHR 0x3D \<notin> set (butlast v)"
        using name_sign [OF assms(1)] True by (auto simp: butlast_append)
      have m: "m \<noteq> []" "last m = CHR 0x3D" "CHR 0x3D \<notin> set (butlast m)" using name_sign [OF assms(2)] by auto
      have "m @ z = v @ r" using v True by auto
      then obtain y where "m = v @ y \<or> v = m @ y" by (auto simp: append_eq_append_conv2)
      then have "y = []"
        using last m True by (cases "y = []") (auto simp: butlast_append dest: last_in_set)
      with \<open>m = v @ y \<or> v = m @ y\<close> show ?thesis by auto
    qed
    with True have "n = u @ m" by simp
    with name_no_suffix [OF assms(1,2)] assms(3) show thesis by blast
  qed
qed

lemma rest_after_before:
  assumes "n \<in> set secret_names" and "m \<in> set secret_names" and "u \<noteq> []"
  shows "rest_after n (u @ m @ z) = map_option (\<lambda>r. r @ m @ z) (rest_after n u)"
proof (cases "rest_after n u")
  case None
  then have "rest_after n (u @ m @ z) \<noteq> Some r" for r
    using match_before_name [OF assms] by (metis option.distinct(1) redact_rest_iff)
  with None show ?thesis by (cases "rest_after n (u @ m @ z)") auto
next
  case (Some r)
  then have "rest_after n (u @ m @ z) = Some (r @ m @ z)" by (simp add: redact_rest_iff)
  with Some show ?thesis by simp
qed

lemma after_name_before:
  assumes "m \<in> set secret_names" and "u \<noteq> []" and "set ns \<subseteq> set secret_names"
  shows "after_name ns (u @ m @ z) = map_option (\<lambda>(n, r). (n, r @ m @ z)) (after_name ns u)"
  using assms(3)
  by (induction ns) (simp_all add: rest_after_before [OF _ assms(1,2)] split: option.split)

lemma after_name_at: "m \<in> set secret_names \<Longrightarrow> after_name secret_names (m @ z) = Some (m, z)"
  by (auto simp: secret_names_def)

lemma upto_amp_skip: "CHR 0x26 \<notin> set s \<Longrightarrow> upto_amp (s @ r) = upto_amp r"
  by (auto simp: upto_amp_def dropWhile_append)

text \<open>C36: what \<open>redact\<close> returns does not depend on the credential: whatever stands between a key-shaped
  parameter and the next \<open>&\<close> or the end, in whatever address, the redacted text is the same.\<close>

theorem redact_hides:
  assumes "m \<in> set secret_names" and "CHR 0x26 \<notin> set x" and "CHR 0x26 \<notin> set y" and "r = [] \<or> hd r = CHR 0x26"
  shows "redact (u @ m @ x @ r) = redact (u @ m @ y @ r)"
proof (induction u rule: length_induct)
  case (1 u)
  have rest: "upto_amp r = r" using assms(4) by (cases r) (auto simp: upto_amp_def)
  have tail: "upto_amp (w @ r) = r" if "CHR 0x26 \<notin> set w" for w using that rest by (simp add: upto_amp_skip)
  have unfold: "redact s = (case after_name secret_names s of None \<Rightarrow> hd s # redact (tl s)
      | Some (n, q) \<Rightarrow> n @ ''REDACTED'' @ redact (upto_amp q))" if "s \<noteq> []" for s
    using that by (subst redact.simps) (cases s; simp split: option.split)
  have "m \<noteq> []" using name_sign [OF assms(1)] by simp
  show ?case
  proof (cases "u = []")
    case True
    with \<open>m \<noteq> []\<close> show ?thesis by (simp add: unfold after_name_at [OF assms(1)] tail assms(2,3))
  next
    case False
    show ?thesis
    proof (cases "after_name secret_names u")
      case None
      have "redact (tl u @ m @ x @ r) = redact (tl u @ m @ y @ r)" using 1 False by (cases u) auto
      with None False show ?thesis by (simp add: unfold after_name_before [OF assms(1) False])
    next
      case (Some nq)
      then obtain n q where nq: "after_name secret_names u = Some (n, q)" by (cases nq) auto
      have "redact (upto_amp (q @ m @ x @ r)) = redact (upto_amp (q @ m @ y @ r))"
      proof (cases "CHR 0x26 \<in> set q")
        case True
        then have "upto_amp (q @ w) = upto_amp q @ w" for w by (auto simp: upto_amp_def dropWhile_append)
        moreover have "n \<noteq> []" "length q + length n = length u"
          using after_name_length [OF nq] name_sign by blast+
        then have "length (upto_amp q) < length u"
          using length_dropWhile_le [of "\<lambda>c. c \<noteq> CHR 0x26" q] by (cases n) (simp_all add: upto_amp_def)
        ultimately show ?thesis using 1 by simp
      next
        case False
        then show ?thesis
          by (simp add: upto_amp_skip name_no_amp [OF assms(1)] tail assms(2,3))
      qed
      with nq False show ?thesis by (simp add: unfold after_name_before [OF assms(1) False])
    qed
  qed
qed

section \<open>Instances\<close>

text \<open>A vast.ai instance and a pod, and services that count the requests and always answer the same.\<close>

definition vast_env :: env where
  "vast_env = [''CONTAINER_ID'' \<mapsto> ''123'', ''CONTAINER_API_KEY'' \<mapsto> ''k'']"

definition pod_env :: env where
  "pod_env = [''RUNPOD_POD_ID'' \<mapsto> ''pod7'', ''RUNPOD_API_KEY'' \<mapsto> ''k'']"

definition answers :: "int \<Rightarrow> nat net" where
  "answers status = (\<lambda>rq w. (Inr (status, \<lparr>b_text = [], b_json = None\<rparr>), w + 1))"

definition no_cli :: "nat runner" where
  "no_cli = (\<lambda>argv key w. ((None, []), w))"

definition armed :: transport where "armed = \<lparr>allow_destructive = True, dry_run = False\<rparr>"
definition fresh_link :: "nat link" where "fresh_link = \<lparr>world = 0, sent = []\<rparr>"

lemma vast_ready: "ready VastAI vast_env = None" "ready RunPod pod_env = None"
  by code_simp+




text \<open>The exception is real: a pod whose API answers 204 to the mutation is told that the termination was
  accepted, in a result that is not ok.\<close>

lemma refusal_reads_accepted:
  "\<exists>net r k'. terminate net no_cli None armed RunPod pod_env fresh_link = (Inr r, k') \<and>
     \<not> res_ok r \<and> res_detail r = Explained Accepted"
proof -
  let ?net = "(\<lambda>rq w. (Inr (if w = 0 then 500 else 204, \<lparr>b_text = [], b_json = None\<rparr>), w + 1)) :: nat net"
  have "\<exists>r k'. terminate ?net no_cli None armed RunPod pod_env fresh_link = (Inr r, k') \<and>
     \<not> res_ok r \<and> res_detail r = Explained Accepted"
    by (simp add: terminate_def vast_ready runpod_terminate_def runpod_graphql_def runpod_cli_def runpod_failure_def
        http_call_def received_def attempted_def explain_def armed_def fresh_link_def Let_def)
  then show ?thesis by blast
qed

theorem redact_hides_witness:
  "redact ''https://api/?a=1&api_key=abc&b=2'' = redact ''https://api/?a=1&api_key=zzzzz&b=2''"
  using redact_hides [of "''api_key=''" "''abc''" "''zzzzz''" "''&b=2''" "''https://api/?a=1&''"]
  by (simp add: secret_names_def)

end
