(* ===== verification/TerminateTheorems.thy ===== *)
theory TerminateTheorems
  imports Terminate ProviderTheorems
begin

text \<open>
  The worker's guarantees: it returns, it makes the destructive call only with every permission and never
  after a lock, a failed run gives the engine back, and the erase never decides about the call. They rest
  on the contract of the adapters and on the switches being a ratchet.
\<close>

section \<open>Progress notes do not touch anything else\<close>

lemma step_to_simps [simp]:
  "wlink (step_to ph w) = wlink w" "stop_flag (step_to ph w) = stop_flag w"
  "pr_refused (prog (step_to ph w)) = pr_refused (prog w)"
  by (simp_all add: step_to_def)

lemma finish_with_simps [simp]:
  "wlink (finish_with ok t by w) = wlink w" "stop_flag (finish_with ok t by w) = stop_flag w"
  "pr_ok (prog (finish_with ok t by w)) = Some ok" "pr_finished (prog (finish_with ok t by w))"
  "pr_text (prog (finish_with ok t by w)) = Some t" "pr_refused (prog (finish_with ok t by w)) = by"
  by (simp_all add: finish_with_def)

lemma erase_memory_simps [simp]:
  "wlink (erase_memory opts tr w) = wlink w" "stop_flag (erase_memory opts tr w) = stop_flag w"
  by (simp_all add: erase_memory_def Let_def)

lemma erase_phase_refused: "pr_refused (prog (snd (erase_phase opts tr w))) = pr_refused (prog w)"
  by (simp add: erase_phase_def erase_memory_def Let_def)

lemma erase_phase_simps [simp]:
  "wlink (snd (erase_phase opts tr w)) = wlink w" "stop_flag (snd (erase_phase opts tr w)) = stop_flag w"
  by (simp_all add: erase_phase_def Let_def)

section \<open>The wait ends\<close>

declare wait_stopped.simps [simp del]

lemma wait_before:
  assumes "deadline \<le> cl N" and "n \<le> N"
  shows "\<exists>b m. wait_stopped cl c deadline n = Some (b, m) \<and> m \<le> N"
  using assms(2)
proof (induction rule: inc_induct)
  case base
  show ?case using assms(1) by (subst wait_stopped.simps) (auto simp: not_less [symmetric] intro: exI [of _ False])
next
  case (step n)
  then show ?case by (subst wait_stopped.simps) auto
qed

lemma clock_runs:
  assumes "cl 0 \<le> cl 1" and "\<And>n. 1 \<le> n \<Longrightarrow> cl n + 2 \<le> cl (Suc n)"
  shows "cl 0 + 2 * of_nat j \<le> (cl (Suc j) :: rat)"
proof (induction j)
  case (Suc j)
  with assms(2) [of "Suc j"] show ?case by simp
qed (use assms(1) in simp)

text \<open>C37: the worker always returns when every turn of the wait takes its two seconds, and the wait for the
  supervisor takes at most 91 readings of the clock, whatever the supervisor does.\<close>

theorem worker_returns:
  assumes "clock s 0 \<le> clock s 1" and "\<And>n. 1 \<le> n \<Longrightarrow> clock s n + 2 \<le> clock s (Suc n)"
  shows "(\<exists>out. run_worker net run cli p e f f' s opts w = Some out) \<and>
    (\<exists>b n. wait_stopped (clock s) (confirmed s) (clock s 0 + STOP_TIMEOUT_S) 1 = Some (b, n) \<and> n \<le> 91)"
proof -
  have "clock s 0 + STOP_TIMEOUT_S \<le> clock s 91"
    using clock_runs [of "clock s" 90] assms by (simp add: STOP_TIMEOUT_S_def)
  from wait_before [of "clock s 0 + STOP_TIMEOUT_S" "clock s" 91 1 "confirmed s", OF this] obtain b n
    where "wait_stopped (clock s) (confirmed s) (clock s 0 + STOP_TIMEOUT_S) 1 = Some (b, n)" "n \<le> 91" by auto
  then show ?thesis by (auto simp: run_worker_def Let_def split: sum.split option.split)
qed

section \<open>How a run ends\<close>

text \<open>A run that reaches the destructive phase has passed every gate.\<close>

lemma run_cases:
  assumes "run_worker net run cli p e f f' s opts w = Some out"
  obtains (refused) t who where "out = Finished (finish_with False t (Some who) (w\<lparr>prog := new_progress (is_dry e opts)\<rparr>))"
  | (crashed) w' where "out = Crashed w'" "wlink w' = wlink w"
  | (through) w1 where "may_terminate e f" "py_strip (o_confirm opts) = expected_confirmation p e" "ready p e = None"
      "out = Finished (after_stop net run cli p e f' s opts w1)" "wlink w1 = wlink w"
      "stop_flag w1 = (if is_dry e opts then stop_flag w else True)"
proof (cases "termination_allowed e f")
  case (Inl why)
  show thesis by (rule refused [of "SwitchOff why" BySwitch]) (use assms Inl in \<open>simp add: run_worker_def\<close>)
next
  case allowed: (Inr u)
  let ?w = "step_to StoppingEngine (w\<lparr>prog := new_progress (is_dry e opts)\<rparr>)"
  consider "py_strip (o_confirm opts) \<noteq> expected_confirmation p e"
    | why where "py_strip (o_confirm opts) = expected_confirmation p e" "ready p e = Some why"
    | "py_strip (o_confirm opts) = expected_confirmation p e" "ready p e = None" by fastforce
  then show thesis
  proof cases
    case 1
    show thesis
      by (rule refused [of WrongConfirmation ByConfirmation]) (use assms allowed 1 in \<open>simp add: run_worker_def\<close>)
  next
    case (2 why)
    show thesis
      by (rule refused [of "NotReady why" ByProvider]) (use assms allowed 2 in \<open>simp add: run_worker_def\<close>)
  next
    case 3
    have may: "may_terminate e f" using allowed by (simp add: may_terminate_def)
    have out: "(if is_dry e opts then Some (Finished (after_stop net run cli p e f' s opts ?w))
      else if \<not> flag_writable s then Some (Crashed ?w)
      else (case wait_stopped (clock s) (confirmed s) (clock s 0 + STOP_TIMEOUT_S) 1 of None \<Rightarrow> None
        | Some _ \<Rightarrow> Some (Finished (after_stop net run cli p e f' s opts (?w\<lparr>stop_flag := True\<rparr>))))) = Some out"
      using assms allowed 3 by (simp add: run_worker_def Let_def)
    show thesis
    proof (cases "is_dry e opts")
      case True
      with out show thesis by (intro through [OF may 3, of ?w]) auto
    next
      case False
      show thesis
      proof (cases "flag_writable s")
        case True
        with False out show thesis
          by (intro through [OF may 3, of "?w\<lparr>stop_flag := True\<rparr>"]) (auto split: option.splits)
      qed (use False out in \<open>auto intro: crashed [of ?w]\<close>)
    qed
  qed
qed

text \<open>What the destructive phase does to the services and to the flag.\<close>

lemma after_stop_refused:
  assumes "\<not> may_terminate e f"
  shows "wlink (after_stop net run cli p e f s opts w) = wlink w"
    and "\<not> stop_flag (after_stop net run cli p e f s opts w)"
    and "pr_ok (prog (after_stop net run cli p e f s opts w)) = Some False"
    and "pr_refused (prog (after_stop net run cli p e f s opts w)) = Some BySwitch"
proof -
  from assms obtain why where "termination_allowed e f = Inl why"
    by (cases "termination_allowed e f") (auto simp: may_terminate_def)
  then show "wlink (after_stop net run cli p e f s opts w) = wlink w"
    and "\<not> stop_flag (after_stop net run cli p e f s opts w)"
    and "pr_ok (prog (after_stop net run cli p e f s opts w)) = Some False"
    and "pr_refused (prog (after_stop net run cli p e f s opts w)) = Some BySwitch"
    by (simp_all add: after_stop_def destroy_phase_def case_prod_beta Let_def)
qed

lemma after_stop_finished: "pr_finished (prog (after_stop net run cli p e f s opts w))"
  by (simp add: after_stop_def destroy_phase_def case_prod_beta Let_def split: sum.split prod.split fault.split)

lemma after_stop_allowed:
  assumes "may_terminate e f" and "ready p e = None"
  obtains r k where "terminate net run cli \<lparr>allow_destructive = True, dry_run = is_dry e opts\<rparr> p e (wlink w) = (Inr r, k)"
    and "wlink (after_stop net run cli p e f s opts w) = k"
    and "pr_ok (prog (after_stop net run cli p e f s opts w)) = Some (res_ok r)"
    and "res_ok r \<or> \<not> stop_flag (after_stop net run cli p e f s opts w)"
    and "pr_refused (prog (after_stop net run cli p e f s opts w)) = None"
proof -
  let ?t = "\<lparr>allow_destructive = True, dry_run = is_dry e opts\<rparr>"
  obtain r where "fst (terminate net run cli ?t p e (wlink w)) = Inr r"
    using adapter.armed_answers [OF ready_adapter [OF assms(2), where net = net and run = run and cli = cli],
        where t = ?t and k = "wlink w"] by auto
  then obtain k where t: "terminate net run cli ?t p e (wlink w) = (Inr r, k)"
    by (cases "terminate net run cli ?t p e (wlink w)") simp
  moreover obtain u where "termination_allowed e f = Inr u"
    using assms(1) by (cases "termination_allowed e f") (auto simp: may_terminate_def)
  ultimately have "after_stop net run cli p e f s opts w = (let (failures, w') = erase_phase opts (erasing s) (step_to EngineStopped w);
        w' = step_to Terminating w'
      in if \<not> res_ok r then finish_with False (CallFailed (res_detail r)) None (w'\<lparr>stop_flag := False, wlink := k\<rparr>)
         else finish_with True (CallAccepted (res_detail r) failures) None (w'\<lparr>wlink := k\<rparr>))"
    by (simp add: after_stop_def destroy_phase_def case_prod_beta Let_def)
  then show thesis
    by (intro that [OF t]) (simp_all add: case_prod_beta Let_def)
qed

section \<open>The guarantees\<close>

text \<open>C2: the provider's services are touched only by a run that was allowed when it started and when it made
  the call, whose typed confirmation is the instance's id, whose provider is ready, and that is no dry
  run.\<close>

theorem destroys_only_with_permission:
  assumes "run_worker net run cli p e f f' s opts w = Some out"
    and "out = Finished w' \<or> out = Crashed w'" and "world (wlink w') \<noteq> world (wlink w)"
  shows "may_terminate e f \<and> may_terminate e f' \<and> py_strip (o_confirm opts) = expected_confirmation p e \<and>
    ready p e = None \<and> \<not> is_dry e opts"
  using assms(1)
proof (cases rule: run_cases)
  case (through w1)
  then have w': "w' = after_stop net run cli p e f' s opts w1" using assms(2) by auto
  have may: "may_terminate e f'" using assms(3) through after_stop_refused(1) w' by metis
  obtain r k where "terminate net run cli \<lparr>allow_destructive = True, dry_run = is_dry e opts\<rparr> p e (wlink w1) = (Inr r, k)"
    and "wlink w' = k" unfolding w' by (rule after_stop_allowed [OF may through(3)]) blast
  then have "\<not> is_dry e opts"
    using assms(3) through(5) adapter.touches_only_armed_live [OF ready_adapter [OF through(3)],
        of net run cli "\<lparr>allow_destructive = True, dry_run = is_dry e opts\<rparr>" "wlink w1"] by auto
  with may through show ?thesis by simp
qed (use assms in auto)



text \<open>What can be told of a run from outside, apart from its progress notes.\<close>

definition observable :: "'w worker \<Rightarrow> 'w link \<times> bool option \<times> refused_by option \<times> bool" where
  "observable w = (wlink w, pr_ok (prog w), pr_refused (prog w), stop_flag w)"

lemma destroy_phase_observable:
  assumes "wlink w = wlink v" and "stop_flag w = stop_flag v"
    and "pr_refused (prog w) = pr_refused (prog v)"
  shows "observable (destroy_phase net run cli p e dry f m w) = observable (destroy_phase net run cli p e dry f n v)"
  using assms by (simp add: observable_def destroy_phase_def Let_def split: sum.split prod.split fault.split)

lemma after_stop_observable:
  "observable (after_stop net run cli p e f (s\<lparr>erasing := tr\<rparr>) (opts\<lparr>o_erase := b, o_ram := b1, o_vram := b2\<rparr>) w)
     = observable (after_stop net run cli p e f s opts w)"
  unfolding after_stop_def case_prod_beta Let_def is_dry_def
  by simp (rule destroy_phase_observable; simp add: erase_phase_refused)

text \<open>How the erase goes never decides about the call: two runs that differ only in what was to be
  erased and in how far it got, exceptions included, send the same requests and end alike.\<close>

lemma erase_never_decides:
  assumes "run_worker net run cli p e f f' s opts w = Some (Finished w1)"
    and "run_worker net run cli p e f f' (s\<lparr>erasing := tr\<rparr>) (opts\<lparr>o_erase := b, o_ram := b1, o_vram := b2\<rparr>) w
           = Some (Finished w2)"
  shows "wlink w1 = wlink w2 \<and> pr_ok (prog w1) = pr_ok (prog w2) \<and> pr_refused (prog w1) = pr_refused (prog w2)
    \<and> stop_flag w1 = stop_flag w2"
proof -
  have dry: "is_dry e (opts\<lparr>o_erase := b, o_ram := b1, o_vram := b2\<rparr>) = is_dry e opts" by (simp add: is_dry_def)
  have "observable w1 = observable w2"
    using assms
    by (auto simp: run_worker_def Let_def dry after_stop_observable split: sum.splits option.splits if_splits)
  then show ?thesis by (simp add: observable_def)
qed

text \<open>A live run that reports success has the provider's acknowledgement, and is the only kind of run that
  leaves the engine stopped.\<close>

lemma worker_success_acknowledged:
  assumes "run_worker net run cli p e f f' s opts w = Some (Finished w')"
    and "pr_ok (prog w') = Some True" and "\<not> is_dry e opts"
  shows "\<exists>v. provider_ack net run p e v (world (wlink w'))"
  using assms(1)
proof (cases rule: run_cases)
  case (through w1)
  then have w': "w' = after_stop net run cli p e f' s opts w1" by simp
  have may: "may_terminate e f'" by (rule ccontr) (use assms(2) w' in \<open>simp add: after_stop_refused\<close>)
  obtain r k where t: "terminate net run cli \<lparr>allow_destructive = True, dry_run = is_dry e opts\<rparr> p e (wlink w1) = (Inr r, k)"
    and k: "wlink w' = k" "pr_ok (prog w') = Some (res_ok r)"
    unfolding w' by (rule after_stop_allowed [OF may through(3)]) blast
  show ?thesis
    using adapter.success_acknowledged [OF ready_adapter [OF through(3)] _ _ t] assms(2,3) k by simp
qed (use assms in auto)

section \<open>The page\<close>

text \<open>The page launches a worker only with every permission and never while a progress file shows a run
  under way; whatever it refuses leaves the page as it was.\<close>

lemma start_needs_permission:
  assumes "start_termination e p f s = (ans, s')"
  shows "(ans = Started \<longrightarrow> may_terminate e (pg_switches s) \<and> ticked f ''understand'' \<and> ready p e = None \<and>
       py_strip (field_of f ''confirm'') = expected_confirmation p e \<and>
       (\<forall>d. pg_progress s = Some d \<longrightarrow> pr_finished d)) \<and>
    (ans \<noteq> Started \<longrightarrow> s' = s) \<and> pg_switches s' = pg_switches s"
  using assms
  by (auto simp: start_termination_def may_terminate_def Let_def split: sum.splits option.splits if_splits)

text \<open>What happens to the runtime directory: the requests, a launched worker beginning, and a worker
  writing its progress.\<close>

inductive page_step :: "env \<Rightarrow> provider \<Rightarrow> page \<Rightarrow> page \<Rightarrow> bool" for e p where
  posted_start: "page_step e p s (snd (start_termination e p f s))"
| posted_lock: "page_step e p s (post_lock e f s)"
| began: "page_step e p s (worker_begins e s)"
| advanced: "page_step e p s (s\<lparr>pg_progress := Some d\<rparr>)"

inductive page_run :: "env \<Rightarrow> provider \<Rightarrow> page \<Rightarrow> page \<Rightarrow> bool" for e p where
  rest: "page_run e p s s"
| go: "page_run e p s s' \<Longrightarrow> page_step e p s' s'' \<Longrightarrow> page_run e p s s''"

lemma start_refused: "\<not> may_terminate e (pg_switches s) \<Longrightarrow> snd (start_termination e p f s) = s"
  using start_needs_permission [of e p f s "fst (start_termination e p f s)" "snd (start_termination e p f s)"]
  by fastforce

lemma drop_none: "\<exists>n. xs = drop n xs"
  by (rule exI [of _ 0]) simp

lemma drop_first: "\<exists>n. xs = drop n (x # xs)"
  by (rule exI [of _ 1]) simp

lemma page_step_locked:
  assumes "page_step e p s s'" and "\<not> may_terminate e (pg_switches s)"
  shows "\<not> may_terminate e (pg_switches s') \<and> (\<exists>n. pg_launched s' = drop n (pg_launched s))"
  using assms(1)
proof (cases rule: page_step.cases)
  case (posted_start f)
  then have "s' = s" by (simp add: start_refused [OF assms(2)])
  with assms(2) drop_none show ?thesis by simp
next
  case (posted_lock f)
  have "\<not> may_terminate e (pg_switches s')"
    using posted_lock assms(2) terminate_ratchet.op_never_grants [of e "lock_request f" "pg_switches s"]
    by (auto simp: post_lock_def)
  moreover have "pg_launched s' = pg_launched s" using posted_lock by (simp add: post_lock_def)
  ultimately show ?thesis by (simp add: drop_none)
next
  case began
  then show ?thesis using assms(2)
    by (cases "pg_launched s") (simp_all add: worker_begins_def drop_first)
next
  case (advanced d)
  with assms(2) drop_none show ?thesis by simp
qed

text \<open>Once termination is refused, no sequence of requests to the page, of any kind and whatever the
  forms carry, launches another worker, and it stays refused.\<close>

lemma locked_page_launches_nothing:
  assumes "page_run e p s s'" and "\<not> may_terminate e (pg_switches s)"
  shows "\<not> may_terminate e (pg_switches s') \<and> (\<exists>n. pg_launched s' = drop n (pg_launched s))"
  using assms
proof (induction rule: page_run.induct)
  case (go s s' s'')
  with page_step_locked [OF go.hyps(2)] obtain n m where "pg_launched s' = drop n (pg_launched s)"
    "pg_launched s'' = drop m (pg_launched s')" "\<not> may_terminate e (pg_switches s'')" by blast
  then have "pg_launched s'' = drop (m + n) (pg_launched s)" by simp
  with \<open>\<not> may_terminate e (pg_switches s'')\<close> show ?case by blast
qed (simp add: drop_none)

text \<open>Two requests in a row, before the first worker has written its progress, both launch one.\<close>

lemma two_workers:
  assumes "fst (start_termination e p f s) = Started"
  shows "fst (start_termination e p f (snd (start_termination e p f s))) = Started \<and>
    length (pg_launched (snd (start_termination e p f (snd (start_termination e p f s))))) = length (pg_launched s) + 2"
  using assms
  by (auto simp: start_termination_def Let_def split: sum.splits option.splits if_splits)

text \<open>A worker that is killed leaves a progress file that is not finished, and no later request starts one.\<close>

lemma killed_worker_blocks:
  assumes "pg_launched s \<noteq> []"
  shows "fst (start_termination e p f (worker_begins e s)) \<noteq> Started"
  using assms
  by (auto simp: start_termination_def worker_begins_def new_progress_def Let_def split: list.splits sum.splits option.splits)

section \<open>Instances\<close>

definition open_env :: env where
  "open_env = vast_env(''TERMINATE_ENABLED'' \<mapsto> ''1'')"

definition clean_erase :: erase_trace where
  "clean_erase = \<lparr>plan_raises = False, erase_raises = False, failed_files = 0, ram_raises = False, vram_raises = False\<rparr>"

definition calm_site :: site where
  "calm_site = \<lparr>clock = (\<lambda>n. 2 * of_nat n), confirmed = (\<lambda>n. n = 2), flag_writable = True, erasing = clean_erase\<rparr>"

definition typed_options :: options where
  "typed_options = \<lparr>o_confirm = ''123'', o_erase = True, o_ram = False, o_vram = False, o_dry = False\<rparr>"

definition idle_worker :: "nat worker" where
  "idle_worker = \<lparr>wlink = fresh_link, stop_flag = False, prog = new_progress False\<rparr>"

lemma open_facts:
  "ready VastAI open_env = None" "expected_confirmation VastAI open_env = ''123''" "py_strip ''123'' = ''123''"
  "is_dry open_env typed_options = False" "may_terminate open_env None"
  by code_simp+

lemma calm_wait: "wait_stopped (clock calm_site) (confirmed calm_site) (clock calm_site 0 + STOP_TIMEOUT_S) 1 = Some (True, 2)"
  by (subst wait_stopped.simps, subst wait_stopped.simps) (simp add: calm_site_def STOP_TIMEOUT_S_def)

lemma calm_run: "run_worker net run cli VastAI open_env None f' calm_site typed_options idle_worker =
   Some (Finished (after_stop net run cli VastAI open_env f' calm_site typed_options
     ((step_to StoppingEngine (idle_worker\<lparr>prog := new_progress False\<rparr>))\<lparr>stop_flag := True\<rparr>)))"
proof -
  obtain u where "termination_allowed open_env None = Inr u"
    using open_facts(5) by (cases "termination_allowed open_env None") (auto simp: may_terminate_def)
  moreover have "o_confirm typed_options = ''123''" "flag_writable calm_site"
    by (simp_all add: typed_options_def calm_site_def)
  ultimately show ?thesis by (simp add: run_worker_def Let_def open_facts calm_wait [unfolded One_nat_def])
qed

lemma calm_ends:
  assumes "may_terminate open_env f'"
  obtains w' r k where "run_worker net run cli VastAI open_env None f' calm_site typed_options idle_worker = Some (Finished w')"
    and "terminate net run cli armed VastAI open_env fresh_link = (Inr r, k)"
    and "wlink w' = k" and "pr_ok (prog w') = Some (res_ok r)"
proof (rule after_stop_allowed [OF assms open_facts(1), where net = net and run = run and cli = cli and s = calm_site
      and opts = typed_options
      and w = "(step_to StoppingEngine (idle_worker\<lparr>prog := new_progress False\<rparr>))\<lparr>stop_flag := True\<rparr>"])
  fix r k
  let ?w' = "after_stop net run cli VastAI open_env f' calm_site typed_options
      ((step_to StoppingEngine (idle_worker\<lparr>prog := new_progress False\<rparr>))\<lparr>stop_flag := True\<rparr>)"
  assume "terminate net run cli \<lparr>allow_destructive = True, dry_run = is_dry open_env typed_options\<rparr> VastAI open_env
        (wlink ((step_to StoppingEngine (idle_worker\<lparr>prog := new_progress False\<rparr>))\<lparr>stop_flag := True\<rparr>)) = (Inr r, k)"
    and "wlink ?w' = k" "pr_ok (prog ?w') = Some (res_ok r)"
  then show thesis
    by (intro that [OF calm_run]) (simp_all add: armed_def open_facts idle_worker_def)
qed

lemma vast_answers:
  "terminate (answers 200) no_cli None armed VastAI open_env fresh_link = (Inr r, k) \<Longrightarrow> res_ok r \<and> world k = 1"
  "terminate (answers 404) no_cli None armed VastAI open_env fresh_link = (Inr r, k) \<Longrightarrow> \<not> res_ok r"
  by (auto simp: terminate_def open_facts vast_terminate_def http_call_def received_def answers_def armed_def
      vast_success_def fresh_link_def Let_def)

theorem worker_returns_witness:
  "\<exists>out. run_worker (answers 200) no_cli None VastAI open_env None None calm_site typed_options idle_worker = Some out"
proof -
  have "clock calm_site 0 \<le> clock calm_site 1" "\<And>n. 1 \<le> n \<Longrightarrow> clock calm_site n + 2 \<le> clock calm_site (Suc n)"
    by (simp_all add: calm_site_def)
  from worker_returns [OF this] show ?thesis by blast
qed

theorem destroys_only_with_permission_witness:
  "\<exists>w'. run_worker (answers 200) no_cli None VastAI open_env None None calm_site typed_options idle_worker = Some (Finished w')
     \<and> world (wlink w') = 1 \<and> may_terminate open_env None"
proof -
  obtain w' r k where run: "run_worker (answers 200) no_cli None VastAI open_env None None calm_site typed_options idle_worker
        = Some (Finished w')"
    and t: "terminate (answers 200) no_cli None armed VastAI open_env fresh_link = (Inr r, k)" and k: "wlink w' = k"
    by (rule calm_ends [OF open_facts(5)])
  have "world k = 1" using vast_answers(1) [OF t] by simp
  moreover have "world (wlink idle_worker) = 0" by (simp add: idle_worker_def fresh_link_def)
  ultimately have "world (wlink w') \<noteq> world (wlink idle_worker)" using k by simp
  from destroys_only_with_permission [OF run _ this] run k \<open>world k = 1\<close> show ?thesis by blast
qed

definition lock_now :: tighten_request where
  "lock_now = \<lparr>tr_enabled = None, tr_locked = Some True, tr_reason = ''locked from the landing page''\<rparr>"



lemma erase_never_decides_instance:
  "\<exists>w1 w2. run_worker (answers 200) no_cli None VastAI open_env None None calm_site typed_options idle_worker = Some (Finished w1)
     \<and> run_worker (answers 200) no_cli None VastAI open_env None None
           (calm_site\<lparr>erasing := clean_erase\<lparr>plan_raises := True\<rparr>\<rparr>)
           (typed_options\<lparr>o_erase := True, o_ram := True, o_vram := False\<rparr>) idle_worker = Some (Finished w2)
     \<and> wlink w1 = wlink w2"
proof -
  let ?s = "calm_site\<lparr>erasing := clean_erase\<lparr>plan_raises := True\<rparr>\<rparr>"
  let ?o = "typed_options\<lparr>o_erase := True, o_ram := True, o_vram := False\<rparr>"
  obtain w1 where w1: "run_worker (answers 200) no_cli None VastAI open_env None None calm_site typed_options idle_worker
        = Some (Finished w1)" by (rule calm_ends [OF open_facts(5)]) blast
  obtain u where "termination_allowed open_env None = Inr u"
    using open_facts(5) by (cases "termination_allowed open_env None") (auto simp: may_terminate_def)
  moreover have "o_confirm ?o = ''123''" "flag_writable ?s" "is_dry open_env ?o = False"
    using open_facts(4) by (simp_all add: typed_options_def calm_site_def is_dry_def)
  ultimately obtain w2 where w2: "run_worker (answers 200) no_cli None VastAI open_env None None ?s ?o idle_worker
        = Some (Finished w2)"
    using calm_wait [unfolded One_nat_def] by (simp add: run_worker_def Let_def open_facts)
  from erase_never_decides [OF w1 w2] w1 w2 show ?thesis by blast
qed

lemma worker_success_acknowledged_instance:
  "\<exists>w' v. run_worker (answers 200) no_cli None VastAI open_env None None calm_site typed_options idle_worker = Some (Finished w')
     \<and> provider_ack (answers 200) no_cli VastAI open_env v (world (wlink w'))"
proof -
  obtain w' r k where run: "run_worker (answers 200) no_cli None VastAI open_env None None calm_site typed_options idle_worker
        = Some (Finished w')"
    and t: "terminate (answers 200) no_cli None armed VastAI open_env fresh_link = (Inr r, k)"
    and ok: "pr_ok (prog w') = Some (res_ok r)"
    by (rule calm_ends [OF open_facts(5)])
  have "pr_ok (prog w') = Some True" using vast_answers(1) [OF t] ok by simp
  from worker_success_acknowledged [OF run this] open_facts(4) run show ?thesis by blast
qed

definition ticked_form :: "string \<Rightarrow> string option" where
  "ticked_form = [''understand'' \<mapsto> ''1'', ''confirm'' \<mapsto> ''123'', ''erase'' \<mapsto> ''1'']"

definition quiet_page :: page where
  "quiet_page = \<lparr>pg_switches = None, pg_progress = None, pg_launched = []\<rparr>"

lemma locked_page_launches_nothing_instance:
  "pg_launched (snd (start_termination open_env VastAI ticked_form
     (post_lock open_env [''understand'' \<mapsto> ''1'', ''action'' \<mapsto> ''lock''] quiet_page))) = []"
proof -
  let ?s = "post_lock open_env [''understand'' \<mapsto> ''1'', ''action'' \<mapsto> ''lock''] quiet_page"
  have "\<not> may_terminate open_env (pg_switches ?s)"
    by (simp add: post_lock_def ticked_def field_of_def lock_request_def quiet_page_def may_terminate_iff read_tighten
        tightened_def)
  moreover have "pg_launched ?s = []" by (simp add: post_lock_def quiet_page_def)
  ultimately show ?thesis
    using locked_page_launches_nothing [OF page_run.go [OF page_run.rest page_step.posted_start]]
    by (metis drop_Nil)
qed

text \<open>A request that is served, and the second worker of an impatient user.\<close>

lemma quiet_page_starts: "fst (start_termination open_env VastAI ticked_form quiet_page) = Started"
proof -
  obtain u where "termination_allowed open_env None = Inr u"
    using open_facts(5) by (cases "termination_allowed open_env None") (auto simp: may_terminate_def)
  then show ?thesis
    by (simp add: start_termination_def quiet_page_def ticked_form_def ticked_def field_of_def open_facts Let_def)
qed

lemma two_workers_launched:
  "length (pg_launched (snd (start_termination open_env VastAI ticked_form
     (snd (start_termination open_env VastAI ticked_form quiet_page))))) = 2"
  using two_workers [OF quiet_page_starts] by (simp add: quiet_page_def)

end
