(* ===== verification/Files.thy ===== *)
theory Files
  imports Layers "HOL-Library.Sublist" "HOL-Library.Word"
begin

text \<open>
  What \<^verbatim>\<open>scripts/secure_erase.py\<close> uses of \<^verbatim>\<open>os\<close> and \<^verbatim>\<open>os.path\<close>: path texts, and a disk as a table of nodes
  under the names that lead to them from the root. A link holds the place that its target resolves to;
  hard links are not modelled. Directories that cannot be read are listed beside the table.
\<close>

section \<open>Path texts\<close>

definition rstrip_slash :: "string \<Rightarrow> string" where
  "rstrip_slash s = rev (dropWhile (\<lambda>c. c = CHR ''/'') (rev s))"

definition path_join :: "string \<Rightarrow> string \<Rightarrow> string" where
  "path_join a b =
     (if starts_with ''/'' b then b
      else if a = [] \<or> last a = CHR ''/'' then a @ b else a @ ''/'' @ b)"

definition dirname :: "string \<Rightarrow> string" where
  "dirname s = (let h = rev (dropWhile (\<lambda>c. c \<noteq> CHR ''/'') (rev s)) in
     if rstrip_slash h = [] then h else rstrip_slash h)"

definition ends_with :: "string \<Rightarrow> string \<Rightarrow> bool" where
  "ends_with x s = suffix x s"

section \<open>The disk\<close>

type_synonym byte = "8 word"
type_synonym place = "string list"

datatype node = Plain "byte list" | Link place | Folder | Special

record disk =
  cwd :: place
  nodes :: "(place \<times> node) list"
  unreadable :: "place list"

definition node_at :: "disk \<Rightarrow> place \<Rightarrow> node option" where
  "node_at d q = (if q = [] then Some Folder else map_of (nodes d) q)"

text \<open>\<open>os.path.realpath\<close>: names that lead nowhere are kept, as Python does without \<open>strict\<close>.\<close>

fun step_into :: "disk \<Rightarrow> string \<Rightarrow> place \<Rightarrow> place" where
  "step_into d n q =
     (if n = [] \<or> n = ''.'' then q else if n = ''..'' then butlast q
      else (case node_at d (q @ [n]) of Some (Link t) \<Rightarrow> t | _ \<Rightarrow> q @ [n]))"

definition resolve_from :: "disk \<Rightarrow> place \<Rightarrow> string list \<Rightarrow> place" where
  "resolve_from d q ns = fold (step_into d) ns q"

definition path_start :: "disk \<Rightarrow> string \<Rightarrow> place" where
  "path_start d s = (if starts_with ''/'' s then [] else cwd d)"

definition real_place :: "disk \<Rightarrow> string \<Rightarrow> place" where
  "real_place d s = resolve_from d (path_start d s) (split_on (CHR ''/'') s)"

text \<open>The place a path itself names, without following a link in its last name.\<close>

definition place_of :: "disk \<Rightarrow> string \<Rightarrow> place" where
  "place_of d s = (let ns = split_on (CHR ''/'') s in
     if List.member [[], ''.'', ''..''] (last ns) then real_place d s
     else resolve_from d (path_start d s) (butlast ns) @ [last ns])"

definition path_text :: "place \<Rightarrow> string" where
  "path_text q = (if q = [] then ''/'' else concat (map (\<lambda>n. CHR ''/'' # n) q))"

definition realpath :: "disk \<Rightarrow> string \<Rightarrow> string" where
  "realpath d s = path_text (real_place d s)"

definition is_link :: "disk \<Rightarrow> string \<Rightarrow> bool" where
  "is_link d s = (case node_at d (place_of d s) of Some (Link _) \<Rightarrow> True | _ \<Rightarrow> False)"

definition is_file :: "disk \<Rightarrow> string \<Rightarrow> bool" where
  "is_file d s = (case node_at d (real_place d s) of Some (Plain _) \<Rightarrow> True | _ \<Rightarrow> False)"

definition is_dir :: "disk \<Rightarrow> string \<Rightarrow> bool" where
  "is_dir d s = (node_at d (real_place d s) = Some Folder)"

text \<open>\<open>os.path.getsize\<close>; a link that leads nowhere is an \<open>OSError\<close>.\<close>

definition size_of :: "disk \<Rightarrow> string \<Rightarrow> int option" where
  "size_of d s = (case node_at d (real_place d s) of
       Some (Plain b) \<Rightarrow> Some (int (length b)) | Some Special \<Rightarrow> Some 0 | Some Folder \<Rightarrow> Some 0 | _ \<Rightarrow> None)"

section \<open>Directories\<close>

definition entries :: "disk \<Rightarrow> place \<Rightarrow> string list" where
  "entries d q = map (last \<circ> fst) (filter (\<lambda>(r, _). r \<noteq> [] \<and> butlast r = q) (nodes d))"

text \<open>\<open>os.listdir\<close> raises where \<open>os.walk\<close> sees nothing.\<close>

definition listing :: "disk \<Rightarrow> string \<Rightarrow> string list option" where
  "listing d s = (if List.member (unreadable d) (real_place d s) then None else Some (entries d (real_place d s)))"

definition leads_to_folder :: "disk \<Rightarrow> place \<Rightarrow> bool" where
  "leads_to_folder d q = (case node_at d q of Some Folder \<Rightarrow> True
     | Some (Link t) \<Rightarrow> node_at d t = Some Folder | _ \<Rightarrow> False)"

definition subfolders :: "disk \<Rightarrow> place \<Rightarrow> string list" where
  "subfolders d q = (if List.member (unreadable d) q then []
     else filter (\<lambda>n. node_at d (q @ [n]) = Some Folder) (entries d q))"

definition other_entries :: "disk \<Rightarrow> place \<Rightarrow> string list" where
  "other_entries d q = (if List.member (unreadable d) q then []
     else filter (\<lambda>n. \<not> leads_to_folder d (q @ [n])) (entries d q))"

definition depth :: "disk \<Rightarrow> nat" where
  "depth d = foldr (\<lambda>(q, _). max (length q)) (nodes d) 0"

lemma length_le_depth: "(q, n) \<in> set (nodes d) \<Longrightarrow> length q \<le> depth d"
proof -
  have "(q, n) \<in> set xs \<Longrightarrow> length q \<le> foldr (\<lambda>(q, _). max (length q)) xs 0" for xs :: "(place \<times> node) list"
    by (induction xs) (auto simp: le_max_iff_disj)
  then show "(q, n) \<in> set (nodes d) \<Longrightarrow> length q \<le> depth d" by (simp add: depth_def)
qed

lemma subfolder_shallow: "n \<in> set (subfolders d q) \<Longrightarrow> length q < depth d"
  using length_le_depth [of "q @ [n]" Folder d]
  by (auto simp: subfolders_def node_at_def split: if_splits dest: map_of_SomeD)

text \<open>
  \<open>os.walk\<close>, which does not follow links: the names from the root down to each directory and its other
  entries; \<open>enter\<close> is what the loop leaves in \<open>dirs\<close>.
\<close>

function walk :: "disk \<Rightarrow> (place \<Rightarrow> bool) \<Rightarrow> place \<Rightarrow> place \<Rightarrow> (place \<times> string list) list" where
  "walk d enter q rel =
     (rel, other_entries d q) #
     concat (map (\<lambda>n. walk d enter (q @ [n]) (rel @ [n])) (filter (\<lambda>n. enter (rel @ [n])) (subfolders d q)))"
  by pat_completeness auto
termination
  by (relation "measure (\<lambda>(d, _, q, _). depth d - length q)") (auto dest: subfolder_shallow)

declare walk.simps [simp del]

text \<open>The path texts of a walk, below the text of its root.\<close>

definition below :: "string \<Rightarrow> place \<Rightarrow> string" where
  "below base rel = foldl path_join base rel"

end
