(* ===== verification/SecureErase.thy ===== *)
theory SecureErase
  imports Files PyFloat "HOL-Library.Char_ord" "HOL-Library.List_Lexorder"
begin

text \<open>
  \<^verbatim>\<open>scripts/secure_erase.py\<close>: what an erase would destroy (\<open>plan\<close>), and the erase. The plan is the list of
  calls of \<open>_add\<close> in the order of the code, folded over the targets found so far; the erase runs on a disk
  whose operating system may refuse to open, rename or unlink a file, and may accept a write only in part.
\<close>

section \<open>Targets\<close>

datatype group = ConfigState | Credentials | DerivedKv | History | Logs | Runtime | SoulState | Tls | UserFiles

fun group_name :: "group \<Rightarrow> string" where
  "group_name ConfigState = ''config-state''"
| "group_name Credentials = ''credentials''"
| "group_name DerivedKv = ''derived-kv-cache''"
| "group_name History = ''history''"
| "group_name Logs = ''logs''"
| "group_name Runtime = ''runtime''"
| "group_name SoulState = ''soul-state''"
| "group_name Tls = ''tls''"
| "group_name UserFiles = ''user-files''"

lemma group_name_inj: "group_name g = group_name h \<Longrightarrow> g = h"
  by (cases g; cases h) simp_all

text \<open>Groups are ordered as their names are.\<close>

instantiation group :: linorder
begin

definition less_eq_group :: "group \<Rightarrow> group \<Rightarrow> bool" where
  "less_eq_group g h \<longleftrightarrow> group_name g \<le> group_name h"

definition less_group :: "group \<Rightarrow> group \<Rightarrow> bool" where
  "less_group g h \<longleftrightarrow> group_name g < group_name h"

instance
  by standard (auto simp: less_eq_group_def less_group_def intro: group_name_inj)

end

record target =
  t_path :: string
  t_size :: int
  t_group :: group

type_synonym found = "target list \<times> string list"

text \<open>\<open>_add\<close>: links are always taken, files once for each real path.\<close>

definition add_target :: "disk \<Rightarrow> group \<times> string \<Rightarrow> found \<Rightarrow> found" where
  "add_target d c acc = (let (g, s) = c; (ts, seen) = acc in
     if is_link d s then (ts @ [\<lparr>t_path = s, t_size = 0, t_group = g\<rparr>], seen)
     else if \<not> is_file d s then (ts, seen)
     else if List.member seen (realpath d s) then (ts, seen)
     else (case size_of d s of
        None \<Rightarrow> (ts, realpath d s # seen)
      | Some n \<Rightarrow> (ts @ [\<lparr>t_path = s, t_size = n, t_group = g\<rparr>], realpath d s # seen)))"

definition path_within :: "string \<Rightarrow> string list \<Rightarrow> bool" where
  "path_within s prefs = list_ex (\<lambda>p. p \<noteq> [] \<and> (s = p \<or> starts_with (rstrip_slash p @ ''/'') s)) prefs"

text \<open>The paths that \<open>_add_tree\<close> passes to \<open>_add\<close>.\<close>

definition tree_paths :: "disk \<Rightarrow> string list \<Rightarrow> string \<Rightarrow> string list" where
  "tree_paths d skip base =
     (let skip = map (realpath d) (filter (\<lambda>s. s \<noteq> []) skip);
          open_dir = (\<lambda>rel. \<not> path_within (realpath d (below base rel)) skip)
      in if \<not> is_dir d base \<or> \<not> open_dir [] then []
         else concat (map (\<lambda>(rel, names). map (\<lambda>n. below base (rel @ [n])) names)
                (walk d open_dir (real_place d base) [])))"

section \<open>The roots\<close>

definition getenv :: "env \<Rightarrow> string \<Rightarrow> string \<Rightarrow> string" where
  "getenv e n dflt = (case e n of None \<Rightarrow> dflt | Some v \<Rightarrow> v)"

record roots =
  r_model_dir :: string
  r_workspace :: string
  r_home :: string
  r_tmp :: string
  r_var_log :: string
  r_state_dir :: string
  r_runtime_dir :: string
  r_status_file :: string
  r_keyfile :: string
  r_legacy_keyfile :: string
  r_extra_roots :: "string list"
  r_etc_ssh :: string
  r_confine_to :: string

definition beside_model :: "string \<Rightarrow> string \<Rightarrow> string" where
  "beside_model model n =
     (let h = dirname (rstrip_slash model) in path_join (if h = [] then ''/workspace'' else h) n)"

definition roots_of :: "disk \<Rightarrow> env \<Rightarrow> roots" where
  "roots_of d e =
     (let model = getenv e ''MODEL_DIR'' ''/workspace/GLM-5.2-EXL3-TR3-3.0bpw'';
          state = (if env_get e ''GLM_STATE_DIR'' = [] then beside_model model ''.glm-config''
                   else env_get e ''GLM_STATE_DIR'')
      in \<lparr>r_model_dir = model,
          r_workspace = getenv e ''ERASE_WORKSPACE'' (getenv e ''MODEL_ROOT'' ''/workspace''),
          r_home = getenv e ''ERASE_HOME'' ''/root'',
          r_tmp = getenv e ''ERASE_TMP'' ''/tmp'',
          r_var_log = getenv e ''ERASE_VARLOG'' ''/var/log'',
          r_state_dir = state,
          r_runtime_dir = getenv e ''GLM_RUNTIME_DIR'' ''/tmp/glm-runtime'',
          r_status_file = getenv e ''STATUS_FILE'' ''/tmp/glm-boot-status.json'',
          r_keyfile = path_join state ''.vllm-api-key'',
          r_legacy_keyfile = beside_model model ''.vllm-api-key'',
          r_extra_roots = filter (\<lambda>r. r \<noteq> [] \<and> is_dir d r)
             (split_on (CHR '':'') (getenv e ''ERASE_EXTRA_ROOTS'' ''/runpod-volume'')),
          r_etc_ssh = getenv e ''ERASE_ETC_SSH'' ''/etc/ssh'',
          r_confine_to = getenv e ''ERASE_CONFINE_TO'' []\<rparr>)"

definition hf_candidates :: "env \<Rightarrow> roots \<Rightarrow> string list" where
  "hf_candidates e r =
     filter (\<lambda>v. v \<noteq> []) (map (env_get e)
       [''HF_HOME'', ''HUGGINGFACE_HUB_CACHE'', ''HF_DATASETS_CACHE'', ''TRANSFORMERS_CACHE'', ''HF_HUB_CACHE''])
     @ [if env_get e ''XDG_CACHE_HOME'' \<noteq> [] then path_join (env_get e ''XDG_CACHE_HOME'') ''huggingface''
        else path_join (path_join (r_home r) ''.cache'') ''huggingface'']
     @ map (\<lambda>x. path_join (path_join x ''.cache'') ''huggingface'') (r_extra_roots r)"

definition hf_cache_roots :: "env \<Rightarrow> roots \<Rightarrow> string list" where
  "hf_cache_roots e r = rev (fold (\<lambda>x out. let x = rstrip_slash x in
     if x \<noteq> [] \<and> \<not> List.member out x then x # out else out) (hf_candidates e r) [])"

section \<open>The public checkpoint\<close>

definition DERIVED_UNDER_MODEL :: "string list" where
  "DERIVED_UNDER_MODEL = [''.vllm-cache'', ''.mtp78-overlay'', ''.mtp78-draft'', ''.vision'', ''.cache'',
     ''.download-complete'', ''.mtp78-grafted'', ''.vision-enabled'']"

definition DERIVED_SUFFIXES :: "string list" where
  "DERIVED_SUFFIXES = [''.orig'', ''.text-only'', ''.pre-qa-ignore-backup'']"

definition LARGE_FILE :: int where
  "LARGE_FILE = 64 * 2 ^ 20"

text \<open>A path below the model directory is its list of names.\<close>

definition is_derived :: "place \<Rightarrow> bool" where
  "is_derived rel \<longleftrightarrow> List.member DERIVED_UNDER_MODEL (hd rel)
     \<or> (length rel = 1 \<and> list_ex (\<lambda>x. ends_with x (last rel)) DERIVED_SUFFIXES)"

definition strip_metadata :: "string \<Rightarrow> string" where
  "strip_metadata f = take (length f - length ''.metadata'') f"

definition repo_parts :: "place \<Rightarrow> place" where
  "repo_parts ns = (if ns \<noteq> [] \<and> List.member [''download'', ''downloads''] (hd ns) then tl ns else ns)"

definition public_manifest :: "disk \<Rightarrow> string \<Rightarrow> place list option" where
  "public_manifest d model =
     (let base = path_join (path_join model ''.cache'') ''huggingface'';
          sidecars = concat (map (\<lambda>(rel, names). map (\<lambda>f. rel @ [strip_metadata f]) (filter (ends_with ''.metadata'') names))
             (walk d (\<lambda>_. True) (real_place d base) []));
          public = filter (\<lambda>ns. ns \<noteq> []) (map repo_parts sidecars)
      in if \<not> is_dir d base \<or> public = [] then None else Some public)"

text \<open>\<open>user_files_under_model\<close>: the files with their sizes that are neither derived nor in the manifest, then
  the targets, the large files that are only reported, and whether the manifest was there.\<close>

definition in_manifest :: "disk \<Rightarrow> string \<Rightarrow> place \<Rightarrow> bool" where
  "in_manifest d model r = (case public_manifest d model of None \<Rightarrow> False | Some m \<Rightarrow> List.member m r)"

definition model_files :: "disk \<Rightarrow> string \<Rightarrow> (string \<times> int) list" where
  "model_files d model = concat (map (\<lambda>(rel, names).
       List.map_filter (\<lambda>n. let r = rel @ [n] in
         if is_derived r \<or> in_manifest d model r then None
         else map_option (Pair (below model r)) (size_of d (below model r))) names)
     (walk d (\<lambda>rel. \<not> is_derived rel) (real_place d model) []))"

definition user_files :: "disk \<Rightarrow> string \<Rightarrow> target list \<times> (string \<times> int) list \<times> bool" where
  "user_files d model =
     (if \<not> is_dir d model then ([], [], False)
      else (map (\<lambda>(s, n). \<lparr>t_path = s, t_size = n, t_group = UserFiles\<rparr>)
              (filter (\<lambda>(_, n). n < LARGE_FILE) (model_files d model)),
            filter (\<lambda>(_, n). LARGE_FILE \<le> n) (model_files d model),
            public_manifest d model \<noteq> None))"

section \<open>The plan\<close>

definition LOG_SUFFIXES :: "string list" where
  "LOG_SUFFIXES = [''.log'', ''.jsonl'', ''.ndjson'']"

definition has_suffix :: "string list \<Rightarrow> string \<Rightarrow> bool" where
  "has_suffix xs s = list_ex (\<lambda>x. ends_with x s) xs"

text \<open>The names in a directory that a filter takes; \<open>None\<close> is the exception of \<open>os.listdir\<close>.\<close>

definition listed :: "disk \<Rightarrow> (string \<Rightarrow> bool) \<Rightarrow> string \<Rightarrow> string list option" where
  "listed d pick s = (if \<not> is_dir d s then Some [] else map_option (map (path_join s) \<circ> filter pick) (listing d s))"

definition credential_calls :: "disk \<Rightarrow> env \<Rightarrow> roots \<Rightarrow> (group \<times> string) list option" where
  "credential_calls d e r = map_option (\<lambda>host_keys. map (Pair Credentials)
     ([r_keyfile r, r_legacy_keyfile r, r_status_file r]
      @ map (path_join (r_home r))
          [''.cache/huggingface/token'', ''.huggingface/token'', ''.cache/huggingface/stored_tokens'',
           ''.vast_api_key'', ''.runpod.yaml'', ''.runpod/config.toml'', ''.config/vastai/vast_api_key'',
           ''.config/runpod/config.toml'']
      @ tree_paths d [] (path_join (r_home r) ''.runpod'')
      @ concat (map (\<lambda>x. [path_join x ''token'', path_join x ''stored_tokens'']) (hf_cache_roots e r))
      @ tree_paths d [] (path_join (r_home r) ''.ssh'')
      @ host_keys)) (listed d (starts_with ''ssh_host_'') (r_etc_ssh r))"

definition state_calls :: "disk \<Rightarrow> roots \<Rightarrow> (group \<times> string) list" where
  "state_calls d r =
     map (Pair Tls) (tree_paths d [] (path_join (r_workspace r) ''.lego''))
     @ map (Pair ConfigState)
         (map (path_join (r_state_dir r)) [''config.json'', ''known-good.json'', ''apply-state.json'',
            ''verify-last.json'', ''checkpoint-baseline.json'']
          @ tree_paths d [] (path_join (r_state_dir r) ''failures''))
     @ map (Pair SoulState) (tree_paths d [] (path_join (r_state_dir r) ''soul''))
     @ map (Pair DerivedKv) (tree_paths d [] (path_join (r_workspace r) ''.lmcache''))"

definition log_calls :: "disk \<Rightarrow> roots \<Rightarrow> (group \<times> string) list option" where
  "log_calls d r =
     Option.bind (listed d (has_suffix LOG_SUFFIXES) (r_workspace r)) (\<lambda>in_workspace.
     Option.bind (listed d (has_suffix LOG_SUFFIXES) (r_model_dir r)) (\<lambda>in_model.
     Some (map (Pair Logs)
       (tree_paths d [] (path_join (r_state_dir r) ''logs'') @ in_workspace @ in_model
        @ tree_paths d [] (r_var_log r)
        @ concat (map (\<lambda>x. concat (map (\<lambda>(rel, names).
              map (\<lambda>n. below x (rel @ [n])) (filter (has_suffix LOG_SUFFIXES) names))
            (walk d (\<lambda>_. True) (real_place d x) []))) (r_extra_roots r))))))"

definition scratch_calls :: "disk \<Rightarrow> roots \<Rightarrow> string list \<Rightarrow> (group \<times> string) list" where
  "scratch_calls d r keep =
     map (Pair Runtime) (tree_paths d keep (r_runtime_dir r) @ tree_paths d (keep @ [r_runtime_dir r]) (r_tmp r))
     @ map (Pair History)
         (map (path_join (r_home r)) [''.bash_history'', ''.python_history'', ''.viminfo'', ''.zsh_history'',
            ''.lesshst'', ''.wget-hsts'', ''.nano_history'', ''.ipython/profile_default/history.sqlite'']
          @ concat (map (\<lambda>x. tree_paths d [] (path_join (r_home r) x))
              [''.jupyter/lab/workspaces'', ''.local/share/jupyter/runtime'']))"

definition add_user_file :: "disk \<Rightarrow> target \<Rightarrow> found \<Rightarrow> found" where
  "add_user_file d t acc = (let (ts, seen) = acc in
     if List.member seen (realpath d (t_path t)) then (ts, seen)
     else (ts @ [t], realpath d (t_path t) # seen))"

record erase_plan =
  ep_targets :: "target list"
  ep_confined_to :: string
  ep_refused :: "string list"
  ep_unknown_large :: "(string \<times> int) list"
  ep_manifest_used :: bool
  ep_total_bytes :: int
  ep_count :: nat
  ep_groups :: "group list"

definition in_fence :: "disk \<Rightarrow> string \<Rightarrow> string \<Rightarrow> bool" where
  "in_fence d fence s = starts_with (rstrip_slash (realpath d fence) @ ''/'') (realpath d s)"

definition plan_of :: "disk \<Rightarrow> roots \<Rightarrow> string list \<Rightarrow> (group \<times> string) list \<Rightarrow> erase_plan" where
  "plan_of d r keep calls =
     (let (user, large, used) = user_files d (r_model_dir r);
          (ts, seen) = fold (add_user_file d) user (fold (add_target d) calls ([], []));
          ts = filter (\<lambda>t. \<not> path_within (realpath d (t_path t)) keep) ts;
          inside = (if r_confine_to r = [] then ts else filter (in_fence d (r_confine_to r) \<circ> t_path) ts);
          outside = (if r_confine_to r = [] then [] else filter (\<lambda>t. \<not> in_fence d (r_confine_to r) (t_path t)) ts)
      in \<lparr>ep_targets = inside, ep_confined_to = r_confine_to r, ep_refused = map t_path outside,
          ep_unknown_large = large, ep_manifest_used = used, ep_total_bytes = sum_list (map t_size inside),
          ep_count = length inside, ep_groups = sort (remdups (map t_group inside))\<rparr>)"

text \<open>The calls of \<open>_add\<close> before those for the model directory, in order.\<close>

definition session_calls :: "disk \<Rightarrow> env \<Rightarrow> roots \<Rightarrow> string list \<Rightarrow> (group \<times> string) list option" where
  "session_calls d e r keep =
     Option.bind (credential_calls d e r) (\<lambda>credentials.
     Option.bind (log_calls d r) (\<lambda>logs.
     Some (credentials @ state_calls d r @ logs @ scratch_calls d r keep)))"

definition kept_paths :: "disk \<Rightarrow> string list \<Rightarrow> string list" where
  "kept_paths d keep = map (realpath d) (filter (\<lambda>s. s \<noteq> []) keep)"

definition plan :: "disk \<Rightarrow> env \<Rightarrow> string list \<Rightarrow> erase_plan option" where
  "plan d e keep =
     (let r = roots_of d e; keep = kept_paths d keep in
      map_option (plan_of d r keep) (session_calls d e r keep))"

text \<open>What the termination worker keeps, in its runtime directory.\<close>

definition worker_keep :: "string \<Rightarrow> string list" where
  "worker_keep rt = map (path_join rt)
     [''terminate.json'', ''terminate-in-progress'', ''engine-stopped'', ''terminate-switches.json'']"

section \<open>The erase\<close>

definition CHUNK :: nat where
  "CHUNK = 2 ^ 20"

text \<open>What the operating system does with the calls of the erase, the random bytes, and the temporary names.\<close>

record io =
  opens :: "place \<Rightarrow> bool"
  accepts :: "nat \<Rightarrow> nat \<Rightarrow> nat"
  noise :: "nat \<Rightarrow> byte"
  hidden_name :: "place \<Rightarrow> string"
  renames :: "place \<Rightarrow> bool"
  unlinks :: "place \<Rightarrow> bool"
  rmdirs :: "place \<Rightarrow> bool"

text \<open>One pass of \<open>overwrite_file\<close>: an unbuffered write of \<open>n\<close> bytes at \<open>pos\<close> takes what the system accepts.\<close>

function overwrite_pass :: "io \<Rightarrow> nat \<Rightarrow> nat \<Rightarrow> nat \<Rightarrow> byte list \<Rightarrow> byte list" where
  "overwrite_pass x used pos remaining b =
     (if remaining = 0 then b
      else (let n = min CHUNK remaining; k = min n (accepts x pos n) in
            overwrite_pass x (used + n) (pos + k) (remaining - n)
              (take pos b @ map (noise x) [used..<used + k] @ drop (pos + k) b)))"
  by pat_completeness auto
termination
  by (relation "measure (\<lambda>(_, _, _, remaining, _). remaining)") (auto simp: CHUNK_def)

declare overwrite_pass.simps [simp del]

definition overwritten :: "io \<Rightarrow> nat \<Rightarrow> byte list \<Rightarrow> byte list" where
  "overwritten x passes b = fold (\<lambda>i. overwrite_pass x (i * length b) 0 (length b)) [0..<max 1 passes] b"

definition set_node :: "place \<Rightarrow> node \<Rightarrow> disk \<Rightarrow> disk" where
  "set_node q n d = d\<lparr>nodes := map (\<lambda>(r, m). (r, if r = q then n else m)) (nodes d)\<rparr>"

definition drop_node :: "place \<Rightarrow> disk \<Rightarrow> disk" where
  "drop_node q d = d\<lparr>nodes := filter (\<lambda>(r, _). r \<noteq> q) (nodes d)\<rparr>"

definition move_node :: "place \<Rightarrow> place \<Rightarrow> disk \<Rightarrow> disk" where
  "move_node q t d = d\<lparr>nodes := map (\<lambda>(r, m). (if r = q then t else r, m)) (filter (\<lambda>(r, _). r \<noteq> t) (nodes d))\<rparr>"

text \<open>\<open>overwrite_file\<close> on a file: its size unless it raises, what was in the file when it was truncated, the disk.\<close>

definition overwrite_file :: "io \<Rightarrow> nat \<Rightarrow> string \<Rightarrow> disk \<Rightarrow> nat option \<times> (place \<times> byte list) list \<times> disk" where
  "overwrite_file x passes s d =
     (let q = real_place d s; l = place_of d s; tmp = butlast l @ [hidden_name x l] in
      case node_at d q of
        Some (Plain b) \<Rightarrow>
          if b \<noteq> [] \<and> \<not> opens x q then (None, [], d)
          else (let d' = set_node q (Plain []) d; wiped = [(q, overwritten x passes b)] in
                if renames x l
                then (if unlinks x tmp then (Some (length b), wiped, drop_node l d')
                      else (None, wiped, move_node l tmp d'))
                else if unlinks x l then (Some (length b), wiped, drop_node l d')
                else (None, wiped, d'))
      | _ \<Rightarrow> (None, [], d))"

record erasure =
  ea_done :: nat
  ea_bytes :: int
  ea_failed :: "string list"
  ea_wiped :: "(place \<times> byte list) list"
  ea_disk :: disk

definition erase_target :: "io \<Rightarrow> bool \<Rightarrow> target \<Rightarrow> erasure \<Rightarrow> erasure" where
  "erase_target x dry t a =
     (let s = t_path t; d = ea_disk a in
      if dry then a\<lparr>ea_done := ea_done a + 1, ea_bytes := ea_bytes a + t_size t\<rparr>
      else if is_link d s
      then (if unlinks x (place_of d s) then a\<lparr>ea_done := ea_done a + 1, ea_disk := drop_node (place_of d s) d\<rparr>
            else a\<lparr>ea_failed := ea_failed a @ [s]\<rparr>)
      else if is_file d s
      then (case overwrite_file x 1 s d of
              (None, w, d') \<Rightarrow> a\<lparr>ea_failed := ea_failed a @ [s], ea_wiped := ea_wiped a @ w, ea_disk := d'\<rparr>
            | (Some n, w, d') \<Rightarrow> a\<lparr>ea_done := ea_done a + 1, ea_bytes := ea_bytes a + int n,
                 ea_wiped := ea_wiped a @ w, ea_disk := d'\<rparr>)
      else a)"

text \<open>\<open>os.rmdir\<close> on the directories left empty; the code goes through a set, so their order is arbitrary.\<close>

definition rmdir_empty :: "io \<Rightarrow> string \<Rightarrow> disk \<Rightarrow> disk" where
  "rmdir_empty x s d =
     (if is_dir d s \<and> listing d s = Some [] \<and> node_at d (place_of d s) = Some Folder \<and> rmdirs x (place_of d s)
      then drop_node (place_of d s) d else d)"

definition erase :: "io \<Rightarrow> bool \<Rightarrow> (string list \<Rightarrow> string list) \<Rightarrow> erase_plan \<Rightarrow> disk \<Rightarrow> erasure" where
  "erase x dry arrange p d =
     (let a = fold (erase_target x dry) (ep_targets p)
                \<lparr>ea_done = 0, ea_bytes = 0, ea_failed = [], ea_wiped = [], ea_disk = d\<rparr>
      in if dry then a
         else a\<lparr>ea_disk := fold (rmdir_empty x) (arrange (map (dirname \<circ> t_path) (ep_targets p))) (ea_disk a)\<rparr>)"

section \<open>Memory\<close>

text \<open>The bytes that \<open>erase_ram\<close> wants, and those it gets before \<open>MemoryError\<close>.\<close>

definition ram_budget :: "nat \<Rightarrow> rat option \<Rightarrow> int" where
  "ram_budget avail max_gib =
     (let gib = (case max_gib of None \<Rightarrow> 32 | Some g \<Rightarrow> if g = 0 then 32 else g);
          share = (case b64 (6 / 10) of Fin c \<Rightarrow> (case b64 (of_nat avail * c) of Fin q \<Rightarrow> \<lfloor>q\<rfloor> | _ \<Rightarrow> 0) | _ \<Rightarrow> 0)
      in min share \<lfloor>gib * 2 ^ 30\<rfloor>)"

definition RAM_BLOCK :: int where
  "RAM_BLOCK = 256 * 2 ^ 20"

function fill_ram :: "(nat \<Rightarrow> bool) \<Rightarrow> int \<Rightarrow> nat \<Rightarrow> int \<Rightarrow> int" where
  "fill_ram granted budget i written =
     (if written + RAM_BLOCK \<le> budget \<and> granted i then fill_ram granted budget (Suc i) (written + RAM_BLOCK) else written)"
  by pat_completeness auto
termination
  by (relation "measure (\<lambda>(_, budget, _, written). nat (budget - written))") (auto simp: RAM_BLOCK_def)

declare fill_ram.simps [simp del]

definition erase_ram :: "bool \<Rightarrow> nat \<Rightarrow> rat option \<Rightarrow> (nat \<Rightarrow> bool) \<Rightarrow> int" where
  "erase_ram dry avail max_gib granted =
     (let budget = ram_budget avail max_gib in
      if dry \<or> budget \<le> 0 then 0 else fill_ram granted budget 0 0)"

text \<open>\<open>erase_vram\<close>: for each device the free memory, when it can be asked for, is filled block by block until an
  allocation fails.\<close>

datatype vram_status = VramSkipped | NoTorch | NoDevices | VramDone

definition VRAM_BLOCK :: int where
  "VRAM_BLOCK = 512 * 2 ^ 20"

function fill_vram :: "(nat \<Rightarrow> bool) \<Rightarrow> int \<Rightarrow> nat \<Rightarrow> int \<Rightarrow> int" where
  "fill_vram granted free i got =
     (if VRAM_BLOCK < free - got \<and> granted i then fill_vram granted free (Suc i) (got + VRAM_BLOCK) else got)"
  by pat_completeness auto
termination
  by (relation "measure (\<lambda>(_, free, _, got). nat (free - got))") (auto simp: VRAM_BLOCK_def)

declare fill_vram.simps [simp del]

definition erase_vram :: "bool \<Rightarrow> bool \<Rightarrow> (int option \<times> (nat \<Rightarrow> bool)) list option \<Rightarrow> vram_status \<times> int list" where
  "erase_vram dry torch devices =
     (if dry then (VramSkipped, [])
      else if \<not> torch then (NoTorch, [])
      else (case devices of None \<Rightarrow> (NoDevices, [])
        | Some ds \<Rightarrow> (VramDone, map (\<lambda>(free, granted).
            case free of None \<Rightarrow> 0 | Some n \<Rightarrow> fill_vram granted n 0 0) ds)))"

end
