(* ===== verification/FilesFacts.thy ===== *)
theory FilesFacts
  imports Files
begin

text \<open>
  Path texts against places, and what is left of a resolution when links and files disappear: a path
  that still leads to something leads where it did.
\<close>

section \<open>Path texts of places\<close>

definition name_ok :: "string \<Rightarrow> bool" where
  "name_ok n \<longleftrightarrow> n \<noteq> [] \<and> n \<noteq> ''.'' \<and> n \<noteq> ''..'' \<and> CHR ''/'' \<notin> set n"

definition place_ok :: "place \<Rightarrow> bool" where
  "place_ok q = list_all name_ok q"

lemma place_ok_simps [simp]:
  "place_ok []"
  "place_ok (n # q) \<longleftrightarrow> name_ok n \<and> place_ok q"
  "place_ok (p @ q) \<longleftrightarrow> place_ok p \<and> place_ok q"
  by (simp_all add: place_ok_def)

lemma place_ok_butlast: "place_ok q \<Longrightarrow> place_ok (butlast q)"
  by (auto simp: place_ok_def list_all_iff dest: in_set_butlastD)

lemma split_slash_names: "n \<in> set (split_on (CHR ''/'') s) \<Longrightarrow> CHR ''/'' \<notin> set n"
  by (induction s arbitrary: n) (auto split: list.splits if_splits)

definition slashed :: "place \<Rightarrow> string" where
  "slashed q = concat (map (\<lambda>n. CHR ''/'' # n) q)"

lemma slashed_simps [simp]:
  "slashed [] = []"
  "slashed (n # q) = CHR ''/'' # n @ slashed q"
  "slashed (p @ q) = slashed p @ slashed q"
  by (simp_all add: slashed_def)

lemma append_slash_eq:
  assumes "CHR ''/'' \<notin> set m" "CHR ''/'' \<notin> set n"
    and "r = [] \<or> hd r = CHR ''/''" "r' = [] \<or> hd r' = CHR ''/''"
  shows "m @ r = n @ r' \<longleftrightarrow> m = n \<and> r = r'"
  using assms
proof (induction m arbitrary: n)
  case Nil
  then show ?case by (cases n; cases r) auto
next
  case (Cons c m)
  then show ?case by (cases n; cases r') auto
qed

lemma slashed_head: "slashed q = [] \<or> hd (slashed q) = CHR ''/''"
  by (cases q) auto

lemma slashed_inj: "place_ok p \<Longrightarrow> place_ok q \<Longrightarrow> slashed p = slashed q \<longleftrightarrow> p = q"
proof (induction p arbitrary: q)
  case Nil
  then show ?case by (cases q) auto
next
  case (Cons n p)
  show ?case
  proof (cases q)
    case (Cons m q')
    with Cons.prems have "n @ slashed p = m @ slashed q' \<longleftrightarrow> n = m \<and> slashed p = slashed q'"
      by (intro append_slash_eq slashed_head) (auto simp: name_ok_def)
    with Cons.prems Cons.IH Cons show ?thesis by auto
  qed simp
qed

lemma slashed_prefix:
  assumes "place_ok p" "place_ok q"
  shows "(\<exists>r. slashed q = slashed p @ r \<and> (r = [] \<or> hd r = CHR ''/'')) \<longleftrightarrow> prefix p q"
  using assms
proof (induction p arbitrary: q)
  case Nil
  then show ?case using slashed_head by auto
next
  case (Cons n p)
  show ?case
  proof (cases q)
    case (Cons m q')
    have eq: "m @ slashed q' = n @ (slashed p @ r) \<longleftrightarrow> m = n \<and> slashed q' = slashed p @ r"
      if "r = [] \<or> hd r = CHR ''/''" for r
    proof (rule append_slash_eq)
      show "slashed p @ r = [] \<or> hd (slashed p @ r) = CHR ''/''" using that by (cases p) auto
    qed (use Cons.prems Cons slashed_head in \<open>auto simp: name_ok_def\<close>)
    have "(\<exists>r. slashed q = slashed (n # p) @ r \<and> (r = [] \<or> hd r = CHR ''/'')) \<longleftrightarrow>
        m = n \<and> (\<exists>r. slashed q' = slashed p @ r \<and> (r = [] \<or> hd r = CHR ''/''))"
      using eq Cons by auto
    then show ?thesis using Cons.IH [of q'] Cons.prems Cons by auto
  qed simp
qed

lemma rstrip_slash_id: "s = [] \<or> last s \<noteq> CHR ''/'' \<Longrightarrow> rstrip_slash s = s"
  by (cases s rule: rev_cases) (auto simp: rstrip_slash_def)

lemma rstrip_render: "place_ok q \<Longrightarrow> rstrip_slash (path_text q) = slashed q"
proof (cases q rule: rev_cases)
  case Nil
  then show ?thesis by (simp add: path_text_def rstrip_slash_def)
next
  case (snoc p n)
  assume "place_ok q"
  with snoc have n: "n \<noteq> []" "CHR ''/'' \<notin> set n" by (auto simp: name_ok_def)
  then have "last n \<noteq> CHR ''/''" using last_in_set by metis
  with n have "rstrip_slash (slashed q) = slashed q"
    by (intro rstrip_slash_id) (simp add: snoc)
  then show ?thesis using snoc by (simp add: path_text_def slashed_def)
qed

lemma path_text_slashed: "path_text q = (if q = [] then ''/'' else slashed q)"
  by (simp add: path_text_def slashed_def)

lemma path_text_inj: "place_ok p \<Longrightarrow> place_ok q \<Longrightarrow> path_text p = path_text q \<longleftrightarrow> p = q"
  using slashed_inj [of p q]
  by (cases p; cases q) (auto simp: path_text_slashed name_ok_def simp del: slashed_simps(3))

lemma starts_with_iff: "starts_with p s \<longleftrightarrow> prefix p s"
  by (auto simp: starts_with_def prefix_def) (metis append_take_drop_id)

lemma under_slash:
  assumes "place_ok p" "place_ok q"
  shows "starts_with (slashed p @ ''/'') (path_text q) \<longleftrightarrow> prefix p q \<and> (p = q \<longrightarrow> q = [])"
proof (cases "q = []")
  case True
  then show ?thesis by (cases p) (auto simp: starts_with_iff path_text_def name_ok_def)
next
  case False
  then have r: "path_text q = slashed q" by (simp add: path_text_slashed)
  have "prefix (slashed p @ ''/'') (slashed q) \<longleftrightarrow>
      (\<exists>r. slashed q = slashed p @ r \<and> (r = [] \<or> hd r = CHR ''/'')) \<and> slashed q \<noteq> slashed p"
    by (auto simp: prefix_def) (metis list.collapse append_Nil2)
  then show ?thesis using slashed_prefix [OF assms] slashed_inj [OF assms(2,1)] r False
    by (auto simp: starts_with_iff)
qed

section \<open>Disks that shrink\<close>

definition rooted :: "disk \<Rightarrow> bool" where
  "rooted d = list_all (\<lambda>(q, _). q \<noteq> [] \<and> node_at d (butlast q) = Some Folder) (nodes d)"

definition names_ok :: "disk \<Rightarrow> bool" where
  "names_ok d \<longleftrightarrow> place_ok (cwd d) \<and>
     list_all (\<lambda>(q, n). place_ok q \<and> (case n of Link t \<Rightarrow> place_ok t | _ \<Rightarrow> True)) (nodes d)"

text \<open>Nothing appears but empty files at the places \<open>T\<close>, and files may be emptied.\<close>

definition shrinks :: "place set \<Rightarrow> disk \<Rightarrow> disk \<Rightarrow> bool" where
  "shrinks T d d' \<longleftrightarrow> cwd d' = cwd d \<and>
     (\<forall>q n. node_at d' q = Some n \<longrightarrow>
        node_at d q = Some n \<or> n = Plain [] \<and> (q \<in> T \<or> (\<exists>b. node_at d q = Some (Plain b))))"

definition plain_path :: "string \<Rightarrow> bool" where
  "plain_path s \<longleftrightarrow> ''..'' \<notin> set (split_on (CHR ''/'') s)"

lemma shrinks_refl [simp]: "shrinks T d d"
  by (simp add: shrinks_def)

lemma shrinks_trans: "shrinks T d d' \<Longrightarrow> shrinks T d' d'' \<Longrightarrow> shrinks T d d''"
  by (fastforce simp: shrinks_def)

lemma shrinks_node:
  assumes "shrinks T d d'" "node_at d' q = Some n" "n \<noteq> Plain []"
  shows "node_at d q = Some n"
  using assms unfolding shrinks_def by blast

lemma shrinks_none: "shrinks T d d' \<Longrightarrow> node_at d q = None \<Longrightarrow> q \<notin> T \<Longrightarrow> node_at d' q = None"
  unfolding shrinks_def by (cases "node_at d' q") fastforce+

lemma rooted_parent: "rooted d \<Longrightarrow> node_at d (q @ [n]) \<noteq> None \<Longrightarrow> node_at d q = Some Folder"
  by (fastforce simp: rooted_def list_all_iff node_at_def [of d "q @ [n]"] dest: map_of_SomeD)

lemma resolve_snoc [simp]: "resolve_from d q (ns @ [n]) = step_into d n (resolve_from d q ns)"
  by (simp add: resolve_from_def)

lemma resolve_Nil [simp]: "resolve_from d q [] = q"
  by (simp add: resolve_from_def)

lemma resolve_stable:
  assumes sh: "shrinks T d d'" and r: "rooted d'" and T: "\<forall>q\<in>T. node_at d q = None"
  shows "''..'' \<notin> set ns \<Longrightarrow> node_at d' (resolve_from d' q ns) \<noteq> None \<Longrightarrow>
    resolve_from d' q ns = resolve_from d q ns"
proof (induction ns rule: rev_induct)
  case (snoc n ns)
  let ?p = "resolve_from d' q ns"
  show ?case
  proof (cases "n = [] \<or> n = ''.''")
    case True
    with snoc show ?thesis by simp
  next
    case False
    have n: "n \<noteq> ''..''" using snoc.prems by auto
    have ex: "node_at d' (?p @ [n]) \<noteq> None"
    proof
      assume "node_at d' (?p @ [n]) = None"
      then show False using snoc.prems(2) False n by simp
    qed
    then have eq: "?p = resolve_from d q ns" using snoc rooted_parent [OF r ex] by simp
    have "node_at d (?p @ [n]) = Some (Link t) \<longleftrightarrow> node_at d' (?p @ [n]) = Some (Link t)" for t
      using sh ex T unfolding shrinks_def by (cases "node_at d' (?p @ [n])") fastforce+
    then have iff: "\<And>t. node_at d (?p @ [n]) = Some (Link t) \<longleftrightarrow> node_at d' (?p @ [n]) = Some (Link t)" .
    show ?thesis
    proof (cases "\<exists>t. node_at d' (?p @ [n]) = Some (Link t)")
      case True
      then obtain t where "node_at d' (?p @ [n]) = Some (Link t)" ..
      then have "node_at d' (?p @ [n]) = Some (Link t)" "node_at d (?p @ [n]) = Some (Link t)" by (simp_all add: iff)
      then show ?thesis using False n eq by simp
    next
      case nolink: False
      with iff False n eq show ?thesis by (simp split: option.splits node.splits)
    qed
  qed
qed simp

lemma in_butlast_split: "plain_path s \<Longrightarrow> ''..'' \<notin> set (butlast (split_on (CHR ''/'') s))"
  by (auto simp: plain_path_def dest: in_set_butlastD)

lemma real_stable:
  assumes "shrinks T d d'" "rooted d'" "\<forall>q\<in>T. node_at d q = None"
    and "plain_path s" "node_at d' (real_place d' s) \<noteq> None"
  shows "real_place d' s = real_place d s"
proof -
  have "path_start d' s = path_start d s" using assms(1) by (simp add: shrinks_def path_start_def)
  with resolve_stable [OF assms(1-3)] assms(4,5) show ?thesis
    by (simp add: real_place_def plain_path_def)
qed

lemma place_stable:
  assumes "shrinks T d d'" "rooted d'" "\<forall>q\<in>T. node_at d q = None"
    and "plain_path s" "node_at d' (place_of d' s) \<noteq> None"
  shows "place_of d' s = place_of d s"
proof (cases "List.member [[], ''.'', ''..''] (last (split_on (CHR ''/'') s))")
  case True
  with real_stable [OF assms(1-4)] assms(5) show ?thesis by (simp add: place_of_def Let_def)
next
  case False
  have start: "path_start d' s = path_start d s" using assms(1) by (simp add: shrinks_def path_start_def)
  from False assms(5) have "node_at d' (resolve_from d' (path_start d' s) (butlast (split_on (CHR ''/'') s))) = Some Folder"
    by (intro rooted_parent [OF assms(2)]) (simp add: place_of_def Let_def)
  with resolve_stable [OF assms(1-3) in_butlast_split [OF assms(4)]] False start
  show ?thesis by (simp add: place_of_def Let_def)
qed

text \<open>Without a link in its last name, a path leads to its own place.\<close>

lemma real_is_place:
  assumes "\<not> is_link d s"
  shows "real_place d s = place_of d s"
proof (cases "List.member [[], ''.'', ''..''] (last (split_on (CHR ''/'') s))")
  case True
  then show ?thesis by (simp add: place_of_def Let_def)
next
  case False
  obtain ms m where ns: "split_on (CHR ''/'') s = ms @ [m]"
    by (cases "split_on (CHR ''/'') s" rule: rev_cases) auto
  with False assms show ?thesis
    by (auto simp: real_place_def place_of_def is_link_def ns Let_def split: option.splits node.splits)
qed

lemma link_stable:
  assumes "shrinks T d d'" "rooted d'" "\<forall>q\<in>T. node_at d q = None" "plain_path s" "is_link d' s"
  shows "is_link d s" "place_of d' s = place_of d s"
proof -
  obtain t where t: "node_at d' (place_of d' s) = Some (Link t)"
    using assms(5) by (auto simp: is_link_def split: option.splits node.splits)
  show eq: "place_of d' s = place_of d s" by (rule place_stable [OF assms(1-4)]) (simp_all add: t)
  have "node_at d (place_of d' s) = Some (Link t)" by (rule shrinks_node [OF assms(1) t]) simp
  then show "is_link d s" by (simp add: is_link_def eq)
qed

lemma is_file_iff: "is_file d s \<longleftrightarrow> (\<exists>b. node_at d (real_place d s) = Some (Plain b))"
  by (auto simp: is_file_def split: option.splits node.splits)

lemma file_stable:
  assumes "shrinks T d d'" "rooted d'" "\<forall>q\<in>T. node_at d q = None" "plain_path s" "is_file d' s"
  shows "real_place d' s = real_place d s" "real_place d s \<notin> T \<Longrightarrow> is_file d s"
    "real_place d s \<notin> T \<Longrightarrow> \<not> is_link d' s \<Longrightarrow> \<not> is_link d s"
proof -
  obtain b where b: "node_at d' (real_place d' s) = Some (Plain b)" using assms(5) by (auto simp: is_file_iff)
  show eq: "real_place d' s = real_place d s" by (rule real_stable [OF assms(1-4)]) (simp_all add: b)
  assume notT: "real_place d s \<notin> T"
  then obtain b' where b': "node_at d (real_place d s) = Some (Plain b')"
    using assms(1) b unfolding shrinks_def eq by blast
  then show "is_file d s" by (simp add: is_file_iff)
  assume "\<not> is_link d' s"
  then have p: "real_place d' s = place_of d' s" by (rule real_is_place)
  have "node_at d' (place_of d' s) \<noteq> None" using b p by simp
  then have "place_of d' s = place_of d s" by (rule place_stable [OF assms(1-4)])
  then show "\<not> is_link d s" using b' p eq by (simp add: is_link_def)
qed

lemma map_of_filter_fst: "map_of (filter (\<lambda>(r, _). P r) xs) q = (if P q then map_of xs q else None)"
  by (induction xs) auto

lemma set_map_filter: "y \<in> set (List.map_filter f xs) \<longleftrightarrow> (\<exists>x\<in>set xs. f x = Some y)"
  by (induction xs) (auto simp: map_filter_simps split: option.splits)

section \<open>Walks\<close>

fun enters :: "disk \<Rightarrow> (place \<Rightarrow> bool) \<Rightarrow> place \<Rightarrow> place \<Rightarrow> place \<Rightarrow> bool" where
  "enters d enter q rel [] = True"
| "enters d enter q rel (n # ms) =
     (n \<in> set (subfolders d q) \<and> enter (rel @ [n]) \<and> enters d enter (q @ [n]) (rel @ [n]) ms)"

lemma walk_iff:
  "(rel', names) \<in> set (walk d enter q rel) \<longleftrightarrow>
     (\<exists>ms. rel' = rel @ ms \<and> names = other_entries d (q @ ms) \<and> enters d enter q rel ms)"
proof (induction d enter q rel rule: walk.induct)
  case (1 d enter q rel)
  have "(rel', names) \<in> set (walk d enter q rel) \<longleftrightarrow> (rel' = rel \<and> names = other_entries d q) \<or>
      (\<exists>n. n \<in> set (subfolders d q) \<and> enter (rel @ [n]) \<and> (rel', names) \<in> set (walk d enter (q @ [n]) (rel @ [n])))"
    by (subst walk.simps) auto
  also have "\<dots> \<longleftrightarrow> (rel' = rel \<and> names = other_entries d q) \<or>
      (\<exists>n ms. n \<in> set (subfolders d q) \<and> enter (rel @ [n]) \<and> rel' = rel @ n # ms
         \<and> names = other_entries d (q @ n # ms) \<and> enters d enter (q @ [n]) (rel @ [n]) ms)"
    using "1.IH" by (auto 0 4)
  also have "\<dots> \<longleftrightarrow> (\<exists>ms. rel' = rel @ ms \<and> names = other_entries d (q @ ms) \<and> enters d enter q rel ms)" (is "?l \<longleftrightarrow> ?r")
  proof
    assume ?l
    then show ?r
    proof (elim disjE exE)
      assume "rel' = rel \<and> names = other_entries d q"
      then show ?r by (intro exI [of _ "[]"]) simp
    next
      fix n ms
      assume "n \<in> set (subfolders d q) \<and> enter (rel @ [n]) \<and> rel' = rel @ n # ms
         \<and> names = other_entries d (q @ n # ms) \<and> enters d enter (q @ [n]) (rel @ [n]) ms"
      then show ?r by (intro exI [of _ "n # ms"]) simp
    qed
  next
    assume ?r
    then obtain ms where "rel' = rel @ ms \<and> names = other_entries d (q @ ms) \<and> enters d enter q rel ms" ..
    then show ?l by (cases ms) auto
  qed
  finally show ?case .
qed

end
