(* ===== verification/SecureEraseFacts.thy ===== *)
theory SecureEraseFacts
  imports SecureErase FilesFacts
begin

text \<open>
  What an erase does to a disk: it shrinks it, and only at the places of its targets. The relation
  \<open>eroded\<close> is kept by every step, and composes.
\<close>

section \<open>Single changes of the table\<close>

lemma node_at_set:
  "node_at d q \<noteq> None \<Longrightarrow> q \<noteq> [] \<Longrightarrow> node_at (set_node q n d) r = (if r = q then Some n else node_at d r)"
proof -
  have "map_of (map (\<lambda>(r, m). (r, if r = q then n else m)) xs) r =
      (if r = q then map_option (\<lambda>_. n) (map_of xs q) else map_of xs r)" for xs
    by (induction xs) auto
  then show "node_at d q \<noteq> None \<Longrightarrow> q \<noteq> [] \<Longrightarrow> node_at (set_node q n d) r = (if r = q then Some n else node_at d r)"
    by (auto simp: node_at_def set_node_def)
qed

lemma node_at_drop: "node_at (drop_node q d) r = (if r = q \<and> q \<noteq> [] then None else node_at d r)"
proof -
  have "map_of (filter (\<lambda>(r, _). r \<noteq> q) xs) r = (if r = q then None else map_of xs r)" for xs :: "(place \<times> node) list"
    by (induction xs) auto
  then show ?thesis by (auto simp: node_at_def drop_node_def)
qed

lemma map_of_move:
  fixes xs :: "(place \<times> node) list" and t q :: place
  assumes "t \<noteq> q"
  defines "mv \<equiv> map (\<lambda>(r, m). (if r = q then t else r, m)) (filter (\<lambda>(r, _). r \<noteq> t) xs)"
  shows "map_of mv t = map_of xs q" "map_of mv q = None" "r \<noteq> t \<Longrightarrow> r \<noteq> q \<Longrightarrow> map_of mv r = map_of xs r"
proof -
  show "map_of mv t = map_of xs q" unfolding mv_def using assms(1) by (induction xs) auto
  show "map_of mv q = None" unfolding mv_def using assms(1) by (induction xs) (auto split: if_splits)
  show "map_of mv r = map_of xs r" if "r \<noteq> t" "r \<noteq> q" unfolding mv_def using that by (induction xs) auto
qed

lemma node_at_move:
  assumes "q \<noteq> []" "t \<noteq> []" "t \<noteq> q"
  shows "node_at (move_node q t d) r = (if r = t then node_at d q else if r = q then None else node_at d r)"
  using assms map_of_move [OF assms(3), where xs = "nodes d"] by (auto simp: node_at_def move_node_def)

lemma changed_fields [simp]:
  "cwd (set_node q n d) = cwd d" "cwd (drop_node q d) = cwd d" "cwd (move_node q t d) = cwd d"
  by (simp_all add: set_node_def drop_node_def move_node_def)

lemma map_of_domain: "q \<in> fst ` set xs \<longleftrightarrow> map_of xs q \<noteq> None"
  by (simp add: map_of_eq_None_iff)

lemma rooted_iff:
  "rooted d \<longleftrightarrow> map_of (nodes d) [] = None \<and>
     (\<forall>q. q \<noteq> [] \<longrightarrow> node_at d q \<noteq> None \<longrightarrow> node_at d (butlast q) = Some Folder)"
proof -
  have "rooted d \<longleftrightarrow> (\<forall>q\<in>fst ` set (nodes d). q \<noteq> [] \<and> node_at d (butlast q) = Some Folder)"
    by (simp add: rooted_def list_all_iff case_prod_beta)
  also have "\<dots> \<longleftrightarrow> (\<forall>q. map_of (nodes d) q \<noteq> None \<longrightarrow> q \<noteq> [] \<and> node_at d (butlast q) = Some Folder)"
    unfolding Ball_def map_of_domain ..
  also have "\<dots> \<longleftrightarrow> map_of (nodes d) [] = None \<and>
      (\<forall>q. q \<noteq> [] \<longrightarrow> map_of (nodes d) q \<noteq> None \<longrightarrow> node_at d (butlast q) = Some Folder)" by metis
  finally show ?thesis by (simp add: node_at_def cong: imp_cong)
qed

section \<open>Erosion\<close>

definition eroded :: "place set \<Rightarrow> place set \<Rightarrow> disk \<Rightarrow> disk \<Rightarrow> bool" where
  "eroded T X d d' \<longleftrightarrow> shrinks T d d' \<and> rooted d' \<and>
     (\<forall>q n. node_at d q = Some n \<longrightarrow> q \<notin> X \<longrightarrow> n \<noteq> Folder \<longrightarrow> node_at d' q = Some n)"

lemma eroded_refl: "rooted d \<Longrightarrow> eroded T X d d"
  by (simp add: eroded_def)

lemma eroded_trans: "eroded T X d d' \<Longrightarrow> eroded T X d' d'' \<Longrightarrow> eroded T X d d''"
  unfolding eroded_def by (blast intro: shrinks_trans)

lemma shrinks_mono: "shrinks T d d' \<Longrightarrow> T \<subseteq> T' \<Longrightarrow> shrinks T' d d'"
  by (fastforce simp: shrinks_def)

lemma eroded_mono: "eroded T X d d' \<Longrightarrow> T \<subseteq> T' \<Longrightarrow> X \<subseteq> X' \<Longrightarrow> eroded T' X' d d'"
  unfolding eroded_def by (blast intro: shrinks_mono)

lemma erodedD:
  assumes "eroded T X d d'"
  shows "shrinks T d d'" "rooted d'"
    "\<And>q n. node_at d q = Some n \<Longrightarrow> q \<notin> X \<Longrightarrow> n \<noteq> Folder \<Longrightarrow> node_at d' q = Some n"
  using assms by (auto simp: eroded_def)

lemma drop_eroded:
  assumes "rooted d" "\<And>r. node_at d r \<noteq> None \<Longrightarrow> r \<noteq> [] \<Longrightarrow> butlast r \<noteq> q"
  shows "shrinks T d (drop_node q d)" "rooted (drop_node q d)"
proof -
  show "shrinks T d (drop_node q d)" by (auto simp: shrinks_def node_at_drop split: if_splits)
  have "map_of (nodes (drop_node q d)) [] = None"
    using assms(1) by (simp add: rooted_iff drop_node_def map_of_filter_fst)
  moreover have "node_at (drop_node q d) (butlast r) = Some Folder"
    if "r \<noteq> []" "node_at (drop_node q d) r \<noteq> None" for r
  proof -
    from that(2) have "node_at d r \<noteq> None" by (auto simp: node_at_drop split: if_splits)
    with assms that(1) show ?thesis by (auto simp: rooted_iff node_at_drop)
  qed
  ultimately show "rooted (drop_node q d)" by (simp add: rooted_iff)
qed

lemma not_parent:
  assumes "rooted d" "node_at d q \<noteq> Some Folder" "node_at d r \<noteq> None" "r \<noteq> []"
  shows "butlast r \<noteq> q"
  using assms unfolding rooted_iff by metis

lemma drop_leaf_eroded:
  assumes "rooted d" "node_at d q \<noteq> Some Folder"
  shows "eroded T {q} d (drop_node q d)"
  using drop_eroded [OF assms(1) not_parent [OF assms]]
  by (auto simp: eroded_def node_at_drop)

lemma entries_empty: "entries d q = [] \<Longrightarrow> node_at d r \<noteq> None \<Longrightarrow> r \<noteq> [] \<Longrightarrow> butlast r \<noteq> q"
  by (auto simp: entries_def filter_empty_conv node_at_def dest: map_of_SomeD)

text \<open>A directory and its own place agree.\<close>

lemma rmdir_eroded:
  assumes "rooted d"
  shows "eroded T X d (rmdir_empty x s d)"
proof (cases "is_dir d s \<and> listing d s = Some [] \<and> node_at d (place_of d s) = Some Folder \<and> rmdirs x (place_of d s)
    \<and> real_place d s = place_of d s")
  case True
  then have "entries d (place_of d s) = []" by (auto simp: listing_def split: if_splits)
  from drop_eroded [OF assms entries_empty [OF this]] True
  show ?thesis by (auto simp: eroded_def rmdir_empty_def node_at_drop)
next
  case False
  have "real_place d s = place_of d s" if "node_at d (place_of d s) = Some Folder"
    using that by (intro real_is_place) (simp add: is_link_def)
  with False assms show ?thesis by (auto simp: rmdir_empty_def intro: eroded_refl)
qed

lemma rooted_not_root: "rooted d \<Longrightarrow> node_at d q = Some n \<Longrightarrow> n \<noteq> Folder \<Longrightarrow> q \<noteq> []"
  by (auto simp: node_at_def)

lemma empty_eroded:
  assumes "rooted d" "node_at d q = Some (Plain b)"
  shows "eroded T {q} d (set_node q (Plain []) d)"
proof -
  have q: "q \<noteq> []" using rooted_not_root [OF assms] by simp
  have n: "node_at (set_node q (Plain []) d) r = (if r = q then Some (Plain []) else node_at d r)" for r
    using q assms(2) by (simp add: node_at_set)
  have "map_of (map (\<lambda>(r, m). (r, if r = q then Plain [] else m)) xs) [] = map_of xs []" for xs
    using q by (induction xs) auto
  then have "map_of (nodes (set_node q (Plain []) d)) [] = None"
    using assms(1) q by (simp add: rooted_iff set_node_def)
  moreover have "node_at (set_node q (Plain []) d) (butlast r) = Some Folder"
    if "r \<noteq> []" "node_at (set_node q (Plain []) d) r \<noteq> None" for r
  proof -
    have "node_at d r \<noteq> None" using that(2) assms(2) by (auto simp: n split: if_splits)
    then have "node_at d (butlast r) = Some Folder" using assms(1) that(1) by (simp add: rooted_iff)
    with assms(2) show ?thesis by (auto simp: n)
  qed
  ultimately have "rooted (set_node q (Plain []) d)" by (simp add: rooted_iff)
  with assms(2) show ?thesis by (auto simp: eroded_def shrinks_def n split: if_splits)
qed

lemma moved_eroded:
  assumes "rooted d" "node_at d q = Some (Plain [])" "t = butlast q @ [m]" "t \<noteq> q" "t \<in> T"
    and "node_at d t \<noteq> Some Folder"
  shows "eroded T {q, t} d (move_node q t d)"
proof -
  have q: "q \<noteq> []" using rooted_not_root [OF assms(1,2)] by simp
  have n: "node_at (move_node q t d) r = (if r = t then Some (Plain []) else if r = q then None else node_at d r)" for r
    using q assms(2,3,4) by (simp add: node_at_move)
  have "map_of (map (\<lambda>(r, m). (if r = q then t else r, m)) (filter (\<lambda>(r, _). r \<noteq> t) (nodes d))) [] = None"
    using map_of_move(3) [OF assms(4), where xs = "nodes d" and r = "[]"] q assms(1,3) by (simp add: rooted_iff)
  then have root: "map_of (nodes (move_node q t d)) [] = None" by (simp add: move_node_def)
  have "node_at (move_node q t d) (butlast r) = Some Folder"
    if "r \<noteq> []" "node_at (move_node q t d) r \<noteq> None" for r
  proof -
    have "node_at d (butlast r) = Some Folder"
    proof (cases "r = t")
      case True
      with assms(1,2) q show ?thesis by (simp add: assms(3) rooted_iff)
    next
      case False
      with that(2) have "node_at d r \<noteq> None" by (auto simp: n split: if_splits)
      with assms(1) that(1) show ?thesis by (simp add: rooted_iff)
    qed
    with assms(2,6) show ?thesis by (auto simp: n)
  qed
  with root have "rooted (move_node q t d)" by (simp add: rooted_iff)
  with assms(2,5) show ?thesis by (auto simp: eroded_def shrinks_def n split: if_splits)
qed

section \<open>One target\<close>

definition temps :: "io \<Rightarrow> place set" where
  "temps x = {butlast q @ [hidden_name x q] |q. True}"

text \<open>The temporary names are not in use.\<close>

definition fresh_names :: "io \<Rightarrow> disk \<Rightarrow> bool" where
  "fresh_names x d \<longleftrightarrow> (\<forall>q. node_at d (butlast q @ [hidden_name x q]) = None \<and> last q \<noteq> hidden_name x q)"

lemma fresh_temps: "fresh_names x d \<Longrightarrow> \<forall>q\<in>temps x. node_at d q = None"
  by (auto simp: fresh_names_def temps_def)

text \<open>The places that the erase of a target may change.\<close>

definition touched :: "disk \<Rightarrow> string \<Rightarrow> place set" where
  "touched d s = (if is_link d s then {place_of d s} else if is_file d s then {real_place d s} else {})"

lemma overwrite_eroded:
  assumes r: "rooted d" and T: "\<And>q. q \<in> temps x \<Longrightarrow> node_at d q \<noteq> Some Folder"
    and m: "\<And>q. last q \<noteq> hidden_name x q"
    and l: "\<not> is_link d s" and f: "is_file d s"
  shows "eroded (temps x) ({real_place d s} \<union> temps x) d (snd (snd (overwrite_file x n s d)))"
    and "fst (overwrite_file x n s d) \<noteq> None \<Longrightarrow>
      eroded {} {real_place d s} d (snd (snd (overwrite_file x n s d))) \<and>
      node_at (snd (snd (overwrite_file x n s d))) (real_place d s) = None"
proof -
  let ?q = "real_place d s" and ?e = "set_node (real_place d s) (Plain []) d"
  let ?t = "butlast (real_place d s) @ [hidden_name x (real_place d s)]"
  obtain b where b: "node_at d ?q = Some (Plain b)" using f by (auto simp: is_file_iff)
  have q: "?q \<noteq> []" using rooted_not_root [OF r b] by simp
  have e: "eroded U {?q} d ?e" for U by (rule empty_eroded [OF r b])
  have eq: "node_at ?e ?q = Some (Plain [])" using b q by (simp add: node_at_set)
  have drop: "eroded U {?q} d (drop_node ?q ?e)" for U
    using e eroded_trans [OF e [of U] drop_leaf_eroded [OF erodedD(2) [OF e]]] eq by simp
  have gone: "node_at (drop_node ?q ?e) ?q = None" using q by (simp add: node_at_drop)
  have t: "?t \<in> temps x" by (auto simp: temps_def)
  have move: "eroded (temps x) ({?q} \<union> temps x) d (move_node ?q ?t ?e)"
  proof -
    have False: "?t \<noteq> ?q" using m [of ?q] by (metis last_snoc)
    have "node_at ?e ?t \<noteq> Some Folder" using T [OF t] False b q by (simp add: node_at_set)
    from moved_eroded [OF erodedD(2) [OF e] eq refl False t this]
    have "eroded (temps x) ({?q} \<union> temps x) ?e (move_node ?q ?t ?e)" by (rule eroded_mono) (use t in auto)
    with eroded_mono [OF e] show ?thesis by (blast intro: eroded_trans)
  qed
  have place: "place_of d s = ?q" using real_is_place [OF l] by simp
  show "eroded (temps x) ({?q} \<union> temps x) d (snd (snd (overwrite_file x n s d)))"
    using r move eroded_mono [OF e [of "temps x"]] eroded_mono [OF drop [of "temps x"]]
    by (auto simp: overwrite_file_def Let_def place b intro: eroded_refl)
  show "eroded {} {?q} d (snd (snd (overwrite_file x n s d))) \<and>
      node_at (snd (snd (overwrite_file x n s d))) ?q = None" if "fst (overwrite_file x n s d) \<noteq> None"
    using that drop gone by (auto simp: overwrite_file_def Let_def place b split: if_splits)
qed

definition gone :: "disk \<Rightarrow> string \<Rightarrow> bool" where
  "gone d s \<longleftrightarrow> \<not> is_link d s \<and> \<not> is_file d s"

lemma touched_stable:
  assumes "shrinks T d d'" "rooted d'" "\<forall>q\<in>T. node_at d q = None" "plain_path s"
  shows "touched d' s \<subseteq> touched d s \<union> T"
proof (cases "is_link d' s")
  case True
  with link_stable [OF assms True] show ?thesis by (simp add: touched_def)
next
  case l: False
  show ?thesis
  proof (cases "is_file d' s")
    case True
    with l file_stable [OF assms True] show ?thesis by (auto simp: touched_def)
  next
    case False
    with l show ?thesis by (simp add: touched_def)
  qed
qed

lemma gone_stable:
  assumes "shrinks {} d d'" "rooted d'" "plain_path s" "gone d s"
  shows "gone d' s"
proof -
  have T: "\<forall>q\<in>{}. node_at d q = None" by simp
  have l: "\<not> is_link d' s" using link_stable(1) [OF assms(1,2) T assms(3)] assms(4) by (auto simp: gone_def)
  have "\<not> is_file d' s" using file_stable(2) [OF assms(1,2) T assms(3)] assms(4) by (auto simp: gone_def)
  with l show ?thesis by (simp add: gone_def)
qed

lemma failed_grows: "\<exists>u. ea_failed (erase_target x dry t a) = ea_failed a @ u"
  by (auto simp: erase_target_def Let_def split: option.splits prod.splits)

lemma failed_after: "ea_failed (fold (erase_target x dry) ts a) = [] \<Longrightarrow> ea_failed a = []"
proof (induction ts arbitrary: a)
  case (Cons t ts)
  from Cons.prems have "ea_failed (fold (erase_target x dry) ts (erase_target x dry t a)) = []" by simp
  then have "ea_failed (erase_target x dry t a) = []" by (rule Cons.IH)
  with failed_grows [of x dry t a] show ?case by auto
qed simp

lemma target_eroded:
  assumes r: "rooted (ea_disk a)" and T: "\<And>q. q \<in> temps x \<Longrightarrow> node_at (ea_disk a) q \<noteq> Some Folder"
    and m: "\<And>q. last q \<noteq> hidden_name x q"
  shows "eroded (temps x) (touched (ea_disk a) (t_path t) \<union> temps x) (ea_disk a) (ea_disk (erase_target x dry t a))"
proof -
  let ?d = "ea_disk a" and ?s = "t_path t"
  show ?thesis
  proof (cases "is_link ?d ?s")
    case True
    then have "node_at ?d (place_of ?d ?s) \<noteq> Some Folder" by (auto simp: is_link_def)
    from drop_leaf_eroded [OF r this] True r show ?thesis
      by (auto simp: erase_target_def Let_def touched_def intro: eroded_refl eroded_mono)
  next
    case False
    show ?thesis
    proof (cases "is_file ?d ?s")
      case True
      note o = overwrite_eroded(1) [OF r T m False True, of 1]
      then have "eroded (temps x) (touched ?d ?s \<union> temps x) ?d (snd (snd (overwrite_file x 1 ?s ?d)))"
        using False True by (simp add: touched_def)
      with False True r show ?thesis
        by (auto simp: erase_target_def Let_def intro: eroded_refl split: prod.splits option.splits)
    next
      case no_file: False
      with False r show ?thesis by (simp add: erase_target_def Let_def eroded_refl)
    qed
  qed
qed

lemma target_gone:
  assumes r: "rooted (ea_disk a)" and T: "\<And>q. q \<in> temps x \<Longrightarrow> node_at (ea_disk a) q \<noteq> Some Folder"
    and m: "\<And>q. last q \<noteq> hidden_name x q"
    and p: "plain_path (t_path t)" and ok: "ea_failed (erase_target x False t a) = []"
  shows "eroded {} (touched (ea_disk a) (t_path t)) (ea_disk a) (ea_disk (erase_target x False t a))"
    and "gone (ea_disk (erase_target x False t a)) (t_path t)"
proof -
  let ?d = "ea_disk a" and ?s = "t_path t" and ?d' = "ea_disk (erase_target x False t a)"
  have "eroded {} (touched ?d ?s) ?d ?d' \<and> (touched ?d ?s \<noteq> {} \<longrightarrow> (\<forall>q\<in>touched ?d ?s. node_at ?d' q = None))"
  proof (cases "is_link ?d ?s")
    case True
    then have n: "node_at ?d (place_of ?d ?s) \<noteq> Some Folder" "place_of ?d ?s \<noteq> []"
      by (auto simp: is_link_def node_at_def)
    have d': "?d' = drop_node (place_of ?d ?s) ?d"
      using True ok by (simp add: erase_target_def Let_def split: if_splits)
    show ?thesis using drop_leaf_eroded [OF r n(1)] True n(2) by (simp add: d' touched_def node_at_drop)
  next
    case False
    show ?thesis
    proof (cases "is_file ?d ?s")
      case True
      have "fst (overwrite_file x 1 ?s ?d) \<noteq> None"
        using False True ok by (auto simp: erase_target_def Let_def split: prod.splits option.splits)
      from overwrite_eroded(2) [OF r T m False True this]
      show ?thesis using False True
        by (auto simp: erase_target_def Let_def touched_def split: prod.splits option.splits)
    next
      case no_file: False
      with False r show ?thesis by (simp add: erase_target_def Let_def eroded_refl touched_def)
    qed
  qed
  then have e: "eroded {} (touched ?d ?s) ?d ?d'" and g: "\<And>q. q \<in> touched ?d ?s \<Longrightarrow> node_at ?d' q = None" by auto
  show "eroded {} (touched ?d ?s) ?d ?d'" by (rule e)
  note st = link_stable [OF erodedD(1,2) [OF e] _ p] file_stable [OF erodedD(1,2) [OF e] _ p]
  have l: "\<not> is_link ?d' ?s"
  proof
    assume "is_link ?d' ?s"
    with st(1,2) have "is_link ?d ?s" "place_of ?d' ?s = place_of ?d ?s" by auto
    with g [of "place_of ?d ?s"] \<open>is_link ?d' ?s\<close> show False by (simp add: touched_def is_link_def)
  qed
  have "\<not> is_file ?d' ?s"
  proof
    assume f: "is_file ?d' ?s"
    with st(3,4,5) l have "real_place ?d' ?s = real_place ?d ?s" "is_file ?d ?s" "\<not> is_link ?d ?s" by auto
    with g [of "real_place ?d ?s"] f show False by (simp add: touched_def is_file_def)
  qed
  with l show "gone ?d' ?s" by (simp add: gone_def)
qed

section \<open>The whole erase\<close>

definition touched_by :: "io \<Rightarrow> disk \<Rightarrow> target list \<Rightarrow> place set" where
  "touched_by x d ts = (\<Union>t\<in>set ts. touched d (t_path t)) \<union> temps x"

definition start_of :: "disk \<Rightarrow> erasure" where
  "start_of d = \<lparr>ea_done = 0, ea_bytes = 0, ea_failed = [], ea_wiped = [], ea_disk = d\<rparr>"

lemma temps_not_folder:
  assumes "shrinks (temps x) d d'" "fresh_names x d" "q \<in> temps x"
  shows "node_at d' q \<noteq> Some Folder"
  using shrinks_node [OF assms(1), of q Folder] fresh_temps [OF assms(2)] assms(3) by auto

lemma hidden_name_other: "fresh_names x d \<Longrightarrow> last q \<noteq> hidden_name x q"
  by (simp add: fresh_names_def)

lemma targets_eroded:
  assumes r: "rooted d" and x: "fresh_names x d" and p: "\<forall>t\<in>set ts. plain_path (t_path t)"
  shows "eroded (temps x) (touched_by x d ts) d (ea_disk (fold (erase_target x dry) ts (start_of d)))"
  using p
proof (induction ts rule: rev_induct)
  case Nil
  then show ?case using r by (simp add: start_of_def eroded_refl)
next
  case (snoc t ts)
  let ?a = "fold (erase_target x dry) ts (start_of d)"
  have e: "eroded (temps x) (touched_by x d ts) d (ea_disk ?a)" using snoc by simp
  note sh = erodedD(1,2) [OF e]
  have "touched (ea_disk ?a) (t_path t) \<subseteq> touched d (t_path t) \<union> temps x"
    using snoc.prems by (intro touched_stable [OF sh fresh_temps [OF x]]) simp
  then have sub: "touched (ea_disk ?a) (t_path t) \<union> temps x \<subseteq> touched_by x d (ts @ [t])"
    by (auto simp: touched_by_def)
  have "eroded (temps x) (touched (ea_disk ?a) (t_path t) \<union> temps x) (ea_disk ?a) (ea_disk (erase_target x dry t ?a))"
    by (rule target_eroded [OF sh(2) temps_not_folder [OF sh(1) x] hidden_name_other [OF x]])
  from eroded_mono [OF this order_refl sub]
    eroded_mono [OF e order_refl, of "touched_by x d (ts @ [t])"]
  show ?case by (auto simp: touched_by_def intro: eroded_trans)
qed

lemma targets_gone:
  assumes r: "rooted d" and x: "fresh_names x d" and p: "\<forall>t\<in>set ts. plain_path (t_path t)"
    and ok: "ea_failed (fold (erase_target x False) ts (start_of d)) = []"
  shows "shrinks {} d (ea_disk (fold (erase_target x False) ts (start_of d))) \<and>
    rooted (ea_disk (fold (erase_target x False) ts (start_of d))) \<and>
    (\<forall>t\<in>set ts. gone (ea_disk (fold (erase_target x False) ts (start_of d))) (t_path t))"
  using p ok
proof (induction ts rule: rev_induct)
  case Nil
  then show ?case using r by (simp add: start_of_def)
next
  case (snoc t ts)
  let ?a = "fold (erase_target x False) ts (start_of d)" and ?b = "fold (erase_target x False) (ts @ [t]) (start_of d)"
  have last: "ea_failed (erase_target x False t ?a) = []" using snoc.prems by simp
  then have "ea_failed ?a = []" using failed_grows [of x False t ?a] by auto
  with snoc have a: "shrinks {} d (ea_disk ?a)" "rooted (ea_disk ?a)" "\<forall>t\<in>set ts. gone (ea_disk ?a) (t_path t)" by auto
  have nf: "\<And>q. q \<in> temps x \<Longrightarrow> node_at (ea_disk ?a) q \<noteq> Some Folder"
    by (rule temps_not_folder [OF shrinks_mono [OF a(1)] x]) auto
  have pt: "plain_path (t_path t)" using snoc.prems by simp
  note g = target_gone [OF a(2) nf hidden_name_other [OF x] pt last]
  note b = erodedD(1,2) [OF g(1)]
  have "gone (ea_disk ?b) (t_path u)" if "u \<in> set (ts @ [t])" for u
    using that g(2) a(3) gone_stable [OF b] snoc.prems(1) by auto
  with shrinks_trans [OF a(1) b(1)] b(2) show ?case by simp
qed

lemma rmdirs_eroded: "rooted d \<Longrightarrow> eroded T X d (fold (rmdir_empty x) ss d)"
proof (induction ss arbitrary: d)
  case (Cons s ss)
  have e: "eroded T X d (rmdir_empty x s d)" by (rule rmdir_eroded [OF Cons.prems])
  from Cons.IH [OF erodedD(2) [OF e]] show ?case by (auto intro: eroded_trans [OF e])
qed (simp add: eroded_refl)

lemma erase_parts:
  "ea_failed (erase x dry ar p d) = ea_failed (fold (erase_target x dry) (ep_targets p) (start_of d))"
  "ea_disk (erase x dry ar p d) =
    (let d' = ea_disk (fold (erase_target x dry) (ep_targets p) (start_of d)) in
     if dry then d' else fold (rmdir_empty x) (ar (map (dirname \<circ> t_path) (ep_targets p))) d')"
  by (simp_all add: erase_def start_of_def Let_def)

lemma erase_eroded:
  assumes "rooted d" "fresh_names x d" "\<forall>t\<in>set (ep_targets p). plain_path (t_path t)"
  shows "eroded (temps x) (touched_by x d (ep_targets p)) d (ea_disk (erase x dry ar p d))"
proof -
  note e = targets_eroded [OF assms, of dry]
  show ?thesis using e eroded_trans [OF e rmdirs_eroded [OF erodedD(2) [OF e]]]
    by (cases dry) (simp_all add: erase_parts Let_def)
qed

lemma erase_gone:
  assumes "rooted d" "fresh_names x d" "\<forall>t\<in>set (ep_targets p). plain_path (t_path t)"
    and "ea_failed (erase x False ar p d) = []"
  shows "shrinks {} d (ea_disk (erase x False ar p d))" "rooted (ea_disk (erase x False ar p d))"
    "t \<in> set (ep_targets p) \<Longrightarrow> gone (ea_disk (erase x False ar p d)) (t_path t)"
proof -
  let ?d = "ea_disk (fold (erase_target x False) (ep_targets p) (start_of d))"
  have f: "shrinks {} d ?d" "rooted ?d" "\<forall>t\<in>set (ep_targets p). gone ?d (t_path t)"
    using targets_gone [OF assms(1-3)] assms(4) by (auto simp: erase_parts)
  have e: "eroded {} UNIV ?d (ea_disk (erase x False ar p d))"
    using rmdirs_eroded [OF f(2)] by (simp add: erase_parts Let_def)
  note g = erodedD(1,2) [OF e]
  show "shrinks {} d (ea_disk (erase x False ar p d))" by (rule shrinks_trans [OF f(1) g(1)])
  show "rooted (ea_disk (erase x False ar p d))" by (rule g(2))
  show "gone (ea_disk (erase x False ar p d)) (t_path t)" if "t \<in> set (ep_targets p)"
    using gone_stable [OF g] f(3) assms(3) that by auto
qed

end
