(* ===== verification/ErasePaths.thy ===== *)
theory ErasePaths
  imports SecureErase FilesFacts
begin

text \<open>
  The paths of a plan: their real places, what keeping and fencing means for them, and that a plan of a
  sound disk and environment names no parent directory.
\<close>

section \<open>Path texts of a sound disk\<close>

lemma node_ok: "names_ok d \<Longrightarrow> node_at d q = Some (Link t) \<Longrightarrow> place_ok t"
  by (auto simp: names_ok_def node_at_def list_all_iff split: if_splits dest!: map_of_SomeD)

lemma step_ok:
  assumes "names_ok d" "CHR ''/'' \<notin> set n" "place_ok q"
  shows "place_ok (step_into d n q)"
proof (cases "n = [] \<or> n = ''.'' \<or> n = ''..''")
  case True
  then show ?thesis using assms(3) place_ok_butlast by auto
next
  case False
  with assms have "place_ok (q @ [n])" by (simp add: name_ok_def)
  with False node_ok [OF assms(1)] show ?thesis by (auto split: option.split node.split)
qed

lemma resolve_ok:
  assumes "names_ok d" "\<forall>n\<in>set ns. CHR ''/'' \<notin> set n" "place_ok q"
  shows "place_ok (resolve_from d q ns)"
  using assms(2) step_ok [OF assms(1)] assms(3) by (induction ns rule: rev_induct) auto

lemma real_ok: "names_ok d \<Longrightarrow> place_ok (real_place d s)"
  unfolding real_place_def
  by (rule resolve_ok) (auto simp: path_start_def names_ok_def dest: split_slash_names)

lemma realpath_eq_iff: "names_ok d \<Longrightarrow> realpath d s = realpath d s' \<longleftrightarrow> real_place d s = real_place d s'"
  using path_text_inj [OF real_ok real_ok] by (auto simp: realpath_def)

lemma within_iff:
  assumes "place_ok p" "place_ok q"
  shows "(path_text p = path_text q \<or> starts_with (rstrip_slash (path_text q) @ ''/'') (path_text p)) \<longleftrightarrow> prefix q p"
  using under_slash [OF assms(2,1)] rstrip_render [OF assms(2)] path_text_inj [OF assms] by auto

lemma path_text_nonempty [simp]: "path_text q \<noteq> []"
  by (cases q) (auto simp: path_text_def)

lemma kept_iff:
  assumes "names_ok d"
  shows "path_within (realpath d s) (kept_paths d keep) \<longleftrightarrow>
    (\<exists>k\<in>set keep. k \<noteq> [] \<and> prefix (real_place d k) (real_place d s))"
  using within_iff [OF real_ok [OF assms] real_ok [OF assms]]
  by (auto simp: path_within_def kept_paths_def list_ex_iff realpath_def)

lemma in_fence_prefix: "names_ok d \<Longrightarrow> in_fence d f s \<Longrightarrow> prefix (real_place d f) (real_place d s)"
  using under_slash [OF real_ok real_ok] rstrip_render [OF real_ok]
  by (auto simp: in_fence_def realpath_def)

section \<open>The targets of a plan\<close>

definition planned :: "disk \<Rightarrow> roots \<Rightarrow> (group \<times> string) list \<Rightarrow> target list" where
  "planned d r calls =
     fst (fold (add_user_file d) (fst (user_files d (r_model_dir r))) (fold (add_target d) calls ([], [])))"

lemma plan_targets:
  assumes "plan d e keep = Some p"
  obtains calls where "session_calls d e (roots_of d e) (kept_paths d keep) = Some calls"
    and "set (ep_targets p) = {t \<in> set (planned d (roots_of d e) calls).
        \<not> path_within (realpath d (t_path t)) (kept_paths d keep) \<and>
        (r_confine_to (roots_of d e) \<noteq> [] \<longrightarrow> in_fence d (r_confine_to (roots_of d e)) (t_path t))}"
    and "\<exists>P. ep_targets p = filter P (planned d (roots_of d e) calls)"
proof -
  from assms obtain calls where c: "session_calls d e (roots_of d e) (kept_paths d keep) = Some calls"
    and p: "p = plan_of d (roots_of d e) (kept_paths d keep) calls"
    by (auto simp: plan_def Let_def)
  obtain user large used where u: "user_files d (r_model_dir (roots_of d e)) = (user, large, used)"
    by (cases "user_files d (r_model_dir (roots_of d e))")
  obtain ts seen where a: "fold (add_user_file d) user (fold (add_target d) calls ([], [])) = (ts, seen)"
    by (cases "fold (add_user_file d) user (fold (add_target d) calls ([], []))")
  have t: "planned d (roots_of d e) calls = ts" by (simp add: planned_def u a)
  show ?thesis
  proof (rule that [OF c])
    show "set (ep_targets p) = {t \<in> set (planned d (roots_of d e) calls).
        \<not> path_within (realpath d (t_path t)) (kept_paths d keep) \<and>
        (r_confine_to (roots_of d e) \<noteq> [] \<longrightarrow> in_fence d (r_confine_to (roots_of d e)) (t_path t))}"
      by (auto simp: p plan_of_def u a t Let_def)
    show "\<exists>P. ep_targets p = filter P (planned d (roots_of d e) calls)"
      by (auto simp: p plan_of_def u a t Let_def)
  qed
qed

lemma target_not_kept:
  assumes "plan d e keep = Some p" "names_ok d" "t \<in> set (ep_targets p)" "k \<in> set keep" "k \<noteq> []"
  shows "\<not> prefix (real_place d k) (real_place d (t_path t))"
  by (rule plan_targets [OF assms(1)]) (use assms(3-5) kept_iff [OF assms(2)] in auto)

lemma target_fenced:
  assumes "plan d e keep = Some p" "names_ok d" "t \<in> set (ep_targets p)" "r_confine_to (roots_of d e) \<noteq> []"
  shows "prefix (real_place d (r_confine_to (roots_of d e))) (real_place d (t_path t))"
  by (rule plan_targets [OF assms(1)]) (use assms(3,4) in_fence_prefix [OF assms(2)] in auto)

section \<open>No parent directories\<close>

lemma split_append: "split_on c (u @ c # v) = split_on c u @ split_on c v"
  by (induction u) (auto split: list.splits)

lemma split_name: "c \<notin> set u \<Longrightarrow> split_on c u = [u]"
  by (induction u) auto

lemma plain_append: "plain_path (u @ CHR ''/'' # v) \<longleftrightarrow> plain_path u \<and> plain_path v"
  by (auto simp: plain_path_def split_append)

lemma plain_Nil [simp]: "plain_path []"
  by (simp add: plain_path_def)

lemma plain_join: "plain_path a \<Longrightarrow> plain_path b \<Longrightarrow> plain_path (path_join a b)"
proof (cases "starts_with ''/'' b \<or> a = []")
  case False
  assume p: "plain_path a" "plain_path b"
  show ?thesis
  proof (cases "last a = CHR ''/''")
    case True
    with False obtain u where a: "a = u @ [CHR ''/'']" by (metis append_butlast_last_id)
    with p plain_append [of u "[]"] plain_append [of u b] False show ?thesis by (simp add: path_join_def)
  next
    case False
    with p show ?thesis by (auto simp: path_join_def plain_append)
  qed
qed (auto simp: path_join_def)

lemma plain_rstrip: "plain_path a \<Longrightarrow> plain_path (rstrip_slash a)"
proof (induction a rule: rev_induct)
  case (snoc c a)
  show ?case
  proof (cases "c = CHR ''/''")
    case True
    with snoc have "plain_path a" using plain_append [of a "[]"] by simp
    with snoc True show ?thesis by (simp add: rstrip_slash_def)
  next
    case False
    with snoc show ?thesis by (simp add: rstrip_slash_def)
  qed
qed (simp add: rstrip_slash_def)

lemma plain_dirname: "plain_path a \<Longrightarrow> plain_path (dirname a)"
proof -
  assume a: "plain_path a"
  let ?h = "rev (dropWhile (\<lambda>c. c \<noteq> CHR ''/'') (rev a))"
  have "plain_path ?h"
  proof (cases "CHR ''/'' \<in> set a")
    case True
    then obtain u v where u: "a = u @ CHR ''/'' # v" "CHR ''/'' \<notin> set v" using split_list_last by metis
    then have "?h = u @ [CHR ''/'']" using u by (auto simp: dropWhile_append1 dropWhile_append)
    with a u(1) plain_append [of u v] plain_append [of u "[]"] show ?thesis by simp
  next
    case False
    then have "dropWhile (\<lambda>c. c \<noteq> CHR ''/'') (rev a) = []" by (auto simp: dropWhile_eq_Nil_conv)
    then show ?thesis by (simp only: rev.simps plain_Nil)
  qed
  with plain_rstrip show ?thesis by (auto simp: dirname_def Let_def)
qed

lemma plain_name: "name_ok n \<Longrightarrow> plain_path n"
  by (auto simp: name_ok_def plain_path_def split_name)

lemma plain_below: "plain_path base \<Longrightarrow> place_ok rel \<Longrightarrow> plain_path (below base rel)"
  unfolding below_def by (induction rel arbitrary: base) (auto intro: plain_join plain_name)

lemma entries_ok: "names_ok d \<Longrightarrow> n \<in> set (entries d q) \<Longrightarrow> name_ok n"
proof -
  assume d: "names_ok d" and "n \<in> set (entries d q)"
  then obtain r m where r: "(r, m) \<in> set (nodes d)" "r \<noteq> []" "n = last r" by (auto simp: entries_def)
  with d have "place_ok r" by (auto simp: names_ok_def list_all_iff)
  with r show "name_ok n" by (cases r rule: rev_cases) auto
qed

lemma listed_names_ok:
  assumes "names_ok d"
  shows "n \<in> set (subfolders d q) \<Longrightarrow> name_ok n" "n \<in> set (other_entries d q) \<Longrightarrow> name_ok n"
  using entries_ok [OF assms, of n q] by (auto simp: subfolders_def other_entries_def split: if_splits)

lemma walk_names_ok:
  assumes "names_ok d" "(rel, names) \<in> set (walk d enter q [])" "n \<in> set names"
  shows "place_ok (rel @ [n])"
proof -
  have "place_ok ms" if "enters d enter q rel ms" for q rel ms
    using that listed_names_ok(1) [OF assms(1)] by (induction ms arbitrary: q rel) auto
  with assms(2,3) listed_names_ok(2) [OF assms(1)] show ?thesis by (fastforce simp: walk_iff)
qed

definition plain_roots :: "env \<Rightarrow> roots \<Rightarrow> bool" where
  "plain_roots e r = list_all plain_path
     ([r_model_dir r, r_workspace r, r_home r, r_tmp r, r_var_log r, r_state_dir r, r_runtime_dir r, r_status_file r,
       r_keyfile r, r_legacy_keyfile r, r_etc_ssh r] @ r_extra_roots r
      @ map (env_get e) [''HF_HOME'', ''HUGGINGFACE_HUB_CACHE'', ''HF_DATASETS_CACHE'', ''TRANSFORMERS_CACHE'',
          ''HF_HUB_CACHE'', ''XDG_CACHE_HOME''])"

lemma tree_plain: "names_ok d \<Longrightarrow> plain_path base \<Longrightarrow> s \<in> set (tree_paths d skip base) \<Longrightarrow> plain_path s"
  by (auto simp: tree_paths_def Let_def simp del: place_ok_simps split: if_splits intro!: plain_below walk_names_ok)

lemma listed_plain:
  assumes "names_ok d" "plain_path base" "listed d pick base = Some ss" "s \<in> set ss"
  shows "plain_path s"
  using assms entries_ok [OF assms(1)]
  by (auto simp: listed_def listing_def split: if_splits intro!: plain_join [OF _ plain_name])

lemma plain_literals [simp]:
  "plain_path ''.cache/huggingface/token''" "plain_path ''.huggingface/token''"
  "plain_path ''.cache/huggingface/stored_tokens''" "plain_path ''.vast_api_key''" "plain_path ''.runpod.yaml''"
  "plain_path ''.runpod/config.toml''" "plain_path ''.config/vastai/vast_api_key''"
  "plain_path ''.config/runpod/config.toml''" "plain_path ''.runpod''" "plain_path ''token''"
  "plain_path ''stored_tokens''" "plain_path ''.ssh''" "plain_path ''.lego''" "plain_path ''config.json''"
  "plain_path ''known-good.json''" "plain_path ''apply-state.json''" "plain_path ''verify-last.json''"
  "plain_path ''checkpoint-baseline.json''" "plain_path ''failures''" "plain_path ''soul''"
  "plain_path ''.lmcache''" "plain_path ''logs''" "plain_path ''.bash_history''" "plain_path ''.python_history''"
  "plain_path ''.viminfo''" "plain_path ''.zsh_history''" "plain_path ''.lesshst''" "plain_path ''.wget-hsts''"
  "plain_path ''.nano_history''" "plain_path ''.ipython/profile_default/history.sqlite''"
  "plain_path ''.jupyter/lab/workspaces''" "plain_path ''.local/share/jupyter/runtime''" "plain_path ''.cache''"
  "plain_path ''huggingface''"
  by (simp_all add: plain_path_def)

lemma kept_once: "set (fold (\<lambda>x out. let x = rstrip_slash x in
    if x \<noteq> [] \<and> \<not> List.member out x then x # out else out) xs out) \<subseteq> rstrip_slash ` set xs \<union> set out"
  by (induction xs arbitrary: out) (fastforce simp: Let_def split: if_splits)+

lemma hf_plain:
  assumes "plain_roots e r" "s \<in> set (hf_cache_roots e r)"
  shows "plain_path s"
proof -
  have env: "plain_path (env_get e n)" if "n \<in> {''HF_HOME'', ''HUGGINGFACE_HUB_CACHE'', ''HF_DATASETS_CACHE'',
      ''TRANSFORMERS_CACHE'', ''HF_HUB_CACHE'', ''XDG_CACHE_HOME''}" for n
    using assms(1) that by (auto simp: plain_roots_def)
  have roots: "plain_path (r_home r)" "\<forall>x\<in>set (r_extra_roots r). plain_path x"
    using assms(1) by (auto simp: plain_roots_def list_all_iff)
  have "\<forall>x\<in>set (hf_candidates e r). plain_path x"
    using env roots by (auto simp: hf_candidates_def intro!: plain_join plain_literals)
  moreover have "s \<in> rstrip_slash ` set (hf_candidates e r)"
    using assms(2) kept_once [of "hf_candidates e r" "[]"] by (auto simp: hf_cache_roots_def)
  ultimately show ?thesis using plain_rstrip by auto
qed

lemma list_all_plain:
  "list_all (plain_path \<circ> snd) (map (Pair g) xs) \<longleftrightarrow> list_all plain_path xs"
  "list_all P (concat (map f ys)) \<longleftrightarrow> list_all (\<lambda>y. list_all P (f y)) ys"
  by (simp_all add: list_all_iff)

lemma trees_plain [simp]: "names_ok d \<Longrightarrow> plain_path base \<Longrightarrow> list_all plain_path (tree_paths d skip base)"
  using tree_plain by (simp add: list_all_iff)

lemma hfs_plain [simp]: "plain_roots e r \<Longrightarrow> list_all plain_path (hf_cache_roots e r)"
  using hf_plain by (simp add: list_all_iff)

lemma list_all_join:
  "list_all plain_path xs \<Longrightarrow> (\<And>x. plain_path x \<Longrightarrow> list_all plain_path (f x)) \<Longrightarrow>
     list_all (\<lambda>x. list_all plain_path (f x)) xs"
  by (auto simp: list_all_iff)

lemma calls_plain:
  assumes "session_calls d e r keep = Some calls" and d: "names_ok d" and r: "plain_roots e r"
  shows "list_all (plain_path \<circ> snd) calls"
proof -
  obtain cs ls where cs: "credential_calls d e r = Some cs" and ls: "log_calls d r = Some ls"
    and calls: "calls = cs @ state_calls d r @ ls @ scratch_calls d r keep"
    using assms(1) by (auto simp: session_calls_def bind_eq_Some_conv)
  obtain host where h: "listed d (starts_with ''ssh_host_'') (r_etc_ssh r) = Some host"
    using cs by (auto simp: credential_calls_def)
  obtain ws md where w: "listed d (has_suffix LOG_SUFFIXES) (r_workspace r) = Some ws"
    and m: "listed d (has_suffix LOG_SUFFIXES) (r_model_dir r) = Some md"
    using ls by (auto simp: log_calls_def bind_eq_Some_conv)
  have p: "plain_path (r_model_dir r)" "plain_path (r_workspace r)" "plain_path (r_home r)" "plain_path (r_tmp r)"
    "plain_path (r_var_log r)" "plain_path (r_state_dir r)" "plain_path (r_runtime_dir r)"
    "plain_path (r_status_file r)" "plain_path (r_keyfile r)" "plain_path (r_legacy_keyfile r)"
    "plain_path (r_etc_ssh r)" "list_all plain_path (r_extra_roots r)"
    using r by (auto simp: plain_roots_def)
  have listed: "list_all plain_path host" "list_all plain_path ws" "list_all plain_path md"
    using listed_plain [OF d _ h] listed_plain [OF d _ w] listed_plain [OF d _ m] p by (auto simp: list_all_iff)
  note facts = p listed d r list_all_plain plain_join list_all_join
  have "list_all (\<lambda>x. plain_path (path_join x ''token'') \<and> plain_path (path_join x ''stored_tokens'')) (hf_cache_roots e r)"
    using hf_plain [OF r] by (simp add: list_all_iff plain_join)
  then have "list_all (plain_path \<circ> snd) cs"
    using cs h by (auto simp: credential_calls_def facts)
  moreover have "list_all (plain_path \<circ> snd) (state_calls d r)"
    by (simp add: state_calls_def facts)
  moreover have "list_all plain_path (concat (map (\<lambda>x. concat (map (\<lambda>(rel, names).
        map (\<lambda>n. below x (rel @ [n])) (filter (has_suffix LOG_SUFFIXES) names))
      (walk d (\<lambda>_. True) (real_place d x) []))) (r_extra_roots r)))"
    using p(12) by (auto simp: list_all_iff intro!: plain_below walk_names_ok [OF d])
  then have "list_all (plain_path \<circ> snd) ls"
    using ls w m p listed d by (auto simp: log_calls_def list_all_plain(1) plain_join)
  moreover have "list_all (plain_path \<circ> snd) (scratch_calls d r keep)"
    by (simp add: scratch_calls_def facts)
  ultimately show ?thesis by (simp add: calls)
qed

section \<open>Every target\<close>

lemma added_paths: "t \<in> set (fst (add_target d c acc)) \<Longrightarrow> t \<in> set (fst acc) \<or> t_path t = snd c"
  by (auto simp: add_target_def Let_def split: prod.splits if_splits option.splits)

lemma added_user_paths: "t \<in> set (fst (add_user_file d u acc)) \<Longrightarrow> t \<in> set (fst acc) \<or> t = u"
  by (auto simp: add_user_file_def Let_def split: prod.splits if_splits)

lemma user_files_plain:
  assumes "names_ok d" "plain_path model" "t \<in> set (fst (user_files d model))"
  shows "plain_path (t_path t)"
proof -
  obtain s n where "(s, n) \<in> set (model_files d model)" "t_path t = s"
    using assms(3) by (auto simp: user_files_def split: if_splits)
  then obtain rel names m where "(rel, names) \<in> set (walk d (\<lambda>rel. \<not> is_derived rel) (real_place d model) [])"
    and "m \<in> set names" "t_path t = below model (rel @ [m])"
    by (auto simp: model_files_def set_map_filter Let_def split: if_splits)
  then show ?thesis using plain_below [OF assms(2) walk_names_ok [OF assms(1)]] by metis
qed

lemma plan_plain:
  assumes "plan d e keep = Some p" "names_ok d" "plain_roots e (roots_of d e)"
  shows "\<forall>t\<in>set (ep_targets p). plain_path (t_path t)"
proof (rule plan_targets [OF assms(1)])
  fix calls
  assume c: "session_calls d e (roots_of d e) (kept_paths d keep) = Some calls"
    and "\<exists>P. ep_targets p = filter P (planned d (roots_of d e) calls)"
  then have sub: "set (ep_targets p) \<subseteq> set (planned d (roots_of d e) calls)" by auto
  let ?plain = "\<lambda>acc. \<forall>t\<in>set (fst acc). plain_path (t_path t)"
  have "?plain (fold (add_target d) calls ([], []))"
  proof (rule fold_invariant [where P = ?plain and Q = "\<lambda>c. plain_path (snd c)"])
    show "plain_path (snd c)" if "c \<in> set calls" for c
      using calls_plain [OF c assms(2,3)] that by (simp add: list_all_iff)
    show "?plain (add_target d c acc)" if "plain_path (snd c)" "?plain acc" for c acc
      using that added_paths [of _ d c acc] by metis
  qed simp
  then have "?plain (fold (add_user_file d) (fst (user_files d (r_model_dir (roots_of d e)))) (fold (add_target d) calls ([], [])))"
  proof (intro fold_invariant [where P = ?plain and Q = "\<lambda>t. plain_path (t_path t)"])
    show "plain_path (t_path t)" if "t \<in> set (fst (user_files d (r_model_dir (roots_of d e))))" for t
      using user_files_plain [OF assms(2) _ that] assms(3) by (simp add: plain_roots_def)
    show "?plain (add_user_file d t acc)" if "plain_path (t_path t)" "?plain acc" for t acc
      using that added_user_paths [of _ d t acc] by metis
  qed
  with sub show ?thesis by (auto simp: planned_def)
qed

lemma plan_exists:
  assumes "unreadable d = []"
  shows "\<exists>p. plan d e keep = Some p"
proof -
  have l: "listed d pick s \<noteq> None" for pick s using assms by (simp add: listed_def listing_def)
  have "credential_calls d e r \<noteq> None" for r using l by (simp add: credential_calls_def)
  moreover have "log_calls d r \<noteq> None" for r using l by (auto simp: log_calls_def bind_eq_None_conv)
  ultimately have "session_calls d e r ks \<noteq> None" for r ks by (auto simp: session_calls_def bind_eq_None_conv)
  then show ?thesis by (auto simp: plan_def Let_def)
qed

end
