(* ===== verification/SecureEraseTheorems.thy ===== *)
theory SecureEraseTheorems
  imports SecureEraseFacts ErasePaths
begin

text \<open>
  What the plan of an erase leaves out, what it covers, and what the erase does to the disk.
\<close>

section \<open>Nothing else is touched\<close>

definition contents_at :: "disk \<Rightarrow> place \<Rightarrow> byte list option" where
  "contents_at d q = (case node_at d q of Some (Plain b) \<Rightarrow> Some b | _ \<Rightarrow> None)"

lemma contents_Some: "contents_at d q = Some b \<longleftrightarrow> node_at d q = Some (Plain b)"
  by (auto simp: contents_at_def split: option.splits node.splits)

lemma shrinks_contents:
  assumes "shrinks T d d'" "contents_at d' q = Some b" "q \<notin> T"
  shows "contents_at d q \<noteq> None"
proof -
  from assms(1,2) have "node_at d q = Some (Plain b) \<or> q \<in> T \<or> (\<exists>b'. node_at d q = Some (Plain b'))"
    unfolding shrinks_def contents_Some by blast
  with assms(3) show ?thesis by (auto simp: contents_at_def)
qed

text \<open>A file that no target leads to survives the erase.\<close>

lemma untouched_survives:
  assumes "rooted d" "fresh_names x d" "\<forall>t\<in>set (ep_targets p). plain_path (t_path t)"
    and "\<And>t. t \<in> set (ep_targets p) \<Longrightarrow> real_place d (t_path t) \<noteq> q"
    and "contents_at d q = Some b"
  shows "contents_at (ea_disk (erase x dry ar p d)) q = Some b"
proof -
  have q: "node_at d q = Some (Plain b)" using assms(5) by (simp add: contents_Some)
  have "q \<notin> temps x" using fresh_temps [OF assms(2)] q by auto
  moreover have "q \<notin> touched d (t_path t)" if "t \<in> set (ep_targets p)" for t
    using assms(4) [OF that] q by (auto simp: touched_def is_link_def)
  ultimately have "q \<notin> touched_by x d (ep_targets p)" by (auto simp: touched_by_def)
  from erodedD(3) [OF erase_eroded [OF assms(1-3)] q this] show ?thesis by (simp add: contents_Some)
qed

text \<open>Whatever an erase does, the files that its caller asked to keep hold afterwards what they held before:
  their contents at their real place are the same, and a kept file that does not exist does not appear.\<close>

lemma kept_file_survives:
  assumes "plan d e keep = Some p" "k \<in> set keep" "k \<noteq> []"
    and "rooted d" "names_ok d" "fresh_names x d" "plain_roots e (roots_of d e)"
    and "\<And>q. hidden_name x q \<noteq> last (real_place d k)"
  shows "contents_at (ea_disk (erase x dry ar p d)) (real_place d k) = contents_at d (real_place d k)"
proof (cases "contents_at d (real_place d k)")
  note plain = plan_plain [OF assms(1,5,7)]
  case (Some b)
  with untouched_survives [OF assms(4,6) plain] target_not_kept [OF assms(1,5) _ assms(2,3)]
  show ?thesis by (metis prefix_order.refl)
next
  note plain = plan_plain [OF assms(1,5,7)]
  case None
  have "real_place d k \<notin> temps x" using assms(8) by (auto simp: temps_def) metis
  with None have "contents_at (ea_disk (erase x dry ar p d)) (real_place d k) \<noteq> Some b" for b
    using shrinks_contents [OF erodedD(1) [OF erase_eroded [OF assms(4,6) plain, of dry ar]], of "real_place d k" b] by auto
  with None show ?thesis by (cases "contents_at (ea_disk (erase x dry ar p d)) (real_place d k)") auto
qed

text \<open>C16: With a fence (\<open>ERASE_CONFINE_TO\<close>), no file outside it loses a byte: whatever the plan walks over, the
  contents of every file that does not lie below the fence are the same after the erase.\<close>

theorem erase_stays_in_fence:
  assumes "plan d e keep = Some p" "r_confine_to (roots_of d e) \<noteq> []"
    and "rooted d" "names_ok d" "fresh_names x d" "plain_roots e (roots_of d e)"
    and "contents_at d q = Some b" "\<not> prefix (real_place d (r_confine_to (roots_of d e))) q"
  shows "contents_at (ea_disk (erase x dry ar p d)) q = Some b"
  using untouched_survives [OF assms(3,5) plan_plain [OF assms(1,4,6)] _ assms(7)] target_fenced [OF assms(1,4) _ assms(2)] assms(8) by blast

section \<open>What a plan covers\<close>

lemma file_size: "is_file d s \<Longrightarrow> size_of d s \<noteq> None"
  by (auto simp: is_file_iff size_of_def)

text \<open>Every real path seen so far has its target, and no two files among the targets share one.\<close>

definition seen_covered :: "disk \<Rightarrow> found \<Rightarrow> bool" where
  "seen_covered d acc \<longleftrightarrow> (\<forall>r\<in>set (snd acc). \<exists>t\<in>set (fst acc). realpath d (t_path t) = r \<and> is_file d (t_path t))"

definition files_once :: "disk \<Rightarrow> found \<Rightarrow> bool" where
  "files_once d acc \<longleftrightarrow> distinct (map (realpath d \<circ> t_path) (filter (\<lambda>t. \<not> is_link d (t_path t)) (fst acc))) \<and>
     (\<forall>t\<in>set (fst acc). \<not> is_link d (t_path t) \<longrightarrow> realpath d (t_path t) \<in> set (snd acc))"

definition covers :: "disk \<Rightarrow> string \<Rightarrow> target list \<Rightarrow> bool" where
  "covers d s ts \<longleftrightarrow> (\<exists>t\<in>set ts. t_path t = s \<or> realpath d (t_path t) = realpath d s \<and> is_file d (t_path t))"

lemma add_target_once: "files_once d acc \<Longrightarrow> files_once d (add_target d c acc)"
  by (auto simp: files_once_def add_target_def Let_def split: prod.splits option.splits)

lemma add_user_once: "files_once d acc \<Longrightarrow> files_once d (add_user_file d t acc)"
  by (auto simp: files_once_def add_user_file_def Let_def split: prod.splits)

lemma add_target_covers:
  assumes "seen_covered d acc"
  shows "seen_covered d (add_target d c acc)"
    "is_link d (snd c) \<or> is_file d (snd c) \<Longrightarrow> covers d (snd c) (fst (add_target d c acc))"
    "set (fst acc) \<subseteq> set (fst (add_target d c acc))"
proof -
  obtain ts seen g s where acc: "acc = (ts, seen)" and c: "c = (g, s)" by (cases acc; cases c)
  have old: "\<exists>t\<in>set ts. realpath d (t_path t) = r \<and> is_file d (t_path t)" if "r \<in> set seen" for r
    using assms that by (simp add: seen_covered_def acc)
  show "seen_covered d (add_target d c acc)"
    using old file_size [of d s]
    by (auto simp: seen_covered_def add_target_def acc c split: option.splits)
  show "covers d (snd c) (fst (add_target d c acc))" if "is_link d (snd c) \<or> is_file d (snd c)"
    using that old [of "realpath d s"] file_size [of d s]
    by (auto simp: covers_def add_target_def acc c split: option.splits)
  show "set (fst acc) \<subseteq> set (fst (add_target d c acc))"
    by (auto simp: add_target_def acc c split: option.splits)
qed

lemma covers_mono: "covers d s ts \<Longrightarrow> set ts \<subseteq> set us \<Longrightarrow> covers d s us"
  by (auto simp: covers_def)

lemma add_user_mono: "set (fst acc) \<subseteq> set (fst (add_user_file d t acc))"
  by (auto simp: add_user_file_def Let_def split: prod.splits)

lemma fold_user_mono: "set (fst acc) \<subseteq> set (fst (fold (add_user_file d) us acc))"
proof (induction us arbitrary: acc)
  case (Cons t us)
  from Cons.IH [of "add_user_file d t acc"] add_user_mono [of acc d t] show ?case by auto
qed simp

lemma fold_add_covers:
  assumes "seen_covered d acc" "c \<in> set calls" "is_link d (snd c) \<or> is_file d (snd c)"
  shows "covers d (snd c) (fst (fold (add_target d) calls acc))"
proof -
  have mono: "set (fst acc) \<subseteq> set (fst (fold (add_target d) cs acc))" if "seen_covered d acc" for cs acc
    using that
  proof (induction cs arbitrary: acc)
    case (Cons c cs)
    from Cons.IH [OF add_target_covers(1) [OF Cons.prems]] add_target_covers(3) [OF Cons.prems, of c]
    show ?case by fastforce
  qed simp
  show ?thesis using assms
  proof (induction calls arbitrary: acc)
    case (Cons b calls)
    note next_ok = add_target_covers(1) [OF Cons.prems(1), of b]
    show ?case
    proof (cases "c = b")
      case True
      with add_target_covers(2) [OF Cons.prems(1), of c] Cons.prems(3) mono [OF next_ok, of calls]
      show ?thesis by (auto intro: covers_mono)
    next
      case False
      with Cons.IH [OF next_ok] Cons.prems show ?thesis by simp
    qed
  qed simp
qed

lemma planned_covers:
  assumes "(g, s) \<in> set calls" "is_link d s \<or> is_file d s"
  shows "covers d s (planned d r calls)"
proof -
  have "covers d s (fst (fold (add_target d) calls ([], [])))"
    using fold_add_covers [of d "([], [])" "(g, s)" calls] assms by (simp add: seen_covered_def)
  then show ?thesis unfolding planned_def by (rule covers_mono [OF _ fold_user_mono])
qed

lemma planned_once: "distinct (map (realpath d \<circ> t_path) (filter (\<lambda>t. \<not> is_link d (t_path t)) (planned d r calls)))"
proof -
  have "files_once d (fold (add_target d) calls ([], []))"
    by (rule fold_invariant [where P = "files_once d" and Q = "\<lambda>_. True"])
      (simp_all add: add_target_once, simp add: files_once_def)
  then have "files_once d (fold (add_user_file d) (fst (user_files d (r_model_dir r))) (fold (add_target d) calls ([], [])))"
    by (rule fold_invariant [where P = "files_once d" and Q = "\<lambda>_. True", rotated 1]) (simp_all add: add_user_once)
  then show ?thesis by (simp add: files_once_def planned_def)
qed

text \<open>No file is planned twice: among the targets that are not links, no two lead to the same real path,
  however many of the walked trees contain it.\<close>

lemma no_file_planned_twice:
  assumes "plan d e keep = Some p"
  shows "distinct (map (realpath d \<circ> t_path) (filter (\<lambda>t. \<not> is_link d (t_path t)) (ep_targets p)))"
proof (rule plan_targets [OF assms])
  fix calls
  assume "\<exists>P. ep_targets p = filter P (planned d (roots_of d e) calls)"
  then obtain P where P: "ep_targets p = filter P (planned d (roots_of d e) calls)" ..
  have "distinct (map (realpath d \<circ> t_path) (filter P (filter (\<lambda>t. \<not> is_link d (t_path t)) (planned d (roots_of d e) calls))))"
    by (rule distinct_map_filter [OF planned_once])
  then show ?thesis by (simp add: P filter_filter conj_commute)
qed


section \<open>Overwriting\<close>

lemma overwrite_pass_full:
  assumes "\<And>pos n. n \<le> accepts x pos n"
  shows "pos + remaining = length b \<Longrightarrow>
    overwrite_pass x used pos remaining b = take pos b @ map (noise x) [used..<used + remaining]"
  using assms
proof (induction x used pos remaining b rule: overwrite_pass.induct)
  case (1 x used pos remaining b)
  show ?case
  proof (cases "remaining = 0")
    case True
    with "1.prems"(1) show ?thesis by (simp add: overwrite_pass.simps)
  next
    case False
    let ?n = "min CHUNK remaining"
    let ?b = "take pos b @ map (noise x) [used..<used + ?n] @ drop (pos + ?n) b"
    have k: "min ?n (accepts x pos ?n) = ?n" using "1.prems"(2) [of ?n pos] by simp
    have len: "pos + ?n + (remaining - ?n) = length ?b" using "1.prems"(1) by simp
    have "overwrite_pass x used pos remaining b = overwrite_pass x (used + ?n) (pos + ?n) (remaining - ?n) ?b"
      using False k by (subst overwrite_pass.simps) (simp only: Let_def if_False)
    also have "\<dots> = take (pos + ?n) ?b @ map (noise x) [used + ?n..<used + ?n + (remaining - ?n)]"
      using "1.IH" [OF False refl refl, unfolded k, OF len "1.prems"(2)] .
    also have "\<dots> = take pos b @ map (noise x) ([used..<used + ?n] @ [used + ?n..<used + ?n + (remaining - ?n)])"
      using "1.prems"(1) by simp
    also have "[used..<used + ?n] @ [used + ?n..<used + ?n + (remaining - ?n)] = [used..<used + remaining]"
      using upt_add_eq_append [of used "used + ?n" "remaining - ?n"] by simp
    finally show ?thesis .
  qed
qed

lemma overwritten_full:
  assumes "\<And>pos n. n \<le> accepts x pos n"
  shows "overwritten x passes b = map (noise x) [(max 1 passes - 1) * length b..<max 1 passes * length b]"
proof -
  have one: "overwrite_pass x (i * length b) 0 (length b) c = map (noise x) [i * length b..<Suc i * length b]"
    if "length c = length b" for i and c :: "byte list"
    using overwrite_pass_full [where x = x and pos = 0 and remaining = "length b" and b = c, OF assms] that
    by (simp add: add.commute)
  have "fold (\<lambda>i. overwrite_pass x (i * length b) 0 (length b)) [0..<Suc m] b
      = map (noise x) [m * length b..<Suc m * length b]" for m
  proof (induction m)
    case 0
    then show ?case using one [of b 0] by simp
  next
    case (Suc m)
    have "fold (\<lambda>i. overwrite_pass x (i * length b) 0 (length b)) ([0..<Suc m] @ [Suc m]) b
        = overwrite_pass x (Suc m * length b) 0 (length b) (map (noise x) [m * length b..<Suc m * length b])"
      by (simp only: fold_append fold_simps o_apply Suc)
    also have "\<dots> = map (noise x) [Suc m * length b..<Suc (Suc m) * length b]" by (rule one) simp
    finally show ?case by (simp del: mult_Suc)
  qed
  moreover obtain m where "max 1 passes = Suc m" by (cases "max 1 passes") auto
  ultimately show ?thesis by (simp add: overwritten_def)
qed

text \<open>C32: When the system accepts every write in full, a file that is erased held nothing of its old contents
  when it was truncated: each of its bytes had been replaced by a random byte of the last pass, the reported
  size is the file's, and the file is gone.\<close>

theorem every_byte_overwritten:
  assumes "\<And>pos n. n \<le> accepts x pos n"
    and "contents_at d (real_place d s) = Some b" "\<not> is_link d s"
    and "overwrite_file x passes s d = (Some n, wiped, d')"
  shows "n = length b \<and> contents_at d' (real_place d s) = None \<and>
    wiped = [(real_place d s, map (noise x) [(max 1 passes - 1) * length b..<max 1 passes * length b])]"
proof -
  have q: "node_at d (real_place d s) = Some (Plain b)" using assms(2) by (simp add: contents_Some)
  then have r: "real_place d s \<noteq> []" by (auto simp: node_at_def)
  show ?thesis
    using assms(4) real_is_place [OF assms(3), symmetric] r
    by (auto simp: overwrite_file_def q Let_def overwritten_full [OF assms(1)] contents_at_def node_at_drop
        split: if_splits)
qed

text \<open>The code does not look at how much a write accepted, and an unbuffered write may accept less: a system that
  accepts nothing keeps every byte until the truncation, and the pass counts as done.\<close>

lemma short_writes_keep_bytes:
  assumes "\<And>pos n. accepts x pos n = 0"
  shows "overwrite_pass x used 0 remaining b = b"
  using assms
proof (induction remaining arbitrary: used rule: less_induct)
  case (less remaining)
  show ?case
  proof (cases "remaining = 0")
    case False
    then have "remaining - min CHUNK remaining < remaining" by (simp add: CHUNK_def)
    from less.IH [OF this less.prems] False less.prems show ?thesis
      by (subst overwrite_pass.simps) (simp add: Let_def)
  qed (simp add: overwrite_pass.simps)
qed

section \<open>What counts as the user's\<close>

text \<open>A path below a directory that \<open>os.walk\<close> reaches, and whether the template made what it leads through.\<close>

definition in_tree :: "disk \<Rightarrow> place \<Rightarrow> place \<Rightarrow> bool" where
  "in_tree d q r \<longleftrightarrow> r \<noteq> [] \<and> last r \<in> set (other_entries d (q @ butlast r)) \<and>
     (\<forall>i<length r - 1. r ! i \<in> set (subfolders d (q @ take i r)))"

lemma derived_first: "is_derived (n # ms) \<longleftrightarrow> is_derived [n] \<and> (ms = [] \<or> List.member DERIVED_UNDER_MODEL n)"
  by (auto simp: is_derived_def)

lemma enters_iff:
  "enters d (\<lambda>rel. \<not> is_derived rel) q rel ms \<longleftrightarrow>
     (\<forall>i<length ms. ms ! i \<in> set (subfolders d (q @ take i ms))) \<and>
     (\<forall>i<length ms. \<not> is_derived (rel @ take (Suc i) ms))"
proof (induction ms arbitrary: q rel)
  case (Cons n ms)
  then show ?case by (simp add: All_less_Suc2) blast
qed simp

lemma not_derived_path:
  assumes "ms \<noteq> []" "\<not> is_derived [hd ms]"
  shows "\<not> is_derived ms"
proof (cases ms)
  case (Cons n rest)
  with assms show ?thesis using derived_first [of n rest] by simp
qed (use assms in simp)

lemma derived_prefixes:
  assumes "r \<noteq> []"
  shows "(\<forall>i<length r - 1. \<not> is_derived (take (Suc i) r)) \<and> \<not> is_derived r \<longleftrightarrow> \<not> is_derived [hd r]"
proof
  assume l: "(\<forall>i<length r - 1. \<not> is_derived (take (Suc i) r)) \<and> \<not> is_derived r"
  show "\<not> is_derived [hd r]"
  proof (cases "length r = 1")
    case True
    with assms l show ?thesis by (cases r) auto
  next
    case False
    moreover from assms obtain n rest where "r = n # rest" by (cases r) auto
    ultimately have "0 < length r - 1" "take (Suc 0) r = [hd r]" by simp_all
    with l show ?thesis by metis
  qed
next
  assume h: "\<not> is_derived [hd r]"
  have "\<not> is_derived (take (Suc i) r)" for i
  proof (cases r)
    case (Cons n rest)
    with h show ?thesis using derived_first [of n "take i rest"] by simp
  qed (use assms in simp)
  then show "(\<forall>i<length r - 1. \<not> is_derived (take (Suc i) r)) \<and> \<not> is_derived r"
    using not_derived_path [OF assms h] by simp
qed

lemma walked_files:
  "(\<exists>rel names. (rel, names) \<in> set (walk d (\<lambda>rel. \<not> is_derived rel) q []) \<and> n \<in> set names \<and> r = rel @ [n] \<and> \<not> is_derived r)
     \<longleftrightarrow> in_tree d q r \<and> \<not> is_derived [hd r] \<and> n = last r"
proof (cases "r = []")
  case False
  have "(\<exists>rel names. (rel, names) \<in> set (walk d (\<lambda>rel. \<not> is_derived rel) q []) \<and> n \<in> set names \<and> r = rel @ [n] \<and> \<not> is_derived r)
     \<longleftrightarrow> last r \<in> set (other_entries d (q @ butlast r)) \<and> enters d (\<lambda>rel. \<not> is_derived rel) q [] (butlast r) \<and>
       n = last r \<and> \<not> is_derived r"
    using False by (auto simp: walk_iff)
  also have "enters d (\<lambda>rel. \<not> is_derived rel) q [] (butlast r) \<longleftrightarrow>
      (\<forall>i<length r - 1. r ! i \<in> set (subfolders d (q @ take i r))) \<and> (\<forall>i<length r - 1. \<not> is_derived (take (Suc i) r))"
    by (auto simp: enters_iff nth_butlast take_butlast)
  finally show ?thesis using False derived_prefixes [OF False] by (auto simp: in_tree_def)
qed (simp add: in_tree_def)

lemma model_files_iff:
  "(s, n) \<in> set (model_files d model) \<longleftrightarrow>
   (\<exists>r. in_tree d (real_place d model) r \<and> \<not> is_derived [hd r] \<and> \<not> in_manifest d model r \<and>
      s = below model r \<and> size_of d s = Some n)"
proof -
  let ?w = "set (walk d (\<lambda>rel. \<not> is_derived rel) (real_place d model) [])"
  have "(s, n) \<in> set (model_files d model) \<longleftrightarrow>
      (\<exists>rel names m. (rel, names) \<in> ?w \<and> m \<in> set names \<and> \<not> is_derived (rel @ [m]) \<and> \<not> in_manifest d model (rel @ [m])
         \<and> s = below model (rel @ [m]) \<and> size_of d s = Some n)"
    by (auto simp: model_files_def set_map_filter Let_def split: if_splits)
  also have "\<dots> \<longleftrightarrow> (\<exists>r m. (\<exists>rel names. (rel, names) \<in> ?w \<and> m \<in> set names \<and> r = rel @ [m] \<and> \<not> is_derived r) \<and>
      \<not> in_manifest d model r \<and> s = below model r \<and> size_of d s = Some n)" by blast
  finally show ?thesis unfolding walked_files by blast
qed


section \<open>The links of the user\<close>

text \<open>A link under the model directory that is met first hides the file it leads to: only the link is planned,
  and the file stays.\<close>

lemma linked_file_hidden:
  assumes "realpath d (t_path u) = realpath d (t_path t)"
  shows "add_user_file d u (add_user_file d t acc) = add_user_file d t acc"
  using assms by (cases acc) (auto simp: add_user_file_def)

section \<open>Memory\<close>

lemma fill_ram_bounds:
  assumes "w \<le> max b w"
  shows "w \<le> fill_ram g b i w" "fill_ram g b i w \<le> max b w"
  using assms
proof (induction g b i w rule: fill_ram.induct)
  case (1 g b i w)
  have R: "0 < RAM_BLOCK" by (simp add: RAM_BLOCK_def)
  {
    case 1
    show ?case using "1.IH"(1) R by (subst fill_ram.simps) auto
  next
    case 2
    show ?case using "1.IH"(2) R by (subst fill_ram.simps) auto
  }
qed

lemma fill_ram_all: "b - fill_ram (\<lambda>_. True) b i w < RAM_BLOCK"
proof (induction "\<lambda>_::nat. True" b i w rule: fill_ram.induct)
  case (1 b i w)
  then show ?case by (subst fill_ram.simps) auto
qed

lemma erase_ram_within: "erase_ram dry avail g granted \<le> max 0 (ram_budget avail g)"
  using fill_ram_bounds(2) [of 0 "ram_budget avail g" granted 0] by (auto simp: erase_ram_def Let_def)

text \<open>The free memory that is left on a device is at most a block, unless an allocation failed, and never is more
  claimed than there is.\<close>

lemma fill_vram_bound: "w \<le> max free 0 \<Longrightarrow> fill_vram g free i w \<le> max free 0"
proof (induction g free i w rule: fill_vram.induct)
  case (1 g free i w)
  then show ?case by (subst fill_vram.simps) auto
qed

lemma fill_vram_all: "free - fill_vram (\<lambda>_. True) free i w \<le> VRAM_BLOCK"
proof (induction "\<lambda>_::nat. True" free i w rule: fill_vram.induct)
  case (1 free i w)
  then show ?case by (subst fill_vram.simps) auto
qed

section \<open>A small disk\<close>

definition sandbox_env :: env where
  "sandbox_env = map_of [(''MODEL_DIR'', ''/s/m''), (''ERASE_WORKSPACE'', ''/s/w''), (''ERASE_HOME'', ''/s/h''),
     (''ERASE_TMP'', ''/s/t''), (''ERASE_VARLOG'', ''/s/v''), (''GLM_STATE_DIR'', ''/s/c''),
     (''GLM_RUNTIME_DIR'', ''/s/t/rt''), (''STATUS_FILE'', ''/s/t/st''), (''ERASE_EXTRA_ROOTS'', []),
     (''ERASE_ETC_SSH'', ''/s/e'')]"

definition fenced_env :: env where
  "fenced_env = sandbox_env(''ERASE_CONFINE_TO'' \<mapsto> ''/s/t'')"

definition sandbox :: disk where
  "sandbox = \<lparr>cwd = [], nodes =
     [([''s''], Folder), ([''s'', ''m''], Folder), ([''s'', ''c''], Folder), ([''s'', ''t''], Folder),
      ([''s'', ''t'', ''rt''], Folder),
      ([''s'', ''c'', ''.vllm-api-key''], Plain [1, 2, 3]),
      ([''s'', ''t'', ''rt'', ''terminate-switches.json''], Plain [4]),
      ([''s'', ''t'', ''rt'', ''resolved.json''], Plain [5]),
      ([''s'', ''m'', ''a.txt''], Link [''s'', ''m'', ''notes.txt'']),
      ([''s'', ''m'', ''notes.txt''], Plain [6, 7])],
     unreadable = []\<rparr>"

definition calm_io :: io where
  "calm_io = \<lparr>opens = \<lambda>_. True, accepts = \<lambda>_ n. n, noise = \<lambda>_. 255, hidden_name = \<lambda>q. CHR ''~'' # last q,
     renames = \<lambda>_. True, unlinks = \<lambda>_. True, rmdirs = \<lambda>_. True\<rparr>"

lemma sandbox_sound: "rooted sandbox" "names_ok sandbox"
  by code_simp+

lemma sandbox_places:
  "real_place sandbox ''/s/t/rt/terminate-switches.json'' = [''s'', ''t'', ''rt'', ''terminate-switches.json'']"
  "real_place sandbox ''/s/c/.vllm-api-key'' = [''s'', ''c'', ''.vllm-api-key'']"
  "real_place sandbox ''/s/t'' = [''s'', ''t'']" "real_place sandbox ''/s/m'' = [''s'', ''m'']"
  "realpath sandbox ''/s/c/.vllm-api-key'' = ''/s/c/.vllm-api-key''"
  by code_simp+

lemma sandbox_kinds: "is_file sandbox ''/s/c/.vllm-api-key''" "\<not> is_link sandbox ''/s/c/.vllm-api-key''" "is_dir sandbox ''/s/m''"
  by code_simp+

lemma sandbox_contents:
  "contents_at sandbox [''s'', ''t'', ''rt'', ''terminate-switches.json''] = Some [4]"
  "contents_at sandbox [''s'', ''c'', ''.vllm-api-key''] = Some [1, 2, 3]"
  by code_simp+

lemma calm_fresh: "fresh_names calm_io sandbox"
proof -
  have "\<forall>(k, _)\<in>set (nodes sandbox). hd (last k) \<noteq> CHR ''~''" by (simp add: sandbox_def)
  then have "map_of (nodes sandbox) (butlast q @ [CHR ''~'' # last q]) = None" for q
    by (fastforce simp: map_of_eq_None_iff)
  then show ?thesis by (auto simp: fresh_names_def calm_io_def node_at_def)
qed

lemma calm_never_fails:
  assumes "\<And>q. opens x q" "\<And>q. unlinks x q"
  shows "ea_failed (erase x dry ar p d) = []"
proof -
  have "ea_failed (erase_target x dry t a) = ea_failed a" for t a
    using assms
    by (auto simp: erase_target_def overwrite_file_def is_file_iff Let_def split: prod.splits option.splits if_splits)
  then have "ea_failed (fold (erase_target x dry) ts a) = ea_failed a" for ts a
    by (induction ts arbitrary: a) auto
  then show ?thesis by (simp add: erase_parts start_of_def)
qed

text \<open>Every property applies to this disk.\<close>

lemma sandbox_env_at:
  "getenv sandbox_env ''MODEL_DIR'' x = ''/s/m''" "getenv sandbox_env ''ERASE_WORKSPACE'' x = ''/s/w''"
  "getenv sandbox_env ''ERASE_HOME'' x = ''/s/h''" "getenv sandbox_env ''ERASE_TMP'' x = ''/s/t''"
  "getenv sandbox_env ''ERASE_VARLOG'' x = ''/s/v''" "env_get sandbox_env ''GLM_STATE_DIR'' = ''/s/c''"
  "getenv sandbox_env ''GLM_RUNTIME_DIR'' x = ''/s/t/rt''" "getenv sandbox_env ''STATUS_FILE'' x = ''/s/t/st''"
  "getenv sandbox_env ''ERASE_EXTRA_ROOTS'' x = []" "getenv sandbox_env ''ERASE_ETC_SSH'' x = ''/s/e''"
  "getenv sandbox_env ''ERASE_CONFINE_TO'' x = x"
  by (simp_all add: getenv_def env_get_def sandbox_env_def)

lemma fenced_env_at:
  "n \<noteq> ''ERASE_CONFINE_TO'' \<Longrightarrow> getenv fenced_env n x = getenv sandbox_env n x"
  "n \<noteq> ''ERASE_CONFINE_TO'' \<Longrightarrow> env_get fenced_env n = env_get sandbox_env n"
  "getenv fenced_env ''ERASE_CONFINE_TO'' x = ''/s/t''"
  by (simp_all add: getenv_def env_get_def fenced_env_def)

lemma sandbox_joins:
  "beside_model ''/s/m'' ''.vllm-api-key'' = ''/s/.vllm-api-key''" "path_join ''/s/c'' ''.vllm-api-key'' = ''/s/c/.vllm-api-key''"
  by code_simp+

lemma sandbox_roots_are:
  "roots_of sandbox sandbox_env = \<lparr>r_model_dir = ''/s/m'', r_workspace = ''/s/w'', r_home = ''/s/h'', r_tmp = ''/s/t'',
     r_var_log = ''/s/v'', r_state_dir = ''/s/c'', r_runtime_dir = ''/s/t/rt'', r_status_file = ''/s/t/st'',
     r_keyfile = ''/s/c/.vllm-api-key'', r_legacy_keyfile = ''/s/.vllm-api-key'', r_extra_roots = [], r_etc_ssh = ''/s/e'',
     r_confine_to = []\<rparr>"
  by (simp add: roots_of_def sandbox_env_at sandbox_joins Let_def)

lemma fenced_roots_are: "roots_of sandbox fenced_env = (roots_of sandbox sandbox_env)\<lparr>r_confine_to := ''/s/t''\<rparr>"
  by (simp add: roots_of_def fenced_env_at sandbox_env_at(11) Let_def)

lemma no_cache_env: "env_get sandbox_env n = []" if "take 2 n \<in> {''HF'', ''HU'', ''TR'', ''XD''}"
proof -
  have "n \<notin> {''MODEL_DIR'', ''ERASE_WORKSPACE'', ''ERASE_HOME'', ''ERASE_TMP'', ''ERASE_VARLOG'', ''GLM_STATE_DIR'',
      ''GLM_RUNTIME_DIR'', ''STATUS_FILE'', ''ERASE_EXTRA_ROOTS'', ''ERASE_ETC_SSH''}" using that by auto
  then show ?thesis by (simp add: env_get_def sandbox_env_def)
qed

lemma sandbox_roots:
  "plain_roots sandbox_env (roots_of sandbox sandbox_env)" "r_confine_to (roots_of sandbox sandbox_env) = []"
  "r_keyfile (roots_of sandbox sandbox_env) = ''/s/c/.vllm-api-key''"
  by (simp_all add: plain_roots_def sandbox_roots_are no_cache_env plain_path_def)

lemma fenced_roots:
  "plain_roots fenced_env (roots_of sandbox fenced_env)" "r_confine_to (roots_of sandbox fenced_env) = ''/s/t''"
  using sandbox_roots(1) by (simp_all add: plain_roots_def fenced_roots_are fenced_env_at)

lemma sandbox_plans: "\<exists>p. plan sandbox e keep = Some p"
  by (rule plan_exists) (simp add: sandbox_def)

lemma kept_file_survives_instance:
  "\<exists>p. plan sandbox sandbox_env (worker_keep ''/s/t/rt'') = Some p \<and>
     contents_at (ea_disk (erase calm_io False id p sandbox)) [''s'', ''t'', ''rt'', ''terminate-switches.json''] = Some [4]"
proof -
  let ?k = "''/s/t/rt/terminate-switches.json''"
  have k: "?k \<in> set (worker_keep ''/s/t/rt'')" "?k \<noteq> []"
    by (simp_all add: worker_keep_def path_join_def starts_with_def)
  obtain p where p: "plan sandbox sandbox_env (worker_keep ''/s/t/rt'') = Some p" using sandbox_plans by blast
  have "hidden_name calm_io q \<noteq> last (real_place sandbox ?k)" for q by (simp add: calm_io_def sandbox_places)
  from kept_file_survives [OF p k sandbox_sound calm_fresh sandbox_roots(1) this]
  show ?thesis using p by (auto simp: sandbox_places sandbox_contents)
qed

theorem erase_stays_in_fence_witness:
  "\<exists>p. plan sandbox fenced_env [] = Some p \<and>
     contents_at (ea_disk (erase calm_io False id p sandbox)) [''s'', ''c'', ''.vllm-api-key''] = Some [1, 2, 3]"
proof -
  obtain p where p: "plan sandbox fenced_env [] = Some p" using sandbox_plans by blast
  have "r_confine_to (roots_of sandbox fenced_env) \<noteq> []"
    "\<not> prefix (real_place sandbox (r_confine_to (roots_of sandbox fenced_env))) [''s'', ''c'', ''.vllm-api-key'']"
    by (simp_all add: fenced_roots sandbox_places)
  from erase_stays_in_fence [OF p this(1) sandbox_sound calm_fresh fenced_roots(1) sandbox_contents(2) this(2)]
  show ?thesis using p by blast
qed

lemma no_file_planned_twice_instance:
  "\<exists>p. plan sandbox sandbox_env [] = Some p \<and>
     distinct (map (realpath sandbox \<circ> t_path) (filter (\<lambda>t. \<not> is_link sandbox (t_path t)) (ep_targets p)))"
  using sandbox_plans [of sandbox_env "[]"] no_file_planned_twice by blast


theorem every_byte_overwritten_witness:
  "\<exists>d'. overwrite_file calm_io 1 ''/s/c/.vllm-api-key'' sandbox
      = (Some 3, [([''s'', ''c'', ''.vllm-api-key''], [255, 255, 255])], d') \<and>
    contents_at d' [''s'', ''c'', ''.vllm-api-key''] = None"
proof -
  let ?k = "''/s/c/.vllm-api-key''"
  have c: "contents_at sandbox (real_place sandbox ?k) = Some [1, 2, 3]" by (simp add: sandbox_places sandbox_contents)
  obtain n w d' where o: "overwrite_file calm_io 1 ?k sandbox = (Some n, w, d')"
    using c real_is_place [OF sandbox_kinds(2)]
    by (auto simp: overwrite_file_def contents_Some Let_def calm_io_def)
  have "n' \<le> accepts calm_io pos n'" for pos n' by (simp add: calm_io_def)
  from every_byte_overwritten [OF this c sandbox_kinds(2) o] o
  show ?thesis by (simp add: sandbox_places calm_io_def upt_rec)
qed


end
