(* ===== verification/EraseWorker.thy ===== *)
theory EraseWorker
  imports TerminateTheorems SecureEraseTheorems
begin

text \<open>
  The erase inside a run of the termination worker: the switch file that the worker reads again before the
  destructive call is the one that was on the disk before the erase.
\<close>

section \<open>A path without links\<close>

lemma split_slashed: "place_ok q \<Longrightarrow> q \<noteq> [] \<Longrightarrow> split_on (CHR ''/'') (slashed q) = [] # q"
proof (induction q)
  case (Cons n q)
  then have n: "CHR ''/'' \<notin> set n" by (simp add: name_ok_def)
  show ?case
  proof (cases q)
    case Nil
    then show ?thesis using split_name [OF n] by simp
  next
    case (Cons m r)
    with Cons.IH Cons.prems have "split_on (CHR ''/'') (slashed q) = [] # q" by simp
    then have "split_on (CHR ''/'') (m @ slashed r) = q" using Cons by simp
    then show ?thesis using Cons split_append [of "CHR ''/''" n "m @ slashed r"] split_name [OF n] by simp
  qed
qed simp

definition linkless :: "disk \<Rightarrow> place \<Rightarrow> bool" where
  "linkless d q = list_all (\<lambda>i. case node_at d (take i q) of Some (Link _) \<Rightarrow> False | _ \<Rightarrow> True) [0..<Suc (length q)]"

lemma linkless_iff: "linkless d q \<longleftrightarrow> (\<forall>p t. prefix p q \<longrightarrow> node_at d p \<noteq> Some (Link t))"
proof -
  have "linkless d q \<longleftrightarrow> (\<forall>i\<le>length q. \<forall>t. node_at d (take i q) \<noteq> Some (Link t))"
    by (auto simp: linkless_def list_all_iff less_Suc_eq_le split: option.splits node.splits)
  also have "\<dots> \<longleftrightarrow> (\<forall>p t. prefix p q \<longrightarrow> node_at d p \<noteq> Some (Link t))"
  proof (intro iffI allI impI)
    fix p t
    assume all: "\<forall>i\<le>length q. \<forall>t. node_at d (take i q) \<noteq> Some (Link t)" and "prefix p q"
    then have "take (length p) q = p" "length p \<le> length q" by (auto simp: prefix_def)
    with all show "node_at d p \<noteq> Some (Link t)" by metis
  next
    fix i t
    assume "\<forall>p t. prefix p q \<longrightarrow> node_at d p \<noteq> Some (Link t)"
    then show "node_at d (take i q) \<noteq> Some (Link t)" using take_is_prefix by metis
  qed
  finally show ?thesis .
qed

lemma direct_path:
  assumes "place_ok q" "q \<noteq> []" "linkless d q"
  shows "real_place d (path_text q) = q"
proof -
  have "resolve_from d [] p = p" if "prefix p q" for p
    using that
  proof (induction p rule: rev_induct)
    case (snoc n p)
    then have p: "resolve_from d [] p = p" by (meson append_prefixD)
    obtain z where "q = (p @ [n]) @ z" using snoc.prems by (auto simp: prefix_def)
    with assms(1) have n: "name_ok n" by simp
    have "node_at d (p @ [n]) \<noteq> Some (Link t)" for t using assms(3) snoc.prems by (simp add: linkless_iff)
    with p n show ?case by (auto simp: name_ok_def split: option.splits node.splits)
  qed simp
  then have "resolve_from d [] q = q" by simp
  then show ?thesis
    using assms split_slashed [OF assms(1,2)]
    by (simp add: real_place_def path_text_slashed path_start_def starts_with_def resolve_from_def)
       (cases q; simp)
qed

lemma linkless_shrinks: "shrinks T d d' \<Longrightarrow> linkless d q \<Longrightarrow> linkless d' q"
  using shrinks_node [of T d d'] by (auto simp: linkless_iff)

section \<open>The switch file\<close>

definition switch_path :: "string \<Rightarrow> string" where
  "switch_path rt = path_join rt ''terminate-switches.json''"

text \<open>\<open>read_json\<close> of the switch file, with the parser of its contents as a parameter.\<close>

definition switches_on :: "(byte list \<Rightarrow> (string \<times> pyval) list option) \<Rightarrow> disk \<Rightarrow> string \<Rightarrow> switch_file" where
  "switches_on parse d rt = Option.bind (contents_at d (real_place d (switch_path rt))) parse"

lemma erase_keeps_switches:
  assumes "plan d e (worker_keep rt) = Some p"
    and "rooted d" "names_ok d" "fresh_names x d" "plain_roots e (roots_of d e)"
    and "switch_path rt = path_text q" "place_ok q" "q \<noteq> []" "linkless d q"
    and "\<And>r. hidden_name x r \<noteq> last q"
  shows "switches_on parse (ea_disk (erase x dry ar p d)) rt = switches_on parse d rt"
proof -
  let ?d = "ea_disk (erase x dry ar p d)"
  have real: "real_place d (switch_path rt) = q" by (simp add: assms(6) direct_path [OF assms(7-9)])
  have sh: "shrinks (temps x) d ?d"
    using erase_eroded [OF assms(2,4) plan_plain [OF assms(1,3,5)]] by (rule erodedD)
  then have "real_place ?d (switch_path rt) = q"
    by (simp add: assms(6) direct_path [OF assms(7,8) linkless_shrinks [OF sh assms(9)]])
  moreover have "switch_path rt \<in> set (worker_keep rt)" by (simp add: worker_keep_def switch_path_def)
  moreover have "switch_path rt \<noteq> []" by (simp add: assms(6))
  ultimately show ?thesis
    using kept_file_survives [OF assms(1) _ _ assms(2-5), where k = "switch_path rt" and dry = dry and ar = ar] assms(10)
    by (simp add: switches_on_def real)
qed

text \<open>C3: A lock that lies on the disk before the erase still stops the worker after it. The erase, planned with
  what the worker keeps and however it goes, leaves the switch file as it was, so the second look at the
  switches refuses: no service of the provider is touched and the run is reported as failed.\<close>

theorem lock_on_disk_wins:
  assumes "plan d e' (worker_keep rt) = Some q"
    and "rooted d" "names_ok d" "fresh_names x d" "plain_roots e' (roots_of d e')"
    and "switch_path rt = path_text sw" "place_ok sw" "sw \<noteq> []" "linkless d sw" "\<And>r. hidden_name x r \<noteq> last sw"
    and "\<not> may_terminate e (switches_on parse d rt)"
    and "run_worker net run cli p e f (switches_on parse (ea_disk (erase x dry ar q d)) rt) s opts w = Some (Finished w')"
  shows "world (wlink w') = world (wlink w) \<and> pr_ok (prog w') = Some False"
proof -
  have shut: "\<not> may_terminate e (switches_on parse (ea_disk (erase x dry ar q d)) rt)"
    using assms(11) by (simp add: erase_keeps_switches [OF assms(1-10)])
  show ?thesis
    using assms(12)
  proof (cases rule: run_cases)
    case (through w1)
    then show ?thesis by (simp add: after_stop_refused [OF shut])
  qed auto
qed

definition parse_lock :: "byte list \<Rightarrow> (string \<times> pyval) list option" where
  "parse_lock b = (if b = [4] then Some [(''enabled'', VBool True), (''locked'', VBool True)] else None)"

theorem lock_on_disk_wins_witness:
  "\<exists>q w'. plan sandbox sandbox_env (worker_keep ''/s/t/rt'') = Some q \<and>
     run_worker (answers 200) no_cli None VastAI open_env None
       (switches_on parse_lock (ea_disk (erase calm_io False id q sandbox)) ''/s/t/rt'') calm_site typed_options idle_worker
       = Some (Finished w') \<and> world (wlink w') = 0"
proof -
  let ?q = "[''s'', ''t'', ''rt'', ''terminate-switches.json'']"
  obtain q where q: "plan sandbox sandbox_env (worker_keep ''/s/t/rt'') = Some q" using sandbox_plans by blast
  have sw: "switch_path ''/s/t/rt'' = path_text ?q" "place_ok ?q" "?q \<noteq> []" "linkless sandbox ?q"
    by code_simp+
  have "hidden_name calm_io r \<noteq> last ?q" for r by (simp add: calm_io_def)
  moreover have "\<not> may_terminate open_env (switches_on parse_lock sandbox ''/s/t/rt'')"
    using direct_path [OF sw(2-4)] sandbox_contents(1)
    by (simp add: switches_on_def sw(1) parse_lock_def may_terminate_iff read_switches_def truthy_def)
  ultimately show ?thesis
    using lock_on_disk_wins [OF q sandbox_sound calm_fresh sandbox_roots(1) sw _ _ calm_run, where dry = False and ar = id]
      q calm_run by (fastforce simp: idle_worker_def fresh_link_def)
qed

end
