(* ===== verification/TokenScanner.thy ===== *)
theory TokenScanner
  imports PyText
begin

text \<open>
  The scanner of special token ids (\<^verbatim>\<open>token_id_scanner.py\<close>): a delta's ids are looked up, the special
  ones become terminals, and the text of the delta is divided among the pieces between them. Terminals
  whose text has not arrived wait, together with the text that came after the last settled piece.
\<close>

section \<open>Data\<close>

definition DROP_TERMINAL :: string where
  "DROP_TERMINAL = ''__DROP__''"

text \<open>\<open>PreLexedTerminal\<close> and \<open>TextChunk\<close>.\<close>

record prelexed =
  pt_terminal :: string
  pt_token_id :: int
  pt_text :: string

datatype lexer_input = TextChunk string | PreLexed prelexed

text \<open>
  The scanner: the ids it looks for, the tokenizer's \<open>decode\<close> of one id, and the two fields that
  change. The cache of decoded texts is left out: \<open>decode\<close> is a function of the id.
\<close>

record scanner =
  token_id_to_terminal :: "(int \<times> string) list"
  decode_token :: "int \<Rightarrow> string"
  deferred_terminals :: "prelexed list"
  deferred_post_text :: string

definition scanner_reset :: "scanner \<Rightarrow> scanner" where
  "scanner_reset s = s\<lparr>deferred_terminals := [], deferred_post_text := []\<rparr>"

section \<open>Searching text\<close>

text \<open>\<open>str.find\<close> and \<open>str.rfind(x, 0, end)\<close>, with \<open>None\<close> for -1.\<close>

fun py_find :: "string \<Rightarrow> string \<Rightarrow> nat option" where
  "py_find s x = (if starts_with x s then Some 0
     else (case s of [] \<Rightarrow> None | _ # cs \<Rightarrow> map_option Suc (py_find cs x)))"

definition py_rfind :: "string \<Rightarrow> string \<Rightarrow> nat \<Rightarrow> nat option" where
  "py_rfind s x end = find (\<lambda>i. i + length x \<le> end \<and> starts_with x (drop i s)) (rev [0..<Suc (min end (length s))])"

definition text_ends_with :: "string \<Rightarrow> string \<Rightarrow> bool" where
  "text_ends_with x s = (length x \<le> length s \<and> drop (length s - length x) s = x)"

section \<open>Deferred terminals\<close>

text \<open>
  \<open>_resolve_deferred\<close>: one round of the loop, on the items so far, the remaining text, the terminals
  that stay and the text that waits with them.
\<close>

type_synonym resolving = "lexer_input list \<times> string \<times> prelexed list \<times> string"

fun resolve_round :: "prelexed \<Rightarrow> resolving \<Rightarrow> resolving" where
  "resolve_round terminal (results, remaining, stay, post) =
     (case py_find remaining (pt_text terminal) of
        Some pos \<Rightarrow>
          (if 0 < pos
           then (results @ [TextChunk (take pos remaining), PreLexed terminal],
                 drop (pos + length (pt_text terminal)) remaining, stay, post)
           else (results @ [PreLexed terminal], drop (length (pt_text terminal)) remaining, stay, post))
      | None \<Rightarrow>
          (if remaining \<noteq> [] then (results, [], stay @ [terminal], post @ remaining)
           else (results, remaining, stay @ [terminal], post)))"

definition resolve_deferred :: "string \<Rightarrow> scanner \<Rightarrow> (lexer_input list \<times> string) \<times> scanner" where
  "resolve_deferred delta_text s =
     (let remaining = (if deferred_post_text s \<noteq> [] then deferred_post_text s @ delta_text else delta_text);
          (results, rest, stay, post) = fold resolve_round (deferred_terminals s) ([], remaining, [], []) in
      ((results, rest), s\<lparr>deferred_terminals := stay, deferred_post_text := post\<rparr>))"

definition flush_pending :: "scanner \<Rightarrow> lexer_input list \<times> scanner" where
  "flush_pending s =
     (if deferred_terminals s = [] \<and> deferred_post_text s = [] then ([], s)
      else ((if deferred_post_text s \<noteq> [] then [TextChunk (deferred_post_text s)] else [])
              @ map PreLexed (deferred_terminals s),
            s\<lparr>deferred_terminals := [], deferred_post_text := []\<rparr>))"

section \<open>The ids of a delta\<close>

text \<open>
  The loop over the ids: ordinary ids collect their text, a special id ends the run. \<open>text_run\<close> is the
  emission of the collected text.
\<close>

definition text_run :: "string list \<Rightarrow> lexer_input list" where
  "text_run accum = (if accum \<noteq> [] \<and> concat accum \<noteq> [] then [TextChunk (concat accum)] else [])"

fun pre_lex :: "scanner \<Rightarrow> int list \<Rightarrow> string list \<Rightarrow> lexer_input list" where
  "pre_lex s [] accum = text_run accum"
| "pre_lex s (tid # tids) accum =
     (case map_of (token_id_to_terminal s) tid of
        Some terminal \<Rightarrow>
          text_run accum
            @ PreLexed \<lparr>pt_terminal = terminal, pt_token_id = tid, pt_text = decode_token s tid\<rparr>
            # pre_lex s tids []
      | None \<Rightarrow> pre_lex s tids (accum @ [decode_token s tid]))"

definition is_special :: "scanner \<Rightarrow> int \<Rightarrow> bool" where
  "is_special s tid \<longleftrightarrow> map_of (token_id_to_terminal s) tid \<noteq> None"

fun item_text :: "lexer_input \<Rightarrow> string" where
  "item_text (TextChunk t) = t"
| "item_text (PreLexed p) = pt_text p"

definition join_decoded_text :: "lexer_input list \<Rightarrow> string" where
  "join_decoded_text items = concat (map item_text items)"

fun terminals_of :: "lexer_input list \<Rightarrow> prelexed list" where
  "terminals_of [] = []"
| "terminals_of (TextChunk t # items) = terminals_of items"
| "terminals_of (PreLexed p # items) = p # terminals_of items"

section \<open>Text that the ids do not explain\<close>

text \<open>
  \<open>_rebuild_from_anchors\<close>. First the positions, from the last anchor to the first, each at the last
  occurrence before the next one that was found.
\<close>

fun anchor_positions :: "string \<Rightarrow> prelexed list \<Rightarrow> nat option list \<times> nat" where
  "anchor_positions delta_text [] = ([], length delta_text)"
| "anchor_positions delta_text (a # as) =
     (let (positions, search_end) = anchor_positions delta_text as in
      case py_rfind delta_text (pt_text a) search_end of
        Some pos \<Rightarrow> (Some pos # positions, pos)
      | None \<Rightarrow> (None # positions, search_end))"

text \<open>
  Then the items, from left to right: what was consumed so far, the terminals that are deferred and
  the text that waits for them.
\<close>

fun rebuild_loop ::
    "string \<Rightarrow> (prelexed \<times> nat option) list \<Rightarrow> nat \<Rightarrow> scanner \<Rightarrow> (lexer_input list \<times> nat) \<times> scanner" where
  "rebuild_loop delta_text [] consumed s = (([], consumed), s)"
| "rebuild_loop delta_text ((anchor, position) # rest) consumed s =
     (if (case position of Some pos \<Rightarrow> consumed \<le> pos | None \<Rightarrow> False)
      then (let pos = the position;
                ((items, c), s') = rebuild_loop delta_text rest (pos + length (pt_text anchor)) s in
            (((if consumed < pos then [TextChunk (take (pos - consumed) (drop consumed delta_text))] else [])
                @ PreLexed anchor # items, c), s'))
      else (let has_later_valid = list_ex (\<lambda>(_, p). p \<noteq> None) rest;
                waits = \<not> has_later_valid \<and> consumed < length delta_text \<and> pt_terminal anchor \<noteq> DROP_TERMINAL;
                s' = (if waits then s\<lparr>deferred_post_text := deferred_post_text s @ drop consumed delta_text\<rparr> else s);
                consumed' = (if waits then length delta_text else consumed) in
            rebuild_loop delta_text rest consumed'
              (s'\<lparr>deferred_terminals := deferred_terminals s' @ [anchor]\<rparr>)))"

definition rebuild_from_anchors :: "string \<Rightarrow> lexer_input list \<Rightarrow> scanner \<Rightarrow> lexer_input list \<times> scanner" where
  "rebuild_from_anchors delta_text results s =
     (let anchors = terminals_of results in
      if anchors = [] then ([TextChunk delta_text], s)
      else (let ((items, consumed), s') =
                  rebuild_loop delta_text (zip anchors (fst (anchor_positions delta_text anchors))) 0 s in
            (items @ (if consumed < length delta_text then [TextChunk (drop consumed delta_text)] else []), s')))"

text \<open>\<open>_recover_holdback_text\<close>: held-back text comes first, a stripped stop token last.\<close>

fun is_drop :: "lexer_input \<Rightarrow> bool" where
  "is_drop (PreLexed p) = (pt_terminal p = DROP_TERMINAL)"
| "is_drop (TextChunk t) = False"

definition with_holdback :: "string \<Rightarrow> string \<Rightarrow> lexer_input list \<Rightarrow> lexer_input list" where
  "with_holdback delta_text reconstructed results =
     (let holdback = take (length delta_text - length reconstructed) delta_text in
      if holdback \<noteq> [] then TextChunk holdback # results else results)"

definition recover_holdback_text :: "string \<Rightarrow> lexer_input list \<Rightarrow> scanner \<Rightarrow> lexer_input list \<times> scanner" where
  "recover_holdback_text delta_text results s =
     (if results = [] then ([TextChunk delta_text], s)
      else let reconstructed = join_decoded_text results in
      if reconstructed = [] then (TextChunk delta_text # results, s)
      else if text_ends_with reconstructed delta_text then (with_holdback delta_text reconstructed results, s)
      else
        (let trailing_drops = terminals_of (rev (takeWhile is_drop (rev results)));
             retained = rev (dropWhile is_drop (rev results));
             retained_text = join_decoded_text retained in
         if trailing_drops \<noteq> [] \<and> retained_text \<noteq> [] \<and> text_ends_with retained_text delta_text
         then (with_holdback delta_text retained_text retained,
               s\<lparr>deferred_terminals := deferred_terminals s @ trailing_drops\<rparr>)
         else rebuild_from_anchors delta_text results s))"

section \<open>scan\<close>

definition scan :: "string \<Rightarrow> int list \<Rightarrow> scanner \<Rightarrow> lexer_input list \<times> scanner" where
  "scan delta_text delta_token_ids s =
     (let ((prefix_items, effective_text), s1) =
            (if deferred_terminals s \<noteq> [] then resolve_deferred delta_text s else (([], delta_text), s));
          plain = (if effective_text \<noteq> [] then prefix_items @ [TextChunk effective_text] else prefix_items) in
      if token_id_to_terminal s1 = [] then (plain, s1)
      else if \<not> list_ex (is_special s1) delta_token_ids then (plain, s1)
      else
        (let results = pre_lex s1 delta_token_ids [] in
         if effective_text \<noteq> []
         then (let (items, s2) = recover_holdback_text effective_text results s1 in (prefix_items @ items, s2))
         else (prefix_items,
               s1\<lparr>deferred_terminals := deferred_terminals s1 @ terminals_of results\<rparr>)))"

end
