(* ===== verification/Lexer.thy ===== *)
theory Lexer
  imports PyText "HOL-Library.Product_Lexorder"
begin

text \<open>
  The incremental lexer of the streaming parser (\<^verbatim>\<open>incremental_lexer.py\<close>): terminals are literals, the
  text comes in pieces, and text that may still become a terminal is held back. \<open>plain_lex\<close> is the
  lexer that sees the whole text at once. What a call emits is committed: whatever text follows, the
  lexer that knew it beforehand would have emitted the same.
\<close>

section \<open>Terminals and tokens\<close>

text \<open>
  \<open>td_pattern\<close> is the text of the compiled pattern, \<open>regex.escape\<close> of the literal; only its length is used.
\<close>

record terminal_def =
  td_name :: string
  td_pattern :: string
  td_is_literal :: bool
  td_literal :: string

datatype lex_token = LexToken (tok_terminal: string) (tok_value: string)

definition CONTENT_TERMINAL :: string where
  "CONTENT_TERMINAL = ''__CONTENT__''"

definition terminals_from_literals :: "(string \<Rightarrow> string) \<Rightarrow> (string \<times> string) list \<Rightarrow> terminal_def list" where
  "terminals_from_literals esc literals =
     map (\<lambda>(name, lit). \<lparr>td_name = name, td_pattern = esc lit, td_is_literal = True, td_literal = lit\<rparr>) literals"

text \<open>\<open>LexerShape\<close>: what is computed once from the terminals.\<close>

record lexer_shape =
  sh_terminals :: "terminal_def list"
  literal_strings :: "(string \<times> string) list"
  max_literal_len :: nat
  literal_first_chars :: "char set"
  has_only_literals :: bool
  prefix_set :: "string set"
  literals_by_first :: "char \<Rightarrow> (string \<times> string) list"

text \<open>The loop that finds \<open>max_literal_len\<close>.\<close>

definition max_step :: "string \<times> string \<Rightarrow> nat \<Rightarrow> nat" where
  "max_step = (\<lambda>(lit, _) m. if m < length lit then length lit else m)"

definition lexer_shape_of :: "terminal_def list \<Rightarrow> lexer_shape" where
  "lexer_shape_of terminals =
     (let ts = sort_key (\<lambda>t. (\<not> td_is_literal t, - int (length (td_pattern t)))) terminals;
          lits = map (\<lambda>t. (td_literal t, td_name t)) (filter td_is_literal ts) in
      \<lparr>sh_terminals = ts,
       literal_strings = lits,
       max_literal_len = fold max_step lits 0,
       literal_first_chars = set (map (\<lambda>(lit, _). hd lit) (filter (\<lambda>(lit, _). lit \<noteq> []) lits)),
       has_only_literals = list_all td_is_literal terminals,
       prefix_set = set (concat (map (\<lambda>(lit, _). map (\<lambda>i. take i lit) [1..<length lit]) lits)),
       literals_by_first = (\<lambda>c. filter (\<lambda>(lit, _). lit \<noteq> [] \<and> hd lit = c) lits)\<rparr>)"

section \<open>The lexer\<close>

text \<open>The loop over \<open>literals_by_first\<close>: the first of the longest literals the buffer starts with.\<close>

fun best_of :: "string \<Rightarrow> (string \<times> string) list \<Rightarrow> (string \<times> string) option \<Rightarrow> (string \<times> string) option" where
  "best_of buf [] best = best"
| "best_of buf ((lit, name) # lits) best =
     best_of buf lits
       (if starts_with lit buf \<and> (case best of None \<Rightarrow> True | Some (_, b) \<Rightarrow> length b < length lit)
        then Some (name, lit) else best)"

definition best_match :: "lexer_shape \<Rightarrow> string \<Rightarrow> (string \<times> string) option" where
  "best_match sh buf = best_of buf (literals_by_first sh (hd buf)) None"

definition longer_match :: "lexer_shape \<Rightarrow> string \<Rightarrow> string \<Rightarrow> bool" where
  "longer_match sh buf best =
     list_ex (\<lambda>(lit, _). length best < length lit \<and> starts_with buf lit) (literals_by_first sh (hd buf))"

text \<open>Could the text be the start of a literal, or does it start with one?\<close>

definition compatible :: "string \<Rightarrow> string \<Rightarrow> bool" where
  "compatible s lit = (let n = min (length s) (length lit) in take n s = take n lit)"

fun boundary_from :: "lexer_shape \<Rightarrow> string \<Rightarrow> nat" where
  "boundary_from sh [] = 0"
| "boundary_from sh (c # cs) =
     (if c \<in> literal_first_chars sh \<and> list_ex (\<lambda>(lit, _). compatible (c # cs) lit) (literal_strings sh)
      then 0 else Suc (boundary_from sh cs))"

definition find_content_boundary :: "lexer_shape \<Rightarrow> string \<Rightarrow> nat" where
  "find_content_boundary sh buf = Suc (boundary_from sh (tl buf))"

definition emit_token :: "string \<Rightarrow> string \<Rightarrow> lex_token list \<times> string \<Rightarrow> lex_token list \<times> string" where
  "emit_token terminal value r = (LexToken terminal value # fst r, snd r)"

lemma best_of_props:
  "best_of buf lits best = Some (name, lit) \<Longrightarrow> best = Some (name, lit) \<or> (lit, name) \<in> set lits \<and> starts_with lit buf"
  by (induction buf lits best rule: best_of.induct) (auto split: if_splits)

text \<open>
  \<open>_drain\<close>. A literal that matches is not empty, so dropping it from the buffer drops its first
  character and the rest of it from \<open>cs\<close>. The code tests whether the boundary is positive, which it
  always is: the search starts at index 1.
\<close>

function drain :: "lexer_shape \<Rightarrow> bool \<Rightarrow> string \<Rightarrow> lex_token list \<times> string" where
  "drain sh final [] = ([], [])"
| "drain sh final (c # cs) =
     (let buf = c # cs; best = best_match sh buf in
      if has_only_literals sh \<and> literal_first_chars sh \<noteq> {} \<and> list_all (\<lambda>ch. ch \<notin> literal_first_chars sh) buf
      then ([LexToken CONTENT_TERMINAL buf], [])
      else if buf \<in> prefix_set sh \<and> \<not> final
      then (case best of
              None \<Rightarrow> ([], buf)
            | Some (name, lit) \<Rightarrow>
                (if longer_match sh buf lit then ([], buf)
                 else emit_token name lit (drain sh final (drop (length lit - 1) cs))))
      else (case best of
              Some (name, lit) \<Rightarrow> emit_token name lit (drain sh final (drop (length lit - 1) cs))
            | None \<Rightarrow>
                (let e = find_content_boundary sh buf in
                 emit_token CONTENT_TERMINAL (take e buf) (drain sh final (drop e buf)))))"
  by pat_completeness auto
termination
  by (relation "measure (\<lambda>(_, _, buf). length buf)") (auto simp: find_content_boundary_def)

text \<open>\<open>feed\<close> and \<open>flush\<close>: the tokens and the new buffer.\<close>

definition lexer_feed :: "lexer_shape \<Rightarrow> string \<Rightarrow> string \<Rightarrow> lex_token list \<times> string" where
  "lexer_feed sh buf chunk =
     (if buf = [] \<and> has_only_literals sh \<and> literal_first_chars sh \<noteq> {}
         \<and> list_all (\<lambda>ch. ch \<notin> literal_first_chars sh) chunk
      then ([LexToken CONTENT_TERMINAL chunk], buf)
      else drain sh False (buf @ chunk))"

definition lexer_flush :: "lexer_shape \<Rightarrow> string \<Rightarrow> lex_token list \<times> string" where
  "lexer_flush sh buf =
     (let (toks, rest) = (if buf \<noteq> [] then drain sh True buf else ([], buf)) in
      if rest \<noteq> [] then (toks @ [LexToken CONTENT_TERMINAL rest], []) else (toks, rest))"

section \<open>The lexer that sees everything\<close>

text \<open>At every position the longest literal, otherwise one character of content.\<close>

function plain_lex :: "lexer_shape \<Rightarrow> string \<Rightarrow> lex_token list" where
  "plain_lex sh [] = []"
| "plain_lex sh (c # cs) =
     (case best_match sh (c # cs) of
        Some (name, lit) \<Rightarrow> LexToken name lit # plain_lex sh (drop (length lit - 1) cs)
      | None \<Rightarrow> LexToken CONTENT_TERMINAL [c] # plain_lex sh cs)"
  by pat_completeness auto
termination
  by (relation "measure (\<lambda>(_, buf). length buf)") auto

text \<open>How content is cut into tokens does not matter: a token of content stands for its characters.\<close>

definition piece_of :: "lex_token \<Rightarrow> lex_token list" where
  "piece_of t =
     (if tok_terminal t = CONTENT_TERMINAL then map (\<lambda>c. LexToken CONTENT_TERMINAL [c]) (tok_value t) else [t])"

definition pieces :: "lex_token list \<Rightarrow> lex_token list" where
  "pieces ts = concat (map piece_of ts)"

section \<open>What a shape holds\<close>

text \<open>Of the tables only these relations matter; every shape that is built has them.\<close>

definition shape_ok :: "lexer_shape \<Rightarrow> bool" where
  "shape_ok sh \<longleftrightarrow>
     literal_first_chars sh = {hd lit |lit name. (lit, name) \<in> set (literal_strings sh) \<and> lit \<noteq> []}
   \<and> prefix_set sh = {take i lit |i lit name. (lit, name) \<in> set (literal_strings sh) \<and> 0 < i \<and> i < length lit}
   \<and> (\<forall>c. literals_by_first sh c = filter (\<lambda>(lit, _). lit \<noteq> [] \<and> hd lit = c) (literal_strings sh))
   \<and> (\<forall>(lit, name) \<in> set (literal_strings sh). length lit \<le> max_literal_len sh)"

lemma max_step_mono: "m \<le> fold max_step lits m"
proof (induction lits arbitrary: m)
  case (Cons p lits)
  have "m \<le> max_step p m" by (auto simp: max_step_def split: prod.splits)
  then show ?case using Cons.IH [of "max_step p m"] by simp
qed simp

lemma max_step_bound: "(lit, name) \<in> set lits \<Longrightarrow> length lit \<le> fold max_step lits m"
proof (induction lits arbitrary: m)
  case (Cons p lits)
  show ?case
  proof (cases "p = (lit, name)")
    case True
    have "length lit \<le> max_step p m" by (auto simp: max_step_def True)
    then show ?thesis using max_step_mono [of "max_step p m" lits] by simp
  next
    case False
    then show ?thesis using Cons by simp
  qed
qed simp

lemma shape_ok_of [simp]: "shape_ok (lexer_shape_of terminals)"
proof -
  define lits where "lits = literal_strings (lexer_shape_of terminals)"
  have "literal_first_chars (lexer_shape_of terminals) = {hd lit |lit name. (lit, name) \<in> set lits \<and> lit \<noteq> []}"
    unfolding lits_def by (auto simp: lexer_shape_of_def Let_def image_iff)
  moreover have "prefix_set (lexer_shape_of terminals)
      = {take i lit |i lit name. (lit, name) \<in> set lits \<and> 0 < i \<and> i < length lit}"
    unfolding lits_def by (auto simp: lexer_shape_of_def Let_def image_iff Bex_def Suc_le_eq)
  moreover have "max_literal_len (lexer_shape_of terminals) = fold max_step lits 0"
    unfolding lits_def by (simp add: lexer_shape_of_def Let_def)
  then have "\<forall>(lit, name) \<in> set lits. length lit \<le> max_literal_len (lexer_shape_of terminals)"
    using max_step_bound [of _ _ lits 0] by auto
  moreover have "\<forall>c. literals_by_first (lexer_shape_of terminals) c = filter (\<lambda>(lit, _). lit \<noteq> [] \<and> hd lit = c) lits"
    unfolding lits_def by (simp add: lexer_shape_of_def Let_def)
  ultimately show ?thesis unfolding shape_ok_def lits_def by blast
qed

end
