(* ===== verification/ParserEngine.thy ===== *)
theory ParserEngine
  imports TokenScanner Lexer "HOL-Library.AList"
begin

text \<open>
  The streaming parser of the patched engine: \<^verbatim>\<open>parser_engine_config.py\<close>, \<^verbatim>\<open>streaming_parser_engine.py\<close>,
  its event types and the configuration of the GLM format (\<^verbatim>\<open>glm47_moe.py\<close>). A delta goes through
  the scanner of ids, the lexer and a state machine, which emits semantic events. Every method of the
  engine is a function from the engine's state to its events and the new state.
\<close>

section \<open>States, events, configuration\<close>

datatype parser_state = CONTENT | REASONING | MESSAGE_HEADER | TOOL_PREAMBLE | TOOL_NAME | TOOL_ARGS
  | TOOL_BETWEEN | TOOL_ARG_END_PENDING

text \<open>\<open>EventType.TOOL_NAME\<close> is \<open>NAME_CHUNK\<close> here; the name belongs to the state.\<close>

datatype event_type = TEXT_CHUNK | REASONING_START | REASONING_CHUNK | REASONING_END | TOOL_CALL_START
  | NAME_CHUNK | ARG_VALUE_CHUNK | TOOL_CALL_END

datatype semantic_event = SemanticEvent (ev_type: event_type) (ev_value: string) (ev_index: int)

record transition =
  next_state :: parser_state
  tr_events :: "event_type list"
  skip_in_token_id_mode :: bool

definition Transition :: "parser_state \<Rightarrow> event_type list \<Rightarrow> transition" where
  "Transition s evs = \<lparr>next_state = s, tr_events = evs, skip_in_token_id_mode = False\<rparr>"

record parser_config =
  pc_name :: string
  pc_terminals :: "(string \<times> string) list"
  pc_token_id_terminals :: "(string \<times> string) list"
  pc_transitions :: "((parser_state \<times> string) \<times> transition) list"
  pc_content_events :: "(parser_state \<times> event_type) list"
  pc_initial_state :: parser_state
  pc_arg_converter :: "(string \<Rightarrow> bool \<Rightarrow> string) option"
  pc_stream_arg_deltas :: bool
  pc_tool_args_json :: bool
  pc_arg_structural_chars :: "char set option"
  pc_preserve_tokens :: "string list"
  pc_strip_trailing_reasoning_whitespace :: bool
  pc_drop_whitespace_only_content_before_tools :: bool
  pc_strip_content_whitespace_with_tools :: bool
  pc_validate_tool_names :: bool
  pc_non_whitespace_transitions :: "(parser_state \<times> transition) list"

text \<open>The defaults of the fields.\<close>

definition ParserEngineConfig :: "string \<Rightarrow> parser_config" where
  "ParserEngineConfig name =
     \<lparr>pc_name = name, pc_terminals = [], pc_token_id_terminals = [], pc_transitions = [],
      pc_content_events = [(CONTENT, TEXT_CHUNK), (REASONING, REASONING_CHUNK), (TOOL_NAME, NAME_CHUNK),
        (TOOL_ARGS, ARG_VALUE_CHUNK)],
      pc_initial_state = CONTENT, pc_arg_converter = None, pc_stream_arg_deltas = True, pc_tool_args_json = True,
      pc_arg_structural_chars = None, pc_preserve_tokens = [], pc_strip_trailing_reasoning_whitespace = True,
      pc_drop_whitespace_only_content_before_tools = True, pc_strip_content_whitespace_with_tools = True,
      pc_validate_tool_names = False, pc_non_whitespace_transitions = []\<rparr>"

definition config_lexer_shape :: "(string \<Rightarrow> string) \<Rightarrow> parser_config \<Rightarrow> lexer_shape" where
  "config_lexer_shape esc cfg = lexer_shape_of (terminals_from_literals esc (pc_terminals cfg))"

section \<open>The tokenizer and dropped tokens\<close>

text \<open>
  What is asked of the tokenizer: its vocabulary, its special tokens with their ids (\<open>None\<close> when it
  does not name them), and the text of one id.
\<close>

record tokenizer =
  tk_vocab :: "(string \<times> int) list"
  tk_specials :: "(string list \<times> int list) option"
  tk_decode :: "int \<Rightarrow> string"

record drop_info =
  di_lexer_shape :: lexer_shape
  di_extra_token_ids :: "(int \<times> string) list"

text \<open>
  Special tokens that the format does not know become terminals that are dropped. The texts are a set
  in the code; the order in which their terminals are listed does not matter to the lexer.
\<close>

definition build_drop_info :: "(string \<Rightarrow> string) \<Rightarrow> parser_config \<Rightarrow> tokenizer \<Rightarrow> drop_info option" where
  "build_drop_info esc cfg tok =
     (case tk_specials tok of
        None \<Rightarrow> None
      | Some (special_tokens, special_ids) \<Rightarrow>
          (if special_tokens = [] then None
           else (let configured = map snd (pc_token_id_terminals cfg) @ map snd (pc_terminals cfg) @ pc_preserve_tokens cfg;
                     unknown = filter (\<lambda>(t, _). t \<notin> set configured) (zip special_tokens special_ids);
                     extra = fold (\<lambda>(_, tid). AList.update tid DROP_TERMINAL) unknown [];
                     drop_texts = remdups (map fst unknown) in
                 if drop_texts = [] then None
                 else (let drop_defs = terminals_from_literals esc (map (\<lambda>t. (DROP_TERMINAL, t)) drop_texts) in
                       Some \<lparr>di_lexer_shape = lexer_shape_of (terminals_from_literals esc (pc_terminals cfg) @ drop_defs),
                             di_extra_token_ids = extra\<rparr>))))"

section \<open>The engine\<close>

record engine =
  eng_config :: parser_config
  resolved_token_ids :: "(int \<times> string) list"
  has_drops :: bool
  eng_scanner :: scanner
  token_id_terminal_names :: "string set"
  eng_shape :: lexer_shape
  lex_buffer :: string
  tool_terminals :: "string set"
  skip_tool_parsing :: bool
  pstate :: parser_state
  tool_index :: int
  ever_had_token_ids :: bool
  args_buffer :: string
  args_safe_end :: nat
  args_brace_depth :: nat
  args_in_string :: bool
  args_escape_next :: bool

definition TOOL_STATES :: "parser_state list" where
  "TOOL_STATES = [TOOL_PREAMBLE, TOOL_NAME, TOOL_ARGS, TOOL_BETWEEN, TOOL_ARG_END_PENDING]"

definition reset_args_state :: "engine \<Rightarrow> engine" where
  "reset_args_state e =
     e\<lparr>args_buffer := [], args_safe_end := 0, args_brace_depth := 0, args_in_string := False, args_escape_next := False\<rparr>"

definition engine_reset :: "parser_state option \<Rightarrow> engine \<Rightarrow> engine" where
  "engine_reset initial e =
     reset_args_state (e\<lparr>pstate := (case initial of Some s \<Rightarrow> s | None \<Rightarrow> pc_initial_state (eng_config e)),
       tool_index := -1, ever_had_token_ids := False, eng_scanner := scanner_reset (eng_scanner e), lex_buffer := []\<rparr>)"

definition resolved_ids :: "parser_config \<Rightarrow> tokenizer option \<Rightarrow> (string \<times> int) list option \<Rightarrow> (int \<times> string) list" where
  "resolved_ids cfg tokenizer vocab =
     (case tokenizer of
        None \<Rightarrow> []
      | Some tok \<Rightarrow>
          (let v = (case vocab of None \<Rightarrow> tk_vocab tok | Some v \<Rightarrow> v) in
           fold (\<lambda>(name, token_text) ids.
                   (case map_of v token_text of Some tid \<Rightarrow> AList.update tid name ids | None \<Rightarrow> ids))
             (pc_token_id_terminals cfg) []))"

text \<open>\<open>__init__\<close>: the parameter \<open>esc\<close> is \<open>regex.escape\<close>, of which the lexer uses only the length of the result.\<close>

definition engine_new ::
    "(string \<Rightarrow> string) \<Rightarrow> parser_config \<Rightarrow> tokenizer option \<Rightarrow> parser_state option
     \<Rightarrow> (string \<times> int) list option \<Rightarrow> engine" where
  "engine_new esc cfg tokenizer initial vocab =
     (let drops = (case tokenizer of None \<Rightarrow> None | Some tok \<Rightarrow> build_drop_info esc cfg tok);
          ids = (let r = resolved_ids cfg tokenizer vocab in
                 case drops of None \<Rightarrow> r | Some d \<Rightarrow> fold (\<lambda>(k, v). AList.update k v) (di_extra_token_ids d) r);
          shape = (case drops of None \<Rightarrow> config_lexer_shape esc cfg | Some d \<Rightarrow> di_lexer_shape d) in
      engine_reset initial
        \<lparr>eng_config = cfg, resolved_token_ids = ids, has_drops = (drops \<noteq> None),
         eng_scanner = \<lparr>token_id_to_terminal = ids,
           decode_token = (case tokenizer of None \<Rightarrow> (\<lambda>_. []) | Some tok \<Rightarrow> tk_decode tok),
           deferred_terminals = [], deferred_post_text = []\<rparr>,
         token_id_terminal_names = set (map snd ids), eng_shape = shape, lex_buffer = [],
         tool_terminals = set (map (\<lambda>((_, terminal), _). terminal)
           (filter (\<lambda>((s, _), tr). List.member TOOL_STATES (next_state tr) \<or> List.member TOOL_STATES s) (pc_transitions cfg))),
         skip_tool_parsing = False, pstate = CONTENT, tool_index = -1, ever_had_token_ids = False,
         args_buffer = [], args_safe_end = 0, args_brace_depth = 0, args_in_string = False, args_escape_next = False\<rparr>)"

text \<open>A loop that collects the events of its rounds.\<close>

fun each_event :: "('a \<Rightarrow> engine \<Rightarrow> semantic_event list \<times> engine) \<Rightarrow> 'a list \<Rightarrow> engine \<Rightarrow> semantic_event list \<times> engine" where
  "each_event f [] e = ([], e)"
| "each_event f (x # xs) e =
     (let (evs, e1) = f x e; (more, e2) = each_event f xs e1 in (evs @ more, e2))"

subsection \<open>JSON arguments\<close>

definition flush_safe_args :: "engine \<Rightarrow> semantic_event list \<times> engine" where
  "flush_safe_args e =
     (if args_safe_end e = 0 then ([], e)
      else ([SemanticEvent ARG_VALUE_CHUNK (take (args_safe_end e) (args_buffer e)) (tool_index e)],
            e\<lparr>args_buffer := drop (args_safe_end e) (args_buffer e), args_safe_end := 0\<rparr>))"

text \<open>\<open>safe\<close> is the step that all but one branch end with: the whole buffer may go.\<close>

definition safe_args :: "engine \<Rightarrow> semantic_event list \<times> engine" where
  "safe_args e = flush_safe_args (e\<lparr>args_safe_end := length (args_buffer e)\<rparr>)"

definition feed_args_char :: "char \<Rightarrow> engine \<Rightarrow> semantic_event list \<times> engine" where
  "feed_args_char ch e0 =
     (let e = e0\<lparr>args_buffer := args_buffer e0 @ [ch]\<rparr> in
      if args_escape_next e then safe_args (e\<lparr>args_escape_next := False\<rparr>)
      else if args_in_string e
      then safe_args (if ch = CHR 0x5C then e\<lparr>args_escape_next := True\<rparr>
                      else if ch = CHR 0x22 then e\<lparr>args_in_string := False\<rparr> else e)
      else if ch = CHR 0x22 then safe_args (e\<lparr>args_in_string := True\<rparr>)
      else if ch = CHR ''{'' \<or> ch = CHR ''['' then safe_args (e\<lparr>args_brace_depth := args_brace_depth e + 1\<rparr>)
      else if ch = CHR ''}'' \<or> ch = CHR '']''
      then (let e' = (if 0 < args_brace_depth e then e\<lparr>args_brace_depth := args_brace_depth e - 1\<rparr> else e) in
            if args_brace_depth e' = 0 then ([], e') else safe_args e')
      else safe_args e)"

definition feed_args_text :: "string \<Rightarrow> engine \<Rightarrow> semantic_event list \<times> engine" where
  "feed_args_text chunk e = each_event feed_args_char chunk e"

subsection \<open>The state machine\<close>

fun apply_events :: "event_type list \<Rightarrow> string \<Rightarrow> engine \<Rightarrow> semantic_event list \<times> engine" where
  "apply_events [] value e = ([], e)"
| "apply_events (t # ts) value e =
     (let e1 = (if t = TOOL_CALL_START then e\<lparr>tool_index := tool_index e + 1\<rparr> else e);
          (more, e2) = apply_events ts value e1 in
      (SemanticEvent t value (tool_index e1) # more, e2))"

definition apply_transition :: "transition \<Rightarrow> string \<Rightarrow> engine \<Rightarrow> semantic_event list \<times> engine" where
  "apply_transition tr value e =
     (let leaving = (pstate e = TOOL_ARGS \<and> next_state tr \<noteq> TOOL_ARGS \<and> args_buffer e \<noteq> []);
          pending = (if leaving then [SemanticEvent ARG_VALUE_CHUNK (args_buffer e) (tool_index e)] else []);
          e1 = (if leaving then e\<lparr>args_buffer := []\<rparr> else e);
          (evs, e2) = apply_events (tr_events tr) value (e1\<lparr>pstate := next_state tr\<rparr>) in
      (pending @ evs,
       if pstate e2 = TOOL_ARGS
       then e2\<lparr>args_brace_depth := 0, args_in_string := False, args_escape_next := False, args_safe_end := 0\<rparr>
       else e2))"

text \<open>\<open>_emit_for_state\<close>; its part below the non-white-space transitions is \<open>emit_in_state\<close>.\<close>

definition emit_in_state :: "string \<Rightarrow> engine \<Rightarrow> semantic_event list \<times> engine" where
  "emit_in_state chunk e =
     (if pstate e = TOOL_ARGS
      then (if pc_tool_args_json (eng_config e) then feed_args_text chunk e
            else ([SemanticEvent ARG_VALUE_CHUNK chunk (tool_index e)], e))
      else (case map_of (pc_content_events (eng_config e)) (pstate e) of
              Some t \<Rightarrow> ([SemanticEvent t chunk (tool_index e)], e)
            | None \<Rightarrow> ([], e)))"

definition emit_for_state :: "string \<Rightarrow> engine \<Rightarrow> semantic_event list \<times> engine" where
  "emit_for_state chunk e =
     (case map_of (pc_non_whitespace_transitions (eng_config e)) (pstate e) of
        Some tr \<Rightarrow> (if py_strip chunk \<noteq> [] then apply_transition tr chunk e else emit_in_state chunk e)
      | None \<Rightarrow> emit_in_state chunk e)"

definition on_content :: "string \<Rightarrow> engine \<Rightarrow> semantic_event list \<times> engine" where
  "on_content chunk e = (if chunk = [] then ([], e) else emit_for_state chunk e)"

definition on_terminal :: "string \<Rightarrow> string \<Rightarrow> engine \<Rightarrow> semantic_event list \<times> engine" where
  "on_terminal terminal value e =
     (case map_of (pc_transitions (eng_config e)) (pstate e, terminal) of
        None \<Rightarrow>
          (if has_drops e \<and> terminal = DROP_TERMINAL \<and> \<not> skip_tool_parsing e then ([], e)
           else emit_for_state value e)
      | Some tr \<Rightarrow>
          (if skip_tool_parsing e \<and> terminal \<in> tool_terminals e
           then (if pstate e = MESSAGE_HEADER
                 then ([SemanticEvent TEXT_CHUNK value (tool_index e)], e\<lparr>pstate := CONTENT\<rparr>)
                 else if List.member (tr_events tr) REASONING_END
                 then ([SemanticEvent REASONING_END value (tool_index e), SemanticEvent TEXT_CHUNK value (tool_index e)],
                       e\<lparr>pstate := CONTENT\<rparr>)
                 else (case map_of (pc_content_events (eng_config e)) (pstate e) of
                         Some t \<Rightarrow> ([SemanticEvent t value (tool_index e)], e)
                       | None \<Rightarrow> ([], e)))
           else if skip_in_token_id_mode tr \<and> ever_had_token_ids e then emit_for_state value e
           else apply_transition tr value e))"

subsection \<open>Tokens and items\<close>

text \<open>Once ids have been seen, a terminal that has an id counts only by its id; in text it is content.\<close>

definition on_lex_token :: "lex_token \<Rightarrow> engine \<Rightarrow> semantic_event list \<times> engine" where
  "on_lex_token t e =
     (if tok_terminal t = CONTENT_TERMINAL
         \<or> (ever_had_token_ids e \<and> tok_terminal t \<in> token_id_terminal_names e)
      then on_content (tok_value t) e
      else on_terminal (tok_terminal t) (tok_value t) e)"

definition process_lex_tokens :: "lex_token list \<Rightarrow> engine \<Rightarrow> semantic_event list \<times> engine" where
  "process_lex_tokens toks e = each_event on_lex_token toks e"

definition lex_and_process :: "(lex_token list \<times> string) \<Rightarrow> engine \<Rightarrow> semantic_event list \<times> engine" where
  "lex_and_process r e = process_lex_tokens (fst r) (e\<lparr>lex_buffer := snd r\<rparr>)"

fun on_item :: "lexer_input \<Rightarrow> engine \<Rightarrow> semantic_event list \<times> engine" where
  "on_item (PreLexed p) e =
     (let (evs, e1) = lex_and_process (lexer_flush (eng_shape e) (lex_buffer e)) e;
          (more, e2) = on_terminal (pt_terminal p) (pt_text p) e1 in
      (evs @ more, e2))"
| "on_item (TextChunk t) e = lex_and_process (lexer_feed (eng_shape e) (lex_buffer e) t) e"

definition process_scanner_items :: "lexer_input list \<Rightarrow> engine \<Rightarrow> semantic_event list \<times> engine" where
  "process_scanner_items items e = each_event on_item items e"

subsection \<open>feed and finish\<close>

definition is_resolved :: "engine \<Rightarrow> int \<Rightarrow> bool" where
  "is_resolved e tid \<longleftrightarrow> map_of (resolved_token_ids e) tid \<noteq> None"

text \<open>
  A delta that is one text: a single token of content goes straight to the state machine. The same
  short cut is taken for a delta that no literal can begin in.
\<close>

definition single_text :: "string \<Rightarrow> engine \<Rightarrow> semantic_event list \<times> engine" where
  "single_text t e =
     (let (toks, buf) = lexer_feed (eng_shape e) (lex_buffer e) t; e2 = e\<lparr>lex_buffer := buf\<rparr> in
      case toks of
        [tok] \<Rightarrow> (if tok_terminal tok = CONTENT_TERMINAL then emit_for_state (tok_value tok) e2
                  else process_lex_tokens toks e2)
      | _ \<Rightarrow> process_lex_tokens toks e2)"

definition plain_delta :: "string \<Rightarrow> int list \<Rightarrow> engine \<Rightarrow> bool" where
  "plain_delta delta_text delta_token_ids e \<longleftrightarrow>
     delta_text \<noteq> [] \<and> lex_buffer e = [] \<and> deferred_terminals (eng_scanner e) = []
     \<and> list_all (\<lambda>ch. ch \<notin> literal_first_chars (eng_shape e)) delta_text
     \<and> \<not> list_ex (is_resolved e) delta_token_ids"

definition feed :: "string \<Rightarrow> int list \<Rightarrow> engine \<Rightarrow> semantic_event list \<times> engine" where
  "feed delta_text delta_token_ids e0 =
     (let e = (if delta_token_ids \<noteq> [] then e0\<lparr>ever_had_token_ids := True\<rparr> else e0) in
      if plain_delta delta_text delta_token_ids e then emit_for_state delta_text e
      else (let (items, sc) = scan delta_text delta_token_ids (eng_scanner e); e1 = e\<lparr>eng_scanner := sc\<rparr> in
            case items of
              [TextChunk t] \<Rightarrow> single_text t e1
            | _ \<Rightarrow> process_scanner_items items e1))"

text \<open>The end of \<open>finish\<close>: arguments that were held back go out, and what is open is closed.\<close>

definition close_args :: "engine \<Rightarrow> semantic_event list \<times> engine" where
  "close_args e =
     (if args_buffer e \<noteq> []
      then ([SemanticEvent ARG_VALUE_CHUNK (args_buffer e) (tool_index e)], e\<lparr>args_buffer := [], args_safe_end := 0\<rparr>)
      else ([], e))"

definition close_state :: "engine \<Rightarrow> semantic_event list \<times> engine" where
  "close_state e =
     (if List.member TOOL_STATES (pstate e)
      then (if 0 \<le> tool_index e then [SemanticEvent TOOL_CALL_END [] (tool_index e)] else [], e\<lparr>pstate := CONTENT\<rparr>)
      else if pstate e = REASONING
      then ([SemanticEvent REASONING_END [] (tool_index e)], e\<lparr>pstate := CONTENT\<rparr>)
      else if pstate e = MESSAGE_HEADER then ([], e\<lparr>pstate := CONTENT\<rparr>)
      else ([], e))"

definition finish :: "engine \<Rightarrow> semantic_event list \<times> engine" where
  "finish e0 =
     (let (pending, sc) = flush_pending (eng_scanner e0);
          (evs1, e1) = process_scanner_items pending (e0\<lparr>eng_scanner := sc\<rparr>);
          (evs2, e2) = lex_and_process (lexer_flush (eng_shape e1) (lex_buffer e1)) e1;
          (evs3, e3) = close_args e2;
          (evs4, e4) = close_state e3 in
      (evs1 @ evs2 @ evs3 @ evs4, e4))"

definition parse_complete :: "string \<Rightarrow> engine \<Rightarrow> semantic_event list \<times> engine" where
  "parse_complete chunk e =
     (let (evs, e1) = feed chunk [] e; (more, e2) = finish e1 in (evs @ more, e2))"

text \<open>A whole stream: the deltas one after the other.\<close>

definition feed_stream :: "(string \<times> int list) list \<Rightarrow> engine \<Rightarrow> semantic_event list \<times> engine" where
  "feed_stream deltas e = each_event (\<lambda>(t, ids). feed t ids) deltas e"

definition parse_stream :: "(string \<times> int list) list \<Rightarrow> engine \<Rightarrow> semantic_event list \<times> engine" where
  "parse_stream deltas e =
     (let (evs, e1) = feed_stream deltas e; (more, e2) = finish e1 in (evs @ more, e2))"

end
