(* ===== verification/LexerFacts.thy ===== *)
theory LexerFacts
  imports Lexer "HOL-Library.Sublist"
begin

text \<open>
  Every token the lexer emits is committed: \<open>drain_commits\<close> compares one call of \<open>_drain\<close> with the lexer
  that knows all the text to come. From it: lexing in pieces and lexing at once give the same terminals
  and the same content, nothing is lost, and what is held back is the start of a literal.
\<close>

lemma starts_with_prefix: "starts_with p s \<longleftrightarrow> prefix p s"
  by (auto simp: starts_with_def prefix_def) (metis append_take_drop_id)

lemma pieces_simps [simp]:
  "pieces [] = []"
  "pieces (t # ts) = piece_of t @ pieces ts"
  "pieces (ts @ us) = pieces ts @ pieces us"
  by (simp_all add: pieces_def)

section \<open>The longest literal at a position\<close>

lemma best_of_cong:
  "\<forall>(lit, name) \<in> set lits. starts_with lit a \<longleftrightarrow> starts_with lit b \<Longrightarrow> best_of a lits best = best_of b lits best"
  by (induction a lits best rule: best_of.induct) auto

lemma best_of_None: "best_of s lits best = None \<longleftrightarrow> best = None \<and> (\<forall>(lit, name) \<in> set lits. \<not> starts_with lit s)"
  by (induction s lits best rule: best_of.induct) (auto split: option.splits)

lemma best_of_longest:
  "best_of s lits best = Some (name, lit) \<Longrightarrow>
   (\<forall>n b. best = Some (n, b) \<longrightarrow> length b \<le> length lit)
   \<and> (\<forall>(l, n) \<in> set lits. starts_with l s \<longrightarrow> length l \<le> length lit)"
proof (induction s lits best rule: best_of.induct)
  case (2 buf l n lits best)
  show ?case using 2 by (fastforce split: if_splits option.splits)
qed auto

text \<open>The literals that matter at a position of the text.\<close>

definition literals_here :: "lexer_shape \<Rightarrow> string \<Rightarrow> (string \<times> string) set" where
  "literals_here sh s = {(lit, name) \<in> set (literal_strings sh). lit \<noteq> [] \<and> prefix lit s}"

lemma by_first_here:
  assumes "shape_ok sh" "s \<noteq> []"
  shows "{(lit, name) \<in> set (literals_by_first sh (hd s)). starts_with lit s} = literals_here sh s"
proof -
  have hd: "prefix lit s \<Longrightarrow> lit \<noteq> [] \<Longrightarrow> hd lit = hd s" for lit by (cases lit) (auto simp: prefix_def)
  have "literals_by_first sh (hd s) = filter (\<lambda>(lit, _). lit \<noteq> [] \<and> hd lit = hd s) (literal_strings sh)"
    using assms(1) by (simp add: shape_ok_def)
  then show ?thesis using hd by (auto simp: literals_here_def starts_with_prefix)
qed

lemma best_match_None:
  assumes "shape_ok sh" "s \<noteq> []"
  shows "best_match sh s = None \<longleftrightarrow> literals_here sh s = {}"
  unfolding best_match_def best_of_None by_first_here [OF assms, symmetric] by auto

lemma best_match_Some:
  assumes "shape_ok sh" "s \<noteq> []" "best_match sh s = Some (name, lit)"
  shows "(lit, name) \<in> literals_here sh s" "(l, n) \<in> literals_here sh s \<Longrightarrow> length l \<le> length lit"
proof -
  have b: "best_of s (literals_by_first sh (hd s)) None = Some (name, lit)"
    using assms(3) by (simp add: best_match_def)
  show "(lit, name) \<in> literals_here sh s"
    unfolding by_first_here [OF assms(1,2), symmetric] using best_of_props [OF b] by auto
  show "(l, n) \<in> literals_here sh s \<Longrightarrow> length l \<le> length lit"
    unfolding by_first_here [OF assms(1,2), symmetric] using best_of_longest [OF b] by auto
qed

text \<open>Unless the buffer is the start of a longer literal, more text changes nothing at its first position.\<close>

lemma best_match_append:
  assumes "shape_ok sh" "buf \<noteq> []" "buf \<notin> prefix_set sh"
  shows "best_match sh (buf @ rest) = best_match sh buf"
proof -
  have "starts_with lit (buf @ rest) \<longleftrightarrow> starts_with lit buf"
    if "(lit, name) \<in> set (literals_by_first sh (hd buf))" for lit name
  proof -
    from that assms(1) have lit: "(lit, name) \<in> set (literal_strings sh)" by (auto simp: shape_ok_def)
    have "\<not> (\<exists>us. lit = buf @ us \<and> us \<noteq> [])"
    proof
      assume "\<exists>us. lit = buf @ us \<and> us \<noteq> []"
      then have "buf = take (length buf) lit" "0 < length buf" "length buf < length lit" using assms(2) by auto
      then have "buf \<in> prefix_set sh" using lit assms(1) unfolding shape_ok_def by blast
      with assms(3) show False ..
    qed
    then show ?thesis unfolding starts_with_prefix prefix_append by (auto simp: prefix_def)
  qed
  then show ?thesis using assms(2) unfolding best_match_def by (auto intro!: best_of_cong)
qed

lemma no_first_no_match:
  assumes "shape_ok sh" "c \<notin> literal_first_chars sh"
  shows "best_match sh (c # cs) = None"
proof -
  have "literals_here sh (c # cs) = {}"
  proof -
    have "prefix lit (c # cs) \<Longrightarrow> lit \<noteq> [] \<Longrightarrow> hd lit = c" for lit by (cases lit) auto
    then show ?thesis using assms by (fastforce simp: shape_ok_def literals_here_def)
  qed
  then show ?thesis using best_match_None [OF assms(1)] by simp
qed

section \<open>Runs of content\<close>

lemma plain_lex_content:
  assumes "k \<le> length s" "\<And>i. i < k \<Longrightarrow> best_match sh (drop i s) = None"
  shows "pieces (plain_lex sh s) = map (\<lambda>c. LexToken CONTENT_TERMINAL [c]) (take k s) @ pieces (plain_lex sh (drop k s))"
  using assms
proof (induction k arbitrary: s)
  case (Suc k)
  then obtain c cs where s: "s = c # cs" by (cases s) auto
  have "best_match sh (c # cs) = None" using Suc.prems(2) [of 0] by (simp add: s)
  moreover have "pieces (plain_lex sh cs)
      = map (\<lambda>c. LexToken CONTENT_TERMINAL [c]) (take k cs) @ pieces (plain_lex sh (drop k cs))"
  proof (rule Suc.IH)
    show "k \<le> length cs" using Suc.prems(1) by (simp add: s)
    show "best_match sh (drop i cs) = None" if "i < k" for i
      using Suc.prems(2) [of "Suc i"] that by (simp add: s)
  qed
  ultimately show ?case by (simp add: s piece_of_def)
qed simp

lemma compatible_prefix: "compatible s lit \<longleftrightarrow> prefix s lit \<or> prefix lit s"
proof -
  have "prefix s lit \<longleftrightarrow> s = take (length s) lit" for s lit :: string
    by (metis append_eq_conv_conj prefix_def take_is_prefix)
  then show ?thesis
    by (cases "length s \<le> length lit") (auto simp: compatible_def Let_def min_def dest: prefix_length_le)
qed

lemma boundary_le: "boundary_from sh s \<le> length s"
  by (induction s) auto

lemma boundary_skips:
  assumes "shape_ok sh"
  shows "i < boundary_from sh s \<Longrightarrow> best_match sh (drop i s @ rest) = None"
proof (induction s arbitrary: i)
  case (Cons c cs)
  let ?comp = "list_ex (\<lambda>(lit, _). compatible (c # cs) lit) (literal_strings sh)"
  have n: "\<not> (c \<in> literal_first_chars sh \<and> ?comp)" using Cons.prems by (auto split: if_splits)
  show ?case
  proof (cases i)
    case 0
    show ?thesis
    proof (cases "c \<in> literal_first_chars sh")
      case True
      with n have "\<not> ?comp" by simp
      then have no: "(lit, name) \<in> set (literal_strings sh) \<Longrightarrow> \<not> compatible (c # cs) lit" for lit name
        by (auto simp: list_ex_iff)
      have "literals_here sh (c # cs @ rest) = {}"
      proof -
        have "\<not> prefix lit ((c # cs) @ rest)" if "(lit, name) \<in> set (literal_strings sh)" for lit name
          using no [OF that] unfolding compatible_prefix prefix_append by (auto simp: prefix_def)
        then show ?thesis by (auto simp: literals_here_def)
      qed
      then show ?thesis using best_match_None [OF assms] 0 by simp
    next
      case False
      then show ?thesis using no_first_no_match [OF assms] 0 by simp
    qed
  next
    case (Suc j)
    then have "j < boundary_from sh cs" using Cons.prems n by (auto split: if_splits)
    then show ?thesis using Cons.IH Suc by simp
  qed
qed simp

lemma boundary_content:
  assumes "shape_ok sh" "best_match sh ((c # cs) @ rest) = None"
  shows "pieces (plain_lex sh ((c # cs) @ rest))
    = map (\<lambda>ch. LexToken CONTENT_TERMINAL [ch]) (take (find_content_boundary sh (c # cs)) (c # cs))
      @ pieces (plain_lex sh (drop (find_content_boundary sh (c # cs)) (c # cs) @ rest))"
proof -
  let ?e = "find_content_boundary sh (c # cs)"
  have e: "?e \<le> length (c # cs)" using boundary_le [of sh cs] by (simp add: find_content_boundary_def)
  have "best_match sh (drop i ((c # cs) @ rest)) = None" if "i < ?e" for i
  proof (cases i)
    case (Suc j)
    then have j: "j < boundary_from sh cs" using that by (simp add: find_content_boundary_def)
    then have "j \<le> length cs" using boundary_le [of sh cs] by simp
    then show ?thesis using boundary_skips [OF assms(1) j] Suc by simp
  qed (use assms(2) in simp)
  then have "pieces (plain_lex sh ((c # cs) @ rest))
      = map (\<lambda>ch. LexToken CONTENT_TERMINAL [ch]) (take ?e ((c # cs) @ rest)) @ pieces (plain_lex sh (drop ?e ((c # cs) @ rest)))"
    by (intro plain_lex_content) (use e in auto)
  moreover have "take ?e ((c # cs) @ rest) = take ?e (c # cs)" "drop ?e ((c # cs) @ rest) = drop ?e (c # cs) @ rest"
    using e by (simp_all del: append_Cons)
  ultimately show ?thesis by (simp only:)
qed

lemma all_content:
  assumes "shape_ok sh" "list_all (\<lambda>ch. ch \<notin> literal_first_chars sh) s"
  shows "pieces (plain_lex sh (s @ rest)) = map (\<lambda>c. LexToken CONTENT_TERMINAL [c]) s @ pieces (plain_lex sh rest)"
  using assms(2)
proof (induction s)
  case (Cons c cs)
  then have "best_match sh ((c # cs) @ rest) = None" using no_first_no_match [OF assms(1)] by simp
  then show ?case using Cons by (simp add: piece_of_def)
qed simp

section \<open>What is emitted is committed\<close>

lemma plain_lex_match:
  assumes "shape_ok sh" "best_match sh ((c # cs) @ rest) = Some (name, lit)" "best_match sh (c # cs) = Some (name, lit)"
  shows "plain_lex sh ((c # cs) @ rest) = LexToken name lit # plain_lex sh (drop (length lit - 1) cs @ rest)"
proof -
  have "prefix lit (c # cs)" "lit \<noteq> []"
    using best_match_Some(1) [OF assms(1) _ assms(3)] by (auto simp: literals_here_def)
  then have "length lit - 1 \<le> length cs" using prefix_length_le by fastforce
  then show ?thesis using assms(2) by simp
qed

lemma prefix_set_longer:
  assumes "shape_ok sh" "buf \<in> prefix_set sh" "best_match sh buf = Some (name, lit)"
  shows "longer_match sh buf lit"
proof -
  from assms(1,2) obtain i l n where l: "(l, n) \<in> set (literal_strings sh)" "buf = take i l" "0 < i" "i < length l"
    unfolding shape_ok_def by blast
  then have ne: "buf \<noteq> []" and pre: "prefix buf l" and hd: "l \<noteq> []" "hd l = hd buf"
    by (auto simp: take_is_prefix hd_take)
  have "prefix lit buf" using best_match_Some(1) [OF assms(1) ne assms(3)] by (simp add: literals_here_def)
  then have "length lit < length l" using l(2,4) prefix_length_le by fastforce
  moreover have "(l, n) \<in> set (literals_by_first sh (hd buf))" using assms(1) l(1) hd by (auto simp: shape_ok_def)
  ultimately show ?thesis using pre by (auto simp: longer_match_def list_ex_iff starts_with_prefix)
qed

text \<open>The four ways a round of the loop goes, for a shape that was built.\<close>

definition no_first :: "lexer_shape \<Rightarrow> string \<Rightarrow> bool" where
  "no_first sh buf \<longleftrightarrow> has_only_literals sh \<and> literal_first_chars sh \<noteq> {}
     \<and> list_all (\<lambda>ch. ch \<notin> literal_first_chars sh) buf"

definition held :: "lexer_shape \<Rightarrow> bool \<Rightarrow> string \<Rightarrow> bool" where
  "held sh final buf \<longleftrightarrow> \<not> no_first sh buf \<and> buf \<in> prefix_set sh \<and> \<not> final"

lemma drain_rounds:
  assumes "shape_ok sh"
  shows "no_first sh (c # cs) \<Longrightarrow> drain sh final (c # cs) = ([LexToken CONTENT_TERMINAL (c # cs)], [])"
    and "held sh final (c # cs) \<Longrightarrow> drain sh final (c # cs) = ([], c # cs)"
    and "\<not> no_first sh (c # cs) \<Longrightarrow> \<not> held sh final (c # cs) \<Longrightarrow> best_match sh (c # cs) = Some (name, lit) \<Longrightarrow>
      drain sh final (c # cs) = emit_token name lit (drain sh final (drop (length lit - 1) cs))"
    and "\<not> no_first sh (c # cs) \<Longrightarrow> \<not> held sh final (c # cs) \<Longrightarrow> best_match sh (c # cs) = None \<Longrightarrow>
      drain sh final (c # cs) = emit_token CONTENT_TERMINAL (take (find_content_boundary sh (c # cs)) (c # cs))
        (drain sh final (drop (find_content_boundary sh (c # cs)) (c # cs)))"
  using prefix_set_longer [OF assms, of "c # cs"]
  by (auto simp: no_first_def held_def Let_def split: option.splits)

declare drain.simps(2) [simp del]

lemma emit_token_simps [simp]:
  "fst (emit_token n v r) = LexToken n v # fst r"
  "snd (emit_token n v r) = snd r"
  by (simp_all add: emit_token_def)

lemma drain_cases [consumes 1, case_names empty content hold match run]:
  assumes "shape_ok sh"
    and "buf = [] \<Longrightarrow> thesis"
    and "\<And>c cs. buf = c # cs \<Longrightarrow> no_first sh buf \<Longrightarrow> thesis"
    and "\<And>c cs. buf = c # cs \<Longrightarrow> held sh final buf \<Longrightarrow> thesis"
    and "\<And>c cs name lit. buf = c # cs \<Longrightarrow> \<not> no_first sh buf \<Longrightarrow> \<not> held sh final buf \<Longrightarrow>
          best_match sh buf = Some (name, lit) \<Longrightarrow> thesis"
    and "\<And>c cs. buf = c # cs \<Longrightarrow> \<not> no_first sh buf \<Longrightarrow> \<not> held sh final buf \<Longrightarrow>
          best_match sh buf = None \<Longrightarrow> thesis"
  shows thesis
proof (cases buf)
  case (Cons c cs)
  show ?thesis
  proof (cases "best_match sh buf")
    case None
    then show ?thesis using assms(3,4,6) Cons by blast
  next
    case (Some p)
    then show ?thesis using assms(3,4,5) Cons by (cases p) blast
  qed
qed (use assms in blast)

lemma drain_commits:
  assumes "shape_ok sh" "final \<Longrightarrow> rest = []"
  shows "pieces (plain_lex sh (buf @ rest))
      = pieces (fst (drain sh final buf)) @ pieces (plain_lex sh (snd (drain sh final buf) @ rest))"
proof (induction buf rule: length_induct)
  case (1 buf)
  note dr = drain_rounds [OF assms(1), where final = final]
  from assms(1) show ?case
  proof (cases rule: drain_cases [where buf = buf and final = final])
    case (content c cs)
    then have "drain sh final buf = ([LexToken CONTENT_TERMINAL buf], [])" using dr(1) by simp
    moreover have "list_all (\<lambda>ch. ch \<notin> literal_first_chars sh) buf" using content by (simp add: no_first_def)
    ultimately show ?thesis using all_content [OF assms(1), of buf rest] by (simp add: piece_of_def)
  next
    case (match c cs name lit)
    let ?next = "drop (length lit - 1) cs"
    have "best_match sh (buf @ rest) = best_match sh buf"
    proof (cases "buf \<in> prefix_set sh")
      case True
      then have "rest = []" using match assms(2) by (simp add: held_def)
      then show ?thesis by simp
    next
      case False
      then show ?thesis using best_match_append [OF assms(1) _ False] match(1) by blast
    qed
    then have "plain_lex sh (buf @ rest) = LexToken name lit # plain_lex sh (?next @ rest)"
      using plain_lex_match [OF assms(1)] match by simp
    moreover have "length ?next < length buf" using match(1) by simp
    ultimately show ?thesis using 1 dr(3) match by simp
  next
    case (run c cs)
    let ?e = "find_content_boundary sh buf"
    have "best_match sh (buf @ rest) = None"
    proof (cases "buf \<in> prefix_set sh")
      case True
      then have "rest = []" using run assms(2) by (simp add: held_def)
      then show ?thesis using run by simp
    next
      case False
      then show ?thesis using best_match_append [OF assms(1) _ False] run by auto
    qed
    then have "pieces (plain_lex sh (buf @ rest))
        = map (\<lambda>ch. LexToken CONTENT_TERMINAL [ch]) (take ?e buf) @ pieces (plain_lex sh (drop ?e buf @ rest))"
      using boundary_content [OF assms(1)] run(1) by simp
    moreover have "length (drop ?e buf) < length buf" using run(1) by (simp add: find_content_boundary_def)
    moreover have "drain sh final buf = emit_token CONTENT_TERMINAL (take ?e buf) (drain sh final (drop ?e buf))"
      using dr(4) run by simp
    ultimately show ?thesis using 1 by (simp add: piece_of_def)
  qed (simp_all add: dr)
qed

text \<open>A final pass empties the buffer, so the fallback in \<open>flush\<close> never adds a token.\<close>

lemma drain_final: "shape_ok sh \<Longrightarrow> snd (drain sh True buf) = []"
proof (induction buf rule: length_induct)
  case (1 buf)
  note dr = drain_rounds [OF 1(2), where final = True]
  from 1(2) show ?case
  proof (cases rule: drain_cases [where buf = buf and final = True])
    case (match c cs name lit)
    moreover have "length (drop (length lit - 1) cs) < length buf" using match(1) by simp
    ultimately show ?thesis using 1 dr(3) by simp
  next
    case (run c cs)
    moreover have "length (drop (find_content_boundary sh buf) buf) < length buf"
      using run(1) by (simp add: find_content_boundary_def)
    ultimately show ?thesis using 1 dr(4) by simp
  qed (simp_all add: dr held_def)
qed

text \<open>What \<open>feed\<close> keeps is the start of a literal.\<close>

lemma drain_keeps: "shape_ok sh \<Longrightarrow> snd (drain sh False buf) = [] \<or> snd (drain sh False buf) \<in> prefix_set sh"
proof (induction buf rule: length_induct)
  case (1 buf)
  note dr = drain_rounds [OF 1(2), where final = False]
  from 1(2) show ?case
  proof (cases rule: drain_cases [where buf = buf and final = False])
    case (match c cs name lit)
    moreover have "length (drop (length lit - 1) cs) < length buf" using match(1) by simp
    ultimately show ?thesis using 1 dr(3) by simp
  next
    case (run c cs)
    moreover have "length (drop (find_content_boundary sh buf) buf) < length buf"
      using run(1) by (simp add: find_content_boundary_def)
    ultimately show ?thesis using 1 dr(4) by simp
  qed (simp_all add: dr held_def)
qed

section \<open>feed and flush\<close>

lemma feed_commits:
  assumes "shape_ok sh"
  shows "pieces (plain_lex sh (buf @ chunk @ rest))
      = pieces (fst (lexer_feed sh buf chunk)) @ pieces (plain_lex sh (snd (lexer_feed sh buf chunk) @ rest))"
proof (cases "buf = [] \<and> no_first sh chunk")
  case True
  then have "lexer_feed sh buf chunk = ([LexToken CONTENT_TERMINAL chunk], [])"
    by (auto simp: lexer_feed_def no_first_def)
  then show ?thesis using all_content [OF assms, of chunk rest] True by (simp add: piece_of_def no_first_def)
next
  case False
  then have "lexer_feed sh buf chunk = drain sh False (buf @ chunk)" by (auto simp: lexer_feed_def no_first_def)
  then show ?thesis using drain_commits [OF assms, where final = False and buf = "buf @ chunk" and rest = rest] by simp
qed

lemma flush_empties: "snd (lexer_flush sh buf) = []"
  by (auto simp: lexer_flush_def Let_def split: prod.splits)

lemma flush_commits:
  assumes "shape_ok sh"
  shows "pieces (fst (lexer_flush sh buf)) = pieces (plain_lex sh buf)"
proof -
  have "lexer_flush sh buf = drain sh True buf"
    using drain_final [OF assms, of buf] by (cases buf) (auto simp: lexer_flush_def Let_def split: prod.splits)
  then show ?thesis
    using drain_commits [OF assms, where final = True and rest = "[]" and buf = buf] drain_final [OF assms, of buf] by simp
qed

lemma feed_keeps:
  assumes "shape_ok sh"
  shows "snd (lexer_feed sh buf chunk) = [] \<or> snd (lexer_feed sh buf chunk) \<in> prefix_set sh"
  using drain_keeps [OF assms, of "buf @ chunk"] by (simp add: lexer_feed_def)

text \<open>A whole stream: the texts one after the other, then the flush.\<close>

fun lexer_feeds :: "lexer_shape \<Rightarrow> string \<Rightarrow> string list \<Rightarrow> lex_token list \<times> string" where
  "lexer_feeds sh buf [] = ([], buf)"
| "lexer_feeds sh buf (chunk # chunks) =
     (let (toks, b) = lexer_feed sh buf chunk; (toks', b') = lexer_feeds sh b chunks in (toks @ toks', b'))"

definition lex_stream :: "lexer_shape \<Rightarrow> string list \<Rightarrow> lex_token list" where
  "lex_stream sh chunks = (let (toks, b) = lexer_feeds sh [] chunks in toks @ fst (lexer_flush sh b))"

lemma feeds_commit:
  "shape_ok sh \<Longrightarrow> pieces (plain_lex sh (buf @ concat chunks @ rest))
    = pieces (fst (lexer_feeds sh buf chunks)) @ pieces (plain_lex sh (snd (lexer_feeds sh buf chunks) @ rest))"
proof (induction sh buf chunks rule: lexer_feeds.induct)
  case (2 sh buf chunk chunks)
  then show ?case using feed_commits [OF 2(2), of buf chunk "concat chunks @ rest"]
    by (simp split: prod.splits)
qed simp

lemma lex_stream_is_plain:
  assumes "shape_ok sh"
  shows "pieces (lex_stream sh chunks) = pieces (plain_lex sh (concat chunks))"
  using feeds_commit [OF assms, of "[]" chunks "[]"] flush_commits [OF assms]
  by (simp add: lex_stream_def split: prod.splits)

text \<open>The values of the tokens are the text.\<close>

lemma piece_values: "concat (map tok_value (piece_of t)) = tok_value t"
  by (cases t) (simp add: piece_of_def comp_def)

lemma pieces_values: "concat (map tok_value (pieces ts)) = concat (map tok_value ts)"
  by (induction ts) (simp_all add: piece_values)

lemma plain_lex_values: "shape_ok sh \<Longrightarrow> concat (map tok_value (plain_lex sh s)) = s"
proof (induction sh s rule: plain_lex.induct)
  case (2 sh c cs)
  show ?case
  proof (cases "best_match sh (c # cs)")
    case (Some p)
    obtain name lit where p: "p = (name, lit)" by (cases p)
    have l: "prefix lit (c # cs)" "lit \<noteq> []"
      using best_match_Some(1) [OF 2(3) _ Some [unfolded p]] by (auto simp: literals_here_def)
    then have "lit @ drop (length lit - 1) cs = c # cs" by (cases lit) (auto simp: prefix_def)
    then show ?thesis using 2 Some p by simp
  qed (use 2 in simp)
qed simp

end
