(* ===== verification/TokenScannerFacts.thy ===== *)
theory TokenScannerFacts
  imports TokenScanner "HOL-Library.Multiset"
begin

text \<open>
  The scanner loses no text and no terminal: every call hands on or keeps exactly what came in. When a
  delta's text is the text of its ids, the call is the plain walk over the ids.
\<close>

section \<open>Searching\<close>

lemma py_find_split: "py_find s x = Some p \<Longrightarrow> take p s @ x @ drop (p + length x) s = s"
proof (induction s x arbitrary: p rule: py_find.induct)
  case (1 s x)
  show ?case
  proof (cases "starts_with x s")
    case True
    then have "p = 0" using 1(2) by simp
    then show ?thesis using True by (simp add: starts_with_def) (metis append_take_drop_id)
  next
    case False
    then obtain c cs where s: "s = c # cs" using 1(2) by (cases s) auto
    then obtain q where q: "py_find cs x = Some q" "p = Suc q" using 1(2) False by (auto split: if_splits)
    show ?thesis using 1(1) [OF False s q(1)] q(2) s by simp
  qed
qed

declare py_find.simps [simp del]

lemma py_rfind_props:
  assumes "py_rfind s x end = Some p" "end \<le> length s"
  shows "p + length x \<le> end" "take (length x) (drop p s) = x"
proof -
  from assms(1) have "p + length x \<le> end \<and> starts_with x (drop p s)"
    using find_Some_in_set unfolding py_rfind_def by fastforce
  then show "p + length x \<le> end" "take (length x) (drop p s) = x" by (simp_all add: starts_with_def)
qed

lemma text_ends_with_split: "text_ends_with x s \<Longrightarrow> take (length s - length x) s @ x = s"
  by (metis append_take_drop_id text_ends_with_def)

section \<open>Text and terminals of items\<close>

lemma join_simps [simp]:
  "join_decoded_text [] = []"
  "join_decoded_text (i # is) = item_text i @ join_decoded_text is"
  "join_decoded_text (is @ js) = join_decoded_text is @ join_decoded_text js"
  by (simp_all add: join_decoded_text_def)

lemma terminals_of_append [simp]: "terminals_of (is @ js) = terminals_of is @ terminals_of js"
  by (induction "is" rule: terminals_of.induct) auto

lemma terminals_of_text_run [simp]: "terminals_of (text_run accum) = []"
  by (simp add: text_run_def)

lemma terminals_of_map [simp]: "terminals_of (map PreLexed ps) = ps"
  by (induction ps) auto

lemma join_text_run [simp]: "join_decoded_text (text_run accum) = concat accum"
  by (simp add: text_run_def)

text \<open>The terminals that the ids of a delta stand for.\<close>

definition id_terminals :: "scanner \<Rightarrow> int list \<Rightarrow> prelexed list" where
  "id_terminals s ids =
     map (\<lambda>tid. \<lparr>pt_terminal = the (map_of (token_id_to_terminal s) tid), pt_token_id = tid, pt_text = decode_token s tid\<rparr>)
       (filter (is_special s) ids)"

lemma id_terminals_simps [simp]:
  "id_terminals s [] = []"
  "id_terminals s (ids @ ids') = id_terminals s ids @ id_terminals s ids'"
  by (simp_all add: id_terminals_def)

lemma terminals_of_pre_lex: "terminals_of (pre_lex s ids accum) = id_terminals s ids"
  by (induction s ids accum rule: pre_lex.induct) (auto simp: id_terminals_def is_special_def split: option.splits)

lemma join_pre_lex: "join_decoded_text (pre_lex s ids accum) = concat accum @ concat (map (decode_token s) ids)"
  by (induction s ids accum rule: pre_lex.induct) (auto split: option.splits)

lemma no_special_terminals: "\<not> list_ex (is_special s) ids \<Longrightarrow> id_terminals s ids = []"
  by (auto simp: id_terminals_def list_ex_iff filter_empty_conv)

section \<open>Resolving deferred terminals\<close>

text \<open>
  What the loop keeps: the text \<open>t\<close> that came in, the terminals \<open>M\<close> it has seen, and that text waits
  only behind a terminal, with nothing left to divide.
\<close>

fun resolving_ok :: "string \<Rightarrow> prelexed multiset \<Rightarrow> resolving \<Rightarrow> bool" where
  "resolving_ok t M (results, remaining, stay, post) \<longleftrightarrow>
     join_decoded_text results @ post @ remaining = t
   \<and> mset (terminals_of results) + mset stay = M
   \<and> (remaining \<noteq> [] \<longrightarrow> post = [])
   \<and> (post \<noteq> [] \<longrightarrow> stay \<noteq> [])"

lemma resolve_round_ok:
  assumes "resolving_ok t M st"
  shows "resolving_ok t (add_mset p M) (resolve_round p st)"
proof -
  obtain results remaining stay post where st: "st = (results, remaining, stay, post)" by (cases st)
  show ?thesis
  proof (cases "py_find remaining (pt_text p)")
    case None
    then show ?thesis using assms st by (auto simp: union_commute)
  next
    case (Some pos)
    define pre suf where "pre = take pos remaining" and "suf = drop (pos + length (pt_text p)) remaining"
    have split: "remaining = pre @ pt_text p @ suf" using py_find_split [OF Some] by (simp add: pre_def suf_def)
    have round: "resolve_round p st = (results @ (if 0 < pos then [TextChunk pre] else []) @ [PreLexed p], suf, stay, post)"
      using Some st by (auto simp: pre_def suf_def)
    have pre: "\<not> 0 < pos \<Longrightarrow> pre = []" by (simp add: pre_def)
    have ok: "resolving_ok t M (results, remaining, stay, post)" using assms st by simp
    show ?thesis
    proof (cases "remaining = []")
      case True
      then have "pre = []" "pt_text p = []" "suf = []" using split by simp_all
      then show ?thesis unfolding round using ok True by auto
    next
      case False
      then have "post = []" using ok by simp
      then have "join_decoded_text results @ pre @ pt_text p @ suf = t"
        "mset (terminals_of results) + mset stay = M"
        using ok split by simp_all
      then show ?thesis unfolding round using \<open>post = []\<close> pre by auto
    qed
  qed
qed

lemma resolve_rounds_ok:
  "resolving_ok t M st \<Longrightarrow> resolving_ok t (M + mset ps) (fold resolve_round ps st)"
proof (induction ps arbitrary: M st)
  case (Cons p ps)
  then show ?case using Cons.IH [OF resolve_round_ok [OF Cons.prems]] by simp
qed simp

text \<open>The state of a scanner between calls, and what a call keeps of the text and the terminals.\<close>

definition scanner_ok :: "scanner \<Rightarrow> bool" where
  "scanner_ok s \<longleftrightarrow> (deferred_post_text s \<noteq> [] \<longrightarrow> deferred_terminals s \<noteq> [])"

definition same_tables :: "scanner \<Rightarrow> scanner \<Rightarrow> bool" where
  "same_tables s s' \<longleftrightarrow>
     token_id_to_terminal s' = token_id_to_terminal s \<and> decode_token s' = decode_token s"

lemma same_tables_trans [trans]: "same_tables s u \<Longrightarrow> same_tables u v \<Longrightarrow> same_tables s v"
  by (simp add: same_tables_def)

lemma same_tables_update [simp]:
  "same_tables s s"
  "same_tables s (s'\<lparr>deferred_terminals := d\<rparr>) = same_tables s s'"
  "same_tables s (s'\<lparr>deferred_post_text := t\<rparr>) = same_tables s s'"
  by (simp_all add: same_tables_def)

lemma resolve_conserves:
  assumes "resolve_deferred t s = ((items, rest), s')"
  shows "join_decoded_text items @ deferred_post_text s' @ rest = deferred_post_text s @ t"
    "mset (terminals_of items) + mset (deferred_terminals s') = mset (deferred_terminals s)"
    "rest \<noteq> [] \<Longrightarrow> deferred_post_text s' = []" "scanner_ok s'" "same_tables s s'"
proof -
  let ?t = "deferred_post_text s @ t"
  have "resolving_ok ?t {#} ([], ?t, [], [])" by simp
  then have ok: "resolving_ok ?t (mset (deferred_terminals s)) (fold resolve_round (deferred_terminals s) ([], ?t, [], []))"
    using resolve_rounds_ok [of ?t "{#}" "([], ?t, [], [])" "deferred_terminals s"] by simp
  have t: "(if deferred_post_text s \<noteq> [] then ?t else t) = ?t" by simp
  obtain results rest' stay post where
    run: "fold resolve_round (deferred_terminals s) ([], ?t, [], []) = (results, rest', stay, post)"
    by (metis prod_cases4)
  have eq: "items = results" "rest = rest'" "s' = s\<lparr>deferred_terminals := stay, deferred_post_text := post\<rparr>"
    using assms run unfolding resolve_deferred_def t by (simp_all add: Let_def)
  show "join_decoded_text items @ deferred_post_text s' @ rest = deferred_post_text s @ t"
    "mset (terminals_of items) + mset (deferred_terminals s') = mset (deferred_terminals s)"
    "rest \<noteq> [] \<Longrightarrow> deferred_post_text s' = []" "scanner_ok s'" "same_tables s s'"
    using ok unfolding run eq by (simp_all add: scanner_ok_def same_tables_def)
qed

section \<open>Rebuilding from anchors\<close>

text \<open>Positions that can be used from left to right: found anchors lie one behind the other.\<close>

fun fits :: "string \<Rightarrow> nat \<Rightarrow> (prelexed \<times> nat option) list \<Rightarrow> bool" where
  "fits d c [] \<longleftrightarrow> c \<le> length d"
| "fits d c ((a, None) # r) \<longleftrightarrow> fits d c r"
| "fits d c ((a, Some p) # r) \<longleftrightarrow>
     c \<le> p \<and> p + length (pt_text a) \<le> length d \<and> take (length (pt_text a)) (drop p d) = pt_text a
     \<and> fits d (p + length (pt_text a)) r"

lemma fits_le: "fits d c r \<Longrightarrow> c \<le> length d"
  by (induction d c r rule: fits.induct) auto

lemma positions_fit:
  "anchor_positions d as = (ps, e) \<Longrightarrow>
   e \<le> length d \<and> length ps = length as \<and> (\<forall>c \<le> e. fits d c (zip as ps))"
proof (induction "as" arbitrary: ps e)
  case (Cons a "as")
  obtain qs e' where r: "anchor_positions d as = (qs, e')" by fastforce
  note IH = Cons.IH [OF r]
  show ?case
  proof (cases "py_rfind d (pt_text a) e'")
    case None
    then show ?thesis using Cons.prems r IH by auto
  next
    case (Some p)
    then have "p + length (pt_text a) \<le> e'" "take (length (pt_text a)) (drop p d) = pt_text a"
      using py_rfind_props [OF Some] IH by auto
    then show ?thesis using Cons.prems r IH Some by auto
  qed
qed auto

lemma rebuild_loop_conserves:
  assumes "rebuild_loop d r c s = ((items, c'), s')" "fits d c r"
    and "deferred_post_text s \<noteq> [] \<Longrightarrow> c = length d"
  shows "join_decoded_text items @ deferred_post_text s' @ drop c' d = deferred_post_text s @ drop c d"
    and "mset (terminals_of items) + mset (deferred_terminals s') = mset (deferred_terminals s) + mset (map fst r)"
    and "deferred_post_text s' \<noteq> [] \<Longrightarrow> c' = length d"
    and "scanner_ok s \<Longrightarrow> scanner_ok s'" and "same_tables s s'"
proof -
  have "join_decoded_text items @ deferred_post_text s' @ drop c' d = deferred_post_text s @ drop c d
   \<and> mset (terminals_of items) + mset (deferred_terminals s') = mset (deferred_terminals s) + mset (map fst r)
   \<and> (deferred_post_text s' \<noteq> [] \<longrightarrow> c' = length d) \<and> (scanner_ok s \<longrightarrow> scanner_ok s') \<and> same_tables s s'"
    using assms
  proof (induction r arbitrary: c s items c' s')
    case (Cons ap r)
    obtain a pos where ap: "ap = (a, pos)" by (cases ap)
    show ?case
    proof (cases pos)
      case (Some p)
      then have fit: "c \<le> p" "p + length (pt_text a) \<le> length d" "take (length (pt_text a)) (drop p d) = pt_text a"
        "fits d (p + length (pt_text a)) r"
        using Cons.prems(2) ap by simp_all
      obtain is' where rec: "rebuild_loop d r (p + length (pt_text a)) s = ((is', c'), s')"
        and items: "items = (if c < p then [TextChunk (take (p - c) (drop c d))] else []) @ PreLexed a # is'"
        using Cons.prems(1) fit(1) ap Some by (auto split: prod.splits)
      have "drop c d = take (p - c) (drop c d) @ drop p d"
        using fit(1) by (metis append_take_drop_id drop_drop le_add_diff_inverse2)
      also have "drop p d = pt_text a @ drop (p + length (pt_text a)) d"
        using fit(3) by (metis add.commute append_take_drop_id drop_drop)
      finally have d: "drop c d = take (p - c) (drop c d) @ pt_text a @ drop (p + length (pt_text a)) d" .
      have "deferred_post_text s \<noteq> [] \<Longrightarrow> p + length (pt_text a) = length d"
        using Cons.prems(3) fit by auto
      note IH = Cons.IH [OF rec fit(4) this]
      have "deferred_post_text s \<noteq> [] \<Longrightarrow> drop c d = []" using Cons.prems(3) by simp
      then show ?thesis using IH d items ap by (cases "deferred_post_text s = []") auto
    next
      case None
      define waits where "waits \<longleftrightarrow> \<not> list_ex (\<lambda>(_, p). p \<noteq> None) r \<and> c < length d \<and> pt_terminal a \<noteq> DROP_TERMINAL"
      define u where "u = (if waits then s\<lparr>deferred_post_text := deferred_post_text s @ drop c d\<rparr> else s)
                 \<lparr>deferred_terminals := deferred_terminals s @ [a]\<rparr>"
      define k where "k = (if waits then length d else c)"
      have rec: "rebuild_loop d r k u = ((items, c'), s')"
        using Cons.prems(1) ap None unfolding u_def k_def waits_def
        by (auto simp: Let_def split: if_splits)
      have fit: "fits d c r" using Cons.prems(2) ap None by simp
      have none: "list_all (\<lambda>(_, p). p = None) r \<Longrightarrow> fits d (length d) r"
        by (induction r) auto
      have "fits d k r"
      proof (cases waits)
        case True
        then have "list_all (\<lambda>(_, p). p = None) r"
          by (fastforce simp: waits_def list_ex_iff list_all_iff)
        then show ?thesis using none True by (simp add: k_def)
      qed (simp add: k_def fit)
      moreover have "deferred_post_text u \<noteq> [] \<Longrightarrow> k = length d"
        using Cons.prems(3) by (auto simp: k_def u_def split: if_splits)
      ultimately have IH: "join_decoded_text items @ deferred_post_text s' @ drop c' d = deferred_post_text u @ drop k d
         \<and> mset (terminals_of items) + mset (deferred_terminals s') = mset (deferred_terminals u) + mset (map fst r)
         \<and> (deferred_post_text s' \<noteq> [] \<longrightarrow> c' = length d) \<and> (scanner_ok u \<longrightarrow> scanner_ok s') \<and> same_tables u s'"
        using Cons.IH [OF rec] by blast
      have "deferred_post_text u @ drop k d = deferred_post_text s @ drop c d"
        "deferred_terminals u = deferred_terminals s @ [a]" "scanner_ok u"
        "same_tables s u"
        by (simp_all add: u_def k_def scanner_ok_def same_tables_def)
      then show ?thesis using IH ap same_tables_trans by fastforce
    qed
  qed (simp add: same_tables_def)
  then show "join_decoded_text items @ deferred_post_text s' @ drop c' d = deferred_post_text s @ drop c d"
    and "mset (terminals_of items) + mset (deferred_terminals s') = mset (deferred_terminals s) + mset (map fst r)"
    and "deferred_post_text s' \<noteq> [] \<Longrightarrow> c' = length d"
    and "scanner_ok s \<Longrightarrow> scanner_ok s'" and "same_tables s s'"
    by blast+
qed

lemma map_fst_zip_positions:
  "map fst (zip as (fst (anchor_positions d as))) = as"
proof -
  obtain ps e where "anchor_positions d as = (ps, e)" by fastforce
  then show ?thesis using positions_fit by simp
qed

lemma rebuild_conserves:
  assumes "rebuild_from_anchors d results s = (items, s')" "deferred_post_text s = []"
  shows "join_decoded_text items @ deferred_post_text s' = d"
    and "mset (terminals_of items) + mset (deferred_terminals s') = mset (deferred_terminals s) + mset (terminals_of results)"
    and "scanner_ok s'" and "same_tables s s'"
proof -
  have "join_decoded_text items @ deferred_post_text s' = d
    \<and> mset (terminals_of items) + mset (deferred_terminals s') = mset (deferred_terminals s) + mset (terminals_of results)
    \<and> scanner_ok s' \<and> same_tables s s'"
  proof (cases "terminals_of results = []")
    case True
    then show ?thesis using assms by (auto simp: rebuild_from_anchors_def scanner_ok_def)
  next
    case False
    let ?r = "zip (terminals_of results) (fst (anchor_positions d (terminals_of results)))"
    obtain outs c where run: "rebuild_loop d ?r 0 s = ((outs, c), s')"
      and items: "items = outs @ (if c < length d then [TextChunk (drop c d)] else [])"
      using assms(1) False by (auto simp: rebuild_from_anchors_def Let_def split: prod.splits)
    have fit: "fits d 0 ?r"
      using positions_fit [where d = d and as = "terminals_of results"] by (metis le0 prod.collapse)
    have post: "deferred_post_text s \<noteq> [] \<Longrightarrow> 0 = length d" using assms(2) by simp
    note facts = rebuild_loop_conserves [OF run fit post]
    have "scanner_ok s" using assms(2) by (simp add: scanner_ok_def)
    moreover have "deferred_post_text s' \<noteq> [] \<Longrightarrow> drop c d = []" using facts(3) by simp
    ultimately show ?thesis
      using facts(1,2,4,5) items assms(2) by (cases "deferred_post_text s' = []") (auto simp: map_fst_zip_positions)
  qed
  then show "join_decoded_text items @ deferred_post_text s' = d"
    and "mset (terminals_of items) + mset (deferred_terminals s') = mset (deferred_terminals s) + mset (terminals_of results)"
    and "scanner_ok s'" and "same_tables s s'"
    by blast+
qed

lemma with_holdback_text [simp]:
  "text_ends_with (join_decoded_text rs) d \<Longrightarrow> join_decoded_text (with_holdback d (join_decoded_text rs) rs) = d"
  "terminals_of (with_holdback d x rs) = terminals_of rs"
  using text_ends_with_split [of "join_decoded_text rs" d] by (auto simp: with_holdback_def Let_def)

lemma trailing_split: "rev (dropWhile P (rev xs)) @ rev (takeWhile P (rev xs)) = xs"
  by (metis rev_append rev_rev_ident takeWhile_dropWhile_id)

lemma recover_conserves:
  assumes "recover_holdback_text d results s = (items, s')" "deferred_post_text s = []"
  shows "join_decoded_text items @ deferred_post_text s' = d"
    and "mset (terminals_of items) + mset (deferred_terminals s') = mset (deferred_terminals s) + mset (terminals_of results)"
    and "scanner_ok s'" and "same_tables s s'"
proof -
  let ?drops = "terminals_of (rev (takeWhile is_drop (rev results)))"
  let ?kept = "rev (dropWhile is_drop (rev results))"
  have split: "terminals_of results = terminals_of ?kept @ ?drops"
    by (metis terminals_of_append trailing_split)
  consider (none) "results = []"
    | (blank) "results \<noteq> []" "join_decoded_text results = []"
    | (whole) "results \<noteq> []" "join_decoded_text results \<noteq> []" "text_ends_with (join_decoded_text results) d"
    | (stripped) "results \<noteq> []" "join_decoded_text results \<noteq> []" "\<not> text_ends_with (join_decoded_text results) d"
        "?drops \<noteq> [] \<and> join_decoded_text ?kept \<noteq> [] \<and> text_ends_with (join_decoded_text ?kept) d"
    | (rebuilt) "results \<noteq> []" "join_decoded_text results \<noteq> []" "\<not> text_ends_with (join_decoded_text results) d"
        "\<not> (?drops \<noteq> [] \<and> join_decoded_text ?kept \<noteq> [] \<and> text_ends_with (join_decoded_text ?kept) d)"
    by blast
  then have "join_decoded_text items @ deferred_post_text s' = d
    \<and> mset (terminals_of items) + mset (deferred_terminals s') = mset (deferred_terminals s) + mset (terminals_of results)
    \<and> scanner_ok s' \<and> same_tables s s'"
  proof cases
    case rebuilt
    then have "rebuild_from_anchors d results s = (items, s')"
      using assms(1) by (auto simp: recover_holdback_text_def Let_def split: if_splits)
    then show ?thesis using rebuild_conserves assms(2) by blast
  next
    case stripped
    then show ?thesis using assms by (auto simp: recover_holdback_text_def Let_def scanner_ok_def split)
  qed (use assms in \<open>auto simp: recover_holdback_text_def Let_def scanner_ok_def\<close>)
  then show "join_decoded_text items @ deferred_post_text s' = d"
    and "mset (terminals_of items) + mset (deferred_terminals s') = mset (deferred_terminals s) + mset (terminals_of results)"
    and "scanner_ok s'" and "same_tables s s'"
    by blast+
qed

section \<open>scan\<close>

lemma scan_conserves:
  assumes "scan d ids s = (items, s')" "scanner_ok s"
  shows "join_decoded_text items @ deferred_post_text s' = deferred_post_text s @ d"
    and "mset (terminals_of items) + mset (deferred_terminals s')
         = mset (deferred_terminals s) + mset (id_terminals s ids)"
    and "scanner_ok s'" and "same_tables s s'"
proof -
  obtain pre eff u where u: "(if deferred_terminals s \<noteq> [] then resolve_deferred d s else (([], d), s)) = ((pre, eff), u)"
    by (metis prod.collapse)
  have r: "join_decoded_text pre @ deferred_post_text u @ eff = deferred_post_text s @ d
    \<and> mset (terminals_of pre) + mset (deferred_terminals u) = mset (deferred_terminals s)
    \<and> (eff \<noteq> [] \<longrightarrow> deferred_post_text u = []) \<and> scanner_ok u \<and> same_tables s u"
  proof (cases "deferred_terminals s = []")
    case True
    then show ?thesis using u assms(2) by (auto simp: scanner_ok_def)
  next
    case False
    then have "resolve_deferred d s = ((pre, eff), u)" using u by simp
    then show ?thesis using resolve_conserves [of d s pre eff u] by simp
  qed
  have tables: "id_terminals u ids = id_terminals s ids" "token_id_to_terminal u = token_id_to_terminal s"
    using r by (simp_all add: same_tables_def id_terminals_def is_special_def cong: filter_cong)
  define plain where "plain = (if eff \<noteq> [] then pre @ [TextChunk eff] else pre)"
  have scan: "(if token_id_to_terminal u = [] \<or> \<not> list_ex (is_special u) ids then (plain, u)
      else if eff \<noteq> [] then (let (outs, v) = recover_holdback_text eff (pre_lex u ids []) u in (pre @ outs, v))
      else (pre, u\<lparr>deferred_terminals := deferred_terminals u @ terminals_of (pre_lex u ids [])\<rparr>)) = (items, s')"
    using assms(1) unfolding scan_def u plain_def by (simp add: Let_def split: if_splits)
  have plain: "join_decoded_text plain = join_decoded_text pre @ eff" "terminals_of plain = terminals_of pre"
    by (simp_all add: plain_def)
    consider (plain) "items = plain" "s' = u" "id_terminals s ids = []"
      | (cut) v outs where "eff \<noteq> []" "recover_holdback_text eff (pre_lex u ids []) u = (outs, v)" "items = pre @ outs" "s' = v"
      | (none) "eff = []" "items = pre" "s' = u\<lparr>deferred_terminals := deferred_terminals u @ terminals_of (pre_lex u ids [])\<rparr>"
    proof (cases "token_id_to_terminal u = [] \<or> \<not> list_ex (is_special u) ids")
      case True
      then have "id_terminals s ids = []"
        using no_special_terminals [of u ids] tables by (auto simp: id_terminals_def is_special_def)
      then show ?thesis using scan True that(1) by simp
    next
      case False
      show ?thesis
      proof (cases "eff = []")
        case True
        then show ?thesis using scan False that(3) by simp
      next
        case nonempty: False
        obtain outs v where rec: "recover_holdback_text eff (pre_lex u ids []) u = (outs, v)" by fastforce
        then have "items = pre @ outs" "s' = v" using scan False nonempty by simp_all
        then show ?thesis using that(2) [OF nonempty rec] by blast
      qed
    qed
    then have "join_decoded_text items @ deferred_post_text s' = deferred_post_text s @ d
       \<and> mset (terminals_of items) + mset (deferred_terminals s')
         = mset (deferred_terminals s) + mset (id_terminals s ids) \<and> scanner_ok s' \<and> same_tables s s'"
    proof cases
      case plain
      then show ?thesis using r by (cases "eff = []") (auto simp: plain_def)
    next
      case cut
      have post: "deferred_post_text u = []" using r cut(1) by simp
      note rec = recover_conserves [OF cut(2) post]
      have "mset (terminals_of outs) + mset (deferred_terminals v) = mset (deferred_terminals u) + mset (id_terminals s ids)"
        using rec(2) by (simp add: terminals_of_pre_lex tables)
      then have "mset (terminals_of pre) + mset (terminals_of outs) + mset (deferred_terminals v)
          = mset (deferred_terminals s) + mset (id_terminals s ids)"
        using r by (metis add.assoc)
      moreover have "join_decoded_text (pre @ outs) @ deferred_post_text v = deferred_post_text s @ d"
        using r rec(1) post by simp
      ultimately show ?thesis
        using cut(3,4) rec(3) same_tables_trans [OF _ rec(4)] r by simp
    next
      case none
      then show ?thesis using r by (auto simp: terminals_of_pre_lex tables scanner_ok_def)
    qed
    then show "join_decoded_text items @ deferred_post_text s' = deferred_post_text s @ d"
      and "mset (terminals_of items) + mset (deferred_terminals s')
           = mset (deferred_terminals s) + mset (id_terminals s ids)"
      and "scanner_ok s'" and "same_tables s s'"
      by blast+
qed

text \<open>A stream of deltas, and the flush at its end.\<close>

fun scan_stream :: "(string \<times> int list) list \<Rightarrow> scanner \<Rightarrow> lexer_input list \<times> scanner" where
  "scan_stream [] s = ([], s)"
| "scan_stream ((d, ids) # ds) s =
     (let (items, s1) = scan d ids s; (more, s2) = scan_stream ds s1 in (items @ more, s2))"

lemma id_terminals_same: "same_tables s u \<Longrightarrow> id_terminals u ids = id_terminals s ids"
  by (simp add: same_tables_def id_terminals_def is_special_def cong: filter_cong)

lemma scan_stream_conserves:
  "scan_stream ds s = (items, s') \<Longrightarrow> scanner_ok s \<Longrightarrow>
   join_decoded_text items @ deferred_post_text s' = deferred_post_text s @ concat (map fst ds)
   \<and> mset (terminals_of items) + mset (deferred_terminals s')
     = mset (deferred_terminals s) + mset (id_terminals s (concat (map snd ds)))
   \<and> scanner_ok s' \<and> same_tables s s'"
proof (induction ds s arbitrary: items rule: scan_stream.induct)
  case (2 d ids ds s)
  obtain is1 s1 where one: "scan d ids s = (is1, s1)" by fastforce
  obtain is2 where two: "scan_stream ds s1 = (is2, s')" and items: "items = is1 @ is2"
    using 2(2) one by (auto split: prod.splits)
  note c = scan_conserves [OF one 2(3)]
  have IH: "join_decoded_text is2 @ deferred_post_text s' = deferred_post_text s1 @ concat (map fst ds)
     \<and> mset (terminals_of is2) + mset (deferred_terminals s')
       = mset (deferred_terminals s1) + mset (id_terminals s1 (concat (map snd ds)))
     \<and> scanner_ok s' \<and> same_tables s1 s'"
    using 2(1) [OF one [symmetric] refl two c(3)] .
  have "mset (terminals_of is1) + mset (terminals_of is2) + mset (deferred_terminals s')
      = mset (terminals_of is1) + (mset (deferred_terminals s1) + mset (id_terminals s (concat (map snd ds))))"
    using IH id_terminals_same [OF c(4)] by (metis add.assoc)
  also have "\<dots> = mset (deferred_terminals s) + mset (id_terminals s ids) + mset (id_terminals s (concat (map snd ds)))"
    using c(2) by (metis add.assoc)
  moreover have "join_decoded_text is1 @ join_decoded_text is2 @ deferred_post_text s'
      = deferred_post_text s @ d @ concat (map fst ds)"
    using IH c(1) by (metis append.assoc)
  ultimately show ?case using IH same_tables_trans [OF c(4)] items by simp
qed simp

section \<open>Aligned deltas\<close>

text \<open>Nothing is held back: the text of the delta is the text of its ids. Special tokens have a text.\<close>

definition aligned :: "scanner \<Rightarrow> string \<times> int list \<Rightarrow> bool" where
  "aligned s d \<longleftrightarrow> fst d = concat (map (decode_token s) (snd d))"

definition special_texts :: "scanner \<Rightarrow> bool" where
  "special_texts s \<longleftrightarrow> (\<forall>(tid, name) \<in> set (token_id_to_terminal s). decode_token s tid \<noteq> [])"

lemma pre_lex_plain: "\<not> list_ex (is_special s) ids \<Longrightarrow> pre_lex s ids accum = text_run (accum @ map (decode_token s) ids)"
  by (induction s ids accum rule: pre_lex.induct) (auto simp: is_special_def)

lemma text_ends_with_refl [simp]: "text_ends_with x x"
  by (simp add: text_ends_with_def)

lemma scan_aligned:
  assumes "aligned s (d, ids)" "special_texts s" "deferred_terminals s = []"
  shows "scan d ids s = (pre_lex s ids [], s)"
proof (cases "list_ex (is_special s) ids")
  case False
  then have "pre_lex s ids [] = text_run (map (decode_token s) ids)" using pre_lex_plain by simp
  also have "\<dots> = (if d \<noteq> [] then [TextChunk d] else [])"
    using assms(1) by (auto simp: text_run_def aligned_def)
  finally show ?thesis using False assms(3) by (auto simp: scan_def Let_def)
next
  case True
  then obtain tid where tid: "tid \<in> set ids" "is_special s tid" by (auto simp: list_ex_iff)
  then obtain name where "(tid, name) \<in> set (token_id_to_terminal s)"
    by (auto simp: is_special_def dest: map_of_SomeD)
  then have "decode_token s tid \<noteq> []" using assms(2) by (auto simp: special_texts_def)
  then have "d \<noteq> []" using assms(1) tid(1) by (auto simp: aligned_def)
  have join: "join_decoded_text (pre_lex s ids []) = d"
    using assms(1) by (simp add: join_pre_lex aligned_def)
  then have "pre_lex s ids [] \<noteq> []" using \<open>d \<noteq> []\<close> by auto
  then have "recover_holdback_text d (pre_lex s ids []) s = (pre_lex s ids [], s)"
    using join \<open>d \<noteq> []\<close> by (simp add: recover_holdback_text_def with_holdback_def)
  moreover have "token_id_to_terminal s \<noteq> []" using tid(2) by (auto simp: is_special_def)
  ultimately show ?thesis using True assms(3) \<open>d \<noteq> []\<close> by (simp add: scan_def)
qed

text \<open>A delta without ids is plain text.\<close>

lemma scan_no_ids: "deferred_terminals s = [] \<Longrightarrow> scan d [] s = ((if d \<noteq> [] then [TextChunk d] else []), s)"
  by (simp add: scan_def)

end
