(* ===== verification/ParserFacts.thy ===== *)
theory ParserFacts
  imports ParserEngine LexerFacts TokenScannerFacts
begin

text \<open>
  What a client that joins the chunks hears from the engine, and why it does not depend on how the
  stream was cut: the steps of the machine do not look at the lexer's buffer, content may be fed in
  any pieces, and the calls of one stream perform the actions of its whole text.
\<close>

section \<open>What is heard\<close>

definition is_chunk :: "event_type \<Rightarrow> bool" where
  "is_chunk t = List.member [TEXT_CHUNK, REASONING_CHUNK, NAME_CHUNK, ARG_VALUE_CHUNK] t"

text \<open>A chunk stands for its characters; the other events are taken as they are.\<close>

definition heard_of :: "semantic_event \<Rightarrow> semantic_event list" where
  "heard_of v = (if is_chunk (ev_type v) then map (\<lambda>c. SemanticEvent (ev_type v) [c] (ev_index v)) (ev_value v) else [v])"

definition heard :: "semantic_event list \<Rightarrow> semantic_event list" where
  "heard vs = concat (map heard_of vs)"

lemma heard_simps [simp]:
  "heard [] = []"
  "heard (v # vs) = heard_of v @ heard vs"
  "heard (vs @ ws) = heard vs @ heard ws"
  by (simp_all add: heard_def)

definition same_run :: "semantic_event list \<times> engine \<Rightarrow> semantic_event list \<times> engine \<Rightarrow> bool" where
  "same_run r r' \<longleftrightarrow> heard (fst r) = heard (fst r') \<and> snd r = snd r'"

lemma same_run_refl [simp]: "same_run r r"
  and same_run_sym: "same_run r r' \<Longrightarrow> same_run r' r"
  and same_run_trans [trans]: "same_run r r' \<Longrightarrow> same_run r' r'' \<Longrightarrow> same_run r r''"
  by (simp_all add: same_run_def)

definition and_then ::
    "semantic_event list \<times> engine \<Rightarrow> (engine \<Rightarrow> semantic_event list \<times> engine) \<Rightarrow> semantic_event list \<times> engine" where
  "and_then r f = (let (more, e) = f (snd r) in (fst r @ more, e))"

lemma and_then_simps [simp]:
  "fst (and_then r f) = fst r @ fst (f (snd r))"
  "snd (and_then r f) = snd (f (snd r))"
  by (simp_all add: and_then_def Let_def split: prod.splits)

lemma and_then_unit [simp]: "and_then ([], e) f = f e"
  by (simp add: and_then_def)

lemma and_then_assoc: "and_then (and_then r f) g = and_then r (\<lambda>e. and_then (f e) g)"
  by (simp add: prod_eq_iff)

lemma same_run_and_then:
  assumes "same_run r r'" "\<And>e. e = snd r \<Longrightarrow> same_run (f e) (g e)"
  shows "same_run (and_then r f) (and_then r' g)"
  using assms by (auto simp: same_run_def)

lemma each_event_Cons: "each_event f (x # xs) e = and_then (f x e) (each_event f xs)"
  by (simp add: and_then_def split: prod.splits)

lemma each_event_append: "each_event f (xs @ ys) e = and_then (each_event f xs e) (each_event f ys)"
proof (induction xs arbitrary: e)
  case (Cons x xs)
  then have "each_event f (xs @ ys) = (\<lambda>e. and_then (each_event f xs e) (each_event f ys))" by (intro ext)
  then show ?case unfolding append_Cons each_event_Cons and_then_assoc by (rule arg_cong)
qed simp

declare each_event.simps(2) [simp del]

lemma each_event_map: "each_event f (map g xs) e = each_event (\<lambda>x. f (g x)) xs e"
  by (induction xs arbitrary: e) (simp_all add: each_event_Cons and_then_def)

lemma same_run_each:
  assumes "\<And>x e. x \<in> set xs \<Longrightarrow> P e \<Longrightarrow> same_run (f x e) (g x e) \<and> P (snd (f x e))" "P e"
  shows "same_run (each_event f xs e) (each_event g xs e)"
  using assms
proof (induction xs arbitrary: e)
  case (Cons x xs)
  have x: "same_run (f x e) (g x e)" "P (snd (f x e))" using Cons.prems by auto
  have "same_run (each_event f xs (snd (f x e))) (each_event g xs (snd (f x e)))"
    by (rule Cons.IH) (use Cons.prems x(2) in auto)
  then show ?case unfolding each_event_Cons by (intro same_run_and_then x(1)) simp
qed simp

section \<open>Steps that do not look at scanner and lexer\<close>

definition at_input :: "scanner \<Rightarrow> string \<Rightarrow> engine \<Rightarrow> engine" where
  "at_input sc buf e = e\<lparr>eng_scanner := sc, lex_buffer := buf\<rparr>"

text \<open>Such a step behaves the same whatever they hold, and leaves the tables of the engine alone.\<close>

definition unaware :: "(engine \<Rightarrow> semantic_event list \<times> engine) \<Rightarrow> bool" where
  "unaware f \<longleftrightarrow> (\<forall>sc buf e. f (at_input sc buf e) = (fst (f e), at_input sc buf (snd (f e))))"

definition tables :: "engine \<Rightarrow> engine" where
  "tables e = e\<lparr>eng_scanner := \<lparr>token_id_to_terminal = token_id_to_terminal (eng_scanner e),
      decode_token = decode_token (eng_scanner e), deferred_terminals = [], deferred_post_text = []\<rparr>,
    lex_buffer := [], pstate := CONTENT, tool_index := 0, args_buffer := [], args_safe_end := 0, args_brace_depth := 0,
    args_in_string := False, args_escape_next := False\<rparr>"

lemma at_input_simps [simp]:
  "eng_config (at_input sc buf e) = eng_config e" "has_drops (at_input sc buf e) = has_drops e"
  "token_id_terminal_names (at_input sc buf e) = token_id_terminal_names e"
  "tool_terminals (at_input sc buf e) = tool_terminals e" "eng_shape (at_input sc buf e) = eng_shape e"
  "resolved_token_ids (at_input sc buf e) = resolved_token_ids e"
  "skip_tool_parsing (at_input sc buf e) = skip_tool_parsing e" "pstate (at_input sc buf e) = pstate e"
  "tool_index (at_input sc buf e) = tool_index e" "ever_had_token_ids (at_input sc buf e) = ever_had_token_ids e"
  "args_buffer (at_input sc buf e) = args_buffer e" "args_safe_end (at_input sc buf e) = args_safe_end e"
  "args_brace_depth (at_input sc buf e) = args_brace_depth e" "args_in_string (at_input sc buf e) = args_in_string e"
  "args_escape_next (at_input sc buf e) = args_escape_next e"
  "eng_scanner (at_input sc buf e) = sc" "lex_buffer (at_input sc buf e) = buf"
  "at_input sc' buf' (at_input sc buf e) = at_input sc' buf' e"
  by (simp_all add: at_input_def)

lemma at_input_updates [simp]:
  "(at_input sc buf e)\<lparr>pstate := s\<rparr> = at_input sc buf (e\<lparr>pstate := s\<rparr>)"
  "(at_input sc buf e)\<lparr>tool_index := i\<rparr> = at_input sc buf (e\<lparr>tool_index := i\<rparr>)"
  "(at_input sc buf e)\<lparr>args_buffer := t\<rparr> = at_input sc buf (e\<lparr>args_buffer := t\<rparr>)"
  "(at_input sc buf e)\<lparr>args_safe_end := n\<rparr> = at_input sc buf (e\<lparr>args_safe_end := n\<rparr>)"
  "(at_input sc buf e)\<lparr>args_brace_depth := n\<rparr> = at_input sc buf (e\<lparr>args_brace_depth := n\<rparr>)"
  "(at_input sc buf e)\<lparr>args_in_string := b\<rparr> = at_input sc buf (e\<lparr>args_in_string := b\<rparr>)"
  "(at_input sc buf e)\<lparr>args_escape_next := b\<rparr> = at_input sc buf (e\<lparr>args_escape_next := b\<rparr>)"
  by (simp_all add: at_input_def)

lemma tables_updates [simp]:
  "tables (e\<lparr>pstate := s\<rparr>) = tables e" "tables (e\<lparr>tool_index := i\<rparr>) = tables e"
  "tables (e\<lparr>args_buffer := t\<rparr>) = tables e" "tables (e\<lparr>args_safe_end := n\<rparr>) = tables e"
  "tables (e\<lparr>args_brace_depth := n\<rparr>) = tables e" "tables (e\<lparr>args_in_string := b\<rparr>) = tables e"
  "tables (e\<lparr>args_escape_next := b\<rparr>) = tables e"
  by (simp_all add: tables_def)

lemma unawareD: "unaware f \<Longrightarrow> f (at_input sc buf e) = (fst (f e), at_input sc buf (snd (f e)))"
  by (simp add: unaware_def)

text \<open>
  A property of steps that the empty step has and that sequences inherit holds of every loop over such
  steps.
\<close>

locale closed_steps =
  fixes good :: "(engine \<Rightarrow> semantic_event list \<times> engine) \<Rightarrow> bool"
  assumes good_unit: "good (Pair [])"
    and good_seq: "good f \<Longrightarrow> good g \<Longrightarrow> good (\<lambda>e. and_then (f e) g)"
begin

lemma good_each:
  assumes "\<And>x. good (f x)"
  shows "good (each_event f xs)"
proof (induction xs)
  case Nil
  have "each_event f [] = Pair []" by (rule ext) simp
  then show ?case using good_unit by simp
next
  case (Cons x xs)
  have "each_event f (x # xs) = (\<lambda>e. and_then (f x e) (each_event f xs))" by (rule ext) (rule each_event_Cons)
  then show ?case using good_seq [OF assms Cons.IH] by simp
qed

end

interpretation unaware_steps: closed_steps unaware
  by unfold_locales (simp_all add: unaware_def prod_eq_iff)

definition keeps_tables :: "(engine \<Rightarrow> semantic_event list \<times> engine) \<Rightarrow> bool" where
  "keeps_tables f \<longleftrightarrow> (\<forall>e. tables (snd (f e)) = tables e)"

lemma keepsD: "keeps_tables f \<Longrightarrow> tables (snd (f e)) = tables e"
  by (simp add: keeps_tables_def)

interpretation keeping_steps: closed_steps keeps_tables
  by unfold_locales (simp_all add: keeps_tables_def)

lemma tables_simps:
  "eng_config (tables e) = eng_config e" "resolved_token_ids (tables e) = resolved_token_ids e"
  "has_drops (tables e) = has_drops e" "token_id_terminal_names (tables e) = token_id_terminal_names e"
  "eng_shape (tables e) = eng_shape e" "tool_terminals (tables e) = tool_terminals e"
  "skip_tool_parsing (tables e) = skip_tool_parsing e" "ever_had_token_ids (tables e) = ever_had_token_ids e"
  by (simp_all add: tables_def)

lemma tablesD:
  assumes "tables e = tables e'"
  shows "eng_config e = eng_config e'" "resolved_token_ids e = resolved_token_ids e'" "has_drops e = has_drops e'"
    "token_id_terminal_names e = token_id_terminal_names e'" "eng_shape e = eng_shape e'"
    "tool_terminals e = tool_terminals e'" "skip_tool_parsing e = skip_tool_parsing e'"
    "ever_had_token_ids e = ever_had_token_ids e'"
    "same_tables (eng_scanner e) (eng_scanner e')"
proof -
  have sc: "token_id_to_terminal (eng_scanner (tables e)) = token_id_to_terminal (eng_scanner e)"
    "decode_token (eng_scanner (tables e)) = decode_token (eng_scanner e)" for e
    by (simp_all add: tables_def)
  show "same_tables (eng_scanner e) (eng_scanner e')"
    unfolding same_tables_def using sc [of e] sc [of e'] assms by simp
qed (use tables_simps [of e] tables_simps [of e'] assms in simp_all)

lemma tables_at_input [simp]: "same_tables (eng_scanner e) sc \<Longrightarrow> tables (at_input sc buf e) = tables e"
  by (simp add: tables_def at_input_def same_tables_def)

lemma safe_args_props [simp]:
  "safe_args (at_input sc buf e) = (fst (safe_args e), at_input sc buf (snd (safe_args e)))"
  "tables (snd (safe_args e)) = tables e"
  by (simp_all add: safe_args_def flush_safe_args_def)

lemma feed_args_char_props: "unaware (feed_args_char ch)" "keeps_tables (feed_args_char ch)"
  by (simp_all add: unaware_def keeps_tables_def feed_args_char_def Let_def)

lemma feed_args_text_each: "feed_args_text t = each_event feed_args_char t"
  by (rule ext) (simp add: feed_args_text_def)

lemma apply_events_props: "unaware (apply_events ts v)" "keeps_tables (apply_events ts v)"
proof (induction ts)
  case (Cons t ts)
  { case 1 show ?case using Cons(1) by (simp add: unaware_def Let_def split_beta) }
  { case 2 show ?case using Cons(2) by (simp add: keeps_tables_def Let_def split_beta) }
qed (simp_all add: unaware_def keeps_tables_def)

lemma feed_args_text_props: "unaware (feed_args_text t)" "keeps_tables (feed_args_text t)"
  unfolding feed_args_text_each
  by (simp_all add: unaware_steps.good_each keeping_steps.good_each feed_args_char_props)

lemma apply_transition_props: "unaware (apply_transition tr v)" "keeps_tables (apply_transition tr v)"
proof -
  note un = apply_events_props(1) [of "tr_events tr" v, unfolded unaware_def, rule_format]
  note ke = apply_events_props(2) [of "tr_events tr" v, unfolded keeps_tables_def, rule_format]
  show "unaware (apply_transition tr v)"
    by (simp add: unaware_def apply_transition_def Let_def split_beta un)
  show "keeps_tables (apply_transition tr v)"
    by (simp add: keeps_tables_def apply_transition_def Let_def split_beta ke)
qed

lemma emit_in_state_props: "unaware (emit_in_state t)" "keeps_tables (emit_in_state t)"
  using feed_args_text_props [of t]
  by (auto simp: unaware_def keeps_tables_def emit_in_state_def split: option.splits)

lemma emit_for_state_props: "unaware (emit_for_state t)" "keeps_tables (emit_for_state t)"
  using emit_in_state_props [of t] apply_transition_props [of _ t]
  by (auto simp: unaware_def keeps_tables_def emit_for_state_def split: option.splits)

lemma on_content_props: "unaware (on_content t)" "keeps_tables (on_content t)"
  using emit_for_state_props [of t] by (auto simp: unaware_def keeps_tables_def on_content_def)

lemma on_terminal_props: "unaware (on_terminal n v)" "keeps_tables (on_terminal n v)"
proof -
  note un = unawareD [OF emit_for_state_props(1)] unawareD [OF apply_transition_props(1)]
  note ke = keepsD [OF emit_for_state_props(2)] keepsD [OF apply_transition_props(2)]
  have "on_terminal n v (at_input sc buf e) = (fst (on_terminal n v e), at_input sc buf (snd (on_terminal n v e)))" for sc buf e
    by (cases "map_of (pc_transitions (eng_config e)) (pstate e, n)")
      (simp_all add: on_terminal_def un split: option.split)
  then show "unaware (on_terminal n v)" by (simp add: unaware_def)
  have "tables (snd (on_terminal n v e)) = tables e" for e
    by (cases "map_of (pc_transitions (eng_config e)) (pstate e, n)")
      (simp_all add: on_terminal_def ke split: option.split)
  then show "keeps_tables (on_terminal n v)" by (simp add: keeps_tables_def)
qed

lemma on_lex_token_props: "unaware (on_lex_token t)" "keeps_tables (on_lex_token t)"
  using on_content_props [of "tok_value t"] on_terminal_props [of "tok_terminal t" "tok_value t"]
  by (auto simp: unaware_def keeps_tables_def on_lex_token_def)

lemma process_lex_tokens_each: "process_lex_tokens toks = each_event on_lex_token toks"
  by (rule ext) (simp add: process_lex_tokens_def)

lemma process_lex_tokens_props: "unaware (process_lex_tokens toks)" "keeps_tables (process_lex_tokens toks)"
  unfolding process_lex_tokens_each
  by (simp_all add: unaware_steps.good_each keeping_steps.good_each on_lex_token_props)

section \<open>Content in pieces\<close>

text \<open>
  What a format needs so that content may come in any pieces: plain content becomes chunks, and a
  transition on visible content emits one chunk of the kind that the white space before it and the
  content after it become.
\<close>

definition emitted_kind :: "parser_config \<Rightarrow> parser_state \<Rightarrow> event_type option" where
  "emitted_kind cfg s = (if s = TOOL_ARGS then Some ARG_VALUE_CHUNK else map_of (pc_content_events cfg) s)"

definition streams_evenly :: "parser_config \<Rightarrow> bool" where
  "streams_evenly cfg \<longleftrightarrow>
     (\<forall>s t. map_of (pc_content_events cfg) s = Some t \<longrightarrow> is_chunk t)
   \<and> (\<forall>s tr. map_of (pc_non_whitespace_transitions cfg) s = Some tr \<longrightarrow>
        s \<noteq> TOOL_ARGS \<and> (next_state tr = TOOL_ARGS \<longrightarrow> \<not> pc_tool_args_json cfg)
      \<and> map_of (pc_non_whitespace_transitions cfg) (next_state tr) = None
      \<and> (\<exists>t. tr_events tr = [t] \<and> is_chunk t \<and> emitted_kind cfg s = Some t \<and> emitted_kind cfg (next_state tr) = Some t))"

lemma py_strip_empty: "py_strip s = [] \<longleftrightarrow> list_all is_space s"
proof -
  have "py_strip s = [] \<longleftrightarrow> dropWhile is_space (rev (dropWhile is_space s)) = []"
    by (simp add: py_strip_def py_rstrip_def py_lstrip_def)
  also have "\<dots> \<longleftrightarrow> (\<forall>c \<in> set (dropWhile is_space s). is_space c)" by (simp add: dropWhile_eq_Nil_conv)
  also have "\<dots> \<longleftrightarrow> list_all is_space s"
  proof
    assume *: "\<forall>c \<in> set (dropWhile is_space s). is_space c"
    then have "dropWhile is_space s = []"
      by (metis hd_dropWhile_not hd_in_set)
    then show "list_all is_space s" by (simp add: dropWhile_eq_Nil_conv list_all_iff)
  next
    assume "list_all is_space s"
    then show "\<forall>c \<in> set (dropWhile is_space s). is_space c"
      by (auto simp: list_all_iff dest: set_dropWhileD)
  qed
  finally show ?thesis .
qed

lemma heard_of_chunk: "is_chunk t \<Longrightarrow> heard_of (SemanticEvent t v i) = map (\<lambda>c. SemanticEvent t [c] i) v"
  by (simp add: heard_of_def)

lemma is_chunk_arg [simp]: "is_chunk ARG_VALUE_CHUNK" "\<not> is_chunk TOOL_CALL_START"
  by (simp_all add: is_chunk_def)

text \<open>Where no transition applies, emission splits.\<close>

lemma feed_args_text_state: "pstate (snd (feed_args_text t e)) = pstate e" "eng_config (snd (feed_args_text t e)) = eng_config e"
proof -
  have safe: "pstate (snd (safe_args e)) = pstate e" for e by (simp add: safe_args_def flush_safe_args_def)
  have "pstate (snd (feed_args_char c e)) = pstate e" for c e by (simp add: feed_args_char_def Let_def safe)
  then show "pstate (snd (feed_args_text t e)) = pstate e"
    unfolding feed_args_text_each by (induction t arbitrary: e) (simp_all add: each_event_Cons)
  have "tables (snd (feed_args_text t e)) = tables e"
    using feed_args_text_props(2) by (simp add: keeps_tables_def)
  then show "eng_config (snd (feed_args_text t e)) = eng_config e" by (rule tablesD)
qed

lemma emit_in_state_split:
  assumes "streams_evenly (eng_config e)"
  shows "same_run (emit_in_state (u @ v) e) (and_then (emit_in_state u e) (emit_in_state v))"
proof (cases "pstate e = TOOL_ARGS \<and> pc_tool_args_json (eng_config e)")
  case True
  then have "emit_in_state t e = feed_args_text t e" "emit_in_state t (snd (feed_args_text u e)) = feed_args_text t (snd (feed_args_text u e))" for t
    by (simp_all add: emit_in_state_def feed_args_text_state)
  then have "and_then (emit_in_state u e) (emit_in_state v) = emit_in_state (u @ v) e"
    by (simp add: feed_args_text_each each_event_append prod_eq_iff)
  then show ?thesis by simp
next
  case False
  then show ?thesis
    using assms
    by (auto simp: emit_in_state_def same_run_def heard_of_chunk streams_evenly_def split: option.splits)
qed

lemma emit_in_state_blank: "streams_evenly (eng_config e) \<Longrightarrow> same_run (emit_in_state [] e) ([], e)"
  by (auto simp: emit_in_state_def same_run_def heard_of_chunk streams_evenly_def feed_args_text_def split: option.splits)

text \<open>Content that has been emitted by its state, as one chunk of the kind of the state.\<close>

lemma emit_in_state_kind:
  assumes "emitted_kind (eng_config e) (pstate e) = Some t" "pstate e = TOOL_ARGS \<Longrightarrow> \<not> pc_tool_args_json (eng_config e)"
  shows "emit_in_state v e = ([SemanticEvent t v (tool_index e)], e)"
  using assms by (auto simp: emit_in_state_def emitted_kind_def)

lemma emit_for_state_split:
  assumes ok: "streams_evenly (eng_config e)"
  shows "same_run (emit_for_state (u @ v) e) (and_then (emit_for_state u e) (emit_for_state v))"
proof (cases "map_of (pc_non_whitespace_transitions (eng_config e)) (pstate e)")
  case None
  have "pstate (snd (emit_in_state u e)) = pstate e" "eng_config (snd (emit_in_state u e)) = eng_config e"
    by (auto simp: emit_in_state_def feed_args_text_state split: option.splits)
  then have "emit_for_state t e = emit_in_state t e"
    "emit_for_state t (snd (emit_in_state u e)) = emit_in_state t (snd (emit_in_state u e))" for t
    using None by (simp_all add: emit_for_state_def)
  then have "and_then (emit_for_state u e) (emit_for_state v) = and_then (emit_in_state u e) (emit_in_state v)"
    by (simp add: prod_eq_iff)
  then show ?thesis using emit_in_state_split [OF ok] None by (simp add: emit_for_state_def)
next
  case (Some tr)
  then have s: "pstate e \<noteq> TOOL_ARGS" and json: "next_state tr = TOOL_ARGS \<Longrightarrow> \<not> pc_tool_args_json (eng_config e)"
    and stop: "map_of (pc_non_whitespace_transitions (eng_config e)) (next_state tr) = None"
    and "\<exists>t. tr_events tr = [t] \<and> is_chunk t \<and> emitted_kind (eng_config e) (pstate e) = Some t
            \<and> emitted_kind (eng_config e) (next_state tr) = Some t"
    using ok unfolding streams_evenly_def by blast+
  then obtain t where t: "tr_events tr = [t]" "is_chunk t" "emitted_kind (eng_config e) (pstate e) = Some t"
    "emitted_kind (eng_config e) (next_state tr) = Some t" by blast
  define e' where "e' = snd (apply_transition tr u e)"
  have tr: "apply_transition tr w e = ([SemanticEvent t w (tool_index e)], e')" for w
    using s t(1,2) by (auto simp: e'_def apply_transition_def Let_def)
  have e': "pstate e' = next_state tr" "tool_index e' = tool_index e" "eng_config e' = eng_config e"
    using s t(1,2) by (auto simp: e'_def apply_transition_def Let_def)
  have blank: "emit_in_state w e = ([SemanticEvent t w (tool_index e)], e)" for w
    using emit_in_state_kind [OF t(3)] s by simp
  have after: "emit_for_state w e' = ([SemanticEvent t w (tool_index e)], e')" for w
    using emit_in_state_kind [of e' t w] e' t(4) json stop by (simp add: emit_for_state_def)
  have here: "emit_for_state w e = (if py_strip w \<noteq> [] then ([SemanticEvent t w (tool_index e)], e')
      else ([SemanticEvent t w (tool_index e)], e))" for w
    using Some by (simp add: emit_for_state_def tr blank)
  show ?thesis
    unfolding here by (auto simp: same_run_def heard_of_chunk t(2) after here py_strip_empty)
qed

lemma emit_for_state_blank:
  assumes "streams_evenly (eng_config e)"
  shows "same_run (emit_for_state [] e) ([], e)"
  using emit_in_state_blank [OF assms]
  by (auto simp: emit_for_state_def py_strip_empty split: option.splits)

lemma on_content_emit: "streams_evenly (eng_config e) \<Longrightarrow> same_run (on_content t e) (emit_for_state t e)"
  by (auto simp: on_content_def intro: same_run_sym [OF emit_for_state_blank])

end
