(* ===== verification/ParserStream.thy ===== *)
theory ParserStream
  imports ParserFacts
begin

text \<open>
  A stream of deltas against its whole text. \<open>actions\<close> is what the machine does for a sequence of
  scanner items when the text between two special tokens is lexed at once; the engine, which lexes
  what has arrived, holds back and takes short cuts, is heard to do the same.
\<close>

section \<open>Tokens and their pieces\<close>

lemma content_pieces:
  assumes "streams_evenly (eng_config e)"
  shows "same_run (each_event on_lex_token (map (\<lambda>c. LexToken CONTENT_TERMINAL [c]) v) e) (emit_for_state v e)"
  using assms
proof (induction v arbitrary: e)
  case Nil
  then show ?case using same_run_sym [OF emit_for_state_blank] by simp
next
  case (Cons c v)
  let ?e = "snd (emit_for_state [c] e)"
  have "tables ?e = tables e" by (rule keepsD [OF emit_for_state_props(2)])
  then have even: "streams_evenly (eng_config ?e)" using Cons.prems tablesD(1) by metis
  have first: "on_lex_token (LexToken CONTENT_TERMINAL [c]) e = emit_for_state [c] e"
    by (simp add: on_lex_token_def on_content_def)
  have "same_run (each_event on_lex_token (map (\<lambda>c. LexToken CONTENT_TERMINAL [c]) (c # v)) e)
      (and_then (emit_for_state [c] e) (emit_for_state v))"
    unfolding list.map each_event_Cons first
    by (intro same_run_and_then) (use Cons.IH [OF even] in simp_all)
  also have "same_run \<dots> (emit_for_state ([c] @ v) e)"
    by (rule same_run_sym [OF emit_for_state_split [OF Cons.prems]])
  finally show ?case by simp
qed

lemma token_pieces:
  assumes "streams_evenly (eng_config e)"
  shows "same_run (each_event on_lex_token (piece_of t) e) (on_lex_token t e)"
proof (cases "tok_terminal t = CONTENT_TERMINAL")
  case True
  have "same_run (each_event on_lex_token (piece_of t) e) (emit_for_state (tok_value t) e)"
    using content_pieces [OF assms] True by (simp add: piece_of_def)
  also have "same_run \<dots> (on_lex_token t e)"
    using same_run_sym [OF on_content_emit [OF assms]] True by (simp add: on_lex_token_def)
  finally show ?thesis .
next
  case False
  then show ?thesis by (simp add: piece_of_def each_event_Cons same_run_def)
qed

lemma process_pieces:
  assumes "streams_evenly (eng_config e)"
  shows "same_run (each_event on_lex_token (pieces toks) e) (process_lex_tokens toks e)"
  using assms unfolding process_lex_tokens_def
proof (induction toks arbitrary: e)
  case (Cons t toks)
  have "tables (snd (on_lex_token t e)) = tables e" by (rule keepsD [OF on_lex_token_props(2)])
  then have "streams_evenly (eng_config (snd (on_lex_token t e)))" using Cons.prems tablesD(1) by metis
  note rest = Cons.IH [OF this]
  have "snd (each_event on_lex_token (piece_of t) e) = snd (on_lex_token t e)"
    using token_pieces [OF Cons.prems] by (simp add: same_run_def)
  then show ?case
    unfolding pieces_simps each_event_append each_event_Cons
    by (intro same_run_and_then token_pieces Cons.prems) (use rest in simp)
qed simp

section \<open>Actions\<close>

datatype action = Lexed lex_token | Special prelexed

fun perform :: "action \<Rightarrow> engine \<Rightarrow> semantic_event list \<times> engine" where
  "perform (Lexed t) e = on_lex_token t e"
| "perform (Special p) e = on_terminal (pt_terminal p) (pt_text p) e"

text \<open>The text between two special tokens is collected, and lexed as one.\<close>

fun actions :: "lexer_shape \<Rightarrow> string \<Rightarrow> lexer_input list \<Rightarrow> action list" where
  "actions sh acc [] = map Lexed (pieces (plain_lex sh acc))"
| "actions sh acc (TextChunk t # items) = actions sh (acc @ t) items"
| "actions sh acc (PreLexed p # items) = map Lexed (pieces (plain_lex sh acc)) @ Special p # actions sh [] items"

definition performs :: "action list \<Rightarrow> engine \<Rightarrow> semantic_event list \<times> engine" where
  "performs acts e = each_event perform acts e"

lemma perform_props: "unaware (perform a)" "keeps_tables (perform a)"
proof -
  have "perform (Lexed t) = on_lex_token t" "perform (Special p) = on_terminal (pt_terminal p) (pt_text p)" for t p
    by (rule ext, simp)+
  then show "unaware (perform a)" "keeps_tables (perform a)"
    using on_lex_token_props on_terminal_props by (cases a; simp)+
qed

lemma performs_props: "unaware (performs acts)" "keeps_tables (performs acts)"
proof -
  have eq: "performs acts = each_event perform acts" by (rule ext) (simp add: performs_def)
  show "unaware (performs acts)" "keeps_tables (performs acts)"
    unfolding eq by (rule unaware_steps.good_each keeping_steps.good_each, rule perform_props)+
qed

lemma performs_append: "performs (as @ bs) e = and_then (performs as e) (performs bs)"
  unfolding performs_def by (rule each_event_append)

lemma performs_lexed: "performs (map Lexed ts) e = each_event on_lex_token ts e"
proof -
  have "(\<lambda>t. perform (Lexed t)) = on_lex_token" by (intro ext) simp
  then show ?thesis by (simp add: performs_def each_event_map)
qed

lemma performs_Cons: "performs (a # as) e = and_then (perform a e) (performs as)"
  unfolding performs_def by (rule each_event_Cons)

text \<open>What the lexer has emitted is the beginning of what is to be done, whatever follows.\<close>

lemma actions_feed:
  assumes "shape_ok sh"
  shows "actions sh (buf @ t @ r) items
    = map Lexed (pieces (fst (lexer_feed sh buf t))) @ actions sh (snd (lexer_feed sh buf t) @ r) items"
proof (induction items arbitrary: r)
  case Nil
  then show ?case using feed_commits [OF assms, of buf t r] by simp
next
  case (Cons i items)
  show ?case
  proof (cases i)
    case (TextChunk u)
    then show ?thesis using Cons.IH [of "r @ u"] by simp
  next
    case (PreLexed p)
    then show ?thesis using feed_commits [OF assms, of buf t r] by simp
  qed
qed

lemma actions_flush:
  assumes "shape_ok sh"
  shows "actions sh buf (PreLexed p # items)
    = map Lexed (pieces (fst (lexer_flush sh buf))) @ Special p # actions sh [] items"
  using flush_commits [OF assms] by simp

section \<open>The items of a stream\<close>

text \<open>The engine with nothing at its input.\<close>

definition blank :: "scanner \<Rightarrow> engine \<Rightarrow> engine" where
  "blank sc e = at_input sc [] e"

lemma unaware_blank: "unaware f \<Longrightarrow> f (blank sc e) = (fst (f e), blank sc (snd (f e)))"
  unfolding blank_def by (rule unawareD)

lemma lex_and_process_alt:
  "lex_and_process r e = (fst (process_lex_tokens (fst r) e), at_input (eng_scanner e) (snd r) (snd (process_lex_tokens (fst r) e)))"
proof -
  have "e\<lparr>lex_buffer := snd r\<rparr> = at_input (eng_scanner e) (snd r) e" by (simp add: at_input_def)
  then show ?thesis
    unfolding lex_and_process_def using unawareD [OF process_lex_tokens_props(1), of "fst r" "eng_scanner e" "snd r" e]
    by (simp only:)
qed

text \<open>
  One item, then the rest of the stream: the engine performs what the lexer emits, and the rest is
  what is still to be done.
\<close>

lemma on_item_performs:
  assumes "shape_ok (eng_shape e)" "streams_evenly (eng_config e)"
  shows "same_run (performs (actions (eng_shape e) (lex_buffer e) (i # items)) (blank sc e))
    (and_then (on_item i e) (\<lambda>e1. performs (actions (eng_shape e) (lex_buffer e1) items) (blank sc e1)))"
proof -
  have pieces: "same_run (performs (map Lexed (pieces toks)) (blank sc e))
      (fst (process_lex_tokens toks e), blank sc (snd (process_lex_tokens toks e)))" for toks
  proof -
    have "streams_evenly (eng_config (blank sc e))" using assms(2) by (simp add: blank_def)
    from process_pieces [OF this, of toks] show ?thesis
      by (simp add: performs_lexed unaware_blank [OF process_lex_tokens_props(1)])
  qed
  show ?thesis
  proof (cases i)
    case (TextChunk t)
    let ?r = "lexer_feed (eng_shape e) (lex_buffer e) t"
    have acts: "actions (eng_shape e) (lex_buffer e) (i # items)
        = map Lexed (pieces (fst ?r)) @ actions (eng_shape e) (snd ?r) items"
      using actions_feed [OF assms(1), of "lex_buffer e" t "[]" items] TextChunk by simp
    have step: "on_item i e = lex_and_process ?r e" by (simp add: TextChunk)
    show ?thesis
      unfolding acts performs_append step lex_and_process_alt
      using pieces [of "fst ?r"] by (simp add: same_run_def blank_def)
  next
    case (PreLexed p)
    let ?r = "lexer_flush (eng_shape e) (lex_buffer e)"
    have acts: "actions (eng_shape e) (lex_buffer e) (i # items)
        = map Lexed (pieces (fst ?r)) @ Special p # actions (eng_shape e) [] items"
      using actions_flush [OF assms(1)] PreLexed by simp
    have step: "on_item i e = and_then (lex_and_process ?r e) (on_terminal (pt_terminal p) (pt_text p))"
      by (simp add: PreLexed and_then_def split_beta)
    have un: "on_terminal (pt_terminal p) (pt_text p) (at_input sc' buf e') =
        (fst (on_terminal (pt_terminal p) (pt_text p) e'), at_input sc' buf (snd (on_terminal (pt_terminal p) (pt_text p) e')))"
      for sc' buf e' by (rule unawareD [OF on_terminal_props(1)])
    show ?thesis
      unfolding acts performs_append performs_Cons step lex_and_process_alt
      using pieces [of "fst ?r"]
      by (simp add: same_run_def blank_def un flush_empties)
  qed
qed

lemma unaware_input:
  assumes "unaware f"
  shows "eng_scanner (snd (f e)) = eng_scanner e" "lex_buffer (snd (f e)) = lex_buffer e"
proof -
  have "f e = f (at_input (eng_scanner e) (lex_buffer e) e)" by (simp add: at_input_def)
  then have "snd (f e) = at_input (eng_scanner e) (lex_buffer e) (snd (f e))"
    using unawareD [OF assms] by (metis snd_conv)
  then show "eng_scanner (snd (f e)) = eng_scanner e" "lex_buffer (snd (f e)) = lex_buffer e"
    by (metis at_input_simps(16), metis at_input_simps(17))
qed

lemma lex_and_process_keeps: "tables (snd (lex_and_process r e)) = tables e"
  "eng_scanner (snd (lex_and_process r e)) = eng_scanner e"
proof -
  have "eng_scanner (snd (process_lex_tokens (fst r) e)) = eng_scanner e"
    by (rule unaware_input [OF process_lex_tokens_props(1)])
  then show "tables (snd (lex_and_process r e)) = tables e" "eng_scanner (snd (lex_and_process r e)) = eng_scanner e"
    by (simp_all add: lex_and_process_alt same_tables_def keepsD [OF process_lex_tokens_props(2)])
qed

lemma on_item_keeps: "tables (snd (on_item i e)) = tables e" "eng_scanner (snd (on_item i e)) = eng_scanner e"
  by (cases i; simp add: split_beta lex_and_process_keeps keepsD [OF on_terminal_props(2)]
        unaware_input [OF on_terminal_props(1)])+

lemma process_items_keeps:
  "tables (snd (process_scanner_items items e)) = tables e"
  "eng_scanner (snd (process_scanner_items items e)) = eng_scanner e"
  unfolding process_scanner_items_def
  by (induction items arbitrary: e) (simp_all add: each_event_Cons on_item_keeps)

lemma items_perform:
  assumes "shape_ok (eng_shape e)" "streams_evenly (eng_config e)"
  shows "same_run (performs (actions (eng_shape e) (lex_buffer e) (items @ rest)) (blank sc e))
    (and_then (process_scanner_items items e) (\<lambda>e1. performs (actions (eng_shape e) (lex_buffer e1) rest) (blank sc e1)))"
  using assms
proof (induction items arbitrary: e)
  case Nil
  then show ?case by (simp add: process_scanner_items_def)
next
  case (Cons i items)
  let ?e = "snd (on_item i e)"
  have t: "eng_shape ?e = eng_shape e" "eng_config ?e = eng_config e"
    using tablesD [OF on_item_keeps(1)] by simp_all
  have "same_run (performs (actions (eng_shape e) (lex_buffer e) ((i # items) @ rest)) (blank sc e))
      (and_then (on_item i e) (\<lambda>e1. performs (actions (eng_shape e) (lex_buffer e1) (items @ rest)) (blank sc e1)))"
    unfolding append_Cons by (rule on_item_performs [OF Cons.prems])
  also have "same_run \<dots> (and_then (on_item i e) (\<lambda>e1. and_then (process_scanner_items items e1)
      (\<lambda>e2. performs (actions (eng_shape e) (lex_buffer e2) rest) (blank sc e2))))"
    by (intro same_run_and_then same_run_refl) (use Cons.IH [of ?e] Cons.prems t in simp)
  finally show ?case
    by (simp add: process_scanner_items_def each_event_Cons and_then_assoc)
qed

lemma flush_performs:
  assumes "shape_ok (eng_shape e)" "streams_evenly (eng_config e)"
  shows "same_run (performs (actions (eng_shape e) (lex_buffer e) []) (blank sc e))
    (fst (lex_and_process (lexer_flush (eng_shape e) (lex_buffer e)) e),
     blank sc (snd (lex_and_process (lexer_flush (eng_shape e) (lex_buffer e)) e)))"
proof -
  let ?toks = "fst (lexer_flush (eng_shape e) (lex_buffer e))"
  have even: "streams_evenly (eng_config (blank sc e))" using assms(2) by (simp add: blank_def)
  have "actions (eng_shape e) (lex_buffer e) [] = map Lexed (pieces ?toks)"
    using flush_commits [OF assms(1)] by simp
  then have "same_run (performs (actions (eng_shape e) (lex_buffer e) []) (blank sc e))
      (fst (process_lex_tokens ?toks e), blank sc (snd (process_lex_tokens ?toks e)))"
    using process_pieces [OF even, of ?toks] by (simp add: performs_lexed unaware_blank [OF process_lex_tokens_props(1)])
  then show ?thesis by (simp add: lex_and_process_alt blank_def)
qed

section \<open>feed\<close>

text \<open>The invariant of the engine between two calls.\<close>

definition engine_ok :: "engine \<Rightarrow> bool" where
  "engine_ok e \<longleftrightarrow> shape_ok (eng_shape e) \<and> scanner_ok (eng_scanner e)
     \<and> token_id_to_terminal (eng_scanner e) = resolved_token_ids e"

text \<open>A call without its short cuts.\<close>

definition seen_ids :: "int list \<Rightarrow> engine \<Rightarrow> engine" where
  "seen_ids ids e = (if ids \<noteq> [] then e\<lparr>ever_had_token_ids := True\<rparr> else e)"

definition slow_feed :: "string \<Rightarrow> int list \<Rightarrow> engine \<Rightarrow> semantic_event list \<times> engine" where
  "slow_feed d ids e =
     process_scanner_items (fst (scan d ids (eng_scanner e)))
       (seen_ids ids e\<lparr>eng_scanner := snd (scan d ids (eng_scanner e))\<rparr>)"

text \<open>Text without the first character of a literal is one token, and nothing is held back.\<close>

lemma lexer_feed_plain:
  assumes "shape_ok sh" "list_all (\<lambda>ch. ch \<notin> literal_first_chars sh) d"
  shows "pieces (fst (lexer_feed sh [] d)) = map (\<lambda>c. LexToken CONTENT_TERMINAL [c]) d"
    and "snd (lexer_feed sh [] d) = []"
proof -
  let ?r = "lexer_feed sh [] d"
  have commit: "pieces (plain_lex sh (d @ rest)) = pieces (fst ?r) @ pieces (plain_lex sh (snd ?r @ rest))" for rest
    using feed_commits [OF assms(1), of "[]" d rest] by simp
  have "d = concat (map tok_value (plain_lex sh (d @ [])))" by (simp add: plain_lex_values [OF assms(1)])
  also have "\<dots> = concat (map tok_value (pieces (plain_lex sh (d @ []))))" by (rule pieces_values [symmetric])
  also have "\<dots> = concat (map tok_value (fst ?r)) @ snd ?r"
    unfolding commit by (simp add: pieces_values plain_lex_values [OF assms(1)])
  finally have d: "d = concat (map tok_value (fst ?r)) @ snd ?r" .
  show empty: "snd ?r = []"
  proof (rule ccontr)
    assume ne: "snd ?r \<noteq> []"
    then have "snd ?r \<in> prefix_set sh" using feed_keeps [OF assms(1)] by blast
    then obtain i lit n where "(lit, n) \<in> set (literal_strings sh)" "snd ?r = take i lit" "0 < i" "i < length lit"
      using assms(1) unfolding shape_ok_def by blast
    then have "hd (snd ?r) \<in> literal_first_chars sh"
      using assms(1) unfolding shape_ok_def by (auto simp: hd_take)
    moreover have "hd (snd ?r) \<in> set d" using ne by (subst d) simp
    ultimately show False using assms(2) by (auto simp: list_all_iff)
  qed
  show "pieces (fst ?r) = map (\<lambda>c. LexToken CONTENT_TERMINAL [c]) d"
    using commit [of "[]"] empty all_content [OF assms, of "[]"] by simp
qed

lemma single_content:
  assumes "streams_evenly (eng_config e)" "tok_terminal t = CONTENT_TERMINAL"
  shows "same_run (emit_for_state (tok_value t) e) (process_lex_tokens [t] e)"
proof -
  have "process_lex_tokens [t] e = on_content (tok_value t) e"
    using assms(2) by (simp add: process_lex_tokens_def each_event_Cons on_lex_token_def and_then_def)
  then show ?thesis using same_run_sym [OF on_content_emit [OF assms(1)]] by simp
qed

lemma seen_ids_simps [simp]:
  "eng_scanner (seen_ids ids e) = eng_scanner e" "lex_buffer (seen_ids ids e) = lex_buffer e"
  "eng_shape (seen_ids ids e) = eng_shape e" "eng_config (seen_ids ids e) = eng_config e"
  "resolved_token_ids (seen_ids ids e) = resolved_token_ids e"
  by (simp_all add: seen_ids_def)

definition after_scan :: "string \<Rightarrow> int list \<Rightarrow> engine \<Rightarrow> engine" where
  "after_scan d ids e = seen_ids ids e\<lparr>eng_scanner := snd (scan d ids (eng_scanner e))\<rparr>"

lemma feed_alt:
  "feed d ids e =
     (if plain_delta d ids e then emit_for_state d (seen_ids ids e)
      else (case fst (scan d ids (eng_scanner e)) of
              [TextChunk t] \<Rightarrow> single_text t (after_scan d ids e)
            | items \<Rightarrow> process_scanner_items items (after_scan d ids e)))"
proof -
  have "plain_delta d ids (seen_ids ids e) = plain_delta d ids e"
    by (simp add: plain_delta_def is_resolved_def [abs_def])
  then show ?thesis
    unfolding feed_def after_scan_def seen_ids_def [symmetric]
    by (simp add: Let_def split_beta split: list.split lexer_input.split)
qed

lemma same_text_run:
  assumes "shape_ok (eng_shape e)" "streams_evenly (eng_config e)"
  shows "same_run (single_text t e) (process_scanner_items [TextChunk t] e)"
proof -
  obtain toks buf where r: "lexer_feed (eng_shape e) (lex_buffer e) t = (toks, buf)" by fastforce
  let ?e = "e\<lparr>lex_buffer := buf\<rparr>"
  have slow: "process_scanner_items [TextChunk t] e = process_lex_tokens toks ?e"
    using r by (simp add: process_scanner_items_def each_event_Cons lex_and_process_def and_then_def)
  have even: "streams_evenly (eng_config ?e)" using assms(2) by simp
  show ?thesis
  proof (cases "\<exists>tok. toks = [tok] \<and> tok_terminal tok = CONTENT_TERMINAL")
    case True
    then obtain tok where tok: "toks = [tok]" "tok_terminal tok = CONTENT_TERMINAL" by blast
    then have "single_text t e = emit_for_state (tok_value tok) ?e" using r by (simp add: single_text_def)
    then show ?thesis using single_content [OF even tok(2)] slow tok by simp
  next
    case False
    then have "single_text t e = process_lex_tokens toks ?e"
      using r by (auto simp: single_text_def Let_def split: list.splits)
    then show ?thesis using slow by simp
  qed
qed

lemma plain_delta_run:
  assumes ok: "shape_ok (eng_shape e)" and even: "streams_evenly (eng_config e)" and buf: "lex_buffer e = []"
    and plain: "list_all (\<lambda>ch. ch \<notin> literal_first_chars (eng_shape e)) d"
  shows "same_run (emit_for_state d e) (process_scanner_items [TextChunk d] e)"
proof -
  let ?r = "lexer_feed (eng_shape e) [] d"
  have r: "pieces (fst ?r) = map (\<lambda>c. LexToken CONTENT_TERMINAL [c]) d" "snd ?r = []"
    using lexer_feed_plain [OF ok plain] .
  have e: "e\<lparr>lex_buffer := []\<rparr> = e" using buf by simp
  have "process_scanner_items [TextChunk d] e = process_lex_tokens (fst ?r) (e\<lparr>lex_buffer := []\<rparr>)"
    using buf r(2) by (simp add: process_scanner_items_def each_event_Cons lex_and_process_def and_then_def)
  also have "\<dots> = process_lex_tokens (fst ?r) e" unfolding e ..
  also have "same_run \<dots> (each_event on_lex_token (pieces (fst ?r)) e)"
    by (rule same_run_sym [OF process_pieces [OF even]])
  also have "same_run \<dots> (emit_for_state d e)" unfolding r(1) by (rule content_pieces [OF even])
  finally show ?thesis by (rule same_run_sym)
qed

lemma feed_slow:
  assumes ok: "engine_ok e" and even: "streams_evenly (eng_config e)"
  shows "same_run (feed d ids e) (slow_feed d ids e)"
proof (cases "plain_delta d ids e")
  case True
  then have "\<not> list_ex (is_special (eng_scanner e)) ids" "deferred_terminals (eng_scanner e) = []" "d \<noteq> []"
    using ok by (auto simp: plain_delta_def engine_ok_def is_special_def is_resolved_def list_ex_iff)
  then have "scan d ids (eng_scanner e) = ([TextChunk d], eng_scanner e)" by (auto simp: scan_def Let_def)
  moreover have "seen_ids ids e\<lparr>eng_scanner := eng_scanner e\<rparr> = seen_ids ids e" by (simp add: seen_ids_def)
  ultimately have "slow_feed d ids e = process_scanner_items [TextChunk d] (seen_ids ids e)"
    unfolding slow_feed_def by (simp only: fst_conv snd_conv)
  moreover have "same_run (emit_for_state d (seen_ids ids e)) (process_scanner_items [TextChunk d] (seen_ids ids e))"
    by (rule plain_delta_run) (use ok even True in \<open>simp_all add: engine_ok_def plain_delta_def\<close>)
  ultimately show ?thesis using True by (simp add: feed_alt)
next
  case False
  have slow: "slow_feed d ids e = process_scanner_items (fst (scan d ids (eng_scanner e))) (after_scan d ids e)"
    by (simp add: slow_feed_def after_scan_def)
  show ?thesis
  proof (cases "\<exists>t. fst (scan d ids (eng_scanner e)) = [TextChunk t]")
    case True
    then obtain t where t: "fst (scan d ids (eng_scanner e)) = [TextChunk t]" by blast
    have "same_run (single_text t (after_scan d ids e)) (process_scanner_items [TextChunk t] (after_scan d ids e))"
      by (rule same_text_run) (use ok even in \<open>simp_all add: engine_ok_def after_scan_def\<close>)
    then show ?thesis using slow t False by (simp add: feed_alt)
  next
    case none: False
    then have "feed d ids e = slow_feed d ids e"
      using False slow by (auto simp: feed_alt split: list.splits lexer_input.splits)
    then show ?thesis by simp
  qed
qed

section \<open>A whole stream\<close>

lemma seen_ids_ever: "ever_had_token_ids e \<or> ids = [] \<Longrightarrow> seen_ids ids e = e"
  by (cases e) (auto simp: seen_ids_def)

text \<open>Whether ids are seen does not change during the stream: they were seen before, or there are none.\<close>

definition settled :: "engine \<Rightarrow> (string \<times> int list) list \<Rightarrow> bool" where
  "settled e deltas \<longleftrightarrow> ever_had_token_ids e \<or> (\<forall>d \<in> set deltas. snd d = [])"

lemma engine_ok_keeps:
  assumes "engine_ok e" "tables e' = tables e" "scanner_ok (eng_scanner e')"
  shows "engine_ok e'"
  using assms tablesD [OF assms(2)] by (simp add: engine_ok_def same_tables_def)

lemma slow_feed_props:
  assumes "engine_ok e" "ever_had_token_ids e \<or> ids = []"
  shows "tables (snd (slow_feed d ids e)) = tables e" "engine_ok (snd (slow_feed d ids e))"
    "eng_scanner (snd (slow_feed d ids e)) = snd (scan d ids (eng_scanner e))"
proof -
  have sc: "scanner_ok (snd (scan d ids (eng_scanner e)))" "same_tables (eng_scanner e) (snd (scan d ids (eng_scanner e)))"
    using scan_conserves [of d ids "eng_scanner e"] assms(1) by (metis engine_ok_def prod.collapse)+
  show t: "tables (snd (slow_feed d ids e)) = tables e"
  proof -
    have "tables (snd (slow_feed d ids e)) = tables (e\<lparr>eng_scanner := snd (scan d ids (eng_scanner e))\<rparr>)"
      unfolding slow_feed_def seen_ids_ever [OF assms(2)] by (rule process_items_keeps)
    also have "\<dots> = tables e" using sc(2) by (simp add: tables_def same_tables_def)
    finally show ?thesis .
  qed
  show s: "eng_scanner (snd (slow_feed d ids e)) = snd (scan d ids (eng_scanner e))"
    unfolding slow_feed_def process_items_keeps by simp
  show "engine_ok (snd (slow_feed d ids e))" using engine_ok_keeps [OF assms(1) t] s sc(1) by simp
qed

text \<open>
  The calls of a stream are heard to perform the actions of the items that the scanner makes of it.
\<close>

lemma feeds_perform:
  assumes "engine_ok e" "streams_evenly (eng_config e)" "settled e deltas"
  shows "same_run
      (performs (actions (eng_shape e) (lex_buffer e) (fst (scan_stream deltas (eng_scanner e)) @ rest)) (blank sc e))
      (and_then (feed_stream deltas e) (\<lambda>e1. performs (actions (eng_shape e) (lex_buffer e1) rest) (blank sc e1)))
    \<and> tables (snd (feed_stream deltas e)) = tables e \<and> engine_ok (snd (feed_stream deltas e))
    \<and> eng_scanner (snd (feed_stream deltas e)) = snd (scan_stream deltas (eng_scanner e))"
  using assms
proof (induction deltas arbitrary: e)
  case Nil
  then show ?case by (simp add: feed_stream_def)
next
  case (Cons d deltas)
  obtain t ids where d: "d = (t, ids)" by (cases d)
  have settled: "ever_had_token_ids e \<or> ids = []" using Cons.prems(3) d by (auto simp: settled_def)
  let ?items = "fst (scan t ids (eng_scanner e))"
  let ?e1 = "e\<lparr>eng_scanner := snd (scan t ids (eng_scanner e))\<rparr>"
  let ?e2 = "snd (feed t ids e)"
  have run: "same_run (feed t ids e) (slow_feed t ids e)" by (rule feed_slow [OF Cons.prems(1,2)])
  then have e2: "?e2 = snd (slow_feed t ids e)" by (simp add: same_run_def)
  have t2: "tables ?e2 = tables e" "engine_ok ?e2" "eng_scanner ?e2 = snd (scan t ids (eng_scanner e))"
    unfolding e2 using slow_feed_props [OF Cons.prems(1) settled] by blast+
  have same: "eng_shape ?e2 = eng_shape e" "eng_config ?e2 = eng_config e"
    "ever_had_token_ids ?e2 = ever_had_token_ids e"
    using tablesD [OF t2(1)] by blast+
  have "settled ?e2 deltas" using Cons.prems(3) same(3) by (auto simp: settled_def)
  note IH = Cons.IH [OF t2(2) _ this, unfolded same t2(3), OF Cons.prems(2)]
  let ?more = "fst (scan_stream deltas (snd (scan t ids (eng_scanner e))))"
  have all: "fst (scan_stream (d # deltas) (eng_scanner e)) = ?items @ ?more"
    by (simp add: d split_beta)
  have stream: "feed_stream (d # deltas) e = and_then (feed t ids e) (feed_stream deltas)"
    unfolding feed_stream_def d each_event_Cons
    by (simp add: prod_eq_iff feed_stream_def)
  have slow: "slow_feed t ids e = process_scanner_items ?items ?e1"
    by (simp add: slow_feed_def seen_ids_ever [OF settled])
  have "same_run (performs (actions (eng_shape e) (lex_buffer e) (?items @ ?more @ rest)) (blank sc e))
      (and_then (slow_feed t ids e) (\<lambda>e1. performs (actions (eng_shape e) (lex_buffer e1) (?more @ rest)) (blank sc e1)))"
    using items_perform [of ?e1 ?items "?more @ rest" sc] Cons.prems
    by (simp add: engine_ok_def slow blank_def at_input_def)
  also have "same_run \<dots> (and_then (feed t ids e) (\<lambda>e1. performs (actions (eng_shape e) (lex_buffer e1) (?more @ rest)) (blank sc e1)))"
    by (intro same_run_and_then same_run_sym [OF run]) simp
  also have "same_run \<dots> (and_then (feed t ids e) (\<lambda>e1. and_then (feed_stream deltas e1)
      (\<lambda>e2. performs (actions (eng_shape e) (lex_buffer e2) rest) (blank sc e2))))"
    by (intro same_run_and_then same_run_refl) (use IH in simp)
  finally show ?case
    using IH t2 unfolding all stream and_then_assoc by (simp add: d split_beta)
qed

section \<open>finish\<close>

definition close_run :: "engine \<Rightarrow> semantic_event list \<times> engine" where
  "close_run e = and_then (close_args e) close_state"

lemma close_run_unaware: "unaware close_run"
  by (simp add: unaware_def close_run_def and_then_def close_args_def close_state_def)

lemma finish_alt:
  "finish e = (let e1 = e\<lparr>eng_scanner := snd (flush_pending (eng_scanner e))\<rparr> in
     and_then (process_scanner_items (fst (flush_pending (eng_scanner e))) e1)
       (\<lambda>e2. and_then (lex_and_process (lexer_flush (eng_shape e2) (lex_buffer e2)) e2) close_run))"
  by (simp add: finish_def close_run_def prod_eq_iff Let_def split_beta)

lemma finish_performs:
  assumes "engine_ok e" "streams_evenly (eng_config e)"
  shows "same_run
      (and_then (performs (actions (eng_shape e) (lex_buffer e) (fst (flush_pending (eng_scanner e)))) (blank sc e)) close_run)
      (fst (finish e), blank sc (snd (finish e)))"
proof -
  let ?items = "fst (flush_pending (eng_scanner e))"
  let ?e = "e\<lparr>eng_scanner := snd (flush_pending (eng_scanner e))\<rparr>"
  let ?f = "\<lambda>e2. lex_and_process (lexer_flush (eng_shape e2) (lex_buffer e2)) e2"
  have keep: "eng_shape (snd (process_scanner_items ?items ?e)) = eng_shape e"
    "eng_config (snd (process_scanner_items ?items ?e)) = eng_config e"
    using tablesD(1,5) [OF process_items_keeps(1), of ?items ?e] by simp_all
  have "same_run (performs (actions (eng_shape e) (lex_buffer e) (?items @ [])) (blank sc e))
      (and_then (process_scanner_items ?items ?e) (\<lambda>e1. performs (actions (eng_shape e) (lex_buffer e1) []) (blank sc e1)))"
    using items_perform [of ?e ?items "[]" sc] assms by (simp add: engine_ok_def blank_def at_input_def)
  also have "same_run \<dots> (and_then (process_scanner_items ?items ?e) (\<lambda>e1. (fst (?f e1), blank sc (snd (?f e1)))))"
  proof (intro same_run_and_then same_run_refl)
    fix e1 assume e1: "e1 = snd (process_scanner_items ?items ?e)"
    have "shape_ok (eng_shape e1)" "streams_evenly (eng_config e1)"
      using assms keep unfolding e1 by (simp_all add: engine_ok_def)
    from flush_performs [OF this] show "same_run (performs (actions (eng_shape e) (lex_buffer e1) []) (blank sc e1))
        (fst (?f e1), blank sc (snd (?f e1)))"
      using keep unfolding e1 by simp
  qed
  finally have run: "same_run (performs (actions (eng_shape e) (lex_buffer e) ?items) (blank sc e))
      (and_then (process_scanner_items ?items ?e) (\<lambda>e1. (fst (?f e1), blank sc (snd (?f e1)))))" by simp
  have "same_run (and_then (performs (actions (eng_shape e) (lex_buffer e) ?items) (blank sc e)) close_run)
      (and_then (and_then (process_scanner_items ?items ?e) (\<lambda>e1. (fst (?f e1), blank sc (snd (?f e1))))) close_run)"
    by (intro same_run_and_then run same_run_refl)
  also have "\<dots> = (fst (finish e), blank sc (snd (finish e)))"
    by (simp add: finish_alt prod_eq_iff unaware_blank [OF close_run_unaware] Let_def)
  finally show ?thesis .
qed

section \<open>The stream and its reference\<close>

text \<open>All items of a stream, and the run that performs them with the whole text at hand.\<close>

definition stream_items :: "(string \<times> int list) list \<Rightarrow> scanner \<Rightarrow> lexer_input list" where
  "stream_items deltas s = fst (scan_stream deltas s) @ fst (flush_pending (snd (scan_stream deltas s)))"

definition reference_run :: "lexer_input list \<Rightarrow> engine \<Rightarrow> semantic_event list \<times> engine" where
  "reference_run items e = and_then (performs (actions (eng_shape e) [] items) e) close_run"

lemma parse_stream_alt: "parse_stream deltas e = and_then (feed_stream deltas e) finish"
  by (simp add: parse_stream_def and_then_def split_beta)

lemma parse_stream_refines:
  assumes ok: "engine_ok e" and even: "streams_evenly (eng_config e)" and settled: "settled e deltas"
    and empty: "lex_buffer e = []"
  shows "same_run (reference_run (stream_items deltas (eng_scanner e)) (blank sc e))
    (fst (parse_stream deltas e), blank sc (snd (parse_stream deltas e)))"
proof -
  let ?s = "snd (scan_stream deltas (eng_scanner e))"
  let ?e = "snd (feed_stream deltas e)"
  note feeds = feeds_perform [OF ok even settled, of "fst (flush_pending ?s)" sc]
  then have same: "eng_shape ?e = eng_shape e" "eng_config ?e = eng_config e" "engine_ok ?e" "eng_scanner ?e = ?s"
    using tablesD(1,5) by blast+
  have "same_run (reference_run (stream_items deltas (eng_scanner e)) (blank sc e))
     (and_then (and_then (feed_stream deltas e) (\<lambda>e1. performs (actions (eng_shape e) (lex_buffer e1) (fst (flush_pending ?s))) (blank sc e1))) close_run)"
    unfolding reference_run_def stream_items_def
    by (intro same_run_and_then same_run_refl) (use feeds empty in \<open>simp add: blank_def\<close>)
  also have "same_run \<dots> (and_then (feed_stream deltas e) (\<lambda>e1. (fst (finish e1), blank sc (snd (finish e1)))))"
    unfolding and_then_assoc
  proof (intro same_run_and_then same_run_refl)
    fix e1 assume e1: "e1 = ?e"
    have "streams_evenly (eng_config e1)" using even same(2) e1 by simp
    from finish_performs [OF _ this, of sc]
    show "same_run (and_then (performs (actions (eng_shape e) (lex_buffer e1) (fst (flush_pending ?s))) (blank sc e1)) close_run)
        (fst (finish e1), blank sc (snd (finish e1)))"
      using same e1 by simp
  qed
  also have "\<dots> = (fst (parse_stream deltas e), blank sc (snd (parse_stream deltas e)))"
    by (simp add: parse_stream_alt prod_eq_iff)
  finally show ?thesis .
qed

end
