(* ===== verification/GlmFormat.thy ===== *)
theory GlmFormat
  imports ParserFacts
begin

text \<open>
  The GLM tool-call format (\<^verbatim>\<open>glm47_moe.py\<close>): the configuration of the engine, and the conversion of the
  tags of the arguments into a dictionary. The two regular expressions are matched by functions
  written out for them; what counts as white space to \<^verbatim>\<open>\s\<close> is the parameter \<open>ws\<close>, since the \<^verbatim>\<open>regex\<close>
  package defines it.
\<close>

section \<open>Tags\<close>

definition THINK_START :: string where
  "THINK_START = ''<think>''"

definition THINK_END :: string where
  "THINK_END = ''</think>''"

definition TOOL_START_TAG :: string where
  "TOOL_START_TAG = ''<tool_call>''"

definition TOOL_END_TAG :: string where
  "TOOL_END_TAG = ''</tool_call>''"

definition ARG_KEY_START :: string where
  "ARG_KEY_START = ''<arg_key>''"

definition ARG_KEY_END :: string where
  "ARG_KEY_END = ''</arg_key>''"

definition ARG_VALUE_START :: string where
  "ARG_VALUE_START = ''<arg_value>''"

definition ARG_VALUE_END :: string where
  "ARG_VALUE_END = ''</arg_value>''"

lemmas tag_defs = THINK_START_def THINK_END_def TOOL_START_TAG_def TOOL_END_TAG_def ARG_KEY_START_def
  ARG_KEY_END_def ARG_VALUE_START_def ARG_VALUE_END_def

section \<open>The arguments\<close>

text \<open>
  The value of an argument: it ends at the first \<^verbatim>\<open></arg_value>\<close> after which, past white space, the next
  \<^verbatim>\<open><arg_key>\<close> or the end of the text stands. The result is the value and the text after the tag.
\<close>

definition value_ends :: "(char \<Rightarrow> bool) \<Rightarrow> string \<Rightarrow> bool" where
  "value_ends ws s =
     (starts_with ARG_VALUE_END s
      \<and> (let r = dropWhile ws (drop (length ARG_VALUE_END) s) in r = [] \<or> starts_with ARG_KEY_START r))"

fun match_value :: "(char \<Rightarrow> bool) \<Rightarrow> string \<Rightarrow> (string \<times> string) option" where
  "match_value ws s =
     (if value_ends ws s then Some ([], drop (length ARG_VALUE_END) s)
      else (case s of [] \<Rightarrow> None | c # cs \<Rightarrow> map_option (\<lambda>(v, rest). (c # v, rest)) (match_value ws cs)))"

text \<open>
  The key: the shortest text up to a \<^verbatim>\<open></arg_key>\<close> after which \<^verbatim>\<open><arg_value>\<close> and what \<open>after\<close> wants follow.
  \<open>after\<close> is the value of \<open>_ARG_RE\<close> or the rest of the text of \<open>_TAIL_ARG_RE\<close>.
\<close>

definition key_ends :: "(char \<Rightarrow> bool) \<Rightarrow> (string \<Rightarrow> 'a option) \<Rightarrow> string \<Rightarrow> 'a option" where
  "key_ends ws after s =
     (if starts_with ARG_KEY_END s
      then (let r = dropWhile ws (drop (length ARG_KEY_END) s) in
            if starts_with ARG_VALUE_START r then after (drop (length ARG_VALUE_START) r) else None)
      else None)"

fun match_key :: "(char \<Rightarrow> bool) \<Rightarrow> (string \<Rightarrow> 'a option) \<Rightarrow> string \<Rightarrow> (string \<times> 'a) option" where
  "match_key ws after s =
     (case key_ends ws after s of
        Some r \<Rightarrow> Some ([], r)
      | None \<Rightarrow> (case s of [] \<Rightarrow> None | c # cs \<Rightarrow> map_option (\<lambda>(k, r). (c # k, r)) (match_key ws after cs)))"

text \<open>The leftmost match of a pattern that starts with \<^verbatim>\<open><arg_key>\<close>.\<close>

fun search_arg :: "(char \<Rightarrow> bool) \<Rightarrow> (string \<Rightarrow> 'a option) \<Rightarrow> string \<Rightarrow> (string \<times> 'a) option" where
  "search_arg ws after s =
     (case (if starts_with ARG_KEY_START s then match_key ws after (drop (length ARG_KEY_START) s) else None) of
        Some r \<Rightarrow> Some r
      | None \<Rightarrow> (case s of [] \<Rightarrow> None | _ # cs \<Rightarrow> search_arg ws after cs))"

declare match_value.simps [simp del] match_key.simps [simp del] search_arg.simps [simp del]

lemma value_ends_Nil [simp]: "\<not> value_ends ws []"
  by (simp add: value_ends_def starts_with_def tag_defs)

lemma key_ends_Nil [simp]: "key_ends ws after [] = None"
  by (simp add: key_ends_def starts_with_def tag_defs)

lemma match_value_stop: "value_ends ws s \<Longrightarrow> match_value ws s = Some ([], drop (length ARG_VALUE_END) s)"
  by (subst match_value.simps) simp

lemma match_value_step: "\<not> value_ends ws (c # cs) \<Longrightarrow> match_value ws (c # cs) = map_option (\<lambda>(v, rest). (c # v, rest)) (match_value ws cs)"
  by (subst match_value.simps) simp

lemma match_value_Nil [simp]: "match_value ws [] = None"
  by (subst match_value.simps) simp

lemma match_key_stop: "key_ends ws after s = Some r \<Longrightarrow> match_key ws after s = Some ([], r)"
  by (subst match_key.simps) simp

lemma match_key_step: "key_ends ws after (c # cs) = None \<Longrightarrow>
    match_key ws after (c # cs) = map_option (\<lambda>(k, r). (c # k, r)) (match_key ws after cs)"
  by (subst match_key.simps) simp

lemma match_key_Nil [simp]: "match_key ws after [] = None"
  by (subst match_key.simps) simp

lemma search_arg_Nil [simp]: "search_arg ws after [] = None"
  by (simp add: search_arg.simps starts_with_def tag_defs)

lemma match_value_shorter: "match_value ws s = Some (v, rest) \<Longrightarrow> length rest < length s"
proof (induction s arbitrary: v)
  case (Cons c cs)
  show ?case
  proof (cases "value_ends ws (c # cs)")
    case True
    then show ?thesis using Cons.prems by (auto simp: match_value_stop tag_defs)
  next
    case False
    then show ?thesis using Cons by (auto simp: match_value_step less_SucI)
  qed
qed simp

lemma match_key_shorter: "match_key ws (match_value ws) s = Some (k, v, rest) \<Longrightarrow> length rest < length s"
proof (induction s arbitrary: k)
  case (Cons c cs)
  show ?case
  proof (cases "key_ends ws (match_value ws) (c # cs)")
    case None
    then show ?thesis using Cons by (auto simp: match_key_step less_SucI)
  next
    case (Some r)
    then obtain t where t: "match_value ws (drop (length ARG_VALUE_START) t) = Some (v, rest)"
      "length t \<le> length cs"
      using Cons.prems length_dropWhile_le [of ws "drop (length ARG_KEY_END) (c # cs)"]
      by (fastforce simp: match_key_stop key_ends_def Let_def tag_defs split: if_splits)
    then show ?thesis using match_value_shorter [OF t(1)] by simp
  qed
qed simp

lemma search_arg_shorter: "search_arg ws (match_value ws) s = Some (k, v, rest) \<Longrightarrow> length rest < length s"
proof (induction s)
  case (Cons c cs)
  show ?case
  proof (cases "starts_with ARG_KEY_START (c # cs) \<and> match_key ws (match_value ws) (drop (length ARG_KEY_START) (c # cs)) \<noteq> None")
    case True
    then have "match_key ws (match_value ws) (drop (length ARG_KEY_START) (c # cs)) = Some (k, v, rest)"
      using Cons.prems by (auto simp: search_arg.simps [of ws _ "c # cs"])
    from match_key_shorter [OF this] show ?thesis by (simp add: less_le_trans)
  next
    case False
    then have "search_arg ws (match_value ws) (c # cs) = search_arg ws (match_value ws) cs"
      by (auto simp: search_arg.simps [of ws _ "c # cs"] split: option.splits)
    then show ?thesis using Cons by simp
  qed
qed simp

text \<open>
  \<open>_glm47_arg_converter\<close> before \<^verbatim>\<open>json.dumps\<close>. \<open>finditer\<close> is the recursion on the text after a match; in
  partial mode a match with only white space behind it, which ends where the stripped text ends, is left
  to the tail.
\<close>

function find_args :: "(char \<Rightarrow> bool) \<Rightarrow> bool \<Rightarrow> string \<Rightarrow> (string \<times> string) list \<Rightarrow> (string \<times> string) list \<times> string" where
  "find_args ws partial s params =
     (case search_arg ws (match_value ws) s of
        None \<Rightarrow> (params, s)
      | Some (key, value, rest) \<Rightarrow>
          (if partial \<and> list_all is_space rest then (params, s)
           else find_args ws partial rest (AList.update (py_strip key) value params)))"
  by pat_completeness auto
termination
  by (relation "measure (\<lambda>(_, _, s, _). length s)") (auto dest: search_arg_shorter)

declare find_args.simps [simp del]

definition cut_last_end :: "string \<Rightarrow> string" where
  "cut_last_end value =
     (case py_rfind value ARG_VALUE_END (length value) of Some i \<Rightarrow> take i value | None \<Rightarrow> value)"

definition glm_params :: "(char \<Rightarrow> bool) \<Rightarrow> string \<Rightarrow> bool \<Rightarrow> (string \<times> string) list" where
  "glm_params ws raw_args partial =
     (let (params, rest) = find_args ws partial raw_args [] in
      case search_arg ws (\<lambda>t. Some t) rest of
        None \<Rightarrow> params
      | Some (k, value) \<Rightarrow>
          (if py_strip k \<noteq> [] then AList.update (py_strip k) (cut_last_end value) params else params))"

definition glm47_arg_converter ::
    "(char \<Rightarrow> bool) \<Rightarrow> ((string \<times> string) list \<Rightarrow> string) \<Rightarrow> string \<Rightarrow> bool \<Rightarrow> string" where
  "glm47_arg_converter ws json_dumps raw_args partial = json_dumps (glm_params ws raw_args partial)"

section \<open>The configuration\<close>

definition glm47_moe_config ::
    "(char \<Rightarrow> bool) \<Rightarrow> ((string \<times> string) list \<Rightarrow> string) \<Rightarrow> bool \<Rightarrow> parser_config" where
  "glm47_moe_config ws json_dumps thinking =
     (let arg_tag_transitions =
            [((TOOL_NAME, ''ARG_KEY_START''), Transition TOOL_BETWEEN [ARG_VALUE_CHUNK]),
             ((TOOL_BETWEEN, ''ARG_KEY_START''), Transition TOOL_BETWEEN [ARG_VALUE_CHUNK]),
             ((TOOL_BETWEEN, ''ARG_KEY_END''), Transition TOOL_BETWEEN [ARG_VALUE_CHUNK]),
             ((TOOL_BETWEEN, ''ARG_VALUE_START''), Transition TOOL_ARGS [ARG_VALUE_CHUNK]),
             ((TOOL_ARGS, ''ARG_VALUE_END''), Transition TOOL_ARG_END_PENDING [ARG_VALUE_CHUNK]),
             ((TOOL_ARG_END_PENDING, ''ARG_VALUE_END''), Transition TOOL_ARG_END_PENDING [ARG_VALUE_CHUNK]),
             ((TOOL_ARG_END_PENDING, ''ARG_KEY_START''), Transition TOOL_BETWEEN [ARG_VALUE_CHUNK])];
          reasoning_terminals = (if thinking then [(''THINK_START'', THINK_START), (''THINK_END'', THINK_END)] else []);
          reasoning_transitions =
            (if thinking
             then [((CONTENT, ''THINK_START''), Transition REASONING [REASONING_START]),
                   ((REASONING, ''THINK_END''), Transition CONTENT [REASONING_END]),
                   ((CONTENT, ''THINK_END''), Transition CONTENT [])]
             else []) in
      (ParserEngineConfig ''glm47_moe'')
        \<lparr>pc_initial_state := (if thinking then REASONING else CONTENT),
         pc_terminals := reasoning_terminals @
           [(''TOOL_START'', TOOL_START_TAG), (''TOOL_END'', TOOL_END_TAG),
            (''ARG_KEY_START'', ARG_KEY_START), (''ARG_KEY_END'', ARG_KEY_END),
            (''ARG_VALUE_START'', ARG_VALUE_START), (''ARG_VALUE_END'', ARG_VALUE_END)],
         pc_token_id_terminals := reasoning_terminals @
           [(''TOOL_START'', TOOL_START_TAG), (''TOOL_END'', TOOL_END_TAG)],
         pc_transitions := reasoning_transitions @
           [((REASONING, ''THINK_START''), Transition REASONING []),
            ((REASONING, ''TOOL_START''), Transition TOOL_NAME [REASONING_END, TOOL_CALL_START]),
            ((CONTENT, ''TOOL_START''), Transition TOOL_NAME [TOOL_CALL_START]),
            ((TOOL_NAME, ''TOOL_END''), Transition CONTENT [TOOL_CALL_END]),
            ((TOOL_BETWEEN, ''TOOL_END''), Transition CONTENT [TOOL_CALL_END]),
            ((TOOL_ARG_END_PENDING, ''TOOL_END''), Transition CONTENT [TOOL_CALL_END])]
           @ arg_tag_transitions,
         pc_non_whitespace_transitions :=
           [(TOOL_ARG_END_PENDING, Transition TOOL_ARGS [ARG_VALUE_CHUNK])],
         pc_content_events :=
           [(CONTENT, TEXT_CHUNK), (REASONING, REASONING_CHUNK), (TOOL_NAME, NAME_CHUNK),
            (TOOL_ARGS, ARG_VALUE_CHUNK), (TOOL_BETWEEN, ARG_VALUE_CHUNK), (TOOL_ARG_END_PENDING, ARG_VALUE_CHUNK)],
         pc_arg_converter := Some (glm47_arg_converter ws json_dumps),
         pc_stream_arg_deltas := True,
         pc_tool_args_json := False,
         pc_validate_tool_names := True\<rparr>)"

text \<open>
  \<open>Glm47MoeParser.__init__\<close>: the two switches of the chat template, each unset or a truth value.
\<close>

definition thinking_enabled :: "bool option \<Rightarrow> bool option \<Rightarrow> bool" where
  "thinking_enabled thinking enable_thinking =
     (if thinking = None \<and> enable_thinking = None then True
      else thinking = Some True \<or> enable_thinking = Some True)"

end
