(* ===== verification/ParserTheorems.thy ===== *)
theory ParserTheorems
  imports ParserStream GlmFormat
begin

text \<open>
  What is heard of a whole stream of texts, and of ids with their texts; and the nesting of the events of
  the GLM format, step by step.
\<close>

section \<open>A new engine\<close>

lemma engine_new_props:
  "engine_ok (engine_new esc cfg tok init vocab)"
  "lex_buffer (engine_new esc cfg tok init vocab) = []"
  "eng_config (engine_new esc cfg tok init vocab) = cfg"
  "ever_had_token_ids (engine_new esc cfg tok init vocab) = False"
  "deferred_terminals (eng_scanner (engine_new esc cfg tok init vocab)) = []"
  "deferred_post_text (eng_scanner (engine_new esc cfg tok init vocab)) = []"
  "args_buffer (engine_new esc cfg tok init vocab) = []"
  "tool_index (engine_new esc cfg tok init vocab) = -1"
  "pstate (engine_new esc cfg tok init vocab) = (case init of Some s \<Rightarrow> s | None \<Rightarrow> pc_initial_state cfg)"
  "skip_tool_parsing (engine_new esc cfg tok init vocab) = False"
  by (auto simp: engine_new_def engine_reset_def reset_args_state_def engine_ok_def scanner_ok_def Let_def
      scanner_reset_def config_lexer_shape_def build_drop_info_def split: option.splits if_splits)

lemma engine_new_decode:
  "decode_token (eng_scanner (engine_new esc cfg (Some tok) init vocab)) = tk_decode tok"
  by (simp add: engine_new_def engine_reset_def reset_args_state_def scanner_reset_def Let_def)

section \<open>Streams of text\<close>

lemma scan_stream_text:
  "deferred_terminals s = [] \<Longrightarrow>
   scan_stream (map (\<lambda>t. (t, [])) chunks) s = (map TextChunk (filter (\<lambda>t. t \<noteq> []) chunks), s)"
  by (induction chunks) (simp_all add: scan_no_ids)

lemma actions_text: "actions sh acc (map TextChunk chunks @ items) = actions sh (acc @ concat chunks) items"
  by (induction chunks arbitrary: acc) simp_all

lemma concat_nonempty: "concat (filter (\<lambda>t. t \<noteq> []) chunks) = concat chunks"
  by (induction chunks) auto

lemma flush_pending_empty: "deferred_terminals s = [] \<Longrightarrow> deferred_post_text s = [] \<Longrightarrow> flush_pending s = ([], s)"
  by (simp add: flush_pending_def)

lemma stream_items_text:
  assumes "deferred_terminals s = []" "deferred_post_text s = []"
  shows "actions sh [] (stream_items (map (\<lambda>t. (t, [])) chunks) s) = map Lexed (pieces (plain_lex sh (concat chunks)))"
  using actions_text [of sh "[]" "filter (\<lambda>t. t \<noteq> []) chunks" "[]"]
  by (simp add: stream_items_def scan_stream_text flush_pending_empty assms concat_nonempty)

text \<open>What is heard of a text that comes in chunks.\<close>

lemma text_stream_heard:
  assumes "engine_ok e" "streams_evenly (eng_config e)" "lex_buffer e = []" "\<not> ever_had_token_ids e"
    and "deferred_terminals (eng_scanner e) = []" "deferred_post_text (eng_scanner e) = []"
  shows "heard (fst (parse_stream (map (\<lambda>t. (t, [])) chunks) e))
    = heard (fst (and_then (performs (map Lexed (pieces (plain_lex (eng_shape e) (concat chunks)))) (blank sc e)) close_run))"
proof -
  have "settled e (map (\<lambda>t. (t, [])) chunks)" by (auto simp: settled_def)
  from parse_stream_refines [OF assms(1,2) this assms(3), of sc]
  show ?thesis
    using stream_items_text [OF assms(5,6)] by (simp add: same_run_def reference_run_def blank_def)
qed

lemma parse_complete_stream: "fst (parse_complete t e) = fst (parse_stream [(t, [])] e)"
  by (simp add: parse_complete_def parse_stream_def feed_stream_def each_event_Cons and_then_def split_beta)

section \<open>Streams of ids\<close>

lemma actions_run: "actions sh acc (text_run xs @ items) = actions sh (acc @ concat xs) items"
  by (auto simp: text_run_def concat_eq_Nil_conv [THEN iffD2])

text \<open>The actions of the ids, read off the ids.\<close>

fun id_actions :: "lexer_shape \<Rightarrow> scanner \<Rightarrow> string \<Rightarrow> int list \<Rightarrow> lexer_input list \<Rightarrow> action list" where
  "id_actions sh s acc [] items = actions sh acc items"
| "id_actions sh s acc (tid # tids) items =
     (case map_of (token_id_to_terminal s) tid of
        Some n \<Rightarrow> map Lexed (pieces (plain_lex sh acc))
          @ Special \<lparr>pt_terminal = n, pt_token_id = tid, pt_text = decode_token s tid\<rparr> # id_actions sh s [] tids items
      | None \<Rightarrow> id_actions sh s (acc @ decode_token s tid) tids items)"

lemma actions_pre_lex: "actions sh acc (pre_lex s ids accum @ items) = id_actions sh s (acc @ concat accum) ids items"
proof (induction s ids accum arbitrary: acc rule: pre_lex.induct)
  case (2 s tid tids accum)
  show ?case
  proof (cases "map_of (token_id_to_terminal s) tid")
    case None
    then show ?thesis using 2(1) [OF None] by simp
  next
    case (Some n)
    then show ?thesis using 2(2) [OF Some, of "[]"] by (simp add: actions_run)
  qed
qed (simp add: actions_run)

lemma id_actions_append:
  "id_actions sh s acc (ids @ ids') items = id_actions sh s acc ids (pre_lex s ids' [] @ items)"
  by (induction sh s acc ids items rule: id_actions.induct) (auto simp: actions_pre_lex split: option.split)

lemma actions_pre_lexes:
  "actions sh acc (concat (map (\<lambda>ids. pre_lex s ids []) idss) @ items) = id_actions sh s acc (concat idss) items"
proof (induction idss arbitrary: acc)
  case (Cons ids idss)
  have "id_actions sh s acc (ids @ concat idss) items = id_actions sh s acc ids (pre_lex s (concat idss) [] @ items)"
    by (rule id_actions_append)
  moreover have "actions sh a (pre_lex s (concat idss) [] @ items)
      = actions sh a (concat (map (\<lambda>ids. pre_lex s ids []) idss) @ items)" for a
    using Cons.IH [of a] by (simp add: actions_pre_lex)
  then have "id_actions sh s acc ids (pre_lex s (concat idss) [] @ items)
      = id_actions sh s acc ids (concat (map (\<lambda>ids. pre_lex s ids []) idss) @ items)"
    by (induction sh s acc ids "pre_lex s (concat idss) [] @ items" rule: id_actions.induct) (auto split: option.split)
  ultimately show ?case by (simp add: actions_pre_lex)
qed simp

lemma scan_stream_aligned:
  assumes "\<forall>d \<in> set deltas. aligned s d" "special_texts s" "deferred_terminals s = []"
  shows "scan_stream deltas s = (concat (map (\<lambda>(t, ids). pre_lex s ids []) deltas), s)"
  using assms(1)
proof (induction deltas)
  case (Cons d deltas)
  then show ?case using scan_aligned [OF _ assms(2,3)] by (cases d) simp
qed simp

lemma stream_items_aligned:
  assumes "\<forall>d \<in> set deltas. aligned s d" "special_texts s" "deferred_terminals s = []" "deferred_post_text s = []"
  shows "actions sh [] (stream_items deltas s) = id_actions sh s [] (concat (map snd deltas)) []"
proof -
  have "stream_items deltas s = concat (map (\<lambda>ids. pre_lex s ids []) (map snd deltas)) @ []"
    by (simp add: stream_items_def scan_stream_aligned assms flush_pending_empty comp_def case_prod_unfold)
  then show ?thesis using actions_pre_lexes by metis
qed

text \<open>Deltas that bring nothing leave the engine alone, so it may as well have seen ids before.\<close>

lemma feed_nothing:
  assumes "deferred_terminals (eng_scanner e) = []"
  shows "feed [] [] e = ([], e)"
  using assms by (simp add: feed_alt plain_delta_def scan_def seen_ids_def after_scan_def process_scanner_items_def)

lemma feed_ids_ever: "ids \<noteq> [] \<Longrightarrow> feed t ids (e\<lparr>ever_had_token_ids := True\<rparr>) = feed t ids e"
  by (simp add: feed_def)

lemma aligned_nothing: "aligned s (t, []) \<Longrightarrow> t = []"
  by (simp add: aligned_def)

lemma feeds_ever:
  assumes "deferred_terminals (eng_scanner e) = []"
  shows "\<forall>d \<in> set deltas. aligned (eng_scanner e) d \<Longrightarrow> \<exists>d \<in> set deltas. snd d \<noteq> [] \<Longrightarrow>
    feed_stream deltas (e\<lparr>ever_had_token_ids := True\<rparr>) = feed_stream deltas e"
proof (induction deltas)
  case (Cons d deltas)
  obtain t ids where d: "d = (t, ids)" by (cases d)
  show ?case
  proof (cases "ids = []")
    case True
    then have "t = []" using Cons.prems(1) aligned_nothing by (auto simp: d)
    then show ?thesis
      using Cons True unfolding d feed_stream_def each_event_Cons
      by (simp add: feed_nothing assms)
  next
    case False
    then show ?thesis using feed_ids_ever unfolding d feed_stream_def each_event_Cons by simp
  qed
qed simp

lemma feeds_nothing:
  assumes "deferred_terminals (eng_scanner e) = []"
  shows "\<forall>d \<in> set deltas. aligned (eng_scanner e) d \<Longrightarrow> \<forall>d \<in> set deltas. snd d = [] \<Longrightarrow> feed_stream deltas e = ([], e)"
proof (induction deltas)
  case (Cons d deltas)
  then have "d = ([], [])" using aligned_nothing by (cases d) auto
  then show ?case using Cons unfolding feed_stream_def each_event_Cons by (simp add: feed_nothing assms)
qed (simp add: feed_stream_def)

text \<open>What is heard of a stream of ids with their texts.\<close>

lemma id_stream_heard:
  assumes "engine_ok e" "streams_evenly (eng_config e)" "lex_buffer e = []"
    and "deferred_terminals (eng_scanner e) = []" "deferred_post_text (eng_scanner e) = []"
    and aligned: "\<forall>d \<in> set deltas. aligned (eng_scanner e) d" and "special_texts (eng_scanner e)"
    and some: "concat (map snd deltas) \<noteq> []"
  shows "heard (fst (parse_stream deltas e))
    = heard (fst (and_then (performs (id_actions (eng_shape e) (eng_scanner e) [] (concat (map snd deltas)) [])
        (blank sc (e\<lparr>ever_had_token_ids := True\<rparr>))) close_run))"
proof -
  let ?e = "e\<lparr>ever_had_token_ids := True\<rparr>"
  have "\<exists>d \<in> set deltas. snd d \<noteq> []" using some by auto
  then have "parse_stream deltas e = parse_stream deltas ?e"
    using feeds_ever [OF assms(4) aligned] by (simp add: parse_stream_alt)
  moreover have "engine_ok ?e" "settled ?e deltas" using assms(1) by (simp_all add: engine_ok_def settled_def)
  note parse_stream_refines [OF this(1) _ this(2), of sc]
  ultimately show ?thesis
    using stream_items_aligned [OF _ assms(7,4,5), of deltas "eng_shape e"] assms(2,3) aligned
    by (simp add: same_run_def reference_run_def blank_def)
qed

lemma glm_streams_evenly: "streams_evenly (glm47_moe_config ws dumps th)"
  by (simp add: streams_evenly_def glm47_moe_config_def ParserEngineConfig_def Transition_def emitted_kind_def
      is_chunk_def Let_def)

section \<open>Nesting of the events\<close>

text \<open>What a client may rely on: reasoning and calls are opened and closed in turn, and calls are numbered.\<close>

datatype call_phase = Speaking | Thinking | Calling

fun follow :: "semantic_event \<Rightarrow> call_phase \<times> int \<Rightarrow> (call_phase \<times> int) option" where
  "follow (SemanticEvent t v i) (ph, n) =
     (case t of
        TEXT_CHUNK \<Rightarrow> if ph = Speaking \<and> i = n then Some (Speaking, n) else None
      | REASONING_START \<Rightarrow> if ph = Speaking \<and> i = n then Some (Thinking, n) else None
      | REASONING_CHUNK \<Rightarrow> if ph = Thinking \<and> i = n then Some (Thinking, n) else None
      | REASONING_END \<Rightarrow> if ph = Thinking \<and> i = n then Some (Speaking, n) else None
      | TOOL_CALL_START \<Rightarrow> if ph = Speaking \<and> i = n + 1 then Some (Calling, n + 1) else None
      | NAME_CHUNK \<Rightarrow> if ph = Calling \<and> i = n then Some (Calling, n) else None
      | ARG_VALUE_CHUNK \<Rightarrow> if ph = Calling \<and> i = n then Some (Calling, n) else None
      | TOOL_CALL_END \<Rightarrow> if ph = Calling \<and> i = n then Some (Speaking, n) else None)"

fun follow_all :: "semantic_event list \<Rightarrow> call_phase \<times> int \<Rightarrow> (call_phase \<times> int) option" where
  "follow_all [] p = Some p"
| "follow_all (v # vs) p = Option.bind (follow v p) (follow_all vs)"

lemma follow_all_append: "follow_all (vs @ ws) p = Option.bind (follow_all vs p) (follow_all ws)"
  by (induction vs arbitrary: p) (auto split: Option.bind_splits)

definition phase_of :: "parser_state \<Rightarrow> call_phase" where
  "phase_of s = (if s = REASONING then Thinking else if List.member TOOL_STATES s then Calling else Speaking)"

definition at_phase :: "engine \<Rightarrow> call_phase \<times> int" where
  "at_phase e = (phase_of (pstate e), tool_index e)"

text \<open>The engines of the GLM format; no arguments are held back, and an open call has a number.\<close>

definition glm_engine :: "engine \<Rightarrow> bool" where
  "glm_engine e \<longleftrightarrow> (\<exists>ws dumps th. eng_config e = glm47_moe_config ws dumps th)
     \<and> args_buffer e = [] \<and> -1 \<le> tool_index e \<and> (phase_of (pstate e) = Calling \<longrightarrow> 0 \<le> tool_index e)"

definition follows :: "(engine \<Rightarrow> semantic_event list \<times> engine) \<Rightarrow> bool" where
  "follows f \<longleftrightarrow> (\<forall>e. glm_engine e \<longrightarrow>
     glm_engine (snd (f e)) \<and> follow_all (fst (f e)) (at_phase e) = Some (at_phase (snd (f e))))"

lemma followsD:
  assumes "follows f" "glm_engine e" "at_phase e = p"
  shows "glm_engine (snd (f e)) \<and> follow_all (fst (f e)) p = Some (at_phase (snd (f e)))"
  using assms unfolding follows_def by blast

interpretation nesting_steps: closed_steps follows
  by unfold_locales (simp_all add: follows_def follow_all_append)

lemmas follows_and_then = nesting_steps.good_seq

text \<open>The entries of the two transition tables, once and for all.\<close>

fun numbered :: "event_type list \<Rightarrow> string \<Rightarrow> int \<Rightarrow> semantic_event list \<times> int" where
  "numbered [] v n = ([], n)"
| "numbered (t # ts) v n =
     (let m = (if t = TOOL_CALL_START then n + 1 else n); (more, k) = numbered ts v m in
      (SemanticEvent t v m # more, k))"

lemma apply_events_numbered:
  "apply_events ts v e = (fst (numbered ts v (tool_index e)), e\<lparr>tool_index := snd (numbered ts v (tool_index e))\<rparr>)"
  by (induction ts arbitrary: e) (simp_all add: Let_def split_beta)

definition entry_follows :: "parser_state \<Rightarrow> transition \<Rightarrow> bool" where
  "entry_follows s tr \<longleftrightarrow>
     (\<forall>n v. follow_all (fst (numbered (tr_events tr) v n)) (phase_of s, n)
        = Some (phase_of (next_state tr), snd (numbered (tr_events tr) v n))
        \<and> n \<le> snd (numbered (tr_events tr) v n)
        \<and> (phase_of (next_state tr) = Calling \<and> phase_of s \<noteq> Calling \<longrightarrow> snd (numbered (tr_events tr) v n) = n + 1))
     \<and> (REASONING_END \<in> set (tr_events tr) \<longrightarrow> s = REASONING)"

lemma glm_entries_all:
  "\<forall>((s, n), tr) \<in> set (pc_transitions (glm47_moe_config ws dumps th)). entry_follows s tr \<and> \<not> skip_in_token_id_mode tr"
  "\<forall>(s, tr) \<in> set (pc_non_whitespace_transitions (glm47_moe_config ws dumps th)). entry_follows s tr"
  by (cases th; simp add: glm47_moe_config_def Let_def Transition_def entry_follows_def phase_of_def TOOL_STATES_def)+

lemmas glm_fields = glm47_moe_config_def ParserEngineConfig_def Let_def

lemma glm_simps:
  "pc_content_events (glm47_moe_config ws dumps th) =
     [(CONTENT, TEXT_CHUNK), (REASONING, REASONING_CHUNK), (TOOL_NAME, NAME_CHUNK),
      (TOOL_ARGS, ARG_VALUE_CHUNK), (TOOL_BETWEEN, ARG_VALUE_CHUNK), (TOOL_ARG_END_PENDING, ARG_VALUE_CHUNK)]"
  "pc_tool_args_json (glm47_moe_config ws dumps th) = False"
  "pc_non_whitespace_transitions (glm47_moe_config ws dumps th) =
     [(TOOL_ARG_END_PENDING, Transition TOOL_ARGS [ARG_VALUE_CHUNK])]"
  "pc_initial_state (glm47_moe_config ws dumps th) = (if th then REASONING else CONTENT)"
  by (simp_all add: glm_fields)

text \<open>Content of a state is a chunk of the phase of the state.\<close>

lemma content_follows:
  assumes "map_of (pc_content_events (glm47_moe_config ws dumps th)) s = Some t"
  shows "follow (SemanticEvent t v n) (phase_of s, n) = Some (phase_of s, n)"
  using assms by (auto simp: glm_simps phase_of_def TOOL_STATES_def split: if_splits)

lemma apply_transition_follows:
  assumes "entry_follows (pstate e) tr" "glm_engine e"
  shows "glm_engine (snd (apply_transition tr v e))
    \<and> follow_all (fst (apply_transition tr v e)) (at_phase e) = Some (at_phase (snd (apply_transition tr v e)))"
proof -
  let ?r = "numbered (tr_events tr) v (tool_index e)"
  have args: "args_buffer e = []" using assms(2) by (simp add: glm_engine_def)
  have events: "fst (apply_transition tr v e) = fst ?r"
    by (simp add: apply_transition_def apply_events_numbered args)
  have after: "pstate (snd (apply_transition tr v e)) = next_state tr"
    "tool_index (snd (apply_transition tr v e)) = snd ?r" "args_buffer (snd (apply_transition tr v e)) = []"
    "eng_config (snd (apply_transition tr v e)) = eng_config e"
    by (simp_all add: apply_transition_def apply_events_numbered args)
  have entry: "follow_all (fst ?r) (phase_of (pstate e), tool_index e) = Some (phase_of (next_state tr), snd ?r)"
    "tool_index e \<le> snd ?r"
    "phase_of (next_state tr) = Calling \<and> phase_of (pstate e) \<noteq> Calling \<longrightarrow> snd ?r = tool_index e + 1"
    using assms(1) unfolding entry_follows_def by blast+
  have "glm_engine (snd (apply_transition tr v e))"
    using assms(2) entry(2,3) unfolding glm_engine_def after by (cases "phase_of (pstate e) = Calling") auto
  then show ?thesis using entry(1) unfolding at_phase_def after events by simp
qed

lemma emit_in_state_follows: "follows (emit_in_state v)"
  unfolding follows_def
proof (intro allI impI)
  fix e assume g: "glm_engine e"
  then obtain ws dumps th where c: "eng_config e = glm47_moe_config ws dumps th" by (auto simp: glm_engine_def)
  show "glm_engine (snd (emit_in_state v e)) \<and> follow_all (fst (emit_in_state v e)) (at_phase e) = Some (at_phase (snd (emit_in_state v e)))"
  proof (cases "pstate e = TOOL_ARGS")
    case True
    then show ?thesis using g c by (simp add: emit_in_state_def glm_simps at_phase_def phase_of_def TOOL_STATES_def)
  next
    case False
    then show ?thesis
      using g content_follows [of ws dumps th "pstate e" _ v "tool_index e"]
      by (auto simp: emit_in_state_def c at_phase_def split: option.split)
  qed
qed

lemma emit_for_state_follows: "follows (emit_for_state v)"
  unfolding follows_def
proof (intro allI impI)
  fix e assume g: "glm_engine e"
  then obtain ws dumps th where c: "eng_config e = glm47_moe_config ws dumps th" by (auto simp: glm_engine_def)
  have plain: "glm_engine (snd (emit_in_state v e)) \<and> follow_all (fst (emit_in_state v e)) (at_phase e) = Some (at_phase (snd (emit_in_state v e)))"
    using emit_in_state_follows g unfolding follows_def by blast
  show "glm_engine (snd (emit_for_state v e)) \<and> follow_all (fst (emit_for_state v e)) (at_phase e) = Some (at_phase (snd (emit_for_state v e)))"
  proof (cases "map_of (pc_non_whitespace_transitions (eng_config e)) (pstate e)")
    case None
    then show ?thesis using plain by (simp add: emit_for_state_def)
  next
    case (Some tr)
    then have "entry_follows (pstate e) tr"
      using glm_entries_all(2) [of ws dumps th] by (auto simp: c dest!: map_of_SomeD)
    from apply_transition_follows [OF this g] show ?thesis using Some plain by (simp add: emit_for_state_def)
  qed
qed

lemma on_content_follows: "follows (on_content v)"
  using emit_for_state_follows by (auto simp: follows_def on_content_def)

lemma on_terminal_follows: "follows (on_terminal n v)"
  unfolding follows_def
proof (intro allI impI)
  fix e assume g: "glm_engine e"
  then obtain ws dumps th where c: "eng_config e = glm47_moe_config ws dumps th" by (auto simp: glm_engine_def)
  have plain: "glm_engine (snd (emit_for_state v e)) \<and> follow_all (fst (emit_for_state v e)) (at_phase e) = Some (at_phase (snd (emit_for_state v e)))"
    using emit_for_state_follows g unfolding follows_def by blast
  show "glm_engine (snd (on_terminal n v e)) \<and> follow_all (fst (on_terminal n v e)) (at_phase e) = Some (at_phase (snd (on_terminal n v e)))"
  proof (cases "map_of (pc_transitions (eng_config e)) (pstate e, n)")
    case None
    then show ?thesis using plain g by (simp add: on_terminal_def)
  next
    case (Some tr)
    then have entry: "entry_follows (pstate e) tr"
      using glm_entries_all(1) [of ws dumps th] by (auto simp: c dest!: map_of_SomeD)
    show ?thesis
    proof (cases "skip_tool_parsing e \<and> n \<in> tool_terminals e")
      case True
      have quiet: "glm_engine (e\<lparr>pstate := CONTENT\<rparr>)" using g by (simp add: glm_engine_def phase_of_def TOOL_STATES_def)
      consider (header) "pstate e = MESSAGE_HEADER"
        | (reasoning) "pstate e \<noteq> MESSAGE_HEADER" "REASONING_END \<in> set (tr_events tr)"
        | (other) "pstate e \<noteq> MESSAGE_HEADER" "REASONING_END \<notin> set (tr_events tr)" by blast
      then show ?thesis
      proof cases
        case header
        then show ?thesis using Some True quiet
          by (simp add: on_terminal_def at_phase_def phase_of_def TOOL_STATES_def)
      next
        case reasoning
        then have "pstate e = REASONING" using entry by (simp add: entry_follows_def)
        then show ?thesis using Some True quiet reasoning(2)
          by (simp add: on_terminal_def at_phase_def phase_of_def TOOL_STATES_def)
      next
        case other
        then show ?thesis
          using Some True g content_follows [of ws dumps th "pstate e" _ v "tool_index e"]
          by (auto simp: on_terminal_def c at_phase_def split: option.split)
      qed
    next
      case False
      then show ?thesis using Some plain apply_transition_follows [OF entry g, of v] by (auto simp: on_terminal_def)
    qed
  qed
qed

lemma on_lex_token_follows: "follows (on_lex_token t)"
  using on_content_follows on_terminal_follows by (auto simp: follows_def on_lex_token_def)

lemma process_follows: "follows (process_lex_tokens toks)"
  unfolding process_lex_tokens_each by (rule nesting_steps.good_each) (rule on_lex_token_follows)

lemma glm_input [simp]: "glm_engine (at_input sc buf e) = glm_engine e" "at_phase (at_input sc buf e) = at_phase e"
  by (simp_all add: glm_engine_def at_phase_def)

lemma lex_and_process_follows: "glm_engine e \<Longrightarrow>
  glm_engine (snd (lex_and_process r e)) \<and> follow_all (fst (lex_and_process r e)) (at_phase e) = Some (at_phase (snd (lex_and_process r e)))"
  using process_follows [of "fst r"] by (simp add: lex_and_process_alt follows_def)

lemma on_item_follows: "follows (on_item i)"
proof (cases i)
  case (TextChunk t)
  then show ?thesis using lex_and_process_follows by (simp add: follows_def)
next
  case (PreLexed p)
  have "follows (\<lambda>e. lex_and_process (lexer_flush (eng_shape e) (lex_buffer e)) e)"
    using lex_and_process_follows by (simp add: follows_def)
  from follows_and_then [OF this on_terminal_follows [of "pt_terminal p" "pt_text p"]]
  show ?thesis by (simp add: PreLexed and_then_def split_beta follows_def)
qed

lemma items_follow: "follows (process_scanner_items items)"
  using nesting_steps.good_each [OF on_item_follows] by (simp add: process_scanner_items_def follows_def)

lemma glm_scanner [simp]:
  "glm_engine (e\<lparr>eng_scanner := sc\<rparr>) = glm_engine e" "at_phase (e\<lparr>eng_scanner := sc\<rparr>) = at_phase e"
  "glm_engine (e\<lparr>lex_buffer := b\<rparr>) = glm_engine e" "at_phase (e\<lparr>lex_buffer := b\<rparr>) = at_phase e"
  "glm_engine (e\<lparr>ever_had_token_ids := x\<rparr>) = glm_engine e" "at_phase (e\<lparr>ever_had_token_ids := x\<rparr>) = at_phase e"
  "glm_engine (e\<lparr>skip_tool_parsing := x\<rparr>) = glm_engine e" "at_phase (e\<lparr>skip_tool_parsing := x\<rparr>) = at_phase e"
  by (simp_all add: glm_engine_def at_phase_def)

lemma glm_after [simp]: "glm_engine (after_scan d ids e) = glm_engine e" "at_phase (after_scan d ids e) = at_phase e"
  "glm_engine (seen_ids ids e) = glm_engine e" "at_phase (seen_ids ids e) = at_phase e"
  by (simp_all add: after_scan_def seen_ids_def)

lemma single_text_follows: "follows (single_text t)"
  unfolding follows_def
proof (intro allI impI)
  fix e assume g: "glm_engine e"
  let ?ok = "\<lambda>r. glm_engine (snd r) \<and> follow_all (fst r) (at_phase e) = Some (at_phase (snd r))"
  have parts: "?ok (emit_for_state v (e\<lparr>lex_buffer := b\<rparr>))" "?ok (process_lex_tokens toks (e\<lparr>lex_buffer := b\<rparr>))" for v toks b
    by (rule followsD [OF emit_for_state_follows] followsD [OF process_follows]; simp add: g)+
  then show "?ok (single_text t e)"
    unfolding single_text_def by (simp add: split_beta Let_def split: list.split)
qed

lemma feed_follows: "follows (feed d ids)"
  unfolding follows_def
proof (intro allI impI)
  fix e assume g: "glm_engine e"
  let ?ok = "\<lambda>r. glm_engine (snd r) \<and> follow_all (fst r) (at_phase e) = Some (at_phase (snd r))"
  have parts: "?ok (emit_for_state d (seen_ids ids e))" "?ok (single_text t (after_scan d ids e))"
    "?ok (process_scanner_items items (after_scan d ids e))" for t items
    by (rule followsD [OF emit_for_state_follows] followsD [OF single_text_follows] followsD [OF items_follow];
        simp add: g)+
  then show "?ok (feed d ids e)"
    unfolding feed_alt by (simp split: list.split lexer_input.split)
qed

lemma finish_follows: "follows finish"
proof -
  have "follows close_run"
    by (auto simp: follows_def close_run_def close_args_def close_state_def glm_engine_def at_phase_def phase_of_def
        TOOL_STATES_def)
  moreover have "follows (\<lambda>e. lex_and_process (lexer_flush (eng_shape e) (lex_buffer e)) e)"
    using lex_and_process_follows by (simp add: follows_def)
  ultimately have rest: "follows (\<lambda>e. and_then (lex_and_process (lexer_flush (eng_shape e) (lex_buffer e)) e) close_run)"
    using follows_and_then by blast
  show ?thesis
    using followsD [OF follows_and_then [OF items_follow rest]] by (simp add: follows_def [of finish] finish_alt Let_def)
qed

lemma finish_closes: "glm_engine e \<Longrightarrow> phase_of (pstate (snd (finish e))) = Speaking"
  by (simp add: finish_alt Let_def close_run_def close_state_def phase_of_def TOOL_STATES_def)

end
