(* ===== verification/GlmFacts.thy ===== *)
theory GlmFacts
  imports GlmFormat
begin

text \<open>
  Reading the argument tags of a call: what was written, name by name and value by value, is what the
  converter returns, even when the values contain tags, as long as no value looks like the end of a
  value with the next key behind it.
\<close>

section \<open>Tags\<close>

text \<open>A tag has its opening bracket only at the start, so it cannot reach into the next one.\<close>

definition tag :: "string \<Rightarrow> bool" where
  "tag t \<longleftrightarrow> t \<noteq> [] \<and> hd t = CHR ''<'' \<and> CHR ''<'' \<notin> set (tl t)"

lemma tags [simp]:
  "tag THINK_START" "tag THINK_END" "tag TOOL_START_TAG" "tag TOOL_END_TAG"
  "tag ARG_KEY_START" "tag ARG_KEY_END" "tag ARG_VALUE_START" "tag ARG_VALUE_END"
  by (simp_all add: tag_def tag_defs)

lemma tag_stays:
  assumes "tag t" "u \<noteq> []" "starts_with t (u @ CHR ''<'' # x)"
  shows "starts_with t u"
proof -
  obtain zs where zs: "prefix t u \<or> t = u @ zs \<and> prefix zs (CHR ''<'' # x)"
    using assms(3) unfolding starts_with_prefix prefix_append by blast
  show ?thesis
  proof (cases "prefix t u")
    case False
    then have t: "t = u @ zs" "prefix zs (CHR ''<'' # x)" "zs \<noteq> []" using zs by auto
    then have "CHR ''<'' \<in> set (tl t)" using assms(2) by (cases zs) auto
    then show ?thesis using assms(1) by (simp add: tag_def)
  qed (simp add: starts_with_prefix)
qed

lemma tag_head: "tag t \<Longrightarrow> starts_with t s \<Longrightarrow> s \<noteq> [] \<and> hd s = CHR ''<''"
  by (auto simp: tag_def starts_with_prefix prefix_def)

lemma starts_with_append [simp]: "starts_with t (t @ s)"
  by (simp add: starts_with_def)

lemma different_tags:
  "tag t \<Longrightarrow> tag u \<Longrightarrow> starts_with t (u @ s) \<Longrightarrow> prefix t u \<or> prefix u t"
  by (auto simp: starts_with_prefix prefix_append)

section \<open>What is written\<close>

definition render_args :: "(string \<times> string) list \<Rightarrow> string" where
  "render_args kvs = concat (map (\<lambda>(k, v). ARG_KEY_START @ k @ ARG_KEY_END @ ARG_VALUE_START @ v @ ARG_VALUE_END) kvs)"

text \<open>Keys: distinct, not empty, without white space around them and without brackets.\<close>

definition good_key :: "string \<Rightarrow> bool" where
  "good_key k \<longleftrightarrow> k \<noteq> [] \<and> py_strip k = k \<and> CHR ''<'' \<notin> set k"

text \<open>Values: anything, but no end tag with one of the given tags behind it.\<close>

definition ends_early :: "(char \<Rightarrow> bool) \<Rightarrow> string list \<Rightarrow> string \<Rightarrow> bool" where
  "ends_early ws next_tags s =
     (starts_with ARG_VALUE_END s
      \<and> list_ex (\<lambda>t. starts_with t (dropWhile ws (drop (length ARG_VALUE_END) s))) next_tags)"

definition good_value :: "(char \<Rightarrow> bool) \<Rightarrow> string list \<Rightarrow> string \<Rightarrow> bool" where
  "good_value ws next_tags v = list_all (\<lambda>i. \<not> ends_early ws next_tags (drop i v)) [0..<length v]"

lemma good_value_drop: "good_value ws ts v \<Longrightarrow> good_value ws ts (drop k v)"
  by (auto simp: good_value_def list_all_iff add.commute)

lemma good_value_head:
  assumes "good_value ws ts v" "v \<noteq> []"
  shows "\<not> ends_early ws ts v"
proof -
  have "(0 :: nat) \<in> set [0..<length v]" using assms(2) by simp
  then have "\<not> ends_early ws ts (drop 0 v)" using assms(1) unfolding good_value_def list_all_iff by blast
  then show ?thesis by simp
qed

lemma dropWhile_tag: "\<not> ws CHR ''<'' \<Longrightarrow> tag t \<Longrightarrow> dropWhile ws (t @ s) = t @ s"
  by (cases t) (simp_all add: tag_def)

text \<open>Inside a good value nothing ends.\<close>

lemma not_early:
  assumes "\<not> ends_early ws ts w" "w \<noteq> []" "\<not> ws CHR ''<''" "\<forall>t \<in> set ts. tag t \<and> \<not> prefix t ARG_VALUE_END \<and> \<not> prefix ARG_VALUE_END t"
  shows "\<not> ends_early ws ts (w @ ARG_VALUE_END @ rest)"
proof
  assume "ends_early ws ts (w @ ARG_VALUE_END @ rest)"
  then obtain t where t: "starts_with ARG_VALUE_END (w @ ARG_VALUE_END @ rest)" "t \<in> set ts"
    "starts_with t (dropWhile ws (drop (length ARG_VALUE_END) (w @ ARG_VALUE_END @ rest)))"
    by (auto simp: ends_early_def list_ex_iff)
  have end_tag: "ARG_VALUE_END @ rest = CHR ''<'' # tl ARG_VALUE_END @ rest" by (simp add: tag_defs)
  have w: "starts_with ARG_VALUE_END w"
    using tag_stays [OF _ assms(2), of ARG_VALUE_END] t(1) unfolding end_tag by simp
  then have len: "length ARG_VALUE_END \<le> length w" by (auto simp: starts_with_prefix dest: prefix_length_le)
  let ?u = "drop (length ARG_VALUE_END) w"
  have after: "starts_with t (dropWhile ws (?u @ ARG_VALUE_END @ rest))" using t(3) len by simp
  have "tag t" using assms(4) t(2) by blast
  show False
  proof (cases "dropWhile ws ?u = []")
    case True
    then have "\<forall>c \<in> set ?u. ws c" by (simp add: dropWhile_eq_Nil_conv)
    then have "dropWhile ws (?u @ ARG_VALUE_END @ rest) = dropWhile ws (ARG_VALUE_END @ rest)"
      by (intro dropWhile_append2) blast
    then have "starts_with t (ARG_VALUE_END @ rest)" using after dropWhile_tag [where ws = ws and t = ARG_VALUE_END and s = rest] assms(3) by simp
    then show False using different_tags [OF \<open>tag t\<close>, of ARG_VALUE_END] assms(4) t(2) by auto
  next
    case False
    then have "dropWhile ws (?u @ ARG_VALUE_END @ rest) = dropWhile ws ?u @ ARG_VALUE_END @ rest"
      by (metis dropWhile_append dropWhile_eq_Nil_conv)
    then have "starts_with t (dropWhile ws ?u)"
      using after tag_stays [OF \<open>tag t\<close> False] unfolding end_tag by simp
    then have "ends_early ws ts w" using w t(2) by (auto simp: ends_early_def list_ex_iff)
    then show False using assms(1) by simp
  qed
qed

section \<open>The converter\<close>

lemma value_ends_early:
  assumes "value_ends ws (w @ ARG_VALUE_END @ rest)" "w \<noteq> []" "\<not> ws CHR ''<''"
  shows "ends_early ws [ARG_KEY_START] (w @ ARG_VALUE_END @ rest)"
proof -
  let ?s = "w @ ARG_VALUE_END @ rest"
  have "starts_with ARG_VALUE_END ?s" using assms(1) by (simp add: value_ends_def)
  moreover have end_tag: "ARG_VALUE_END @ rest = CHR ''<'' # tl ARG_VALUE_END @ rest" by (simp add: tag_defs)
  ultimately have w: "starts_with ARG_VALUE_END w"
    using tag_stays [OF _ assms(2), of ARG_VALUE_END] unfolding end_tag by simp
  then have "length ARG_VALUE_END \<le> length w" by (auto simp: starts_with_prefix dest: prefix_length_le)
  then have "drop (length ARG_VALUE_END) ?s = drop (length ARG_VALUE_END) w @ ARG_VALUE_END @ rest" by simp
  then have "dropWhile ws (drop (length ARG_VALUE_END) ?s) \<noteq> []"
    using assms(3) by (auto simp: dropWhile_eq_Nil_conv tag_defs)
  then have "starts_with ARG_KEY_START (dropWhile ws (drop (length ARG_VALUE_END) ?s))"
    using assms(1) unfolding value_ends_def Let_def by blast
  moreover have "starts_with ARG_VALUE_END ?s" using assms(1) by (simp add: value_ends_def)
  ultimately show ?thesis unfolding ends_early_def list_ex_iff by (metis list.set_intros(1))
qed

lemma match_value_written:
  assumes "\<not> ws CHR ''<''" "rest = [] \<or> starts_with ARG_KEY_START rest"
  shows "good_value ws [ARG_KEY_START] v \<Longrightarrow> match_value ws (v @ ARG_VALUE_END @ rest) = Some (v, rest)"
proof (induction v)
  case Nil
  have "dropWhile ws rest = rest" using assms tag_head [of ARG_KEY_START rest] by (cases rest) auto
  then have "value_ends ws (ARG_VALUE_END @ rest)" using assms(2) by (simp add: value_ends_def)
  then show ?case by (simp add: match_value_stop)
next
  case (Cons c v)
  have "\<not> ends_early ws [ARG_KEY_START] (c # v)" using good_value_head [OF Cons.prems] by simp
  then have "\<not> ends_early ws [ARG_KEY_START] ((c # v) @ ARG_VALUE_END @ rest)"
    by (rule not_early) (use assms(1) in \<open>simp_all add: tag_defs tag_def\<close>)
  then have "\<not> value_ends ws ((c # v) @ ARG_VALUE_END @ rest)" using value_ends_early [of ws "c # v"] assms(1) by blast
  moreover have "good_value ws [ARG_KEY_START] v" using good_value_drop [OF Cons.prems, of 1] by simp
  ultimately show ?case using Cons.IH by (simp add: match_value_step)
qed

lemma match_key_written:
  assumes "\<not> ws CHR ''<''" "after s = Some r"
  shows "CHR ''<'' \<notin> set k \<Longrightarrow> match_key ws after (k @ ARG_KEY_END @ ARG_VALUE_START @ s) = Some (k, r)"
proof (induction k)
  case Nil
  have "dropWhile ws (ARG_VALUE_START @ s) = ARG_VALUE_START @ s" using assms(1) by (intro dropWhile_tag) simp_all
  then have "key_ends ws after (ARG_KEY_END @ ARG_VALUE_START @ s) = Some r" using assms(2) by (simp add: key_ends_def)
  then show ?case by (simp add: match_key_stop)
next
  case (Cons c k)
  have "\<not> starts_with ARG_KEY_END ((c # k) @ ARG_KEY_END @ ARG_VALUE_START @ s)"
    using tag_head [of ARG_KEY_END] Cons.prems by fastforce
  then have "key_ends ws after ((c # k) @ ARG_KEY_END @ ARG_VALUE_START @ s) = None" by (simp add: key_ends_def)
  then show ?case using Cons by (simp add: match_key_step)
qed

lemma search_written:
  assumes "\<not> ws CHR ''<''" "CHR ''<'' \<notin> set k" "after (s) = Some r"
  shows "search_arg ws after (ARG_KEY_START @ k @ ARG_KEY_END @ ARG_VALUE_START @ s) = Some (k, r)"
  using match_key_written [of ws after s r k] assms by (subst search_arg.simps) simp

lemma render_args_simps [simp]:
  "render_args [] = []"
  "render_args ((k, v) # kvs) = ARG_KEY_START @ k @ ARG_KEY_END @ ARG_VALUE_START @ v @ ARG_VALUE_END @ render_args kvs"
  by (simp_all add: render_args_def)

lemma render_args_next: "render_args kvs = [] \<or> starts_with ARG_KEY_START (render_args kvs)"
  by (cases kvs) auto

definition good_args :: "(char \<Rightarrow> bool) \<Rightarrow> (string \<times> string) list \<Rightarrow> bool" where
  "good_args ws kvs \<longleftrightarrow> distinct (map fst kvs)
     \<and> list_all (\<lambda>(k, v). good_key k \<and> good_value ws [ARG_KEY_START] v) kvs"

lemma find_args_written:
  assumes "\<not> ws CHR ''<''"
  shows "good_args ws kvs \<Longrightarrow> find_args ws False (render_args kvs) ps = (fold (\<lambda>(k, v). AList.update k v) kvs ps, [])"
proof (induction kvs arbitrary: ps)
  case Nil
  then show ?case by (simp add: find_args.simps)
next
  case (Cons kv kvs)
  obtain k v where kv: "kv = (k, v)" by (cases kv)
  have k: "CHR ''<'' \<notin> set k" "py_strip k = k" and v: "good_value ws [ARG_KEY_START] v" and kvs: "good_args ws kvs"
    using Cons.prems by (auto simp: good_args_def good_key_def kv)
  have "search_arg ws (match_value ws) (render_args (kv # kvs)) = Some (k, v, render_args kvs)"
    unfolding kv render_args_simps
    by (rule search_written) (use assms k match_value_written [OF assms render_args_next v] in simp_all)
  then show ?case using Cons.IH [OF kvs] k(2) by (subst find_args.simps) (simp add: kv)
qed

lemma fold_update_new:
  "distinct (map fst (ps @ kvs)) \<Longrightarrow> fold (\<lambda>(k, v). AList.update k v) kvs ps = ps @ kvs"
proof (induction kvs arbitrary: ps)
  case (Cons kv kvs)
  obtain k v where kv: "kv = (k, v)" by (cases kv)
  have "k \<notin> fst ` set ps" using Cons.prems kv by auto
  then have "AList.update k v ps = ps @ [(k, v)]" by (induction ps) auto
  then show ?case using Cons.IH [of "ps @ [(k, v)]"] Cons.prems by (simp add: kv)
qed simp

text \<open>While the call is still open, the last argument is read from the tail of the text.\<close>

lemma find_rev_upt:
  "p \<le> n \<Longrightarrow> P p \<Longrightarrow> (\<And>q. p < q \<Longrightarrow> q \<le> n \<Longrightarrow> \<not> P q) \<Longrightarrow> find P (rev [0..<Suc n]) = Some p"
proof (induction n)
  case (Suc n)
  show ?case
  proof (cases "p = Suc n")
    case False
    then have "\<not> P (Suc n)" using Suc.prems by simp
    moreover have "find P (rev [0..<Suc n]) = Some p" by (rule Suc.IH) (use Suc.prems False in auto)
    ultimately show ?thesis by simp
  qed (use Suc.prems in simp)
qed simp

lemma cut_last_written: "cut_last_end (v @ ARG_VALUE_END) = v"
proof -
  let ?s = "v @ ARG_VALUE_END"
  have "py_rfind ?s ARG_VALUE_END (length ?s) = Some (length v)"
    unfolding py_rfind_def min.idem by (rule find_rev_upt) (simp_all add: starts_with_def)
  then show ?thesis by (simp add: cut_last_end_def)
qed

lemma find_args_partial:
  assumes "\<not> ws CHR ''<''"
  shows "good_args ws (kvs @ [(k, v)]) \<Longrightarrow>
    find_args ws True (render_args (kvs @ [(k, v)])) ps = (fold (\<lambda>(k, v). AList.update k v) kvs ps, render_args [(k, v)])"
proof (induction kvs arbitrary: ps)
  case Nil
  then have kv: "CHR ''<'' \<notin> set k" "good_value ws [ARG_KEY_START] v" by (auto simp: good_args_def good_key_def)
  have "search_arg ws (match_value ws) (render_args [(k, v)]) = Some (k, v, [])"
    unfolding render_args_simps
    by (rule search_written) (use assms kv match_value_written [of ws "[]" v] in simp_all)
  then show ?case by (subst find_args.simps) simp
next
  case (Cons kv kvs)
  obtain k' v' where kv: "kv = (k', v')" by (cases kv)
  have k: "CHR ''<'' \<notin> set k'" "py_strip k' = k'" and v: "good_value ws [ARG_KEY_START] v'"
    and kvs: "good_args ws (kvs @ [(k, v)])"
    using Cons.prems by (auto simp: good_args_def good_key_def kv)
  let ?rest = "render_args (kvs @ [(k, v)])"
  have "search_arg ws (match_value ws) (render_args (kv # kvs @ [(k, v)])) = Some (k', v', ?rest)"
    unfolding kv render_args_simps
    by (rule search_written) (use assms k match_value_written [OF assms render_args_next v] in simp_all)
  moreover have "starts_with ARG_KEY_START ?rest" by (cases kvs) auto
  then have "\<not> list_all is_space ?rest"
    by (auto simp: starts_with_prefix prefix_def tag_defs is_space_def)
  ultimately show ?case using Cons.IH [OF kvs] k(2) by (subst find_args.simps) (simp add: kv)
qed

lemma glm_params_written:
  assumes "\<not> ws CHR ''<''" "good_args ws kvs"
  shows "glm_params ws (render_args kvs) partial = kvs"
proof (cases "partial \<and> kvs \<noteq> []")
  case False
  then have "find_args ws partial (render_args kvs) [] = (fold (\<lambda>(k, v). AList.update k v) kvs [], [])"
    using find_args_written [OF assms, of "[]"] by (cases partial) (auto simp: find_args.simps)
  then show ?thesis using fold_update_new [of "[]" kvs] assms(2) by (simp add: glm_params_def good_args_def)
next
  case True
  then obtain ps k v where kvs: "kvs = ps @ [(k, v)]" by (metis prod.collapse rev_exhaust)
  have k: "CHR ''<'' \<notin> set k" "py_strip k = k" "k \<noteq> []" and "distinct (map fst (ps @ [(k, v)]))"
    using assms(2) by (auto simp: good_args_def good_key_def kvs)
  then have new: "fold (\<lambda>(k, v). AList.update k v) ps [] = ps" "AList.update k v ps = ps @ [(k, v)]"
    using fold_update_new [of "[]" ps] fold_update_new [of ps "[(k, v)]"] by simp_all
  have "search_arg ws Some (render_args [(k, v)]) = Some (k, v @ ARG_VALUE_END)"
    unfolding render_args_simps by (rule search_written) (use assms(1) k in simp_all)
  then show ?thesis
    using find_args_partial [OF assms(1) assms(2) [unfolded kvs], of "[]"] True k new
    by (simp add: glm_params_def kvs cut_last_written)
qed

end
