(* ===== verification/GlmCall.thy ===== *)
theory GlmCall
  imports ParserTheorems GlmFacts
begin

text \<open>
  A call in the GLM format, from its text to the name and the arguments: the tags are lexed where they
  stand, the state machine tells the end of a value from an end tag inside it, and the converter reads
  the arguments back.
\<close>

section \<open>Lexing the format\<close>

abbreviation glm_shape :: "(string \<Rightarrow> string) \<Rightarrow> (char \<Rightarrow> bool) \<Rightarrow> ((string \<times> string) list \<Rightarrow> string) \<Rightarrow> bool \<Rightarrow> lexer_shape" where
  "glm_shape esc ws dumps th \<equiv> config_lexer_shape esc (glm47_moe_config ws dumps th)"

lemma glm_shape_ok [simp]: "shape_ok (glm_shape esc ws dumps th)"
  by (simp add: config_lexer_shape_def)

lemma glm_literals:
  "(l, n) \<in> set (literal_strings (glm_shape esc ws dumps th)) \<longleftrightarrow> (n, l) \<in> set (pc_terminals (glm47_moe_config ws dumps th))"
  by (force simp: config_lexer_shape_def lexer_shape_of_def terminals_from_literals_def Let_def image_iff)

lemma glm_tags:
  "\<forall>(n, l) \<in> set (pc_terminals (glm47_moe_config ws dumps th)). tag l"
  "\<forall>(n, l) \<in> set (pc_terminals (glm47_moe_config ws dumps th)).
     \<forall>(m, k) \<in> set (pc_terminals (glm47_moe_config ws dumps th)). prefix l k \<longrightarrow> n = m \<and> l = k"
  by (cases th; simp add: glm_fields; simp add: tag_defs)+

lemma glm_tag: "(n, l) \<in> set (pc_terminals (glm47_moe_config ws dumps th)) \<Longrightarrow> tag l"
  using glm_tags(1) [of ws dumps th] by blast

lemma glm_tag_unique:
  "(n, l) \<in> set (pc_terminals (glm47_moe_config ws dumps th)) \<Longrightarrow> (m, k) \<in> set (pc_terminals (glm47_moe_config ws dumps th)) \<Longrightarrow>
   prefix l k \<Longrightarrow> n = m \<and> l = k"
  using glm_tags(2) [of ws dumps th] by blast

lemma glm_first: "c \<noteq> CHR ''<'' \<Longrightarrow> c \<notin> literal_first_chars (glm_shape esc ws dumps th)"
proof -
  have "literal_first_chars (glm_shape esc ws dumps th)
      = {hd l |l n. (l, n) \<in> set (literal_strings (glm_shape esc ws dumps th)) \<and> l \<noteq> []}"
    using glm_shape_ok [of esc ws dumps th] unfolding shape_ok_def by blast
  then show "c \<noteq> CHR ''<'' \<Longrightarrow> c \<notin> literal_first_chars (glm_shape esc ws dumps th)"
    using glm_tags(1) [of ws dumps th] unfolding glm_literals by (auto simp: tag_def)
qed

text \<open>A tag is lexed as itself.\<close>

lemma best_match_tag:
  assumes "(n, l) \<in> set (pc_terminals (glm47_moe_config ws dumps th))"
  shows "best_match (glm_shape esc ws dumps th) (l @ s) = Some (n, l)"
proof -
  have l: "tag l" by (rule glm_tag [OF assms])
  then have ne: "l @ s \<noteq> []" by (auto simp: tag_def)
  have only: "m = n \<and> k = l" if "(k, m) \<in> literals_here (glm_shape esc ws dumps th) (l @ s)" for k m
  proof -
    from that have k: "(m, k) \<in> set (pc_terminals (glm47_moe_config ws dumps th))" "prefix k (l @ s)"
      by (auto simp: literals_here_def glm_literals)
    then have "prefix k l \<or> prefix l k"
      using different_tags [OF glm_tag [OF k(1)] l] by (simp add: starts_with_prefix)
    then show ?thesis using glm_tag_unique [OF k(1) assms] glm_tag_unique [OF assms k(1)] by blast
  qed
  have "(l, n) \<in> literals_here (glm_shape esc ws dumps th) (l @ s)"
    using l assms by (auto simp: literals_here_def glm_literals tag_def)
  then obtain m k where mk: "best_match (glm_shape esc ws dumps th) (l @ s) = Some (m, k)"
    using best_match_None [OF glm_shape_ok ne] by (cases "best_match (glm_shape esc ws dumps th) (l @ s)") auto
  then show ?thesis using only best_match_Some(1) [OF glm_shape_ok ne mk] by simp
qed

lemma lex_tag:
  assumes "(n, l) \<in> set (pc_terminals (glm47_moe_config ws dumps th))"
  shows "plain_lex (glm_shape esc ws dumps th) (l @ s) = LexToken n l # plain_lex (glm_shape esc ws dumps th) s"
proof -
  have "tag l" by (rule glm_tag [OF assms])
  then obtain cs where l: "l = CHR ''<'' # cs" by (cases l) (auto simp: tag_def)
  show ?thesis using best_match_tag [OF assms, of esc s] by (simp add: l)
qed

section \<open>The machine\<close>

text \<open>What the text is heard to do from a state on.\<close>

definition run_text :: "lexer_shape \<Rightarrow> string \<Rightarrow> engine \<Rightarrow> semantic_event list \<times> engine" where
  "run_text sh t e = performs (map Lexed (pieces (plain_lex sh t))) e"

lemma run_text_eta: "run_text sh t = performs (map Lexed (pieces (plain_lex sh t)))"
  by (rule ext) (rule run_text_def)

text \<open>Engines of the format that read text and hold nothing.\<close>

definition calm :: "(char \<Rightarrow> bool) \<Rightarrow> ((string \<times> string) list \<Rightarrow> string) \<Rightarrow> bool \<Rightarrow> engine \<Rightarrow> bool" where
  "calm ws dumps th e \<longleftrightarrow> eng_config e = glm47_moe_config ws dumps th \<and> \<not> ever_had_token_ids e
     \<and> \<not> skip_tool_parsing e \<and> \<not> has_drops e \<and> args_buffer e = [] \<and> args_safe_end e = 0
     \<and> args_brace_depth e = 0 \<and> \<not> args_in_string e \<and> \<not> args_escape_next e"

lemma calm_state [simp]: "calm ws dumps th (e\<lparr>pstate := s\<rparr>) = calm ws dumps th e"
  by (simp add: calm_def)

lemma calm_even: "calm ws dumps th e \<Longrightarrow> streams_evenly (eng_config e)"
  by (simp add: calm_def glm_streams_evenly)

text \<open>One event, and a new state of the machine.\<close>

definition says :: "event_type \<Rightarrow> string \<Rightarrow> parser_state \<Rightarrow> engine \<Rightarrow> semantic_event list \<times> engine" where
  "says t v s e = ([SemanticEvent t v (tool_index e)], e\<lparr>pstate := s\<rparr>)"

lemma calm_transition:
  assumes "calm ws dumps th e" "tr_events tr = [t]" "t \<noteq> TOOL_CALL_START"
  shows "apply_transition tr v e = says t v (next_state tr) e"
  using assms by (cases e) (auto simp: apply_transition_def says_def calm_def Let_def)

lemma calm_terminal:
  assumes "calm ws dumps th e" "map_of (pc_transitions (glm47_moe_config ws dumps th)) (pstate e, n) = Some tr"
    "tr_events tr = [t]" "t \<noteq> TOOL_CALL_START"
  shows "on_terminal n v e = says t v (next_state tr) e"
proof -
  have "((pstate e, n), tr) \<in> set (pc_transitions (glm47_moe_config ws dumps th))" using assms(2) by (rule map_of_SomeD)
  then have "\<not> skip_in_token_id_mode tr" using glm_entries_all(1) [of ws dumps th] by auto
  then show ?thesis
    using assms calm_transition [OF assms(1,3,4)] by (simp add: on_terminal_def calm_def)
qed

lemma glm_terminal_names: "(n, l) \<in> set (pc_terminals (glm47_moe_config ws dumps th)) \<Longrightarrow> n \<noteq> CONTENT_TERMINAL"
  by (cases th) (auto simp: glm_fields CONTENT_TERMINAL_def)

lemma run_tag:
  assumes "(n, l) \<in> set (pc_terminals (glm47_moe_config ws dumps th))" "\<not> ever_had_token_ids e"
  shows "run_text (glm_shape esc ws dumps th) (l @ s) e = and_then (on_terminal n l e) (run_text (glm_shape esc ws dumps th) s)"
proof -
  have "piece_of (LexToken n l) = [LexToken n l]" using glm_terminal_names [OF assms(1)] by (simp add: piece_of_def)
  then have "pieces (plain_lex (glm_shape esc ws dumps th) (l @ s)) = LexToken n l # pieces (plain_lex (glm_shape esc ws dumps th) s)"
    unfolding lex_tag [OF assms(1)] by simp
  moreover have "perform (Lexed (LexToken n l)) e = on_terminal n l e"
    using glm_terminal_names [OF assms(1)] assms(2) by (simp add: on_lex_token_def)
  ultimately show ?thesis unfolding run_text_eta by (simp only: list.map performs_Cons)
qed

lemma run_content:
  assumes "calm ws dumps th e" "CHR ''<'' \<notin> set u"
  shows "same_run (run_text (glm_shape esc ws dumps th) (u @ s) e)
    (and_then (emit_for_state u e) (run_text (glm_shape esc ws dumps th) s))"
proof -
  have "list_all (\<lambda>c. c \<notin> literal_first_chars (glm_shape esc ws dumps th)) u"
    unfolding list_all_iff using assms(2) glm_first by metis
  from all_content [OF glm_shape_ok this, of s]
  have "run_text (glm_shape esc ws dumps th) (u @ s) e
      = and_then (each_event on_lex_token (map (\<lambda>c. LexToken CONTENT_TERMINAL [c]) u) e) (run_text (glm_shape esc ws dumps th) s)"
    unfolding run_text_eta by (simp only: map_append performs_append performs_lexed)
  also have "same_run \<dots> (and_then (emit_for_state u e) (run_text (glm_shape esc ws dumps th) s))"
    by (intro same_run_and_then same_run_refl content_pieces calm_even [OF assms(1)])
  finally show ?thesis .
qed

text \<open>One character of content that no tag starts at.\<close>

lemma run_char:
  assumes "calm ws dumps th e" "best_match (glm_shape esc ws dumps th) (c # s) = None"
  shows "run_text (glm_shape esc ws dumps th) (c # s) e
    = and_then (emit_for_state [c] e) (run_text (glm_shape esc ws dumps th) s)"
proof -
  have "pieces (plain_lex (glm_shape esc ws dumps th) (c # s))
      = LexToken CONTENT_TERMINAL [c] # pieces (plain_lex (glm_shape esc ws dumps th) s)"
    using assms(2) by (simp add: piece_of_def)
  moreover have "perform (Lexed (LexToken CONTENT_TERMINAL [c])) e = emit_for_state [c] e"
    by (simp add: on_lex_token_def on_content_def)
  ultimately show ?thesis unfolding run_text_eta by (simp only: list.map performs_Cons)
qed

section \<open>Values\<close>

text \<open>Inside a value the machine is in one of two states, and everything is part of the value.\<close>

definition closing_tags :: "string list" where
  "closing_tags = [ARG_KEY_START, TOOL_END_TAG]"

definition pending_ok :: "parser_state \<Rightarrow> string \<Rightarrow> bool" where
  "pending_ok s v \<longleftrightarrow> s = TOOL_ARGS
     \<or> (s = TOOL_ARG_END_PENDING \<and> list_all (\<lambda>t. \<not> starts_with t (dropWhile is_space v)) closing_tags)"

lemma emit_value:
  assumes "calm ws dumps th e" "pstate e = TOOL_ARGS \<or> pstate e = TOOL_ARG_END_PENDING"
  shows "emit_for_state v e = says ARG_VALUE_CHUNK v (if list_all is_space v then pstate e else TOOL_ARGS) e"
  using assms(2)
proof
  assume s: "pstate e = TOOL_ARGS"
  then have "emit_for_state v e = ([SemanticEvent ARG_VALUE_CHUNK v (tool_index e)], e)"
    using assms(1) by (simp add: emit_for_state_def emit_in_state_def calm_def glm_simps)
  then show ?thesis using s by (simp add: says_def)
next
  assume s: "pstate e = TOOL_ARG_END_PENDING"
  show ?thesis
  proof (cases "list_all is_space v")
    case True
    then have "emit_for_state v e = ([SemanticEvent ARG_VALUE_CHUNK v (tool_index e)], e)"
      using assms(1) s by (simp add: emit_for_state_def emit_in_state_def calm_def glm_simps py_strip_empty)
    then show ?thesis using s True by (simp add: says_def)
  next
    case False
    then have "emit_for_state v e = apply_transition (Transition TOOL_ARGS [ARG_VALUE_CHUNK]) v e"
      using assms(1) s by (simp add: emit_for_state_def calm_def glm_simps py_strip_empty)
    then show ?thesis
      using calm_transition [OF assms(1), of "Transition TOOL_ARGS [ARG_VALUE_CHUNK]"] False by (simp add: Transition_def)
  qed
qed

lemma glm_names:
  assumes "(n, l) \<in> set (pc_terminals (glm47_moe_config ws dumps th))"
  shows "n = ''ARG_VALUE_END'' \<longleftrightarrow> l = ARG_VALUE_END" "n = ''ARG_KEY_START'' \<longleftrightarrow> l = ARG_KEY_START"
    "n = ''TOOL_END'' \<longleftrightarrow> l = TOOL_END_TAG"
  using assms by (cases th; auto simp: glm_fields tag_defs)+

lemma glm_value_transitions:
  "map_of (pc_transitions (glm47_moe_config ws dumps th)) (TOOL_ARGS, n)
    = (if n = ''ARG_VALUE_END'' then Some (Transition TOOL_ARG_END_PENDING [ARG_VALUE_CHUNK]) else None)"
  "map_of (pc_transitions (glm47_moe_config ws dumps th)) (TOOL_ARG_END_PENDING, n)
    = (if n = ''TOOL_END'' then Some (Transition CONTENT [TOOL_CALL_END])
       else if n = ''ARG_VALUE_END'' then Some (Transition TOOL_ARG_END_PENDING [ARG_VALUE_CHUNK])
       else if n = ''ARG_KEY_START'' then Some (Transition TOOL_BETWEEN [ARG_VALUE_CHUNK]) else None)"
  by (cases th; simp add: glm_fields)+

text \<open>A tag inside a value.\<close>

lemma value_tag:
  assumes "calm ws dumps th e" "pstate e = TOOL_ARGS \<or> pstate e = TOOL_ARG_END_PENDING"
    and "(n, l) \<in> set (pc_terminals (glm47_moe_config ws dumps th))"
    and "pstate e = TOOL_ARG_END_PENDING \<Longrightarrow> l \<noteq> ARG_KEY_START \<and> l \<noteq> TOOL_END_TAG"
  shows "on_terminal n l e = says ARG_VALUE_CHUNK l (if l = ARG_VALUE_END then TOOL_ARG_END_PENDING else TOOL_ARGS) e"
proof (cases "l = ARG_VALUE_END")
  case True
  then have n: "n = ''ARG_VALUE_END''" using glm_names(1) [OF assms(3)] by blast
  have "map_of (pc_transitions (glm47_moe_config ws dumps th)) (pstate e, n) = Some (Transition TOOL_ARG_END_PENDING [ARG_VALUE_CHUNK])"
    using assms(2) n by (elim disjE) (simp_all add: glm_value_transitions)
  from calm_terminal [OF assms(1) this, of ARG_VALUE_CHUNK l] True show ?thesis by (simp add: Transition_def)
next
  case False
  then have n: "n \<noteq> ''ARG_VALUE_END''" using glm_names(1) [OF assms(3)] by blast
  have "map_of (pc_transitions (glm47_moe_config ws dumps th)) (pstate e, n) = None"
    using assms(2)
  proof
    assume "pstate e = TOOL_ARGS"
    then show ?thesis using n by (simp add: glm_value_transitions)
  next
    assume s: "pstate e = TOOL_ARG_END_PENDING"
    then have "n \<noteq> ''ARG_KEY_START''" "n \<noteq> ''TOOL_END''"
      using assms(4) glm_names(2,3) [OF assms(3)] by blast+
    then show ?thesis using n s by (simp add: glm_value_transitions)
  qed
  then have "on_terminal n l e = emit_for_state l e" using assms(1) by (simp add: on_terminal_def calm_def)
  moreover have "\<not> list_all is_space l" using assms(3) by (cases th) (auto simp: glm_fields tag_defs is_space_def)
  ultimately show ?thesis using emit_value [OF assms(1,2)] False by simp
qed

lemma same_run_says:
  assumes "says ARG_VALUE_CHUNK u s e = r" "\<And>e'. e' = e\<lparr>pstate := s\<rparr> \<Longrightarrow> same_run (f e') (and_then (says ARG_VALUE_CHUNK v s' e') g)"
  shows "same_run (and_then r f) (and_then (says ARG_VALUE_CHUNK (u @ v) s' e) g)"
  using assms(2) [OF refl] unfolding assms(1) [symmetric]
  by (simp add: same_run_def says_def heard_of_chunk)

text \<open>A good value is heard as it is, and leaves the machine in one of the two states.\<close>

lemma run_value:
  assumes good: "good_value is_space closing_tags v" and e: "calm ws dumps th e" and s: "pending_ok (pstate e) v"
  shows "\<exists>s'. (s' = TOOL_ARGS \<or> s' = TOOL_ARG_END_PENDING) \<and>
    same_run (run_text (glm_shape esc ws dumps th) (v @ CHR ''<'' # x) e)
      (and_then (says ARG_VALUE_CHUNK v s' e) (run_text (glm_shape esc ws dumps th) (CHR ''<'' # x)))"
  using assms
proof (induction v arbitrary: e rule: length_induct)
  case (1 v)
  let ?sh = "glm_shape esc ws dumps th"
  have st: "pstate e = TOOL_ARGS \<or> pstate e = TOOL_ARG_END_PENDING" using 1(4) by (auto simp: pending_ok_def)
  show ?case
  proof (cases v)
    case Nil
    have "same_run (run_text ?sh (CHR ''<'' # x) e) (and_then (says ARG_VALUE_CHUNK [] (pstate e) e) (run_text ?sh (CHR ''<'' # x)))"
      by (simp add: same_run_def says_def heard_of_chunk)
    then show ?thesis using st Nil by auto
  next
    case (Cons c cs)
    have step: ?thesis
      if u: "v = u @ w" "u \<noteq> []" and run: "run_text ?sh (v @ CHR ''<'' # x) e = and_then (says ARG_VALUE_CHUNK u s1 e) (run_text ?sh (w @ CHR ''<'' # x))"
        and ok: "pending_ok s1 w" for u w s1
    proof -
      have "good_value is_space closing_tags w" using good_value_drop [OF 1(2), of "length u"] u(1) by simp
      moreover have "length w < length v" using u by simp
      ultimately obtain s' where s': "s' = TOOL_ARGS \<or> s' = TOOL_ARG_END_PENDING"
        "same_run (run_text ?sh (w @ CHR ''<'' # x) (e\<lparr>pstate := s1\<rparr>))
          (and_then (says ARG_VALUE_CHUNK w s' (e\<lparr>pstate := s1\<rparr>)) (run_text ?sh (CHR ''<'' # x)))"
        using 1(1) [rule_format, of w "e\<lparr>pstate := s1\<rparr>"] 1(3) ok by auto
      then have "same_run (run_text ?sh (v @ CHR ''<'' # x) e)
          (and_then (says ARG_VALUE_CHUNK (u @ w) s' e) (run_text ?sh (CHR ''<'' # x)))"
        unfolding run by (intro same_run_says) (auto simp: says_def)
      then show ?thesis using s'(1) u(1) by blast
    qed
    show ?thesis
    proof (cases "best_match ?sh (v @ CHR ''<'' # x)")
      case None
      then have "run_text ?sh (v @ CHR ''<'' # x) e = and_then (emit_for_state [c] e) (run_text ?sh (cs @ CHR ''<'' # x))"
        using run_char [OF 1(3)] Cons by simp
      moreover have "pending_ok (if list_all is_space [c] then pstate e else TOOL_ARGS) cs"
        using 1(4) Cons by (auto simp: pending_ok_def)
      ultimately show ?thesis
        using step [of "[c]" cs "if list_all is_space [c] then pstate e else TOOL_ARGS"] emit_value [OF 1(3) st, of "[c]"] Cons
        by simp
    next
      case (Some p)
      obtain n l where p: "p = (n, l)" by (cases p)
      have "(l, n) \<in> literals_here ?sh (v @ CHR ''<'' # x)"
        using best_match_Some(1) [OF glm_shape_ok _ Some [unfolded p]] by simp
      then have l: "(n, l) \<in> set (pc_terminals (glm47_moe_config ws dumps th))" "starts_with l (v @ CHR ''<'' # x)"
        by (auto simp: literals_here_def glm_literals starts_with_prefix)
      have "starts_with l v" by (rule tag_stays [OF glm_tag [OF l(1)] _ l(2)]) (simp add: Cons)
      then obtain w where w: "v = l @ w" by (auto simp: starts_with_prefix prefix_def)
      have ne: "l \<noteq> []" using glm_tag [OF l(1)] by (auto simp: tag_def)
      have run: "run_text ?sh (v @ CHR ''<'' # x) e = and_then (on_terminal n l e) (run_text ?sh (w @ CHR ''<'' # x))"
        using run_tag [OF l(1), of e esc "w @ CHR ''<'' # x"] 1(3) by (simp add: w calm_def)
      have "dropWhile is_space v = v"
        using glm_tag [OF l(1)] w by (cases l) (auto simp: tag_def is_space_def)
      then have "pstate e = TOOL_ARG_END_PENDING \<Longrightarrow> l \<noteq> ARG_KEY_START \<and> l \<noteq> TOOL_END_TAG"
        using 1(4) w by (auto simp: pending_ok_def closing_tags_def)
      from value_tag [OF 1(3) st l(1) this]
      have tag: "on_terminal n l e = says ARG_VALUE_CHUNK l (if l = ARG_VALUE_END then TOOL_ARG_END_PENDING else TOOL_ARGS) e" .
      have "pending_ok (if l = ARG_VALUE_END then TOOL_ARG_END_PENDING else TOOL_ARGS) w"
      proof -
        have "\<not> ends_early is_space closing_tags (l @ w)" using good_value_head [OF 1(2)] Cons w by simp
        then show ?thesis by (auto simp: pending_ok_def ends_early_def list_ex_iff list_all_iff)
      qed
      then show ?thesis using step [OF w ne _ ] run tag by simp
    qed
  qed
qed

section \<open>Arguments\<close>

text \<open>Before an argument, and after the last one.\<close>

definition between_args :: "parser_state \<Rightarrow> bool" where
  "between_args s \<longleftrightarrow> s = TOOL_NAME \<or> s = TOOL_ARG_END_PENDING"

lemma glm_arg_transitions:
  "between_args s \<Longrightarrow> map_of (pc_transitions (glm47_moe_config ws dumps th)) (s, ''ARG_KEY_START'')
     = Some (Transition TOOL_BETWEEN [ARG_VALUE_CHUNK])"
  "map_of (pc_transitions (glm47_moe_config ws dumps th)) (TOOL_BETWEEN, ''ARG_KEY_END'')
     = Some (Transition TOOL_BETWEEN [ARG_VALUE_CHUNK])"
  "map_of (pc_transitions (glm47_moe_config ws dumps th)) (TOOL_BETWEEN, ''ARG_VALUE_START'')
     = Some (Transition TOOL_ARGS [ARG_VALUE_CHUNK])"
  "between_args s \<Longrightarrow> map_of (pc_transitions (glm47_moe_config ws dumps th)) (s, ''TOOL_END'')
     = Some (Transition CONTENT [TOOL_CALL_END])"
  by (cases th; auto simp: glm_fields between_args_def)+

lemma glm_terminals [simp]:
  "(''TOOL_START'', TOOL_START_TAG) \<in> set (pc_terminals (glm47_moe_config ws dumps th))"
  "(''TOOL_END'', TOOL_END_TAG) \<in> set (pc_terminals (glm47_moe_config ws dumps th))"
  "(''ARG_KEY_START'', ARG_KEY_START) \<in> set (pc_terminals (glm47_moe_config ws dumps th))"
  "(''ARG_KEY_END'', ARG_KEY_END) \<in> set (pc_terminals (glm47_moe_config ws dumps th))"
  "(''ARG_VALUE_START'', ARG_VALUE_START) \<in> set (pc_terminals (glm47_moe_config ws dumps th))"
  "(''ARG_VALUE_END'', ARG_VALUE_END) \<in> set (pc_terminals (glm47_moe_config ws dumps th))"
  by (cases th; simp add: glm_fields)+

text \<open>A tag of the arguments, in a state that has a transition for it.\<close>

lemma run_arg_tag:
  assumes "calm ws dumps th e" "(n, l) \<in> set (pc_terminals (glm47_moe_config ws dumps th))"
    and "map_of (pc_transitions (glm47_moe_config ws dumps th)) (pstate e, n) = Some (Transition s [ARG_VALUE_CHUNK])"
  shows "run_text (glm_shape esc ws dumps th) (l @ x) e
    = and_then (says ARG_VALUE_CHUNK l s e) (run_text (glm_shape esc ws dumps th) x)"
proof -
  have "\<not> ever_had_token_ids e" using assms(1) by (simp add: calm_def)
  from run_tag [OF assms(2) this] calm_terminal [OF assms(1,3), of ARG_VALUE_CHUNK l]
  show ?thesis by (simp add: Transition_def)
qed

definition good_call_arg :: "string \<times> string \<Rightarrow> bool" where
  "good_call_arg = (\<lambda>(k, v). CHR ''<'' \<notin> set k \<and> good_value is_space closing_tags v)"

text \<open>Chained chunks of arguments are one.\<close>

definition heard_as :: "(engine \<Rightarrow> semantic_event list \<times> engine) \<Rightarrow> string \<Rightarrow> parser_state \<Rightarrow>
    (engine \<Rightarrow> semantic_event list \<times> engine) \<Rightarrow> engine \<Rightarrow> bool" where
  "heard_as f u s g e \<longleftrightarrow> same_run (f e) (and_then (says ARG_VALUE_CHUNK u s e) g)"

lemma heard_as_trans:
  assumes "heard_as f u s g e" "heard_as g v s' h (e\<lparr>pstate := s\<rparr>)"
  shows "heard_as f (u @ v) s' h e"
  using assms by (simp add: heard_as_def same_run_def says_def heard_of_chunk)

lemma run_one_arg:
  assumes e: "calm ws dumps th e" and s: "between_args (pstate e)" and kv: "good_call_arg (k, v)"
  shows "heard_as (run_text (glm_shape esc ws dumps th) (render_args [(k, v)] @ x)) (render_args [(k, v)])
    TOOL_ARG_END_PENDING (run_text (glm_shape esc ws dumps th) x) e"
proof -
  let ?run = "run_text (glm_shape esc ws dumps th)"
  let ?at = "\<lambda>s. e\<lparr>pstate := s\<rparr>"
  let ?stop = "ARG_VALUE_END @ x" let ?val = "v @ ?stop" let ?vs = "ARG_VALUE_START @ ?val"
  let ?ke = "ARG_KEY_END @ ?vs"
  have 1: "heard_as (?run (ARG_KEY_START @ k @ ?ke)) ARG_KEY_START TOOL_BETWEEN (?run (k @ ?ke)) e"
    using run_arg_tag [OF e glm_terminals(3) glm_arg_transitions(1) [OF s]] by (simp add: heard_as_def)
  have "emit_for_state k (?at TOOL_BETWEEN) = says ARG_VALUE_CHUNK k TOOL_BETWEEN (?at TOOL_BETWEEN)"
    using e by (simp add: emit_for_state_def emit_in_state_def calm_def glm_simps says_def)
  then have 2: "heard_as (?run (k @ ?ke)) k TOOL_BETWEEN (?run ?ke) (?at TOOL_BETWEEN)"
    using run_content [of ws dumps th "?at TOOL_BETWEEN" k esc ?ke] e kv by (simp add: heard_as_def good_call_arg_def)
  have 3: "heard_as (?run ?ke) ARG_KEY_END TOOL_BETWEEN (?run ?vs) (?at TOOL_BETWEEN)"
    using run_arg_tag [of ws dumps th "?at TOOL_BETWEEN", OF _ glm_terminals(4)] e glm_arg_transitions(2)
    by (simp add: heard_as_def)
  have 4: "heard_as (?run ?vs) ARG_VALUE_START TOOL_ARGS (?run ?val) (?at TOOL_BETWEEN)"
    using run_arg_tag [of ws dumps th "?at TOOL_BETWEEN", OF _ glm_terminals(5)] e glm_arg_transitions(3)
    by (simp add: heard_as_def)
  have tag: "?stop = CHR ''<'' # tl ARG_VALUE_END @ x" by (simp add: tag_defs)
  have "good_value is_space closing_tags v" "pending_ok (pstate (?at TOOL_ARGS)) v"
    using kv by (simp_all add: good_call_arg_def pending_ok_def)
  from run_value [OF this(1) _ this(2), of ws dumps th esc "tl ARG_VALUE_END @ x"] e
  obtain s' where s': "s' = TOOL_ARGS \<or> s' = TOOL_ARG_END_PENDING"
    and 5: "heard_as (?run ?val) v s' (?run ?stop) (?at TOOL_ARGS)"
    unfolding tag by (auto simp: heard_as_def)
  have "map_of (pc_transitions (glm47_moe_config ws dumps th)) (s', ''ARG_VALUE_END'') = Some (Transition TOOL_ARG_END_PENDING [ARG_VALUE_CHUNK])"
    using s' by (auto simp: glm_value_transitions)
  then have 6: "heard_as (?run ?stop) ARG_VALUE_END TOOL_ARG_END_PENDING (?run x) (?at s')"
    using run_arg_tag [of ws dumps th "?at s'", OF _ glm_terminals(6)] e by (simp add: heard_as_def)
  have 56: "heard_as (?run ?val) (v @ ARG_VALUE_END) TOOL_ARG_END_PENDING (?run x) (?at TOOL_ARGS)"
    by (rule heard_as_trans [OF 5]) (use 6 in simp)
  have 46: "heard_as (?run ?vs) (ARG_VALUE_START @ v @ ARG_VALUE_END) TOOL_ARG_END_PENDING (?run x) (?at TOOL_BETWEEN)"
    by (rule heard_as_trans [OF 4]) (use 56 in simp)
  have 36: "heard_as (?run ?ke) (ARG_KEY_END @ ARG_VALUE_START @ v @ ARG_VALUE_END) TOOL_ARG_END_PENDING (?run x) (?at TOOL_BETWEEN)"
    by (rule heard_as_trans [OF 3]) (use 46 in simp)
  have 26: "heard_as (?run (k @ ?ke)) (k @ ARG_KEY_END @ ARG_VALUE_START @ v @ ARG_VALUE_END) TOOL_ARG_END_PENDING (?run x) (?at TOOL_BETWEEN)"
    by (rule heard_as_trans [OF 2]) (use 36 in simp)
  show ?thesis using heard_as_trans [OF 1 26] by simp
qed

lemma run_args:
  assumes "calm ws dumps th e" "between_args (pstate e)" "list_all good_call_arg kvs"
  shows "heard_as (run_text (glm_shape esc ws dumps th) (render_args kvs @ x)) (render_args kvs)
    (if kvs = [] then pstate e else TOOL_ARG_END_PENDING) (run_text (glm_shape esc ws dumps th) x) e"
  using assms
proof (induction kvs arbitrary: e)
  case Nil
  then show ?case by (simp add: heard_as_def same_run_def says_def heard_of_chunk)
next
  case (Cons kv kvs)
  obtain k v where kv: "kv = (k, v)" by (cases kv)
  let ?e = "e\<lparr>pstate := TOOL_ARG_END_PENDING\<rparr>"
  have one: "heard_as (run_text (glm_shape esc ws dumps th) (render_args [(k, v)] @ render_args kvs @ x)) (render_args [(k, v)])
      TOOL_ARG_END_PENDING (run_text (glm_shape esc ws dumps th) (render_args kvs @ x)) e"
    by (rule run_one_arg) (use Cons.prems kv in simp_all)
  have "heard_as (run_text (glm_shape esc ws dumps th) (render_args kvs @ x)) (render_args kvs)
      TOOL_ARG_END_PENDING (run_text (glm_shape esc ws dumps th) x) ?e"
    using Cons.IH [of ?e] Cons.prems by (cases "kvs = []") (simp_all add: between_args_def)
  from heard_as_trans [OF one this] show ?case by (simp add: kv)
qed

section \<open>The whole call\<close>

definition call_text :: "string \<Rightarrow> (string \<times> string) list \<Rightarrow> string" where
  "call_text name kvs = TOOL_START_TAG @ name @ render_args kvs @ TOOL_END_TAG"

definition open_call :: "bool \<Rightarrow> semantic_event list" where
  "open_call th = (if th then [SemanticEvent REASONING_END TOOL_START_TAG (-1)] else [])
     @ [SemanticEvent TOOL_CALL_START TOOL_START_TAG 0]"

lemma run_call:
  assumes e: "calm ws dumps th e" and start: "pstate e = (if th then REASONING else CONTENT)" "tool_index e = -1"
    and name: "CHR ''<'' \<notin> set name" and args: "list_all good_call_arg kvs"
  shows "\<exists>e'. pstate e' = CONTENT \<and> args_buffer e' = [] \<and>
    same_run (run_text (glm_shape esc ws dumps th) (call_text name kvs) e)
      (open_call th @ [SemanticEvent NAME_CHUNK name 0, SemanticEvent ARG_VALUE_CHUNK (render_args kvs) 0,
        SemanticEvent TOOL_CALL_END TOOL_END_TAG 0], e')"
proof -
  let ?run = "run_text (glm_shape esc ws dumps th)"
  let ?e1 = "e\<lparr>pstate := TOOL_NAME, tool_index := 0\<rparr>"
  let ?s = "if kvs = [] then TOOL_NAME else TOOL_ARG_END_PENDING"
  let ?e2 = "?e1\<lparr>pstate := ?s\<rparr>"
  have calm: "calm ws dumps th ?e1" "calm ws dumps th ?e2" using e by (simp_all add: calm_def)
  have ever: "\<not> ever_had_token_ids e" "\<not> ever_had_token_ids ?e2" using e by (simp_all add: calm_def)
  have "on_terminal ''TOOL_START'' TOOL_START_TAG e = (open_call th, ?e1)"
    using e start by (cases th) (simp_all add: on_terminal_def calm_def apply_transition_def open_call_def glm_fields
        Transition_def)
  then have start_run: "?run (call_text name kvs) e = and_then (open_call th, ?e1) (?run (name @ render_args kvs @ TOOL_END_TAG))"
    using run_tag [OF glm_terminals(1) ever(1)] by (simp add: call_text_def)
  have "emit_for_state name ?e1 = ([SemanticEvent NAME_CHUNK name 0], ?e1)"
    using e by (simp add: emit_for_state_def emit_in_state_def calm_def glm_simps)
  then have name_run: "same_run (?run (name @ render_args kvs @ TOOL_END_TAG) ?e1)
      (and_then ([SemanticEvent NAME_CHUNK name 0], ?e1) (?run (render_args kvs @ TOOL_END_TAG)))"
    using run_content [OF calm(1) name] by simp
  have args_run: "same_run (?run (render_args kvs @ TOOL_END_TAG) ?e1)
      (and_then ([SemanticEvent ARG_VALUE_CHUNK (render_args kvs) 0], ?e2) (?run TOOL_END_TAG))"
    using run_args [OF calm(1) _ args, of esc TOOL_END_TAG] by (cases "kvs = []") (simp_all add: between_args_def heard_as_def says_def)
  have "map_of (pc_transitions (glm47_moe_config ws dumps th)) (pstate ?e2, ''TOOL_END'') = Some (Transition CONTENT [TOOL_CALL_END])"
    by (intro glm_arg_transitions) (simp add: between_args_def)
  from calm_terminal [OF calm(2) this, of TOOL_CALL_END TOOL_END_TAG]
  have "on_terminal ''TOOL_END'' TOOL_END_TAG ?e2 = ([SemanticEvent TOOL_CALL_END TOOL_END_TAG 0], ?e2\<lparr>pstate := CONTENT\<rparr>)"
    by (simp add: Transition_def says_def)
  then have end_run: "?run TOOL_END_TAG ?e2 = ([SemanticEvent TOOL_CALL_END TOOL_END_TAG 0], ?e2\<lparr>pstate := CONTENT\<rparr>)"
    using run_tag [OF glm_terminals(2) ever(2), where s = "[]"] by (simp add: run_text_def performs_def and_then_def)
  have "args_buffer ?e2 = []" using e by (simp add: calm_def)
  then show ?thesis
    using start_run name_run args_run end_run
    by (intro exI [of _ "?e2\<lparr>pstate := CONTENT\<rparr>"]) (simp add: same_run_def)
qed

text \<open>What a client reads: the joined chunks of a kind, and the other events in order.\<close>

definition joined :: "event_type \<Rightarrow> semantic_event list \<Rightarrow> string" where
  "joined t vs = concat (map ev_value (filter (\<lambda>v. ev_type v = t) vs))"

definition markers :: "semantic_event list \<Rightarrow> event_type list" where
  "markers vs = filter (\<lambda>t. \<not> is_chunk t) (map ev_type vs)"

lemma joined_simps [simp]:
  "joined t [] = []"
  "joined t (v # vs) = (if ev_type v = t then ev_value v else []) @ joined t vs"
  "joined t (vs @ ws) = joined t vs @ joined t ws"
  by (simp_all add: joined_def)

lemma markers_simps [simp]:
  "markers [] = []"
  "markers (v # vs) = (if is_chunk (ev_type v) then [] else [ev_type v]) @ markers vs"
  "markers (vs @ ws) = markers vs @ markers ws"
  by (simp_all add: markers_def)

lemma joined_heard: "joined t (heard vs) = joined t vs"
proof -
  have "joined t (map (\<lambda>c. SemanticEvent s [c] i) v) = (if s = t then v else [])" for s i v
    by (induction v) simp_all
  then have "joined t (heard_of v) = (if ev_type v = t then ev_value v else [])" for v by (simp add: heard_of_def)
  then show ?thesis by (induction vs) simp_all
qed

lemma markers_heard: "markers (heard vs) = markers vs"
proof -
  have "is_chunk s \<Longrightarrow> markers (map (\<lambda>c. SemanticEvent s [c] i) v) = []" for s i v
    by (induction v) simp_all
  then have "markers (heard_of v) = (if is_chunk (ev_type v) then [] else [ev_type v])" for v by (simp add: heard_of_def)
  then show ?thesis by (induction vs) simp_all
qed

lemma heard_client: "heard vs = heard ws \<Longrightarrow> joined t vs = joined t ws \<and> markers vs = markers ws"
  by (metis joined_heard markers_heard)

text \<open>
  The converter and the machine ask for the same of a value: no end tag with the next key behind it; the
  machine also counts the end of the call.
\<close>

definition good_call :: "(char \<Rightarrow> bool) \<Rightarrow> string \<Rightarrow> (string \<times> string) list \<Rightarrow> bool" where
  "good_call ws name kvs \<longleftrightarrow> CHR ''<'' \<notin> set name \<and> good_args ws kvs \<and> list_all good_call_arg kvs"

lemma engine_new_calm:
  "calm ws dumps th (engine_new esc (glm47_moe_config ws dumps th) None None vocab)"
  "eng_shape (engine_new esc (glm47_moe_config ws dumps th) None None vocab) = glm_shape esc ws dumps th"
  by (simp_all add: calm_def engine_new_def engine_reset_def reset_args_state_def Let_def)

end
