(* ===== verification/ParserProperties.thy ===== *)
theory ParserProperties
  imports GlmCall
begin

text \<open>
  What the streaming parser guarantees, stated over the engine as it is constructed, with an instance
  of each guarantee.
\<close>

section \<open>A call\<close>


section \<open>Chunks\<close>

text \<open>C10: How a text is cut does not matter. Whatever chunks it comes in, a client that joins the chunks of
  the events hears what it would have heard of the whole text at once: nothing depends on what the
  lexer held back or on the short cuts of the calls.\<close>

theorem chunks_do_not_matter:
  assumes even: "streams_evenly cfg"
  shows "heard (fst (parse_stream (map (\<lambda>t. (t, [])) chunks) (engine_new esc cfg tok init vocab)))
    = heard (fst (parse_complete (concat chunks) (engine_new esc cfg tok init vocab)))"
proof -
  define e where "e = engine_new esc cfg tok init vocab"
  have e: "engine_ok e" "streams_evenly (eng_config e)" "lex_buffer e = []" "\<not> ever_had_token_ids e"
    "deferred_terminals (eng_scanner e) = []" "deferred_post_text (eng_scanner e) = []"
    unfolding e_def using even by (simp_all add: engine_new_props)
  have "heard (fst (parse_stream (map (\<lambda>t. (t, [])) [concat chunks]) e))
      = heard (fst (parse_stream (map (\<lambda>t. (t, [])) chunks) e))"
    using text_stream_heard [OF e, of "[concat chunks]" "eng_scanner e"]
      text_stream_heard [OF e, of chunks "eng_scanner e"] by simp
  then show ?thesis unfolding parse_complete_stream e_def by simp
qed

text \<open>C38: The same for deltas of token ids: when every delta brings the text of its ids, it does not matter
  how the ids are cut into deltas.\<close>

theorem id_chunks_do_not_matter:
  assumes even: "streams_evenly cfg"
    and texts: "\<forall>d \<in> set deltas. fst d = concat (map (tk_decode tok) (snd d))"
    and specials: "special_texts (eng_scanner (engine_new esc cfg (Some tok) init vocab))"
  shows "heard (fst (parse_stream deltas (engine_new esc cfg (Some tok) init vocab)))
    = heard (fst (parse_stream [(concat (map fst deltas), concat (map snd deltas))] (engine_new esc cfg (Some tok) init vocab)))"
proof -
  define e where "e = engine_new esc cfg (Some tok) init vocab"
  have "heard (fst (parse_stream deltas e)) = heard (fst (parse_stream [(concat (map fst deltas), concat (map snd deltas))] e))"
  proof (cases "concat (map snd deltas) = []")
  case True
  then have no: "\<forall>d \<in> set deltas. snd d = []" by auto
  then have blank: "concat (map fst deltas) = []" using texts by auto
  have e: "deferred_terminals (eng_scanner e) = []" "decode_token (eng_scanner e) = tk_decode tok"
    by (simp_all add: e_def engine_new_props engine_new_decode)
  have "\<forall>d \<in> set deltas. aligned (eng_scanner e) d" using texts e(2) by (simp add: aligned_def)
  from feeds_nothing [OF e(1) this no] have "feed_stream deltas e = ([], e)" .
  moreover have "feed_stream [([], [])] e = ([], e)"
    by (simp add: feed_stream_def each_event_Cons feed_nothing e(1))
  moreover have "[(concat (map fst deltas), concat (map snd deltas))] = [([], [])]"
    by (simp only: blank True)
  ultimately show ?thesis unfolding parse_stream_alt by (simp only:)
next
  case False
  have e: "engine_ok e" "streams_evenly (eng_config e)" "lex_buffer e = []"
    "deferred_terminals (eng_scanner e) = []" "deferred_post_text (eng_scanner e) = []"
    "decode_token (eng_scanner e) = tk_decode tok" "special_texts (eng_scanner e)"
    unfolding e_def using even specials by (simp_all add: engine_new_props engine_new_decode)
  let ?all = "[(concat (map fst deltas), concat (map snd deltas))]"
  have "concat (map fst ds) = concat (map (tk_decode tok) (concat (map snd ds)))"
    if "\<forall>d \<in> set ds. fst d = concat (map (tk_decode tok) (snd d))" for ds :: "(string \<times> int list) list"
    using that by (induction ds) auto
  then have al: "\<forall>d \<in> set deltas. aligned (eng_scanner e) d" "\<forall>d \<in> set ?all. aligned (eng_scanner e) d"
    using texts e(6) by (simp_all add: aligned_def)
  note one = id_stream_heard [OF e(1-5) _ e(7)]
  show ?thesis using one [OF al(1) False] one [OF al(2)] False by simp
  qed
  then show ?thesis by (simp add: e_def)
qed

section \<open>Nesting\<close>

text \<open>C14: The events are well nested. Whatever the stream brings, as text or as ids, and whether tool calls are
  parsed or skipped: reasoning and calls are opened before their chunks and closed after them, never one
  inside the other, calls are numbered from zero in order, every chunk carries the number of its call,
  and at the end everything is closed.\<close>

theorem glm_events_nest:
  "\<exists>n. follow_all
      (fst (parse_stream deltas
         ((engine_new esc (glm47_moe_config ws dumps th) tok None vocab)\<lparr>skip_tool_parsing := skip\<rparr>)))
      (if th then Thinking else Speaking, -1) = Some (Speaking, n)"
proof -
  define e where "e = (engine_new esc (glm47_moe_config ws dumps th) tok None vocab)\<lparr>skip_tool_parsing := skip\<rparr>"
  have e: "pstate e = (if th then REASONING else CONTENT)" "tool_index e = -1"
    "eng_config e = glm47_moe_config ws dumps th" "args_buffer e = []"
    by (simp_all add: e_def engine_new_props glm_simps)
  have g: "glm_engine e"
    unfolding glm_engine_def using e by (auto simp: phase_of_def TOOL_STATES_def)
  have p: "at_phase e = (if th then Thinking else Speaking, -1)"
    using e(1,2) by (simp add: at_phase_def phase_of_def TOOL_STATES_def)
  have "follows (case d of (t, ids) \<Rightarrow> feed t ids)" for d by (cases d) (simp add: feed_follows)
  then have "follows (feed_stream deltas)"
    using nesting_steps.good_each [of "\<lambda>(t, ids). feed t ids" deltas]
    by (simp add: feed_stream_def [abs_def])
  note feeds = followsD [OF this g p]
  note fin = followsD [OF finish_follows conjunct1 [OF feeds] refl]
  have "follow_all (fst (parse_stream deltas e)) (if th then Thinking else Speaking, -1)
      = Some (at_phase (snd (finish (snd (feed_stream deltas e)))))"
    using feeds fin by (simp add: parse_stream_alt follow_all_append)
  then show ?thesis using finish_closes [OF conjunct1 [OF feeds]] by (simp add: at_phase_def e_def)
qed

section \<open>Text after ids\<close>

text \<open>The terminals that open and close reasoning and calls.\<close>

definition structural :: "string list" where
  "structural = [''THINK_START'', ''THINK_END'', ''TOOL_START'', ''TOOL_END'']"

definition quiet_step :: "engine \<Rightarrow> semantic_event list \<times> engine \<Rightarrow> bool" where
  "quiet_step e r \<longleftrightarrow> (\<forall>v \<in> set (fst r). is_chunk (ev_type v) \<and> ev_index v = tool_index e)
     \<and> phase_of (pstate (snd r)) = phase_of (pstate e) \<and> tool_index (snd r) = tool_index e \<and> args_buffer (snd r) = []
     \<and> tables (snd r) = tables e"

lemma quiet_and_then:
  assumes "quiet_step e r" "quiet_step (snd r) (f (snd r))"
  shows "quiet_step e (and_then r f)"
  using assms by (auto simp: quiet_step_def)

lemma quiet_transition:
  assumes "tr_events tr = [ARG_VALUE_CHUNK]" "phase_of (next_state tr) = phase_of (pstate e)" "args_buffer e = []"
  shows "quiet_step e (apply_transition tr v e)"
  using assms keepsD [OF apply_transition_props(2), of tr v e]
  by (cases "next_state tr = TOOL_ARGS") (auto simp: quiet_step_def apply_transition_def)

lemma quiet_emit:
  assumes "eng_config e = glm47_moe_config ws dumps th" "args_buffer e = []"
  shows "quiet_step e (emit_for_state v e)"
proof -
  have "quiet_step e (emit_in_state v e)"
    using assms by (auto simp: emit_in_state_def glm_simps quiet_step_def is_chunk_def split: option.split if_splits)
  moreover have "quiet_step e (apply_transition (Transition TOOL_ARGS [ARG_VALUE_CHUNK]) v e)" if "pstate e = TOOL_ARG_END_PENDING"
    by (rule quiet_transition) (use that assms in \<open>simp_all add: Transition_def phase_of_def TOOL_STATES_def\<close>)
  ultimately show ?thesis using assms by (auto simp: emit_for_state_def glm_simps)
qed

text \<open>Every other entry of the table only cuts arguments.\<close>

lemma glm_unstructural:
  "\<forall>((s, n), tr) \<in> set (pc_transitions (glm47_moe_config ws dumps th)).
     n \<notin> set structural \<longrightarrow> tr_events tr = [ARG_VALUE_CHUNK] \<and> phase_of (next_state tr) = phase_of s \<and> phase_of s = Calling"
  by (cases th; simp add: glm_fields Transition_def structural_def phase_of_def TOOL_STATES_def)

lemma quiet_terminal:
  assumes "eng_config e = glm47_moe_config ws dumps th" "args_buffer e = []" "n \<notin> set structural"
  shows "quiet_step e (on_terminal n v e)"
proof (cases "map_of (pc_transitions (eng_config e)) (pstate e, n)")
  case None
  then show ?thesis using quiet_emit [OF assms(1,2)] assms(2) by (auto simp: on_terminal_def quiet_step_def)
next
  case (Some tr)
  then have entry: "tr_events tr = [ARG_VALUE_CHUNK]" "phase_of (next_state tr) = phase_of (pstate e)"
    "phase_of (pstate e) = Calling"
    using glm_unstructural [of ws dumps th] assms(1,3) by (auto dest!: map_of_SomeD)
  have "pstate e \<noteq> MESSAGE_HEADER" using entry(3) by (auto simp: phase_of_def TOOL_STATES_def)
  then show ?thesis
    using Some entry(1) quiet_transition [OF entry(1,2) assms(2)] quiet_emit [OF assms(1,2)] assms(1,2)
    by (auto simp: on_terminal_def quiet_step_def glm_simps is_chunk_def split: option.split if_splits)
qed

lemma quiet_token:
  assumes "eng_config e = glm47_moe_config ws dumps th" "args_buffer e = []" "ever_had_token_ids e"
    and "set structural \<subseteq> token_id_terminal_names e"
  shows "quiet_step e (on_lex_token t e)"
proof (cases "tok_terminal t = CONTENT_TERMINAL \<or> tok_terminal t \<in> token_id_terminal_names e")
  case True
  then show ?thesis
    using quiet_emit [OF assms(1,2)] assms(2,3) by (auto simp: on_lex_token_def on_content_def quiet_step_def)
next
  case False
  then have "tok_terminal t \<notin> set structural" using assms(4) by blast
  then show ?thesis using False quiet_terminal [OF assms(1,2)] by (simp add: on_lex_token_def)
qed

lemma quiet_tokens:
  "eng_config e = glm47_moe_config ws dumps th \<Longrightarrow> args_buffer e = [] \<Longrightarrow> ever_had_token_ids e \<Longrightarrow>
   set structural \<subseteq> token_id_terminal_names e \<Longrightarrow> quiet_step e (process_lex_tokens toks e)"
  unfolding process_lex_tokens_def
proof (induction toks arbitrary: e)
  case Nil
  then show ?case by (simp add: quiet_step_def)
next
  case (Cons t toks)
  have q: "quiet_step e (on_lex_token t e)" by (rule quiet_token [OF Cons.prems])
  let ?e = "snd (on_lex_token t e)"
  have t: "tables ?e = tables e" and a: "args_buffer ?e = []" using q by (simp_all add: quiet_step_def)
  then have "quiet_step ?e (each_event on_lex_token toks ?e)" using Cons.IH [of ?e] Cons.prems tablesD(1,4,8) [OF t] by simp
  then show ?case unfolding each_event_Cons by (rule quiet_and_then [OF q])
qed

lemma scan_plain:
  assumes "deferred_terminals s = []" "\<not> list_ex (is_special s) ids"
  shows "scan d ids s = ((if d \<noteq> [] then [TextChunk d] else []), s)"
  using assms by (simp add: scan_def)


section \<open>The scanner\<close>

text \<open>C39: The scanner loses nothing: the items of a stream and its flush carry the whole text of the
  deltas in order, apart from the texts of terminals that were flushed before theirs arrived, and
  exactly the terminals that the ids stand for.
\<close>

theorem scanner_loses_nothing:
  "let (items, s1) = scan_stream deltas (scanner_reset s); (rest, s2) = flush_pending s1 in
     join_decoded_text (items @ rest) = concat (map fst deltas) @ concat (map pt_text (deferred_terminals s1))
   \<and> mset (terminals_of (items @ rest)) = mset (id_terminals s (concat (map snd deltas)))
   \<and> deferred_terminals s2 = [] \<and> deferred_post_text s2 = []"
proof -
  obtain items s1 where run: "scan_stream deltas (scanner_reset s) = (items, s1)" by fastforce
  have ok: "scanner_ok (scanner_reset s)" by (simp add: scanner_ok_def scanner_reset_def)
  have ids: "id_terminals (scanner_reset s) ids = id_terminals s ids" for ids
    by (rule id_terminals_same) (simp add: same_tables_def scanner_reset_def)
  have items: "join_decoded_text items @ deferred_post_text s1 = concat (map fst deltas)"
    "mset (terminals_of items) + mset (deferred_terminals s1) = mset (id_terminals s (concat (map snd deltas)))"
    using scan_stream_conserves [OF run ok] by (simp_all add: ids) (simp_all add: scanner_reset_def)
  have join: "join_decoded_text (map PreLexed ts) = concat (map pt_text ts)" for ts by (induction ts) simp_all
  show ?thesis
    using items by (auto simp: run flush_pending_def join)
qed

section \<open>JSON arguments\<close>

text \<open>What may be held back: closing brackets at the top level, outside a string.\<close>

definition args_held :: "engine \<Rightarrow> bool" where
  "args_held e \<longleftrightarrow> args_safe_end e = 0 \<and> (\<forall>c \<in> set (args_buffer e). c = CHR ''}'' \<or> c = CHR '']'')
     \<and> (args_buffer e \<noteq> [] \<longrightarrow> args_brace_depth e = 0 \<and> \<not> args_in_string e \<and> \<not> args_escape_next e)"

definition said :: "semantic_event list \<Rightarrow> string" where
  "said vs = concat (map ev_value vs)"

lemma safe_args_all:
  "said (fst (safe_args e)) = args_buffer e" "args_buffer (snd (safe_args e)) = []" "args_safe_end (snd (safe_args e)) = 0"
  by (simp_all add: safe_args_def flush_safe_args_def said_def)

lemma args_char_held:
  assumes "args_held e"
  shows "args_held (snd (feed_args_char c e))
    \<and> said (fst (feed_args_char c e)) @ args_buffer (snd (feed_args_char c e)) = args_buffer e @ [c]"
proof (cases "args_escape_next e \<or> args_in_string e \<or> \<not> (c = CHR ''}'' \<or> c = CHR '']'') \<or> 1 < args_brace_depth e")
  case True
  have safe: "args_held (snd (safe_args e'))" "said (fst (safe_args e')) = args_buffer e'" "args_buffer (snd (safe_args e')) = []" for e'
    by (simp_all add: args_held_def safe_args_all)
  show ?thesis using True by (auto simp: feed_args_char_def Let_def safe)
next
  case False
  then have "feed_args_char c e = ([], e\<lparr>args_buffer := args_buffer e @ [c], args_brace_depth := 0\<rparr>)"
    by (auto simp: feed_args_char_def Let_def)
  then show ?thesis using assms False by (auto simp: args_held_def said_def)
qed

lemma args_text_held:
  "args_held e \<Longrightarrow> args_held (snd (feed_args_text t e))
    \<and> said (fst (feed_args_text t e)) @ args_buffer (snd (feed_args_text t e)) = args_buffer e @ t"
  unfolding feed_args_text_each
proof (induction t arbitrary: e)
  case Nil
  then show ?case by (simp add: said_def)
next
  case (Cons c t)
  let ?e = "snd (feed_args_char c e)"
  have c: "args_held ?e" "said (fst (feed_args_char c e)) @ args_buffer ?e = args_buffer e @ [c]"
    using args_char_held [OF Cons.prems] by blast+
  have "said (fst (feed_args_char c e)) @ said (fst (each_event feed_args_char t ?e))
      @ args_buffer (snd (each_event feed_args_char t ?e)) = args_buffer e @ c # t"
    using Cons.IH [OF c(1)] c(2) by simp
  then show ?case using Cons.IH [OF c(1)] by (simp add: each_event_Cons said_def)
qed

text \<open>C40: JSON arguments come through: whatever chunks they come in, what has been emitted and what
  is held back make up the text so far, only closing brackets are held back, and the end of the stream
  emits the rest.
\<close>

theorem json_args_come_through:
  assumes "pstate e = TOOL_ARGS" "pc_tool_args_json (eng_config e)"
    and "map_of (pc_non_whitespace_transitions (eng_config e)) TOOL_ARGS = None"
    and "args_buffer e = []" "args_safe_end e = 0"
  shows "let (vs, e1) = each_event emit_for_state chunks e; (ws, e2) = close_args e1 in
      said vs @ args_buffer e1 = concat chunks \<and> (\<forall>c \<in> set (args_buffer e1). c = CHR ''}'' \<or> c = CHR '']'')
    \<and> said (vs @ ws) = concat chunks"
proof -
  have "args_held (snd (each_event emit_for_state chunks e))
    \<and> said (fst (each_event emit_for_state chunks e)) @ args_buffer (snd (each_event emit_for_state chunks e))
      = args_buffer e @ concat chunks"
    if "args_held e" "pstate e = TOOL_ARGS" "pc_tool_args_json (eng_config e)"
      "map_of (pc_non_whitespace_transitions (eng_config e)) TOOL_ARGS = None" for e
    using that
  proof (induction chunks arbitrary: e)
    case Nil
    then show ?case by (simp add: said_def)
  next
    case (Cons t chunks)
    have t: "emit_for_state t e = feed_args_text t e"
      using Cons.prems by (simp add: emit_for_state_def emit_in_state_def)
    let ?e = "snd (feed_args_text t e)"
    note held = args_text_held [OF Cons.prems(1), of t]
    have IH: "args_held (snd (each_event emit_for_state chunks ?e))
      \<and> said (fst (each_event emit_for_state chunks ?e)) @ args_buffer (snd (each_event emit_for_state chunks ?e))
        = args_buffer ?e @ concat chunks"
      by (rule Cons.IH) (use held Cons.prems feed_args_text_state [of t e] in simp_all)
    have "said (fst (feed_args_text t e)) @ said (fst (each_event emit_for_state chunks ?e))
        @ args_buffer (snd (each_event emit_for_state chunks ?e)) = args_buffer e @ t @ concat chunks"
      using IH held by (metis append.assoc)
    then show ?case using IH by (simp add: each_event_Cons t said_def)
  qed
  from this [OF _ assms(1-3)] have run: "args_held (snd (each_event emit_for_state chunks e))"
    "said (fst (each_event emit_for_state chunks e)) @ args_buffer (snd (each_event emit_for_state chunks e)) = concat chunks"
    using assms(4,5) by (simp_all add: args_held_def)
  have "said (fst (close_args e1)) = args_buffer e1" for e1 by (simp add: close_args_def said_def)
  then show ?thesis
    using run by (simp add: split_beta Let_def args_held_def said_def)
qed

section \<open>Instances\<close>

text \<open>A value with an end tag inside it, cut in the middle of tags.\<close>

definition sample_args :: "(string \<times> string) list" where
  "sample_args = [(''a'', ''x</arg_value>y''), (''b'', ''</tool_call>'')]"

definition sample_chunks :: "string list" where
  "sample_chunks = [''<tool'', ''_call>f<arg_key>a</arg_key><arg_value>x</arg_'',
     ''value>y</arg_value><arg_key>b</arg_key><arg_value></tool_call></arg_value></tool_'', ''call>'']"

lemma sample_good: "good_call is_space ''f'' sample_args"
  by code_simp

lemma sample_text: "concat sample_chunks = call_text ''f'' sample_args"
  by code_simp


theorem chunks_do_not_matter_witness:
  "heard (fst (parse_stream (map (\<lambda>t. (t, [])) sample_chunks)
       (engine_new id (glm47_moe_config is_space (\<lambda>_. []) True) None None None)))
   = heard (fst (parse_complete (concat sample_chunks)
       (engine_new id (glm47_moe_config is_space (\<lambda>_. []) True) None None None)))"
  by (rule chunks_do_not_matter) (rule glm_streams_evenly)

text \<open>A small tokenizer: the four structural tokens, a stop token, and words.\<close>

definition sample_tokenizer :: tokenizer where
  "sample_tokenizer =
     \<lparr>tk_vocab = [(THINK_START, 1), (THINK_END, 2), (TOOL_START_TAG, 3), (TOOL_END_TAG, 4), (''<|user|>'', 5), (''<tool'', 6), (''_call>'', 7)],
      tk_specials = Some ([THINK_START, THINK_END, TOOL_START_TAG, TOOL_END_TAG, ''<|user|>''], [1, 2, 3, 4, 5]),
      tk_decode = (\<lambda>i. if i = 1 then THINK_START else if i = 2 then THINK_END else if i = 3 then TOOL_START_TAG
        else if i = 4 then TOOL_END_TAG else if i = 5 then ''<|user|>'' else if i = 6 then ''<tool'' else ''_call>'')\<rparr>"

definition sample_engine :: engine where
  "sample_engine = engine_new id (glm47_moe_config is_space (\<lambda>_. []) True) (Some sample_tokenizer) None None"

lemma sample_ids:
  "resolved_token_ids sample_engine =
     [(1, ''THINK_START''), (2, ''THINK_END''), (3, ''TOOL_START''), (4, ''TOOL_END''), (5, DROP_TERMINAL)]"
  by (simp add: sample_engine_def engine_new_def engine_reset_def reset_args_state_def Let_def sample_tokenizer_def
      resolved_ids_def build_drop_info_def glm_fields tag_defs)

lemma sample_tables:
  "token_id_to_terminal (eng_scanner sample_engine) = resolved_token_ids sample_engine"
  "decode_token (eng_scanner sample_engine) = tk_decode sample_tokenizer"
  "token_id_terminal_names sample_engine = snd ` set (resolved_token_ids sample_engine)"
  by (simp_all add: sample_engine_def engine_new_decode engine_new_def engine_reset_def reset_args_state_def
      scanner_reset_def Let_def)

lemma sample_specials: "special_texts (eng_scanner sample_engine)"
  by (simp add: special_texts_def sample_tables sample_ids sample_tokenizer_def tag_defs)

theorem id_chunks_do_not_matter_witness:
  "heard (fst (parse_stream [(THINK_END @ ''<tool'', [2, 6]), (''_call>'' @ TOOL_START_TAG, [7, 3])] sample_engine))
   = heard (fst (parse_stream [(THINK_END @ ''<tool_call>'' @ TOOL_START_TAG, [2, 6, 7, 3])] sample_engine))"
proof -
  let ?deltas = "[(THINK_END @ ''<tool'', [2, 6]), (''_call>'' @ TOOL_START_TAG, [7, 3 :: int])]"
  have "\<forall>d \<in> set ?deltas. fst d = concat (map (tk_decode sample_tokenizer) (snd d))"
    by (simp add: sample_tokenizer_def)
  from id_chunks_do_not_matter [OF glm_streams_evenly this sample_specials [unfolded sample_engine_def]]
  show ?thesis by (simp add: sample_engine_def)
qed


theorem json_args_come_through_witness:
  "let (vs, e1) = each_event emit_for_state [''{\"a\":'', ''[1]}'', ''}'']
                    (engine_new id (ParserEngineConfig ''json'') None (Some TOOL_ARGS) None);
       (ws, e2) = close_args e1 in
      said vs @ args_buffer e1 = ''{\"a\":[1]}}'' \<and> list_all (\<lambda>c. c = CHR ''}'' \<or> c = CHR '']'') (args_buffer e1)
    \<and> said (vs @ ws) = ''{\"a\":[1]}}''"
  using json_args_come_through [of "engine_new id (ParserEngineConfig ''json'') None (Some TOOL_ARGS) None"
      "[''{\"a\":'', ''[1]}'', ''}'']"]
  by (simp add: list_all_iff engine_new_props ParserEngineConfig_def engine_new_def engine_reset_def
      reset_args_state_def Let_def)

end
