(* ===== verification/Spec2Isabelle.thy ===== *)
theory Spec2Isabelle
  imports Profiles ResolveTheorems ValidateTheorems MinimizeFacts CoerceTheorems Switches Fairness
    Signatures ConfigCliFacts RollbackLoop ServeTheorems GpuTheorems FleetTheorems
    EnvTheorems LandingTheorems TerminateTheorems EraseWorker ParserProperties
begin

text \<open>
  A verification library for the configuration core of the GLM appliance and the programs around it.

  The program. An appliance container serves one large model through a patched vLLM. Its behaviour is
  set by about ninety knobs (\<^verbatim>\<open>scripts/glm_config.py\<close>): a registry of model families, checkpoint
  variants and drafts supplies defaults, the startup environment and a state file override them, the
  detected hardware sits between, and a validation matrix blocks what cannot be served. The landing
  page and the command line both write the state file through \<open>minimize\<close> and refuse what
  \<open>validate\<close> rejects; the entrypoint reads it back through \<open>resolve\<close>, freezes it as the attempt of the
  boot, and passes \<open>family_serve_args\<close> and \<open>derive\<close> on to the engine. When a boot fails, the command line
  (\<^verbatim>\<open>scripts/config_cli.py\<close>) rolls back to the last known-good configuration. The landing page also starts
  the termination of the instance: two runtime switches guard it, a detached worker
  (\<^verbatim>\<open>scripts/terminate_worker.py\<close>) stops the engine and erases the session, and the adapter of the cloud
  provider (\<^verbatim>\<open>scripts/provider.py\<close>) makes the destructive call; what the session erase
  (\<^verbatim>\<open>scripts/secure_erase.py\<close>) may destroy is planned first. \<^verbatim>\<open>scripts/gpu_detect.py\<close> counts the usable
  GPUs, the patched scheduler divides contended execution time between prefill and decode, the patched
  streaming parser (\<^verbatim>\<open>patches/glm53-refresh/\<close>) turns what the model writes, delta by delta, into text,
  reasoning and tool calls, and on the router host \<^verbatim>\<open>scripts/fleet_manager.py\<close> keeps a fleet of such
  appliances at its size.

  The theories.

  \<^item> \<open>Prelude\<close>: results as sums, folds that stop at the first error, shared list and map facts.
  \<^item> \<open>PyText\<close>, \<open>PyFloat\<close>: what the source uses of Python's \<open>str\<close>, \<open>int()\<close>, \<open>float()\<close>, \<open>repr\<close> and
    \<open>%g\<close>: ASCII text as char lists, binary64 floats as rationals with the rounding written out.
  \<^item> \<open>Registry\<close>: \<open>FAMILIES\<close>, \<open>VARIANTS\<close>, \<open>DRAFTS\<close> and \<open>KNOBS\<close>, entry by entry; \<open>RegistryFacts\<close> holds
    what the proofs need of the tables (distinct keys, legal defaults).
  \<^item> \<open>Coerce\<close>, \<open>CoerceTheorems\<close>: \<open>coerce\<close> with every \<open>ConfigError\<close>, \<open>to_text\<close>; coercion projects onto
    the knob's type, and the environment text of a value reads back as the value.
  \<^item> \<open>Layers\<close>: the environment layer, the state file, the withdrawn selectors, family resolution.
  \<^item> \<open>Resolve\<close>: \<open>resolve\<close>, knob by knob and layer by layer; \<open>ResolveFacts\<close> and \<open>ResolveTheorems\<close>: the
    result is typed, the strongest layer wins, exactly which inputs are refused.
  \<^item> \<open>Validate\<close>, \<open>ValidateFacts\<close>, \<open>ValidateTheorems\<close>: the rule matrix (condition, id, level and keys of
    every finding) and what a configuration without errors guarantees to the engine.
  \<^item> \<open>Profiles\<close>: two shipped variants, resolved in full, have no errors.
  \<^item> \<open>Minimize\<close>, \<open>MinimizeFacts\<close>: \<open>minimize\<close>, and the round trip through the state file.
  \<^item> \<open>Serve\<close>, \<open>ServeTheorems\<close>: the serve flags and the derived environment; they render for every
    resolved configuration and name one quantization; editing an argument as JSON.
  \<^item> \<open>Signatures\<close>: the boot-failure patterns and their search, against the occurrence of a word.
  \<^item> \<open>ConfigCli\<close>, \<open>ConfigCliFacts\<close>: attempts, known-good, rollback, failure directories, apply state, as
    functions on the runtime files; \<open>cli_step\<close> and \<open>cli_run\<close> are their interleavings with writes of other
    programs. A boot acts on the current state file or is refused.
  \<^item> \<open>Rollback\<close>, \<open>RollbackLoop\<close>: what a successful rollback restores, when the restart loop ends, and the
    concrete record that the witnesses use.
  \<^item> \<open>EnvScript\<close>, \<open>EnvTheorems\<close>: the shell text of \<^verbatim>\<open>config_cli.py env\<close>, a reader for the quoting rules it
    relies on, and that sourcing it defines what was resolved.
  \<^item> \<open>Switches\<close>: the termination switches, with the contract \<open>ratchet\<close> as a locale.
  \<^item> \<open>KnobNames\<close>: the names of the knobs as texts, all distinct.
  \<^item> \<open>Landing\<close>, \<open>LandingTheorems\<close>: the configuration requests of \<^verbatim>\<open>landing.py\<close>. What is applied has been
    validated and is what the next boot resolves to, stale forms are refused, a profile switch pins
    nothing, and an untouched form reads back the displayed values.
  \<^item> \<open>Provider\<close>, \<open>ProviderTheorems\<close>: the transport and the adapters; the locale \<open>adapter\<close> is their contract,
    interpreted for each provider. Unarmed and dry calls are harmless, successes acknowledged, failures
    reported as such, credentials redacted.
  \<^item> \<open>Terminate\<close>, \<open>TerminateTheorems\<close>: the worker and the page's termination requests, as clients of the
    adapters and of the ratchet: a run returns, calls only with every permission, and gives the engine
    back when it fails; \<open>page_run\<close> is the interleaving of requests and workers.
  \<^item> \<open>Files\<close>, \<open>FilesFacts\<close>: a disk with links as a table of nodes, path texts, \<^verbatim>\<open>os.walk\<close>; a path that still
    leads to something on a disk that shrank leads where it did.
  \<^item> \<open>SecureErase\<close>: \<^verbatim>\<open>scripts/secure_erase.py\<close>, the plan as the list of its \<open>_add\<close> calls and the erase on a system
    that may refuse or shorten its operations. \<open>SecureEraseFacts\<close>: the relation \<open>eroded\<close>, kept by every step and
    transitive. \<open>ErasePaths\<close>: real places of the planned paths. \<open>SecureEraseTheorems\<close>: kept and fenced files
    survive, everything planned is gone after an erase without failures, the user's files are exactly
    characterised, nothing is planned twice, every byte is replaced when writes are complete.
  \<^item> \<open>EraseWorker\<close>: the erase inside a run of the worker, which still finds the switch file it had to keep.
  \<^item> \<open>GpuDetect\<close>, \<open>GpuTheorems\<close>: parsing of \<^verbatim>\<open>nvidia-smi\<close>, visibility lists, version checks.
  \<^item> \<open>Fairness\<close>: \<open>PrefillComputeShareController\<close> and the share it enforces.
  \<^item> \<open>Fleet\<close>, \<open>FleetTheorems\<close>: the fleet manager's cycle over an abstract cloud; \<open>fleet_run\<close> is its runs, and
    the locale \<open>effect\<close> the relations between states that survive sequencing.
  \<^item> \<open>Lexer\<close>, \<open>LexerFacts\<close>: the incremental lexer of the streaming parser (\<^verbatim>\<open>incremental_lexer.py\<close>) and
    \<open>plain_lex\<close>, which sees the whole text; what one call emits is committed, what it keeps starts a literal.
  \<^item> \<open>TokenScanner\<close>, \<open>TokenScannerFacts\<close>: \<^verbatim>\<open>token_id_scanner.py\<close>, with deferred terminals and recovered
    text; no text and no terminal is lost.
  \<^item> \<open>ParserEngine\<close>, \<open>ParserFacts\<close>, \<open>ParserStream\<close>: \<^verbatim>\<open>parser_engine_config.py\<close> and
    \<^verbatim>\<open>streaming_parser_engine.py\<close> as functions on the record \<open>engine\<close>; the locale \<open>closed_steps\<close> holds what
    carries over from a token to a stream, and \<open>actions\<close> is the stream with its text lexed at once.
  \<^item> \<open>GlmFormat\<close>, \<open>GlmFacts\<close>, \<open>GlmCall\<close>: \<^verbatim>\<open>glm47_moe.py\<close>, its transition table and its argument converter;
    what a written call becomes in the lexer, the machine and the converter.
  \<^item> \<open>ParserTheorems\<close>, \<open>ParserProperties\<close>: chunks do not matter, calls read back, events nest, text that
    looks like a special token opens nothing, JSON arguments come through.

  Correspondence. A dict of knob values is an association list of keys and Python values, the effective
  configuration a map; \<open>ConfigError\<close> and \<open>FlashProfileUnavailable\<close> are the left side of a sum.
  Environment, state file and switch file are arguments: reading and writing them is I/O of the caller.
  The runtime files of the command line are a record, each command one atomic step, since the code holds
  the state lock throughout; the digest of the state file is a parameter, injective where a theorem says
  so, and a boot's token is fresh where a theorem says so. The services behind the transport and the
  \<^verbatim>\<open>runpodctl\<close> binary act on a world of their own; a reply comes with what its text parses to as JSON. The cloud, the replicas and the router are
  functions of the record \<open>world\<close>. Within a step the clock is read once; the controller's times range over
  an ordered field, the manager's over the rationals. Patterns of regular expressions are matched by
  functions written out for them. In the streaming parser the tokenizer is a record of what is asked of
  it; \<open>regex.escape\<close>, of which only the length of the result counts, the white space of the \<^verbatim>\<open>regex\<close>
  package and \<^verbatim>\<open>json.dumps\<close> are parameters. A client joins the chunks of consecutive events: \<open>heard\<close> is
  what it then holds.

  Bounds. There is no fuel except in \<open>PyFloat\<close>, where the search for the shortest decimal stops at 17
  digits, which always suffice for binary64. Loops that are not structural (decimal printing, splitting,
  the search for a free slot name, redaction) come with their termination proofs. The wait for the
  supervisor is a partial function on clock readings, and a theorem shows that it ends. The walk of a
  directory tree terminates by the depth of the disk, the lexer by its buffer, the search for arguments by
  the text behind the last match.

  Not modelled. Message texts (only the numbers they advise), labels and help texts; file and process
  I/O, HTTP itself, page rendering; hard links and a disk that changes between plan and erase; the listing that \<^verbatim>\<open>config_cli.py show\<close> prints; the admin-API router, the
  ssh tunnels and the metric patterns of the fleet manager; the vendored engine (but for the
  fairness controller and the streaming parser), kernels and connectors; what \<^verbatim>\<open>Glm47MoeParser\<close> overrides of a
  base class that is not in the repository;
  the frozen copies under \<^verbatim>\<open>maintenance/\<close>; non-ASCII text.
\<close>

end
